(* ===== verification/Solar_Prelude.thy ===== *)
theory Solar_Prelude
  imports Main "HOL-Library.Word"
begin

unbundle bit_operations_syntax

text \<open>
  The vocabulary and the generic facts that the component theories share: the machine integers
  of the code as words, byte spans as lists, results of fallible calls as sums (the error on the
  left, as in \<^verbatim>\<open>std::expected\<close> read from its \<^verbatim>\<open>error()\<close>), little-endian byte fields and a few
  lemmas on lists. The collections \<open>wire_simps\<close> and \<open>bits_simps\<close> carry the codec proofs.
\<close>

named_theorems wire_simps "reads and writes of fixed-width little-endian fields"
named_theorems bits_simps "bit-level characterisations of word operations"

type_synonym byte = "8 word"
type_synonym u8 = "8 word"
type_synonym u16 = "16 word"
type_synonym u32 = "32 word"
type_synonym u64 = "64 word"

subsection \<open>Sums as results\<close>

abbreviation is_ok :: "'e + 'a \<Rightarrow> bool" where
  "is_ok r \<equiv> \<not> isl r"

lemma is_okE:
  assumes "is_ok r"
  obtains x where "r = Inr x"
  using assms by (cases r) auto

lemma sum_exhaust_ok: "(\<exists>x. r = Inr x) \<or> (\<exists>e. r = Inl e)"
  by (cases r) auto

subsection \<open>Lists\<close>

lemma take_eq_imp_eq:
  assumes "length xs = n" and "length ys = n" and "take n xs = take n ys"
  shows "xs = ys"
  using assms by simp

lemma nth_take_eq:
  assumes "take n xs = take n ys" and "i < n"
  shows "xs ! i = ys ! i"
  using assms by (metis nth_take)

lemma take_eq_nthI:
  assumes "n \<le> length xs" and "n \<le> length ys" and "\<And>i. i < n \<Longrightarrow> xs ! i = ys ! i"
  shows "take n xs = take n ys"
  by (rule nth_equalityI) (use assms in auto)

lemma take_Suc_update:
  assumes "n < length xs"
  shows "take (Suc n) (xs[n := x]) = take n xs @ [x]"
  using assms by (simp add: take_Suc_conv_app_nth)

lemma drop_eq_ConsD:
  assumes "drop n xs = y # ys"
  shows "n < length xs" and "xs ! n = y" and "drop (Suc n) xs = ys"
proof -
  show "n < length xs" using assms by (metis drop_all list.distinct(1) not_le)
  then have "xs ! n # drop (Suc n) xs = y # ys"
    using assms by (simp add: Cons_nth_drop_Suc)
  then show "xs ! n = y" and "drop (Suc n) xs = ys" by simp_all
qed

lemma fold_append_map: "fold (\<lambda>x acc. acc @ [f x]) xs ys = ys @ map f xs"
  by (induction xs arbitrary: ys) auto

lemma distinct_map_nth_inj:
  assumes "distinct xs" and "i < length xs" and "j < length xs" and "xs ! i = xs ! j"
  shows "i = j"
  using assms by (simp add: nth_eq_iff_index_eq)

subsection \<open>Counters\<close>

lemma unat_Suc_below:
  fixes w v :: "'a::len word"
  assumes "w < v"
  shows "unat (w + 1) = Suc (unat w)"
proof -
  have "unat v < 2 ^ LENGTH('a)" by (rule unsigned_less)
  moreover have "unat w < unat v" using assms by (simp add: word_less_nat_alt)
  ultimately have *: "Suc (unat w) < 2 ^ LENGTH('a)" by linarith
  have "w + 1 = word_of_nat (Suc (unat w))" by (simp add: add.commute)
  then have "unat (w + 1) = unat (word_of_nat (Suc (unat w)) :: 'a word)" by (rule arg_cong)
  also have "\<dots> = Suc (unat w)" using * by (simp only: unat_of_nat mod_less)
  finally show ?thesis .
qed

subsection \<open>Little-endian fields of a byte span\<close>

text \<open>
  \<open>put_le k xs off v\<close> is the loop that stores the low \<open>k\<close> bytes of a word from offset \<open>off\<close>
  on, \<open>get_le k xs off\<close> the loop that ors \<open>k\<close> bytes back together. The fixed-width writers
  and readers of the wire format are instances.
\<close>

definition put_le :: "nat \<Rightarrow> byte list \<Rightarrow> nat \<Rightarrow> 'a::len word \<Rightarrow> byte list" where
  "put_le k xs off v =
     fold (\<lambda>b out. out[off + b := ucast (drop_bit (b * 8) v AND 0xFF)]) [0..<k] xs"

definition get_le :: "nat \<Rightarrow> byte list \<Rightarrow> nat \<Rightarrow> 'a::len word" where
  "get_le k xs off =
     fold (\<lambda>b acc. acc OR push_bit (b * 8) (ucast (xs ! (off + b)))) [0..<k] 0"

lemma put_le_Suc:
  "put_le (Suc k) xs off v =
     (put_le k xs off v)[off + k := ucast (drop_bit (k * 8) v AND 0xFF)]"
  by (simp add: put_le_def)

lemma get_le_Suc:
  "get_le (Suc k) xs off = get_le k xs off OR push_bit (k * 8) (ucast (xs ! (off + k)))"
  by (simp add: get_le_def)

lemma put_le_0: "put_le 0 xs off v = xs"
  by (simp add: put_le_def)

lemma get_le_0: "get_le 0 xs off = 0"
  by (simp add: get_le_def)

lemma length_put_le [wire_simps]: "length (put_le k xs off v) = length xs"
  by (induction k) (simp_all add: put_le_0 put_le_Suc)

lemma ucast_and_mask8: "(ucast (w AND 0xFF) :: byte) = ucast w"
proof (rule bit_word_eqI)
  fix n
  assume "n < LENGTH(8)"
  then have "bit (0xFF :: 'a word) n \<longleftrightarrow> n < LENGTH('a)"
  proof -
    have "(0xFF :: 'a word) = mask 8" by (simp add: mask_eq_exp_minus_1)
    then have "bit (0xFF :: 'a word) n = bit (mask 8 :: 'a word) n" by (rule arg_cong)
    then show ?thesis using \<open>n < LENGTH(8)\<close> by (simp add: bit_mask_iff del: mask_numeral)
  qed
  then show "bit (ucast (w AND 0xFF) :: byte) n = bit (ucast w :: byte) n"
    using \<open>n < LENGTH(8)\<close> by (auto simp: bit_simps dest: bit_imp_le_length)
qed

lemma nth_put_le:
  assumes "off + k \<le> length xs"
  shows "put_le k xs off v ! i =
    (if off \<le> i \<and> i < off + k then ucast (drop_bit ((i - off) * 8) v) else xs ! i)"
  using assms
proof (induction k)
  case 0
  then show ?case by (auto simp: put_le_0)
next
  case (Suc k)
  then show ?case
    by (auto simp: put_le_Suc nth_list_update length_put_le ucast_and_mask8)
qed

lemma bit_get_le [bits_simps]:
  fixes k xs off
  shows "bit (get_le k xs off :: 'a::len word) n \<longleftrightarrow>
    n < LENGTH('a) \<and> n < k * 8 \<and> bit (xs ! (off + n div 8)) (n mod 8)"
proof (induction k)
  case 0
  then show ?case by (simp add: get_le_0)
next
  case (Suc k)
  have split: "n < Suc k * 8 \<longleftrightarrow> n < k * 8 \<or> n div 8 = k" by auto
  have shift: "bit (push_bit (k * 8) (ucast (xs ! (off + k))) :: 'a word) n \<longleftrightarrow>
      n < LENGTH('a) \<and> n div 8 = k \<and> bit (xs ! (off + k)) (n mod 8)"
  proof (cases "n div 8 = k")
    case True
    then have "n - k * 8 = n mod 8" and "k * 8 \<le> n" by (auto simp: minus_div_mult_eq_mod)
    with True show ?thesis by (auto simp: bit_simps)
  next
    case False
    then have "n < k * 8 \<or> 8 \<le> n - k * 8" by auto
    with False show ?thesis
      by (auto simp: bit_simps dest: bit_imp_le_length)
  qed
  have "k * 8 \<le> n \<Longrightarrow> n div 8 = k \<Longrightarrow> \<not> n < k * 8" by simp
  then show ?case
    using Suc.IH shift split by (auto simp: get_le_Suc bit_simps)
qed

end
