(* ===== verification/Solar_Status.thy ===== *)
theory Solar_Status
  imports Solar_Prelude
begin

text \<open>
  \<^verbatim>\<open>core/status.hpp\<close> (the errno-valued \<^verbatim>\<open>Status\<close> enumeration and its conversions), the wire
  status codes and the error values of \<^verbatim>\<open>remote/types.hpp\<close>, and the status classification of
  protocol errors of \<^verbatim>\<open>remote/protocol.hpp\<close>.

  The numeric errno constants come from the C library of the platform: they are the fields of the
  record \<open>errno_env\<close>, the ones the source guards with \<^verbatim>\<open>#ifdef\<close> as options. What the code relies on
  (POSIX: the constants are positive and pairwise distinct) is the predicate \<open>errno_ok\<close>.
\<close>

section \<open>Status\<close>

datatype status =
    St_Ok
  | St_Error
  | St_Invalid
  | St_NotReady
  | St_NotFound
  | St_NotSupported
  | St_Busy
  | St_Already
  | St_Timeout
  | St_Cancelled
  | St_NoMemory
  | St_NoSpace
  | St_WouldBlock
  | St_Empty
  | St_Interrupted
  | St_Deadlock
  | St_PermissionDenied
  | St_NoBuffer
  | St_MessageTooLarge
  | St_ProtocolError
  | St_Overflow
  | St_DependencyFailed
  | St_UnexpectedExit

record errno_env =
  eio :: int
  einval :: int
  enodev :: int
  enoent :: int
  enotsup :: int
  enosys :: int
  ebusy :: int
  ealready :: int
  etimedout :: int
  ecanceled :: int
  enomem :: int
  enospc :: int
  eagain :: int
  eintr :: int
  edeadlk :: int
  eacces :: int
  eperm :: int
  enomsg :: int
  erange :: int
  enodata :: "int option"
  enolink :: "int option"
  enobufs :: "int option"
  emsgsize :: "int option"
  eproto :: "int option"
  ebadmsg :: "int option"
  eoverflow :: "int option"
  epipe :: "int option"

definition empty_errno :: "errno_env \<Rightarrow> int" where
  "empty_errno env = (case enodata env of Some e \<Rightarrow> e | None \<Rightarrow> enomsg env)"

definition dependency_failed_errno :: "errno_env \<Rightarrow> int" where
  "dependency_failed_errno env = (case enolink env of Some e \<Rightarrow> e | None \<Rightarrow> eio env)"

definition no_buffer_errno :: "errno_env \<Rightarrow> int" where
  "no_buffer_errno env = (case enobufs env of Some e \<Rightarrow> e | None \<Rightarrow> enomem env)"

definition message_too_large_errno :: "errno_env \<Rightarrow> int" where
  "message_too_large_errno env = (case emsgsize env of Some e \<Rightarrow> e | None \<Rightarrow> enospc env)"

definition protocol_errno :: "errno_env \<Rightarrow> int" where
  "protocol_errno env =
     (case eproto env of Some e \<Rightarrow> e
      | None \<Rightarrow> (case ebadmsg env of Some e \<Rightarrow> e | None \<Rightarrow> eio env))"

definition overflow_errno :: "errno_env \<Rightarrow> int" where
  "overflow_errno env = (case eoverflow env of Some e \<Rightarrow> e | None \<Rightarrow> erange env)"

definition unexpected_exit_errno :: "errno_env \<Rightarrow> int" where
  "unexpected_exit_errno env = (case epipe env of Some e \<Rightarrow> e | None \<Rightarrow> eio env)"

definition status_ok :: "status \<Rightarrow> bool" where
  "status_ok s \<longleftrightarrow> s = St_Ok"

fun to_errno :: "errno_env \<Rightarrow> status \<Rightarrow> int" where
  "to_errno env St_Ok = 0"
| "to_errno env St_Error = eio env"
| "to_errno env St_Invalid = einval env"
| "to_errno env St_NotReady = enodev env"
| "to_errno env St_NotFound = enoent env"
| "to_errno env St_NotSupported = enotsup env"
| "to_errno env St_Busy = ebusy env"
| "to_errno env St_Already = ealready env"
| "to_errno env St_Timeout = etimedout env"
| "to_errno env St_Cancelled = ecanceled env"
| "to_errno env St_NoMemory = enomem env"
| "to_errno env St_NoSpace = enospc env"
| "to_errno env St_WouldBlock = eagain env"
| "to_errno env St_Empty = empty_errno env"
| "to_errno env St_Interrupted = eintr env"
| "to_errno env St_Deadlock = edeadlk env"
| "to_errno env St_PermissionDenied = eacces env"
| "to_errno env St_NoBuffer = no_buffer_errno env"
| "to_errno env St_MessageTooLarge = message_too_large_errno env"
| "to_errno env St_ProtocolError = protocol_errno env"
| "to_errno env St_Overflow = overflow_errno env"
| "to_errno env St_DependencyFailed = dependency_failed_errno env"
| "to_errno env St_UnexpectedExit = unexpected_exit_errno env"

definition to_native_errno :: "errno_env \<Rightarrow> status \<Rightarrow> int" where
  "to_native_errno env s = (let error = to_errno env s in if error = 0 then 0 else - error)"

definition status_from_errno :: "errno_env \<Rightarrow> int \<Rightarrow> status" where
  "status_from_errno env error =
     (let code = (if error < 0 then - error else error) in
      if code = 0 then St_Ok
      else if code = eio env then St_Error
      else if code = einval env then St_Invalid
      else if code = enodev env then St_NotReady
      else if code = enoent env then St_NotFound
      else if code = enotsup env then St_NotSupported
      else if code = enosys env then St_NotSupported
      else if code = ebusy env then St_Busy
      else if code = ealready env then St_Already
      else if code = etimedout env then St_Timeout
      else if code = ecanceled env then St_Cancelled
      else if code = enomem env then St_NoMemory
      else if code = enospc env then St_NoSpace
      else if code = eagain env then St_WouldBlock
      else if code = eintr env then St_Interrupted
      else if code = edeadlk env then St_Deadlock
      else if code = eacces env then St_PermissionDenied
      else if code = eperm env then St_PermissionDenied
      else if code = empty_errno env then St_Empty
      else if code = no_buffer_errno env then St_NoBuffer
      else if code = message_too_large_errno env then St_MessageTooLarge
      else if code = protocol_errno env then St_ProtocolError
      else if code = overflow_errno env then St_Overflow
      else if code = dependency_failed_errno env then St_DependencyFailed
      else if code = unexpected_exit_errno env then St_UnexpectedExit
      else St_Error)"

section \<open>What the platform promises\<close>

definition errno_values :: "errno_env \<Rightarrow> int list" where
  "errno_values env = [eio env, einval env, enodev env, enoent env, enotsup env, enosys env,
     ebusy env, ealready env, etimedout env, ecanceled env, enomem env, enospc env,
     eagain env, eintr env, edeadlk env, eacces env, eperm env, empty_errno env,
     no_buffer_errno env, message_too_large_errno env, protocol_errno env,
     overflow_errno env, dependency_failed_errno env, unexpected_exit_errno env]"

definition errno_ok :: "errno_env \<Rightarrow> bool" where
  "errno_ok env \<longleftrightarrow> distinct (errno_values env) \<and> list_all (\<lambda>e. 0 < e) (errno_values env)"

section \<open>Wire status codes and error values of the remote component\<close>

fun encode_status :: "status \<Rightarrow> u8" where
  "encode_status St_Ok = 0"
| "encode_status St_Error = 1"
| "encode_status St_Invalid = 2"
| "encode_status St_NotReady = 3"
| "encode_status St_NotFound = 4"
| "encode_status St_NotSupported = 5"
| "encode_status St_Busy = 6"
| "encode_status St_Already = 7"
| "encode_status St_Timeout = 8"
| "encode_status St_Cancelled = 9"
| "encode_status St_NoMemory = 10"
| "encode_status St_NoSpace = 11"
| "encode_status St_WouldBlock = 12"
| "encode_status St_Empty = 13"
| "encode_status St_Interrupted = 14"
| "encode_status St_Deadlock = 15"
| "encode_status St_PermissionDenied = 16"
| "encode_status St_NoBuffer = 17"
| "encode_status St_MessageTooLarge = 18"
| "encode_status St_ProtocolError = 19"
| "encode_status St_Overflow = 20"
| "encode_status St_DependencyFailed = 21"
| "encode_status St_UnexpectedExit = 22"

definition decode_status :: "u8 \<Rightarrow> status option" where
  "decode_status code =
     (if code = 0 then Some St_Ok
      else if code = 1 then Some St_Error
      else if code = 2 then Some St_Invalid
      else if code = 3 then Some St_NotReady
      else if code = 4 then Some St_NotFound
      else if code = 5 then Some St_NotSupported
      else if code = 6 then Some St_Busy
      else if code = 7 then Some St_Already
      else if code = 8 then Some St_Timeout
      else if code = 9 then Some St_Cancelled
      else if code = 10 then Some St_NoMemory
      else if code = 11 then Some St_NoSpace
      else if code = 12 then Some St_WouldBlock
      else if code = 13 then Some St_Empty
      else if code = 14 then Some St_Interrupted
      else if code = 15 then Some St_Deadlock
      else if code = 16 then Some St_PermissionDenied
      else if code = 17 then Some St_NoBuffer
      else if code = 18 then Some St_MessageTooLarge
      else if code = 19 then Some St_ProtocolError
      else if code = 20 then Some St_Overflow
      else if code = 21 then Some St_DependencyFailed
      else if code = 22 then Some St_UnexpectedExit
      else None)"

datatype remote_operation =
    Op_Encode
  | Op_Decode
  | Op_Pack
  | Op_Unpack
  | Op_FrameEncode
  | Op_FrameDecode
  | Op_Generate
  | Op_Initialize
  | Op_Start
  | Op_Stop
  | Op_OpenLink
  | Op_CloseLink
  | Op_AdmitEvent
  | Op_Receive
  | Op_Transmit
  | Op_Handshake
  | Op_Dispatch
  | Op_Publish
  | Op_Query

datatype remote_reason =
    Re_None
  | Re_Disabled
  | Re_NoSpace
  | Re_Malformed
  | Re_IntegrityFailure
  | Re_UnsupportedVersion
  | Re_UnsupportedKind
  | Re_Oversized
  | Re_MissingField
  | Re_DuplicateField
  | Re_InvalidValue
  | Re_TrailingData
  | Re_SchemaMismatch
  | Re_NotReady
  | Re_NotRegistered
  | Re_InvalidContext
  | Re_Busy
  | Re_NoCapacity
  | Re_LinkFailure
  | Re_SessionClosed
  | Re_Unauthorized
  | Re_UnsupportedOperation
  | Re_InternalInvariant

record remote_error =
  err_status :: status
  err_reason :: remote_reason
  err_operation :: remote_operation
  err_detail :: u32

definition remote_fail :: "status \<Rightarrow> remote_reason \<Rightarrow> remote_operation \<Rightarrow> remote_error + 'a" where
  "remote_fail s r oper =
     Inl \<lparr>err_status = s, err_reason = r, err_operation = oper, err_detail = 0\<rparr>"

section \<open>Protocol error codes\<close>

text \<open>An \<^verbatim>\<open>ErrorCode\<close> has a 16-bit underlying type and may hold any value of it.\<close>

definition status_of_error_code :: "u16 \<Rightarrow> status" where
  "status_of_error_code error =
     (if error \<in> set [1, 2, 10] then St_NotSupported
      else if error \<in> set [3, 4, 5, 8, 11, 17] then St_ProtocolError
      else if error \<in> set [6, 7] then St_MessageTooLarge
      else if error \<in> set [9] then St_NotFound
      else if error \<in> set [12] then St_PermissionDenied
      else if error \<in> set [13, 22] then St_NotReady
      else if error \<in> set [14, 16] then St_Busy
      else if error \<in> set [15] then St_NoSpace
      else if error \<in> set [18, 19] then St_NotFound
      else if error \<in> set [20] then St_Cancelled
      else if error \<in> set [21] then St_Timeout
      else if error \<in> set [23] then St_Error
      else St_Error)"

section \<open>Lemmas\<close>

lemma remote_fail_not_ok [simp]: "remote_fail s r oper \<noteq> Inr x"
  by (simp add: remote_fail_def)

lemma isl_remote_fail [simp]: "isl (remote_fail s r oper)"
  by (simp add: remote_fail_def)

lemma to_errno_mem: "s = St_Ok \<or> to_errno env s \<in> set (errno_values env)"
  by (cases s) (simp_all add: errno_values_def)

lemma to_errno_nonneg:
  assumes "errno_ok env"
  shows "0 \<le> to_errno env s"
  using to_errno_mem [of s env] assms by (auto simp: errno_ok_def list_all_iff intro: less_imp_le)

lemma status_from_errno_abs: "status_from_errno env (- e) = status_from_errno env e"
  by (simp add: status_from_errno_def)

definition errno_table :: "errno_env \<Rightarrow> (int \<times> status) list" where
  "errno_table env =
    [(eio env, St_Error),
     (einval env, St_Invalid),
     (enodev env, St_NotReady),
     (enoent env, St_NotFound),
     (enotsup env, St_NotSupported),
     (enosys env, St_NotSupported),
     (ebusy env, St_Busy),
     (ealready env, St_Already),
     (etimedout env, St_Timeout),
     (ecanceled env, St_Cancelled),
     (enomem env, St_NoMemory),
     (enospc env, St_NoSpace),
     (eagain env, St_WouldBlock),
     (eintr env, St_Interrupted),
     (edeadlk env, St_Deadlock),
     (eacces env, St_PermissionDenied),
     (eperm env, St_PermissionDenied),
     (empty_errno env, St_Empty),
     (no_buffer_errno env, St_NoBuffer),
     (message_too_large_errno env, St_MessageTooLarge),
     (protocol_errno env, St_ProtocolError),
     (overflow_errno env, St_Overflow),
     (dependency_failed_errno env, St_DependencyFailed),
     (unexpected_exit_errno env, St_UnexpectedExit)]"

lemma map_fst_errno_table: "map fst (errno_table env) = errno_values env"
  by (simp add: errno_table_def errno_values_def)

lemma case_option_if:
  "(case (if b then Some x else r) of None \<Rightarrow> d | Some s \<Rightarrow> s) =
   (if b then x else (case r of None \<Rightarrow> d | Some s \<Rightarrow> s))"
  by simp

lemma status_from_errno_map_of:
  "0 < e \<Longrightarrow> status_from_errno env e =
     (case map_of (errno_table env) e of None \<Rightarrow> St_Error | Some s \<Rightarrow> s)"
  unfolding errno_table_def status_from_errno_def Let_def
  by (simp only: map_of.simps fun_upd_apply fst_conv snd_conv case_option_if option.simps
      if_False if_True not_less_iff_gr_or_eq order.strict_iff_not simp_thms)
    simp

lemma status_from_errno_table:
  assumes "(e, s) \<in> set (errno_table env)" and "errno_ok env"
  shows "status_from_errno env e = s"
proof -
  have "map_of (errno_table env) e = Some s"
    using assms by (intro map_of_is_SomeI) (simp_all add: map_fst_errno_table errno_ok_def)
  moreover have "e \<in> set (errno_values env)"
    using assms(1) map_fst_errno_table [of env] by (metis image_eqI fst_conv set_map)
  then have "0 < e"
    using assms(2) by (simp add: errno_ok_def list_all_iff)
  ultimately show ?thesis by (simp add: status_from_errno_map_of)
qed

lemma status_from_to_errno:
  assumes "errno_ok env"
  shows "status_from_errno env (to_errno env s) = s"
proof (cases "s = St_Ok")
  case True
  then show ?thesis by (simp add: status_from_errno_def)
next
  case False
  then have "(to_errno env s, s) \<in> set (errno_table env)"
    by (cases s) (simp_all add: errno_table_def)
  then show ?thesis using assms by (rule status_from_errno_table)
qed

text \<open>
  on a platform whose errno constants are positive and pairwise distinct, a status survives
  the trip through its errno value, in the positive form and in the negated form native calls
  return.
\<close>

theorem status_errno_roundtrip:
  assumes "errno_ok env"
  shows "status_from_errno env (to_errno env s) = s \<and>
    status_from_errno env (to_native_errno env s) = s"
  using status_from_to_errno [OF assms]
  by (metis (full_types) status_from_errno_abs to_native_errno_def minus_zero)

definition linux_errno :: errno_env where
  "linux_errno = \<lparr>eio = 5, einval = 22, enodev = 19, enoent = 2, enotsup = 95, enosys = 38,
     ebusy = 16, ealready = 114, etimedout = 110, ecanceled = 125, enomem = 12, enospc = 28,
     eagain = 11, eintr = 4, edeadlk = 35, eacces = 13, eperm = 1, enomsg = 42, erange = 34,
     enodata = Some 61, enolink = Some 67, enobufs = Some 105, emsgsize = Some 90,
     eproto = Some 71, ebadmsg = Some 74, eoverflow = Some 75, epipe = Some 32\<rparr>"

lemmas errno_defs =
  empty_errno_def dependency_failed_errno_def no_buffer_errno_def message_too_large_errno_def
  protocol_errno_def overflow_errno_def unexpected_exit_errno_def

lemma linux_errno_ok: "errno_ok linux_errno"
  by (simp add: errno_ok_def errno_values_def linux_errno_def errno_defs)

theorem status_errno_roundtrip_witness:
  "status_from_errno linux_errno (to_errno linux_errno St_ProtocolError) = St_ProtocolError \<and>
   status_from_errno linux_errno (to_native_errno linux_errno St_ProtocolError) = St_ProtocolError"
  by (rule status_errno_roundtrip [OF linux_errno_ok])

lemma decode_encode_status: "decode_status (encode_status s) = Some s"
  by (cases s) (simp_all add: decode_status_def)

lemma encode_decode_status: "decode_status c = Some s \<Longrightarrow> encode_status s = c"
  by (auto simp: decode_status_def split: if_splits)

text \<open>
  The wire status codes are exactly the images of the statuses: a code decodes to a status
  if and only if it is that status's code, so encoding is injective and decoding is its inverse.
\<close>

theorem status_code_exact: "decode_status c = Some s \<longleftrightarrow> encode_status s = c"
  using decode_encode_status encode_decode_status by blast

end
