(* ===== verification/Wire_Field.thy ===== *)
theory Wire_Field
  imports Solar_Prelude
begin

text \<open>
  The fixed-width accessors of \<^verbatim>\<open>remote/protocol.hpp\<close> (\<^verbatim>\<open>detail::put_u16\<close> to
  \<^verbatim>\<open>detail::get_u64\<close>, and the plain byte stores), and the interface they give the message
  codecs: the locale \<open>wire_field\<close> states what one field writes and reads, \<open>wire_fields\<close> that
  fields at disjoint offsets do not interfere. Both are interpreted on all four widths and all
  pairs of widths; the resulting facts are in \<open>wire_simps\<close>.
\<close>

section \<open>The accessors\<close>

definition put_u8 :: "byte list \<Rightarrow> nat \<Rightarrow> u8 \<Rightarrow> byte list" where
  "put_u8 output off v = output[off := v]"

definition get_u8 :: "byte list \<Rightarrow> nat \<Rightarrow> u8" where
  "get_u8 input off = input ! off"

definition put_u16 :: "byte list \<Rightarrow> nat \<Rightarrow> u16 \<Rightarrow> byte list" where
  "put_u16 output off v =
     (output[off := ucast (v AND 0xFF)])[off + 1 := ucast (drop_bit 8 v AND 0xFF)]"

definition put_u32 :: "byte list \<Rightarrow> nat \<Rightarrow> u32 \<Rightarrow> byte list" where
  "put_u32 output off v =
     fold (\<lambda>b out. out[off + b := ucast (drop_bit (b * 8) v AND 0xFF)]) [0..<4] output"

definition put_u64 :: "byte list \<Rightarrow> nat \<Rightarrow> u64 \<Rightarrow> byte list" where
  "put_u64 output off v =
     fold (\<lambda>b out. out[off + b := ucast (drop_bit (b * 8) v AND 0xFF)]) [0..<8] output"

definition get_u16 :: "byte list \<Rightarrow> nat \<Rightarrow> u16" where
  "get_u16 input off = ucast (input ! off) OR push_bit 8 (ucast (input ! (off + 1)))"

definition get_u32 :: "byte list \<Rightarrow> nat \<Rightarrow> u32" where
  "get_u32 input off =
     fold (\<lambda>b acc. acc OR push_bit (b * 8) (ucast (input ! (off + b)))) [0..<4] 0"

definition get_u64 :: "byte list \<Rightarrow> nat \<Rightarrow> u64" where
  "get_u64 input off =
     fold (\<lambda>b acc. acc OR push_bit (b * 8) (ucast (input ! (off + b)))) [0..<8] 0"

section \<open>They are the generic little-endian loops\<close>

lemma put_u8_le: "put_u8 xs off v = put_le 1 xs off v"
  unfolding put_u8_def using ucast_and_mask8 [of v] by (simp add: put_le_def)

lemma get_u8_le: "get_u8 xs off = get_le 1 xs off"
  unfolding get_u8_def by (simp add: get_le_def)

lemma put_u16_le: "put_u16 xs off v = put_le 2 xs off v"
  by (simp add: put_u16_def put_le_def upt_rec numeral_2_eq_2)

lemma get_u16_le: "get_u16 xs off = get_le 2 xs off"
  by (simp add: get_u16_def get_le_def upt_rec numeral_2_eq_2)

lemma put_u32_le: "put_u32 xs off v = put_le 4 xs off v"
  by (simp add: put_u32_def put_le_def)

lemma get_u32_le: "get_u32 xs off = get_le 4 xs off"
  by (simp add: get_u32_def get_le_def)

lemma put_u64_le: "put_u64 xs off v = put_le 8 xs off v"
  by (simp add: put_u64_def put_le_def)

lemma get_u64_le: "get_u64 xs off = get_le 8 xs off"
  by (simp add: get_u64_def get_le_def)

section \<open>The interface of one field\<close>

locale wire_field =
  fixes put :: "byte list \<Rightarrow> nat \<Rightarrow> 'v \<Rightarrow> byte list"
    and get :: "byte list \<Rightarrow> nat \<Rightarrow> 'v"
    and width :: nat
  assumes length_put: "length (put xs off v) = length xs"
    and nth_put_outside: "off + width \<le> length xs \<Longrightarrow> i < off \<or> off + width \<le> i \<Longrightarrow>
          put xs off v ! i = xs ! i"
    and get_put: "off + width \<le> length xs \<Longrightarrow> get (put xs off v) off = v"
    and get_cong: "(\<And>i. off \<le> i \<Longrightarrow> i < off + width \<Longrightarrow> xs ! i = ys ! i) \<Longrightarrow>
          get xs off = get ys off"
    and nth_put_get: "off + width \<le> length xs \<Longrightarrow> off \<le> i \<Longrightarrow> i < off + width \<Longrightarrow>
          put xs off (get ys off) ! i = ys ! i"
begin

lemma get_append:
  assumes "off + width \<le> length xs"
  shows "get (xs @ ys) off = get xs off"
  using assms by (intro get_cong) (simp add: nth_append)

lemma get_take:
  assumes "off + width \<le> n"
  shows "get (take n xs) off = get xs off"
  using assms by (intro get_cong) simp

lemma put_get_id:
  assumes "off + width \<le> length xs" and "get xs off = v"
  shows "put xs off v = xs"
proof (rule nth_equalityI)
  fix i
  assume "i < length (put xs off v)"
  show "put xs off v ! i = xs ! i"
    using assms nth_put_get [of off xs i xs] nth_put_outside [of off xs i v]
    by (cases "off \<le> i \<and> i < off + width") auto
qed (simp add: length_put)

lemma get_update_outside:
  assumes "i < off \<or> off + width \<le> i"
  shows "get (xs[i := v]) off = get xs off"
  using assms by (intro get_cong) auto

lemma get_changed:
  assumes "off \<le> i" and "i < off + width" and "off + width \<le> length xs" and "v \<noteq> xs ! i"
  shows "get (xs[i := v]) off \<noteq> get xs off"
proof
  assume "get (xs[i := v]) off = get xs off"
  then have "xs[i := v] ! i = xs ! i"
    using nth_put_get [of off xs i "xs[i := v]"] nth_put_get [of off xs i xs] assms by simp
  with assms show False by simp
qed

text \<open>
  Storing the fields of one buffer into another, in increasing order, copies the buffer prefix
  by prefix: the step that shows a decoder accepts only what the encoder writes.
\<close>

lemma take_put:
  assumes n: "n = off + width" and len: "n \<le> length xs" "n \<le> length ys"
    and v: "get ys off = v" and pre: "take off xs = take off ys"
  shows "take n (put xs off v) = take n ys"
  unfolding v [symmetric]
proof (rule take_eq_nthI)
  fix i
  assume i: "i < n"
  show "put xs off (get ys off) ! i = ys ! i"
  proof (cases "i < off")
    case True
    then have "put xs off (get ys off) ! i = xs ! i"
      using n len by (intro nth_put_outside) auto
    with True pre show ?thesis by (metis nth_take)
  next
    case False
    with i n len show ?thesis by (intro nth_put_get) auto
  qed
qed (use len in \<open>simp_all add: length_put\<close>)

end

section \<open>Two fields of one buffer\<close>

locale wire_fields =
  a: wire_field put1 get1 w1 + b: wire_field put2 get2 w2
  for put1 :: "byte list \<Rightarrow> nat \<Rightarrow> 'v \<Rightarrow> byte list" and get1 w1
    and put2 :: "byte list \<Rightarrow> nat \<Rightarrow> 'u \<Rightarrow> byte list" and get2 w2
begin

lemma get_put_disjoint:
  assumes "off1 + w1 \<le> length xs" and "off2 + w2 \<le> off1 \<or> off1 + w1 \<le> off2"
  shows "get2 (put1 xs off1 v) off2 = get2 xs off2"
proof (rule b.get_cong)
  fix i
  assume "off2 \<le> i" and "i < off2 + w2"
  with assms show "put1 xs off1 v ! i = xs ! i"
    by (intro a.nth_put_outside) auto
qed

end

section \<open>The code's accessors implement the interface\<close>

lemma put_le_field:
  assumes "LENGTH('a) = k * 8"
  shows "wire_field (put_le k :: byte list \<Rightarrow> nat \<Rightarrow> 'a::len word \<Rightarrow> byte list) (get_le k) k"
proof
  fix xs :: "byte list" and off and v :: "'a word"
  show "length (put_le k xs off v) = length xs" by (rule length_put_le)
next
  fix xs :: "byte list" and off i and v :: "'a word"
  assume "off + k \<le> length xs" and "i < off \<or> off + k \<le> i"
  then show "put_le k xs off v ! i = xs ! i" by (auto simp: nth_put_le)
next
  fix xs :: "byte list" and off and v :: "'a word"
  assume len: "off + k \<le> length xs"
  show "get_le k (put_le k xs off v) off = v"
  proof (rule bit_word_eqI)
    fix n
    assume n: "n < LENGTH('a)"
    with assms have "n div 8 < k" by auto
    moreover have "(n div 8) * 8 + n mod 8 = n" by simp
    ultimately show "bit (get_le k (put_le k xs off v) off :: 'a word) n = bit v n"
      using n len assms by (simp add: bit_get_le nth_put_le bit_simps less_mult_imp_div_less)
  qed
next
  fix xs ys :: "byte list" and off
  assume "\<And>i. off \<le> i \<Longrightarrow> i < off + k \<Longrightarrow> xs ! i = ys ! i"
  then show "(get_le k xs off :: 'a word) = get_le k ys off"
    by (intro bit_word_eqI) (auto simp: bit_get_le)
next
  fix xs ys :: "byte list" and off i
  assume len: "off + k \<le> length xs" and i: "off \<le> i" "i < off + k"
  show "put_le k xs off (get_le k ys off :: 'a word) ! i = ys ! i"
  proof (rule bit_word_eqI)
    fix n
    assume n: "n < LENGTH(8)"
    have "(i - off) * 8 + n < k * 8" using i n by auto
    moreover have "((i - off) * 8 + n) div 8 = i - off" and "((i - off) * 8 + n) mod 8 = n"
      using n by auto
    ultimately show "bit (put_le k xs off (get_le k ys off :: 'a word) ! i) n = bit (ys ! i) n"
      using n i len assms by (simp add: nth_put_le bit_get_le bit_simps)
  qed
qed

interpretation f8: wire_field put_u8 get_u8 1
  using put_le_field [of 1, where 'a = 8]
  by (simp add: put_u8_le [abs_def] get_u8_le [abs_def])

interpretation f16: wire_field put_u16 get_u16 2
  using put_le_field [of 2, where 'a = 16]
  by (simp add: put_u16_le [abs_def] get_u16_le [abs_def])

interpretation f32: wire_field put_u32 get_u32 4
  using put_le_field [of 4, where 'a = 32]
  by (simp add: put_u32_le [abs_def] get_u32_le [abs_def])

interpretation f64: wire_field put_u64 get_u64 8
  using put_le_field [of 8, where 'a = 64]
  by (simp add: put_u64_le [abs_def] get_u64_le [abs_def])

interpretation f8_8: wire_fields put_u8 get_u8 1 put_u8 get_u8 1 ..
interpretation f8_16: wire_fields put_u8 get_u8 1 put_u16 get_u16 2 ..
interpretation f8_32: wire_fields put_u8 get_u8 1 put_u32 get_u32 4 ..
interpretation f8_64: wire_fields put_u8 get_u8 1 put_u64 get_u64 8 ..
interpretation f16_8: wire_fields put_u16 get_u16 2 put_u8 get_u8 1 ..
interpretation f16_16: wire_fields put_u16 get_u16 2 put_u16 get_u16 2 ..
interpretation f16_32: wire_fields put_u16 get_u16 2 put_u32 get_u32 4 ..
interpretation f16_64: wire_fields put_u16 get_u16 2 put_u64 get_u64 8 ..
interpretation f32_8: wire_fields put_u32 get_u32 4 put_u8 get_u8 1 ..
interpretation f32_16: wire_fields put_u32 get_u32 4 put_u16 get_u16 2 ..
interpretation f32_32: wire_fields put_u32 get_u32 4 put_u32 get_u32 4 ..
interpretation f32_64: wire_fields put_u32 get_u32 4 put_u64 get_u64 8 ..
interpretation f64_8: wire_fields put_u64 get_u64 8 put_u8 get_u8 1 ..
interpretation f64_16: wire_fields put_u64 get_u64 8 put_u16 get_u16 2 ..
interpretation f64_32: wire_fields put_u64 get_u64 8 put_u32 get_u32 4 ..
interpretation f64_64: wire_fields put_u64 get_u64 8 put_u64 get_u64 8 ..

lemma get_le_zeros: "off + k \<le> n \<Longrightarrow> get_le k (replicate n 0) off = 0"
  by (rule bit_word_eqI) (simp add: bit_get_le)

lemma wire_get_zeros [wire_simps]:
  "off + 1 \<le> n \<Longrightarrow> get_u8 (replicate n 0) off = 0"
  "off + 2 \<le> n \<Longrightarrow> get_u16 (replicate n 0) off = 0"
  "off + 4 \<le> n \<Longrightarrow> get_u32 (replicate n 0) off = 0"
  "off + 8 \<le> n \<Longrightarrow> get_u64 (replicate n 0) off = 0"
  by (simp_all add: get_u8_le get_u16_le get_u32_le get_u64_le get_le_zeros)

lemmas wire_length [wire_simps] =
  f8.length_put f16.length_put f32.length_put f64.length_put

lemmas wire_get_put [wire_simps] =
  f8.get_put f16.get_put f32.get_put f64.get_put
  f8_8.get_put_disjoint f8_16.get_put_disjoint f8_32.get_put_disjoint f8_64.get_put_disjoint
  f16_8.get_put_disjoint f16_16.get_put_disjoint f16_32.get_put_disjoint f16_64.get_put_disjoint
  f32_8.get_put_disjoint f32_16.get_put_disjoint f32_32.get_put_disjoint f32_64.get_put_disjoint
  f64_8.get_put_disjoint f64_16.get_put_disjoint f64_32.get_put_disjoint f64_64.get_put_disjoint

lemmas wire_take_put = f8.take_put f16.take_put f32.take_put f64.take_put

lemmas wire_get_append = f8.get_append f16.get_append f32.get_append f64.get_append

lemmas wire_get_update =
  f8.get_update_outside f16.get_update_outside f32.get_update_outside f64.get_update_outside

lemmas wire_get_take = f8.get_take f16.get_take f32.get_take f64.get_take

end
