(* ===== verification/Remote_Protocol.thy ===== *)
theory Remote_Protocol
  imports Solar_Status Wire_Field
begin

text \<open>
  \<^verbatim>\<open>remote/protocol.hpp\<close>: the frame envelope and every fixed-layout message of the remote
  protocol, each with its encoder and decoder as the source writes them (a zeroed array filled
  field by field; a length and validity check, then field reads). Scoped enumerations with a fixed
  underlying type (\<^verbatim>\<open>Kind\<close>, \<^verbatim>\<open>Flags\<close>, \<^verbatim>\<open>Codec\<close>, \<^verbatim>\<open>InStreamCloseReason\<close>) hold any value of that
  type once they are cast from a byte, so they are bytes here and their enumerators are constants.

  The locales at the end state what a codec promises: \<open>wire_codec\<close> (decoding an encoding gives
  the message back), \<open>exact_codec\<close> (only inputs of the exact size are accepted) and
  \<open>canonical_codec\<close> (only encodings are accepted). Every message codec is interpreted in the
  strongest of the three that its decoder satisfies.
\<close>

section \<open>Constants\<close>

definition major_version :: u8 where "major_version = 1"
definition minor_version :: u8 where "minor_version = 2"
definition envelope_size :: nat where "envelope_size = 32"
definition crc_size :: nat where "crc_size = 4"
definition subscription_policy_size :: nat where "subscription_policy_size = 8"
definition in_stream_open_response_size :: nat where "in_stream_open_response_size = 12"
definition in_stream_close_request_size :: nat where "in_stream_close_request_size = 4"
definition in_stream_closed_size :: nat where "in_stream_closed_size = 8"
definition ping_request_size :: nat where "ping_request_size = 16"
definition ping_response_size :: nat where "ping_response_size = 32"
definition credit_grant_size :: nat where "credit_grant_size = 8"
definition batch_header_size :: nat where "batch_header_size = 4"
definition introspection_summary_size :: nat where "introspection_summary_size = 24"
definition collection_request_size :: nat where "collection_request_size = 4"
definition collection_page_header_size :: nat where "collection_page_header_size = 8"
definition collection_query_request_size :: nat where "collection_query_request_size = 14"
definition server_information_size :: nat where "server_information_size = 56"
definition manifest_request_size :: nat where "manifest_request_size = 8"
definition batch_version :: u8 where "batch_version = 1"

definition Codec_Cbor :: u8 where "Codec_Cbor = 1"
definition Codec_Packed :: u8 where "Codec_Packed = 2"
definition Kind_ClientHello :: u8 where "Kind_ClientHello = 1"
definition Kind_Pong :: u8 where "Kind_Pong = 17"
definition Close_ConfigurationFailed :: u8 where "Close_ConfigurationFailed = 5"

lemmas wire_sizes =
  envelope_size_def crc_size_def subscription_policy_size_def in_stream_open_response_size_def
  in_stream_close_request_size_def in_stream_closed_size_def ping_request_size_def
  ping_response_size_def credit_grant_size_def batch_header_size_def
  introspection_summary_size_def collection_request_size_def collection_page_header_size_def
  collection_query_request_size_def server_information_size_def manifest_request_size_def

lemmas wire_constants =
  major_version_def minor_version_def batch_version_def Codec_Cbor_def Codec_Packed_def
  Kind_ClientHello_def Kind_Pong_def Close_ConfigurationFailed_def

section \<open>Messages\<close>

record envelope =
  env_major :: u8
  env_minor :: u8
  env_kind :: u8
  env_flags :: u8
  session_epoch :: u32
  frame_sequence :: u32
  env_target :: u32
  request_id :: u32
  payload_size :: u16
  fragment_id :: u16
  fragment_index :: u8
  fragment_count :: u8
  env_reserved :: u32

record subscription_request =
  sr_minimum_interval_us :: u32
  sr_batch_size :: u16
  sr_codec :: u8
  sr_flags :: u8

record subscription_policy =
  sp_minimum_interval_us :: u32
  sp_batch_size :: u16
  sp_codec :: u8
  sp_flags :: u8

record credit_grant =
  cg_token :: u32
  cg_credits :: u16
  cg_window :: u16

record in_stream_open_response =
  io_policy :: subscription_policy
  io_token :: u32

record in_stream_close_request =
  ic_token :: u32

record in_stream_closed =
  isc_token :: u32
  isc_reason :: u8

record ping_request =
  pq_nonce :: u64
  pq_host_monotonic_ns :: u64

record ping_response =
  pr_nonce :: u64
  pr_host_monotonic_ns :: u64
  pr_remote_receive_us :: u64
  pr_remote_send_us :: u64

record batch_header =
  bh_count :: u16
  bh_codec :: u8
  bh_version :: u8

record introspection_summary =
  is_schemas :: u16
  is_data :: u16
  is_actions :: u16
  is_topics :: u16
  is_streams :: u16
  is_links :: u16
  is_maximum_frame_bytes :: u32
  is_maximum_message_bytes :: u32

record collection_request =
  cr_offset :: u16
  cr_limit :: u16

record collection_page_header =
  cp_count :: u8
  cp_total :: u16
  cp_next :: u16
  cp_has_more :: bool

record collection_query_request =
  cq_stable_id :: u32
  cq_offset :: u32
  cq_revision :: u32
  cq_limit :: u16

record server_information =
  si_maximum_frame_bytes :: u32
  si_maximum_message_bytes :: u32
  si_build_id :: u64
  si_manifest_digest :: "byte list"
  si_manifest_size :: u32
  si_feature_flags :: u8

record manifest_request =
  mr_offset :: u32
  mr_limit :: u16

section \<open>Envelope accessors\<close>

definition env_operation :: "envelope \<Rightarrow> u8" where
  "env_operation e = ucast (env_reserved e AND 0xFF)"

definition set_operation :: "u8 \<Rightarrow> envelope \<Rightarrow> envelope" where
  "set_operation k e = e\<lparr>env_reserved := (env_reserved e AND 0xFFFFFF00) OR ucast k\<rparr>"

definition env_subscription :: "envelope \<Rightarrow> u8" where
  "env_subscription e = ucast (env_reserved e AND 0xFF)"

definition set_subscription :: "u8 \<Rightarrow> envelope \<Rightarrow> envelope" where
  "set_subscription k e = e\<lparr>env_reserved := (env_reserved e AND 0xFFFFFF00) OR ucast k\<rparr>"

definition valid_kind :: "u8 \<Rightarrow> bool" where
  "valid_kind k \<longleftrightarrow> Kind_ClientHello \<le> k \<and> k \<le> Kind_Pong"

section \<open>Encoders and decoders\<close>

definition encode_server_information :: "server_information \<Rightarrow> byte list" where
  "encode_server_information information =
     (let out = replicate server_information_size 0;
          out = put_u8 out 0 1;
          out = put_u8 out 1 major_version;
          out = put_u8 out 2 minor_version;
          out = put_u8 out 3 (si_feature_flags information);
          out = put_u32 out 4 (si_maximum_frame_bytes information);
          out = put_u32 out 8 (si_maximum_message_bytes information);
          out = put_u64 out 12 (si_build_id information);
          out = take 20 out @ si_manifest_digest information @ drop 52 out
      in put_u32 out 52 (si_manifest_size information))"

definition decode_server_information :: "byte list \<Rightarrow> remote_error + server_information" where
  "decode_server_information input =
     (if length input \<noteq> server_information_size \<or> get_u8 input 0 \<noteq> 1 \<or>
         get_u8 input 1 \<noteq> major_version
      then remote_fail St_ProtocolError Re_Malformed Op_Decode
      else Inr \<lparr>si_maximum_frame_bytes = get_u32 input 4,
                si_maximum_message_bytes = get_u32 input 8,
                si_build_id = get_u64 input 12,
                si_manifest_digest = take 32 (drop 20 input),
                si_manifest_size = get_u32 input 52,
                si_feature_flags = get_u8 input 3\<rparr>)"

definition encode_manifest_request :: "manifest_request \<Rightarrow> byte list" where
  "encode_manifest_request request =
     (let out = replicate manifest_request_size 0;
          out = put_u32 out 0 (mr_offset request)
      in put_u16 out 4 (mr_limit request))"

definition decode_manifest_request :: "byte list \<Rightarrow> remote_error + manifest_request" where
  "decode_manifest_request input =
     (if length input \<noteq> manifest_request_size \<or> get_u16 input 6 \<noteq> 0 then remote_fail St_ProtocolError Re_Malformed Op_Decode
      else Inr \<lparr>mr_offset = get_u32 input 0,
                mr_limit = get_u16 input 4\<rparr>)"

definition encode_subscription_request :: "subscription_request \<Rightarrow> byte list" where
  "encode_subscription_request request =
     (let out = replicate subscription_policy_size 0;
          out = put_u32 out 0 (sr_minimum_interval_us request);
          out = put_u16 out 4 (sr_batch_size request);
          out = put_u8 out 6 (sr_codec request)
      in put_u8 out 7 (sr_flags request))"

definition decode_subscription_request :: "byte list \<Rightarrow> remote_error + subscription_request" where
  "decode_subscription_request input =
     (if length input \<noteq> subscription_policy_size then remote_fail St_ProtocolError Re_Malformed Op_Decode
      else Inr \<lparr>sr_minimum_interval_us = get_u32 input 0,
                sr_batch_size = get_u16 input 4,
                sr_codec = get_u8 input 6,
                sr_flags = get_u8 input 7\<rparr>)"

definition encode_subscription_policy :: "subscription_policy \<Rightarrow> byte list" where
  "encode_subscription_policy policy =
     (let out = replicate subscription_policy_size 0;
          out = put_u32 out 0 (sp_minimum_interval_us policy);
          out = put_u16 out 4 (sp_batch_size policy);
          out = put_u8 out 6 (sp_codec policy)
      in put_u8 out 7 (sp_flags policy))"

definition decode_subscription_policy :: "byte list \<Rightarrow> remote_error + subscription_policy" where
  "decode_subscription_policy input =
     (if length input \<noteq> subscription_policy_size then remote_fail St_ProtocolError Re_Malformed Op_Decode
      else
        let codec = get_u8 input 6 in
        if codec \<noteq> Codec_Cbor \<and> codec \<noteq> Codec_Packed then
          remote_fail St_ProtocolError Re_InvalidValue Op_Decode
        else Inr \<lparr>sp_minimum_interval_us = get_u32 input 0,
                  sp_batch_size = get_u16 input 4,
                  sp_codec = codec,
                  sp_flags = get_u8 input 7\<rparr>)"

definition encode_credit_grant :: "credit_grant \<Rightarrow> byte list" where
  "encode_credit_grant grant =
     (let out = replicate credit_grant_size 0;
          out = put_u32 out 0 (cg_token grant);
          out = put_u16 out 4 (cg_credits grant)
      in put_u16 out 6 (cg_window grant))"

definition decode_credit_grant :: "byte list \<Rightarrow> remote_error + credit_grant" where
  "decode_credit_grant input =
     (if length input \<noteq> credit_grant_size then remote_fail St_ProtocolError Re_Malformed Op_Decode
      else Inr \<lparr>cg_token = get_u32 input 0,
                cg_credits = get_u16 input 4,
                cg_window = get_u16 input 6\<rparr>)"

definition encode_in_stream_open_response :: "in_stream_open_response \<Rightarrow> byte list" where
  "encode_in_stream_open_response response =
     (let out = replicate in_stream_open_response_size 0;
          policy = encode_subscription_policy (io_policy response);
          out = policy @ drop (length policy) out
      in put_u32 out subscription_policy_size (io_token response))"

definition decode_in_stream_open_response :: "byte list \<Rightarrow> remote_error + in_stream_open_response" where
  "decode_in_stream_open_response input =
     (if length input \<noteq> in_stream_open_response_size then
        remote_fail St_ProtocolError Re_Malformed Op_Decode
      else
        let policy = decode_subscription_policy (take subscription_policy_size input);
            token = get_u32 input subscription_policy_size
        in case policy of
             Inl _ \<Rightarrow> remote_fail St_ProtocolError Re_InvalidValue Op_Decode
           | Inr p \<Rightarrow>
               if token = 0 then remote_fail St_ProtocolError Re_InvalidValue Op_Decode
               else Inr \<lparr>io_policy = p, io_token = token\<rparr>)"

definition encode_in_stream_close_request :: "in_stream_close_request \<Rightarrow> byte list" where
  "encode_in_stream_close_request request =
     (let out = replicate in_stream_close_request_size 0
      in put_u32 out 0 (ic_token request))"

definition decode_in_stream_close_request :: "byte list \<Rightarrow> remote_error + in_stream_close_request" where
  "decode_in_stream_close_request input =
     (if length input \<noteq> in_stream_close_request_size then
        remote_fail St_ProtocolError Re_Malformed Op_Decode
      else
        let token = get_u32 input 0 in
        if token = 0 then remote_fail St_ProtocolError Re_InvalidValue Op_Decode
        else Inr \<lparr>ic_token = token\<rparr>)"

definition encode_in_stream_closed :: "in_stream_closed \<Rightarrow> byte list" where
  "encode_in_stream_closed closed =
     (let out = replicate in_stream_closed_size 0;
          out = put_u32 out 0 (isc_token closed)
      in put_u8 out 4 (isc_reason closed))"

definition decode_in_stream_closed :: "byte list \<Rightarrow> remote_error + in_stream_closed" where
  "decode_in_stream_closed input =
     (if length input \<noteq> in_stream_closed_size \<or> get_u8 input 5 \<noteq> 0 \<or> get_u8 input 6 \<noteq> 0 \<or>
         get_u8 input 7 \<noteq> 0
      then remote_fail St_ProtocolError Re_Malformed Op_Decode
      else
        let token = get_u32 input 0; reason = get_u8 input 4 in
        if token = 0 \<or> reason > Close_ConfigurationFailed then
          remote_fail St_ProtocolError Re_InvalidValue Op_Decode
        else Inr \<lparr>isc_token = token, isc_reason = reason\<rparr>)"

definition encode_ping_request :: "ping_request \<Rightarrow> byte list" where
  "encode_ping_request request =
     (let out = replicate ping_request_size 0;
          out = put_u64 out 0 (pq_nonce request)
      in put_u64 out 8 (pq_host_monotonic_ns request))"

definition decode_ping_request :: "byte list \<Rightarrow> remote_error + ping_request" where
  "decode_ping_request input =
     (if length input \<noteq> ping_request_size then remote_fail St_ProtocolError Re_Malformed Op_Decode
      else Inr \<lparr>pq_nonce = get_u64 input 0,
                pq_host_monotonic_ns = get_u64 input 8\<rparr>)"

definition encode_ping_response :: "ping_response \<Rightarrow> byte list" where
  "encode_ping_response response =
     (let out = replicate ping_response_size 0;
          out = put_u64 out 0 (pr_nonce response);
          out = put_u64 out 8 (pr_host_monotonic_ns response);
          out = put_u64 out 16 (pr_remote_receive_us response)
      in put_u64 out 24 (pr_remote_send_us response))"

definition decode_ping_response :: "byte list \<Rightarrow> remote_error + ping_response" where
  "decode_ping_response input =
     (if length input \<noteq> ping_response_size then remote_fail St_ProtocolError Re_Malformed Op_Decode
      else Inr \<lparr>pr_nonce = get_u64 input 0,
                pr_host_monotonic_ns = get_u64 input 8,
                pr_remote_receive_us = get_u64 input 16,
                pr_remote_send_us = get_u64 input 24\<rparr>)"

definition encode_introspection_summary :: "introspection_summary \<Rightarrow> byte list" where
  "encode_introspection_summary summary =
     (let out = replicate introspection_summary_size 0;
          out = put_u8 out 0 1;
          out = put_u8 out 1 major_version;
          out = put_u8 out 2 minor_version;
          out = put_u8 out 3 1;
          out = put_u16 out 4 (is_schemas summary);
          out = put_u16 out 6 (is_data summary);
          out = put_u16 out 8 (is_actions summary);
          out = put_u16 out 10 (is_topics summary);
          out = put_u16 out 12 (is_streams summary);
          out = put_u16 out 14 (is_links summary);
          out = put_u32 out 16 (is_maximum_frame_bytes summary)
      in put_u32 out 20 (is_maximum_message_bytes summary))"

definition decode_introspection_summary :: "byte list \<Rightarrow> remote_error + introspection_summary" where
  "decode_introspection_summary input =
     (if length input \<noteq> introspection_summary_size \<or> get_u8 input 0 \<noteq> 1 \<or>
         get_u8 input 1 \<noteq> major_version
      then remote_fail St_ProtocolError Re_Malformed Op_Decode
      else Inr \<lparr>is_schemas = get_u16 input 4,
                is_data = get_u16 input 6,
                is_actions = get_u16 input 8,
                is_topics = get_u16 input 10,
                is_streams = get_u16 input 12,
                is_links = get_u16 input 14,
                is_maximum_frame_bytes = get_u32 input 16,
                is_maximum_message_bytes = get_u32 input 20\<rparr>)"

definition encode_collection_request :: "collection_request \<Rightarrow> byte list" where
  "encode_collection_request request =
     (let out = replicate collection_request_size 0;
          out = put_u16 out 0 (cr_offset request)
      in put_u16 out 2 (cr_limit request))"

definition decode_collection_request :: "byte list \<Rightarrow> remote_error + collection_request" where
  "decode_collection_request input =
     (if length input \<noteq> collection_request_size then remote_fail St_ProtocolError Re_Malformed Op_Decode
      else Inr \<lparr>cr_offset = get_u16 input 0,
                cr_limit = get_u16 input 2\<rparr>)"

definition decode_collection_page_header :: "byte list \<Rightarrow> remote_error + collection_page_header" where
  "decode_collection_page_header input =
     (if length input < collection_page_header_size \<or> get_u8 input 0 \<noteq> 1 then
        remote_fail St_ProtocolError Re_Malformed Op_Decode
      else Inr \<lparr>cp_count = get_u8 input 1,
                cp_total = get_u16 input 2,
                cp_next = get_u16 input 4,
                cp_has_more = (get_u8 input 6 \<noteq> 0)\<rparr>)"

definition encode_collection_query_request :: "collection_query_request \<Rightarrow> byte list" where
  "encode_collection_query_request request =
     (let out = replicate collection_query_request_size 0;
          out = put_u32 out 0 (cq_stable_id request);
          out = put_u32 out 4 (cq_offset request);
          out = put_u32 out 8 (cq_revision request)
      in put_u16 out 12 (cq_limit request))"

definition decode_collection_query_request :: "byte list \<Rightarrow> remote_error + collection_query_request" where
  "decode_collection_query_request input =
     (if length input \<noteq> collection_query_request_size then remote_fail St_ProtocolError Re_Malformed Op_Decode
      else Inr \<lparr>cq_stable_id = get_u32 input 0,
                cq_offset = get_u32 input 4,
                cq_revision = get_u32 input 8,
                cq_limit = get_u16 input 12\<rparr>)"

definition encode_batch_header :: "batch_header \<Rightarrow> byte list" where
  "encode_batch_header header =
     (let out = replicate batch_header_size 0;
          out = put_u16 out 0 (bh_count header);
          out = put_u8 out 2 (bh_codec header)
      in put_u8 out 3 (bh_version header))"

definition decode_batch_header :: "byte list \<Rightarrow> remote_error + batch_header" where
  "decode_batch_header input =
     (if length input < batch_header_size then remote_fail St_ProtocolError Re_Malformed Op_Decode
      else
        let codec = get_u8 input 2; version = get_u8 input 3 in
        if (codec \<noteq> Codec_Cbor \<and> codec \<noteq> Codec_Packed) \<or> version \<noteq> batch_version then
          remote_fail St_ProtocolError Re_UnsupportedVersion Op_Decode
        else Inr \<lparr>bh_count = get_u16 input 0, bh_codec = codec, bh_version = version\<rparr>)"

definition encode_envelope :: "envelope \<Rightarrow> remote_error + byte list" where
  "encode_envelope e =
     (if env_major e \<noteq> major_version \<or> \<not> valid_kind (env_kind e) \<or>
         (env_flags e AND 0xF0) \<noteq> 0 \<or> fragment_count e = 0 \<or>
         fragment_index e \<ge> fragment_count e
      then remote_fail St_Invalid Re_InvalidValue Op_FrameEncode
      else
        let out = replicate envelope_size 0;
            out = put_u8 out 0 (env_major e);
            out = put_u8 out 1 (env_minor e);
            out = put_u8 out 2 (env_kind e);
            out = put_u8 out 3 (env_flags e);
            out = put_u16 out 4 (of_nat envelope_size);
            out = put_u32 out 6 (session_epoch e);
            out = put_u32 out 10 (frame_sequence e);
            out = put_u32 out 14 (env_target e);
            out = put_u32 out 18 (request_id e);
            out = put_u16 out 22 (payload_size e);
            out = put_u16 out 24 (fragment_id e);
            out = put_u8 out 26 (fragment_index e);
            out = put_u8 out 27 (fragment_count e)
        in Inr (put_u32 out 28 (env_reserved e)))"

definition decode_envelope :: "byte list \<Rightarrow> remote_error + envelope" where
  "decode_envelope input =
     (if length input < envelope_size then
        remote_fail St_ProtocolError Re_Malformed Op_FrameDecode
      else if get_u8 input 0 \<noteq> major_version \<or> get_u16 input 4 \<noteq> of_nat envelope_size then
        remote_fail St_NotSupported Re_UnsupportedVersion Op_FrameDecode
      else
        let e = \<lparr>env_major = get_u8 input 0,
                 env_minor = get_u8 input 1,
                 env_kind = get_u8 input 2,
                 env_flags = get_u8 input 3,
                 session_epoch = get_u32 input 6,
                 frame_sequence = get_u32 input 10,
                 env_target = get_u32 input 14,
                 request_id = get_u32 input 18,
                 payload_size = get_u16 input 22,
                 fragment_id = get_u16 input 24,
                 fragment_index = get_u8 input 26,
                 fragment_count = get_u8 input 27,
                 env_reserved = get_u32 input 28\<rparr>
        in if \<not> valid_kind (env_kind e) then
             remote_fail St_NotSupported Re_UnsupportedKind Op_FrameDecode
           else if (env_flags e AND 0xF0) \<noteq> 0 \<or> fragment_count e = 0 \<or>
                   fragment_index e \<ge> fragment_count e
           then remote_fail St_ProtocolError Re_Malformed Op_FrameDecode
           else Inr e)"

section \<open>What a message codec promises\<close>

locale wire_codec =
  fixes enc :: "'m \<Rightarrow> byte list"
    and dec :: "byte list \<Rightarrow> remote_error + 'm"
    and wf :: "'m \<Rightarrow> bool"
    and size :: nat
  assumes length_enc: "wf m \<Longrightarrow> length (enc m) = size"
    and dec_enc: "wf m \<Longrightarrow> dec (enc m) = Inr m"
begin

lemma enc_inj:
  assumes "wf m" and "wf m'" and "enc m = enc m'"
  shows "m = m'"
  using assms by (metis dec_enc sum.inject(2))

end

locale exact_codec = wire_codec +
  assumes dec_length: "dec bs = Inr m \<Longrightarrow> length bs = size"
begin

lemma dec_wrong_size: "length bs \<noteq> size \<Longrightarrow> isl (dec bs)"
  using dec_length by (cases "dec bs") auto

lemma dec_truncated: "wf m \<Longrightarrow> n < size \<Longrightarrow> isl (dec (take n (enc m)))"
  by (rule dec_wrong_size) (simp add: length_enc)

lemma dec_trailing: "wf m \<Longrightarrow> ys \<noteq> [] \<Longrightarrow> isl (dec (enc m @ ys))"
  by (rule dec_wrong_size) (simp add: length_enc)

end

locale canonical_codec = exact_codec +
  assumes dec_wf: "dec bs = Inr m \<Longrightarrow> wf m"
    and enc_dec: "dec bs = Inr m \<Longrightarrow> enc m = bs"
begin

text \<open>The decoder accepts exactly the encodings of well-formed messages.\<close>

lemma dec_iff: "dec bs = Inr m \<longleftrightarrow> wf m \<and> enc m = bs"
  using dec_wf enc_dec dec_enc by blast

end

section \<open>The message codecs keep the promise\<close>

lemma length_replicate_wire [wire_simps]: "length (replicate n (0::byte)) = n"
  by simp

definition subscription_policy_wf :: "subscription_policy \<Rightarrow> bool" where
  "subscription_policy_wf p \<longleftrightarrow> sp_codec p = Codec_Cbor \<or> sp_codec p = Codec_Packed"

definition in_stream_open_response_wf :: "in_stream_open_response \<Rightarrow> bool" where
  "in_stream_open_response_wf r \<longleftrightarrow> subscription_policy_wf (io_policy r) \<and> io_token r \<noteq> 0"

definition in_stream_closed_wf :: "in_stream_closed \<Rightarrow> bool" where
  "in_stream_closed_wf c \<longleftrightarrow> isc_token c \<noteq> 0 \<and> isc_reason c \<le> Close_ConfigurationFailed"

definition batch_header_wf :: "batch_header \<Rightarrow> bool" where
  "batch_header_wf h \<longleftrightarrow>
     (bh_codec h = Codec_Cbor \<or> bh_codec h = Codec_Packed) \<and> bh_version h = batch_version"

definition envelope_wf :: "envelope \<Rightarrow> bool" where
  "envelope_wf e \<longleftrightarrow> env_major e = major_version \<and> valid_kind (env_kind e) \<and>
     (env_flags e AND 0xF0) = 0 \<and> fragment_index e < fragment_count e"

interpretation subscription_request: canonical_codec encode_subscription_request
  decode_subscription_request "\<lambda>_. True" subscription_policy_size
proof
  fix m :: subscription_request
  show "length (encode_subscription_request m) = subscription_policy_size"
    by (simp add: encode_subscription_request_def wire_simps)
  show "decode_subscription_request (encode_subscription_request m) = Inr m"
    by (simp add: encode_subscription_request_def decode_subscription_request_def wire_simps wire_sizes)
next
  fix bs m
  assume dec: "decode_subscription_request bs = Inr m"
  then show len: "length bs = subscription_policy_size"
    by (auto simp: decode_subscription_request_def Let_def split: if_splits)
  show True ..
  show "encode_subscription_request m = bs"
  proof (rule take_eq_imp_eq [of _ subscription_policy_size])
    show "take subscription_policy_size (encode_subscription_request m) = take subscription_policy_size bs"
      unfolding encode_subscription_request_def Let_def wire_sizes
      by (intro wire_take_put)
        (use dec len in \<open>auto simp: decode_subscription_request_def Let_def wire_simps wire_sizes
          split: if_splits\<close>)
  qed (use len in \<open>simp_all add: encode_subscription_request_def wire_simps\<close>)
qed

interpretation credit_grant: canonical_codec encode_credit_grant
  decode_credit_grant "\<lambda>_. True" credit_grant_size
proof
  fix m :: credit_grant
  show "length (encode_credit_grant m) = credit_grant_size"
    by (simp add: encode_credit_grant_def wire_simps)
  show "decode_credit_grant (encode_credit_grant m) = Inr m"
    by (simp add: encode_credit_grant_def decode_credit_grant_def wire_simps wire_sizes)
next
  fix bs m
  assume dec: "decode_credit_grant bs = Inr m"
  then show len: "length bs = credit_grant_size"
    by (auto simp: decode_credit_grant_def Let_def split: if_splits)
  show True ..
  show "encode_credit_grant m = bs"
  proof (rule take_eq_imp_eq [of _ credit_grant_size])
    show "take credit_grant_size (encode_credit_grant m) = take credit_grant_size bs"
      unfolding encode_credit_grant_def Let_def wire_sizes
      by (intro wire_take_put)
        (use dec len in \<open>auto simp: decode_credit_grant_def Let_def wire_simps wire_sizes
          split: if_splits\<close>)
  qed (use len in \<open>simp_all add: encode_credit_grant_def wire_simps\<close>)
qed

interpretation ping_request: canonical_codec encode_ping_request
  decode_ping_request "\<lambda>_. True" ping_request_size
proof
  fix m :: ping_request
  show "length (encode_ping_request m) = ping_request_size"
    by (simp add: encode_ping_request_def wire_simps)
  show "decode_ping_request (encode_ping_request m) = Inr m"
    by (simp add: encode_ping_request_def decode_ping_request_def wire_simps wire_sizes)
next
  fix bs m
  assume dec: "decode_ping_request bs = Inr m"
  then show len: "length bs = ping_request_size"
    by (auto simp: decode_ping_request_def Let_def split: if_splits)
  show True ..
  show "encode_ping_request m = bs"
  proof (rule take_eq_imp_eq [of _ ping_request_size])
    show "take ping_request_size (encode_ping_request m) = take ping_request_size bs"
      unfolding encode_ping_request_def Let_def wire_sizes
      by (intro wire_take_put)
        (use dec len in \<open>auto simp: decode_ping_request_def Let_def wire_simps wire_sizes
          split: if_splits\<close>)
  qed (use len in \<open>simp_all add: encode_ping_request_def wire_simps\<close>)
qed

interpretation ping_response: canonical_codec encode_ping_response
  decode_ping_response "\<lambda>_. True" ping_response_size
proof
  fix m :: ping_response
  show "length (encode_ping_response m) = ping_response_size"
    by (simp add: encode_ping_response_def wire_simps)
  show "decode_ping_response (encode_ping_response m) = Inr m"
    by (simp add: encode_ping_response_def decode_ping_response_def wire_simps wire_sizes)
next
  fix bs m
  assume dec: "decode_ping_response bs = Inr m"
  then show len: "length bs = ping_response_size"
    by (auto simp: decode_ping_response_def Let_def split: if_splits)
  show True ..
  show "encode_ping_response m = bs"
  proof (rule take_eq_imp_eq [of _ ping_response_size])
    show "take ping_response_size (encode_ping_response m) = take ping_response_size bs"
      unfolding encode_ping_response_def Let_def wire_sizes
      by (intro wire_take_put)
        (use dec len in \<open>auto simp: decode_ping_response_def Let_def wire_simps wire_sizes
          split: if_splits\<close>)
  qed (use len in \<open>simp_all add: encode_ping_response_def wire_simps\<close>)
qed

interpretation collection_request: canonical_codec encode_collection_request
  decode_collection_request "\<lambda>_. True" collection_request_size
proof
  fix m :: collection_request
  show "length (encode_collection_request m) = collection_request_size"
    by (simp add: encode_collection_request_def wire_simps)
  show "decode_collection_request (encode_collection_request m) = Inr m"
    by (simp add: encode_collection_request_def decode_collection_request_def wire_simps wire_sizes)
next
  fix bs m
  assume dec: "decode_collection_request bs = Inr m"
  then show len: "length bs = collection_request_size"
    by (auto simp: decode_collection_request_def Let_def split: if_splits)
  show True ..
  show "encode_collection_request m = bs"
  proof (rule take_eq_imp_eq [of _ collection_request_size])
    show "take collection_request_size (encode_collection_request m) = take collection_request_size bs"
      unfolding encode_collection_request_def Let_def wire_sizes
      by (intro wire_take_put)
        (use dec len in \<open>auto simp: decode_collection_request_def Let_def wire_simps wire_sizes
          split: if_splits\<close>)
  qed (use len in \<open>simp_all add: encode_collection_request_def wire_simps\<close>)
qed

interpretation collection_query_request: canonical_codec encode_collection_query_request
  decode_collection_query_request "\<lambda>_. True" collection_query_request_size
proof
  fix m :: collection_query_request
  show "length (encode_collection_query_request m) = collection_query_request_size"
    by (simp add: encode_collection_query_request_def wire_simps)
  show "decode_collection_query_request (encode_collection_query_request m) = Inr m"
    by (simp add: encode_collection_query_request_def decode_collection_query_request_def wire_simps wire_sizes)
next
  fix bs m
  assume dec: "decode_collection_query_request bs = Inr m"
  then show len: "length bs = collection_query_request_size"
    by (auto simp: decode_collection_query_request_def Let_def split: if_splits)
  show True ..
  show "encode_collection_query_request m = bs"
  proof (rule take_eq_imp_eq [of _ collection_query_request_size])
    show "take collection_query_request_size (encode_collection_query_request m) = take collection_query_request_size bs"
      unfolding encode_collection_query_request_def Let_def wire_sizes
      by (intro wire_take_put)
        (use dec len in \<open>auto simp: decode_collection_query_request_def Let_def wire_simps wire_sizes
          split: if_splits\<close>)
  qed (use len in \<open>simp_all add: encode_collection_query_request_def wire_simps\<close>)
qed

interpretation subscription_policy: canonical_codec encode_subscription_policy
  decode_subscription_policy subscription_policy_wf subscription_policy_size
proof
  fix m :: subscription_policy
  show "length (encode_subscription_policy m) = subscription_policy_size"
    by (simp add: encode_subscription_policy_def wire_simps)
  assume "subscription_policy_wf m"
  then show "decode_subscription_policy (encode_subscription_policy m) = Inr m"
    by (auto simp: subscription_policy_wf_def encode_subscription_policy_def decode_subscription_policy_def Let_def wire_simps wire_sizes)
next
  fix bs m
  assume dec: "decode_subscription_policy bs = Inr m"
  then show len: "length bs = subscription_policy_size"
    by (auto simp: decode_subscription_policy_def Let_def split: if_splits)
  from dec show "subscription_policy_wf m"
    by (auto simp: subscription_policy_wf_def decode_subscription_policy_def Let_def split: if_splits)
  show "encode_subscription_policy m = bs"
  proof (rule take_eq_imp_eq [of _ subscription_policy_size])
    show "take subscription_policy_size (encode_subscription_policy m) = take subscription_policy_size bs"
      unfolding encode_subscription_policy_def Let_def wire_sizes
      by (intro wire_take_put)
        (use dec len in \<open>auto simp: decode_subscription_policy_def Let_def wire_simps wire_sizes
          split: if_splits\<close>)
  qed (use len in \<open>simp_all add: encode_subscription_policy_def wire_simps\<close>)
qed

interpretation in_stream_close_request: canonical_codec encode_in_stream_close_request
  decode_in_stream_close_request "\<lambda>r. ic_token r \<noteq> 0" in_stream_close_request_size
proof
  fix m :: in_stream_close_request
  show "length (encode_in_stream_close_request m) = in_stream_close_request_size"
    by (simp add: encode_in_stream_close_request_def wire_simps)
  assume "ic_token m \<noteq> 0"
  then show "decode_in_stream_close_request (encode_in_stream_close_request m) = Inr m"
    by (auto simp: encode_in_stream_close_request_def decode_in_stream_close_request_def Let_def wire_simps wire_sizes)
next
  fix bs m
  assume dec: "decode_in_stream_close_request bs = Inr m"
  then show len: "length bs = in_stream_close_request_size"
    by (auto simp: decode_in_stream_close_request_def Let_def split: if_splits)
  from dec show "ic_token m \<noteq> 0"
    by (auto simp: decode_in_stream_close_request_def Let_def split: if_splits)
  show "encode_in_stream_close_request m = bs"
  proof (rule take_eq_imp_eq [of _ in_stream_close_request_size])
    show "take in_stream_close_request_size (encode_in_stream_close_request m) = take in_stream_close_request_size bs"
      unfolding encode_in_stream_close_request_def Let_def wire_sizes
      by (intro wire_take_put)
        (use dec len in \<open>auto simp: decode_in_stream_close_request_def Let_def wire_simps wire_sizes
          split: if_splits\<close>)
  qed (use len in \<open>simp_all add: encode_in_stream_close_request_def wire_simps\<close>)
qed

text \<open>
  Messages with bytes the encoder leaves zero and the decoder requires to be zero: writing the
  zeros out changes nothing, and then the prefix argument applies.
\<close>

lemma encode_manifest_request_pad:
  "encode_manifest_request m = put_u16 (encode_manifest_request m) 6 0"
  by (rule f16.put_get_id [symmetric]) (simp_all add: encode_manifest_request_def wire_simps wire_sizes)

lemma encode_in_stream_closed_pad:
  "encode_in_stream_closed m =
     put_u8 (put_u8 (put_u8 (encode_in_stream_closed m) 5 0) 6 0) 7 0"
  by (simp add: f8.put_get_id encode_in_stream_closed_def wire_simps wire_sizes)

interpretation manifest_request: canonical_codec encode_manifest_request
  decode_manifest_request "\<lambda>_. True" manifest_request_size
proof
  fix m :: manifest_request
  show "length (encode_manifest_request m) = manifest_request_size"
    by (simp add: encode_manifest_request_def wire_simps)
  show "decode_manifest_request (encode_manifest_request m) = Inr m"
    by (simp add: encode_manifest_request_def decode_manifest_request_def wire_simps wire_sizes)
next
  fix bs m
  assume dec: "decode_manifest_request bs = Inr m"
  then show len: "length bs = manifest_request_size"
    by (auto simp: decode_manifest_request_def Let_def split: if_splits)
  show True ..
  show "encode_manifest_request m = bs"
  proof (rule take_eq_imp_eq [of _ manifest_request_size])
    show "take manifest_request_size (encode_manifest_request m) = take manifest_request_size bs"
      by (subst encode_manifest_request_pad, unfold encode_manifest_request_def Let_def wire_sizes, intro wire_take_put)
        (use dec len in \<open>auto simp: decode_manifest_request_def Let_def wire_simps wire_sizes
          split: if_splits\<close>)
  qed (use len in \<open>simp_all add: encode_manifest_request_def wire_simps\<close>)
qed

interpretation in_stream_closed: canonical_codec encode_in_stream_closed
  decode_in_stream_closed in_stream_closed_wf in_stream_closed_size
proof
  fix m :: in_stream_closed
  show "length (encode_in_stream_closed m) = in_stream_closed_size"
    by (simp add: encode_in_stream_closed_def wire_simps)
  assume "in_stream_closed_wf m"
  then show "decode_in_stream_closed (encode_in_stream_closed m) = Inr m"
    by (auto simp: in_stream_closed_wf_def encode_in_stream_closed_def decode_in_stream_closed_def Let_def wire_simps wire_sizes)
next
  fix bs m
  assume dec: "decode_in_stream_closed bs = Inr m"
  then show len: "length bs = in_stream_closed_size"
    by (auto simp: decode_in_stream_closed_def Let_def split: if_splits)
  from dec show "in_stream_closed_wf m"
    by (auto simp: in_stream_closed_wf_def decode_in_stream_closed_def Let_def split: if_splits)
  show "encode_in_stream_closed m = bs"
  proof (rule take_eq_imp_eq [of _ in_stream_closed_size])
    show "take in_stream_closed_size (encode_in_stream_closed m) = take in_stream_closed_size bs"
      by (subst encode_in_stream_closed_pad, unfold encode_in_stream_closed_def Let_def wire_sizes, intro wire_take_put)
        (use dec len in \<open>auto simp: decode_in_stream_closed_def Let_def wire_simps wire_sizes
          split: if_splits\<close>)
  qed (use len in \<open>simp_all add: encode_in_stream_closed_def wire_simps\<close>)
qed

text \<open>An open response carries a policy as its first eight bytes.\<close>

lemma length_encode_subscription_policy: "length (encode_subscription_policy p) = 8"
  by (simp add: encode_subscription_policy_def wire_simps wire_sizes)

lemma in_stream_open_response_split:
  "encode_in_stream_open_response r =
     put_u32 (encode_subscription_policy (io_policy r) @ replicate 4 0) 8 (io_token r)"
  by (simp add: encode_in_stream_open_response_def length_encode_subscription_policy wire_sizes
      Let_def)

lemma take_open_response:
  "take 8 (encode_in_stream_open_response r) = encode_subscription_policy (io_policy r)"
proof -
  have "take 8 (put_u32 (encode_subscription_policy (io_policy r) @ replicate 4 0) 8 (io_token r)) =
      take 8 (encode_subscription_policy (io_policy r) @ replicate 4 0)"
    by (rule take_eq_nthI)
      (simp_all add: f32.length_put f32.nth_put_outside length_encode_subscription_policy wire_sizes)
  then show ?thesis
    by (simp add: in_stream_open_response_split length_encode_subscription_policy wire_sizes)
qed

interpretation in_stream_open_response: canonical_codec encode_in_stream_open_response
  decode_in_stream_open_response in_stream_open_response_wf in_stream_open_response_size
proof
  fix m :: in_stream_open_response
  show len: "length (encode_in_stream_open_response m) = in_stream_open_response_size"
    by (simp add: in_stream_open_response_split length_encode_subscription_policy wire_simps wire_sizes)
  have token: "get_u32 (encode_in_stream_open_response m) 8 = io_token m"
    by (simp add: in_stream_open_response_split length_encode_subscription_policy wire_simps wire_sizes)
  assume "in_stream_open_response_wf m"
  then show "decode_in_stream_open_response (encode_in_stream_open_response m) = Inr m"
    using len token
    by (simp add: decode_in_stream_open_response_def in_stream_open_response_wf_def wire_sizes
        take_open_response subscription_policy.dec_enc)
next
  fix bs m
  assume dec: "decode_in_stream_open_response bs = Inr m"
  then show len: "length bs = in_stream_open_response_size"
    by (auto simp: decode_in_stream_open_response_def split: if_splits)
  from dec have policy: "decode_subscription_policy (take 8 bs) = Inr (io_policy m)"
    and token: "get_u32 bs 8 = io_token m" "io_token m \<noteq> 0"
    by (auto simp: decode_in_stream_open_response_def Let_def wire_sizes
        split: if_splits sum.splits)
  from policy have p: "subscription_policy_wf (io_policy m)"
      "encode_subscription_policy (io_policy m) = take 8 bs"
    by (simp_all add: subscription_policy.dec_wf subscription_policy.enc_dec)
  with token show "in_stream_open_response_wf m"
    by (simp add: in_stream_open_response_wf_def)
  show "encode_in_stream_open_response m = bs"
  proof (rule take_eq_imp_eq [of _ 12])
    show "take 12 (encode_in_stream_open_response m) = take 12 bs"
      unfolding in_stream_open_response_split p(2)
      by (rule f32.take_put) (use len token in \<open>simp_all add: wire_sizes\<close>)
  qed (use len p(2) in \<open>simp_all add: in_stream_open_response_split wire_simps wire_sizes\<close>)
qed

text \<open>
  The two summaries carry a minor version their decoders do not look at, so those decoders accept
  more than the encoder writes; a batch header may be followed by its items.
\<close>

interpretation introspection_summary: exact_codec encode_introspection_summary
  decode_introspection_summary "\<lambda>_. True" introspection_summary_size
proof
  fix m :: introspection_summary
  show "length (encode_introspection_summary m) = introspection_summary_size"
    by (simp add: encode_introspection_summary_def wire_simps)
  show "decode_introspection_summary (encode_introspection_summary m) = Inr m"
    by (simp add: encode_introspection_summary_def decode_introspection_summary_def wire_simps
        wire_sizes)
next
  fix bs m
  assume "decode_introspection_summary bs = Inr m"
  then show "length bs = introspection_summary_size"
    by (auto simp: decode_introspection_summary_def split: if_splits)
qed

definition server_information_wf :: "server_information \<Rightarrow> bool" where
  "server_information_wf i \<longleftrightarrow> length (si_manifest_digest i) = 32"

lemma get_u8_splice:
  assumes "off < n" and "n \<le> length xs"
  shows "get_u8 (take n xs @ ys) off = get_u8 xs off"
  using assms by (simp add: get_u8_def nth_append)

lemma get_u32_splice:
  assumes "off + 4 \<le> n" and "n \<le> length xs"
  shows "get_u32 (take n xs @ ys) off = get_u32 xs off"
  using assms by (subst f32.get_append) (simp_all add: f32.get_take)

lemma get_u64_splice:
  assumes "off + 8 \<le> n" and "n \<le> length xs"
  shows "get_u64 (take n xs @ ys) off = get_u64 xs off"
  using assms by (subst f64.get_append) (simp_all add: f64.get_take)

lemma take_drop_put_u32:
  assumes "off + 4 \<le> length xs" and "k + n \<le> off"
  shows "take n (drop k (put_u32 xs off v)) = take n (drop k xs)"
  by (rule take_eq_nthI)
    (use assms in \<open>simp_all add: f32.length_put f32.nth_put_outside\<close>)

interpretation server_information: exact_codec encode_server_information
  decode_server_information server_information_wf server_information_size
proof
  fix m
  assume wf: "server_information_wf m"
  then show "length (encode_server_information m) = server_information_size"
    by (simp add: encode_server_information_def server_information_wf_def wire_simps wire_sizes
        Let_def)
  from wf show "decode_server_information (encode_server_information m) = Inr m"
    by (simp add: encode_server_information_def decode_server_information_def
        server_information_wf_def wire_simps wire_sizes Let_def get_u8_splice get_u32_splice
        get_u64_splice take_drop_put_u32)
next
  fix bs m
  assume "decode_server_information bs = Inr m"
  then show "length bs = server_information_size"
    by (auto simp: decode_server_information_def split: if_splits)
qed

interpretation batch_header: wire_codec encode_batch_header decode_batch_header batch_header_wf
  batch_header_size
proof
  fix m
  show "length (encode_batch_header m) = batch_header_size"
    by (simp add: encode_batch_header_def wire_simps)
  assume "batch_header_wf m"
  then show "decode_batch_header (encode_batch_header m) = Inr m"
    by (auto simp: batch_header_wf_def encode_batch_header_def decode_batch_header_def Let_def
        wire_simps wire_sizes)
qed

section \<open>The envelope\<close>

lemma encode_envelope_ok_iff: "is_ok (encode_envelope e) \<longleftrightarrow> envelope_wf e"
  by (auto simp: encode_envelope_def envelope_wf_def Let_def not_le)

lemma length_encode_envelope: "encode_envelope e = Inr bs \<Longrightarrow> length bs = envelope_size"
  by (auto simp: encode_envelope_def Let_def wire_simps split: if_splits)

lemma decode_encode_envelope:
  assumes "encode_envelope e = Inr bs"
  shows "decode_envelope (bs @ rest) = Inr e"
proof -
  have len: "length bs = 32" using length_encode_envelope [OF assms] by (simp add: wire_sizes)
  have wf: "envelope_wf e" using encode_envelope_ok_iff [of e] assms by simp
  from assms have bs: "bs = put_u32 (put_u8 (put_u8 (put_u16 (put_u16 (put_u32 (put_u32 (put_u32
      (put_u32 (put_u16 (put_u8 (put_u8 (put_u8 (put_u8 (replicate 32 0)
        0 (env_major e)) 1 (env_minor e)) 2 (env_kind e)) 3 (env_flags e)) 4 32)
        6 (session_epoch e)) 10 (frame_sequence e)) 14 (env_target e)) 18 (request_id e))
        22 (payload_size e)) 24 (fragment_id e)) 26 (fragment_index e)) 27 (fragment_count e))
        28 (env_reserved e)"
    by (auto simp: encode_envelope_def Let_def wire_sizes split: if_splits)
  have "decode_envelope (bs @ rest) = decode_envelope bs"
    using len by (simp add: decode_envelope_def wire_sizes wire_get_append Let_def)
  also have "\<dots> = Inr e"
    using wf unfolding bs
    by (auto simp: decode_envelope_def envelope_wf_def wire_sizes wire_simps Let_def not_le)
  finally show ?thesis .
qed

lemma decode_envelope_ok:
  assumes "decode_envelope bs = Inr e"
  shows "envelope_size \<le> length bs" and "envelope_wf e"
  using assms
  by (auto simp: decode_envelope_def envelope_wf_def Let_def not_le not_less split: if_splits)

lemma encode_decode_envelope:
  assumes dec: "decode_envelope bs = Inr e"
  shows "encode_envelope e = Inr (take envelope_size bs)"
proof -
  from decode_envelope_ok [OF dec] have len: "32 \<le> length bs" and wf: "envelope_wf e"
    by (simp_all add: wire_sizes)
  from wf encode_envelope_ok_iff [of e] obtain out where out: "encode_envelope e = Inr out"
    by (auto elim: is_okE)
  have fields: "get_u8 bs 0 = env_major e" "get_u8 bs 1 = env_minor e"
      "get_u8 bs 2 = env_kind e" "get_u8 bs 3 = env_flags e" "get_u16 bs 4 = 32"
      "get_u32 bs 6 = session_epoch e" "get_u32 bs 10 = frame_sequence e"
      "get_u32 bs 14 = env_target e" "get_u32 bs 18 = request_id e"
      "get_u16 bs 22 = payload_size e" "get_u16 bs 24 = fragment_id e"
      "get_u8 bs 26 = fragment_index e" "get_u8 bs 27 = fragment_count e"
      "get_u32 bs 28 = env_reserved e"
    using dec by (auto simp: decode_envelope_def Let_def wire_sizes split: if_splits)
  have "take 32 out = take 32 bs"
    using out len fields unfolding encode_envelope_def Let_def wire_sizes
    by (auto split: if_splits simp: wire_simps simp del: take_all take_all_iff
        intro!: wire_take_put)
  with out length_encode_envelope [OF out] show ?thesis by (simp add: wire_sizes)
qed

text \<open>
  C26: the envelope codec is exact: decoding accepts an input if and only if its first 32 bytes are
  the encoding of a well-formed envelope, and then returns that envelope. Bytes after the envelope
  are not looked at, and no other byte pattern is accepted.
\<close>

theorem envelope_decode_iff:
  "decode_envelope bs = Inr e \<longleftrightarrow>
     envelope_size \<le> length bs \<and> encode_envelope e = Inr (take envelope_size bs)"
proof
  assume "decode_envelope bs = Inr e"
  then show "envelope_size \<le> length bs \<and> encode_envelope e = Inr (take envelope_size bs)"
    by (simp add: decode_envelope_ok encode_decode_envelope)
next
  assume "envelope_size \<le> length bs \<and> encode_envelope e = Inr (take envelope_size bs)"
  then have "decode_envelope (take envelope_size bs @ drop envelope_size bs) = Inr e"
    by (intro decode_encode_envelope) simp
  then show "decode_envelope bs = Inr e" by simp
qed

text \<open>
  C27: the ten fixed-layout control messages have canonical encodings: each decoder accepts a byte
  string if and only if it is, byte for byte, the encoding of a message that satisfies the
  decoder's value checks (known codec, non-zero token, known close reason, zero padding), and
  returns that message. So nothing malformed, truncated or padded is accepted.
\<close>

theorem control_messages_canonical:
  "(decode_subscription_request bs = Inr m1 \<longleftrightarrow> encode_subscription_request m1 = bs) \<and>
   (decode_subscription_policy bs = Inr m2 \<longleftrightarrow>
      subscription_policy_wf m2 \<and> encode_subscription_policy m2 = bs) \<and>
   (decode_credit_grant bs = Inr m3 \<longleftrightarrow> encode_credit_grant m3 = bs) \<and>
   (decode_in_stream_open_response bs = Inr m4 \<longleftrightarrow>
      in_stream_open_response_wf m4 \<and> encode_in_stream_open_response m4 = bs) \<and>
   (decode_in_stream_close_request bs = Inr m5 \<longleftrightarrow>
      ic_token m5 \<noteq> 0 \<and> encode_in_stream_close_request m5 = bs) \<and>
   (decode_in_stream_closed bs = Inr m6 \<longleftrightarrow>
      in_stream_closed_wf m6 \<and> encode_in_stream_closed m6 = bs) \<and>
   (decode_ping_request bs = Inr m7 \<longleftrightarrow> encode_ping_request m7 = bs) \<and>
   (decode_ping_response bs = Inr m8 \<longleftrightarrow> encode_ping_response m8 = bs) \<and>
   (decode_manifest_request bs = Inr m9 \<longleftrightarrow> encode_manifest_request m9 = bs) \<and>
   (decode_collection_query_request bs = Inr m10 \<longleftrightarrow> encode_collection_query_request m10 = bs)"
  by (simp only: subscription_request.dec_iff subscription_policy.dec_iff credit_grant.dec_iff
      in_stream_open_response.dec_iff in_stream_close_request.dec_iff in_stream_closed.dec_iff
      ping_request.dec_iff ping_response.dec_iff manifest_request.dec_iff
      collection_query_request.dec_iff simp_thms)

text \<open>
  Server information, the introspection summary and the batch header survive encoding and
  decoding, and the two fixed-size ones are rejected at every other length.
\<close>

theorem summaries_roundtrip:
  "(length (si_manifest_digest i) = 32 \<longrightarrow>
      decode_server_information (encode_server_information i) = Inr i) \<and>
   decode_introspection_summary (encode_introspection_summary s) = Inr s \<and>
   (batch_header_wf h \<longrightarrow> decode_batch_header (encode_batch_header h) = Inr h) \<and>
   (length bs \<noteq> server_information_size \<longrightarrow> isl (decode_server_information bs)) \<and>
   (length bs \<noteq> introspection_summary_size \<longrightarrow> isl (decode_introspection_summary bs))"
  by (simp add: server_information.dec_enc server_information_wf_def
      introspection_summary.dec_enc batch_header.dec_enc
      server_information.dec_wrong_size introspection_summary.dec_wrong_size)

definition sample_information :: server_information where
  "sample_information = \<lparr>si_maximum_frame_bytes = 512, si_maximum_message_bytes = 4096,
     si_build_id = 7, si_manifest_digest = replicate 32 1, si_manifest_size = 99,
     si_feature_flags = 3\<rparr>"

theorem summaries_roundtrip_witness:
  "length (si_manifest_digest sample_information) = 32 \<and>
   decode_server_information (encode_server_information sample_information) =
     Inr sample_information \<and>
   batch_header_wf \<lparr>bh_count = 3, bh_codec = 2, bh_version = 1\<rparr> \<and>
   decode_batch_header (encode_batch_header \<lparr>bh_count = 3, bh_codec = 2, bh_version = 1\<rparr>) =
     Inr \<lparr>bh_count = 3, bh_codec = 2, bh_version = 1\<rparr> \<and>
   isl (decode_server_information []) \<and> isl (decode_introspection_summary [])"
  using summaries_roundtrip [of sample_information undefined
      "\<lparr>bh_count = 3, bh_codec = 2, bh_version = 1\<rparr>" "[]"]
  by (simp add: sample_information_def batch_header_wf_def wire_constants wire_sizes)

text \<open>The operation byte lives in the low byte of the reserved word and nowhere else.\<close>

lemma mask_ff_bit: "bit (0xFF :: u32) n \<longleftrightarrow> n < 8"
proof -
  have "(0xFF :: u32) = mask 8" by (simp add: mask_eq_exp_minus_1)
  then have "bit (0xFF :: u32) n = bit (mask 8 :: u32) n" by (rule arg_cong)
  then show ?thesis by (auto simp: bit_mask_iff simp del: mask_numeral)
qed

lemma mask_ff00_bit: "bit (0xFFFFFF00 :: u32) n \<longleftrightarrow> 8 \<le> n \<and> n < 32"
proof -
  have "(0xFFFFFF00 :: u32) = NOT 0xFF" by simp
  then have "bit (0xFFFFFF00 :: u32) n = bit (NOT 0xFF :: u32) n" by (rule arg_cong)
  then show ?thesis
    by (simp only: bit_not_iff mask_ff_bit) (auto simp: not_less)
qed

lemma env_operation_set: "env_operation (set_operation k e) = k"
  unfolding env_operation_def set_operation_def ucast_and_mask8
  by (rule bit_word_eqI) (auto simp: bit_and_iff bit_or_iff bit_unsigned_iff mask_ff00_bit
      simp del: bit_numeral_word_iff)

lemma set_operation_keeps_high:
  "env_reserved (set_operation k e) AND 0xFFFFFF00 = env_reserved e AND 0xFFFFFF00"
  by (rule bit_word_eqI)
    (auto simp: set_operation_def bit_and_iff bit_or_iff bit_unsigned_iff mask_ff00_bit
       simp del: bit_numeral_word_iff dest: bit_imp_le_length)

end
