(* ===== verification/Remote_Cobs.thy ===== *)
theory Remote_Cobs
  imports Solar_Status
begin

text \<open>
  The host implementation of consistent-overhead byte stuffing in \<^verbatim>\<open>remote/frame.hpp\<close>
  (\<^verbatim>\<open>max_encoded_size\<close>, \<^verbatim>\<open>cobs_encode\<close>, \<^verbatim>\<open>cobs_decode\<close>): index loops over caller-provided
  buffers. The Zephyr build calls the operating system's COBS library instead, which is not part
  of this repository.

  The loops are related to two list functions, \<open>stuff\<close> and \<open>unstuff\<close>, and the round trip, the
  absence of delimiters in the encoded body and the space bound are proved on those.
\<close>

section \<open>The source's loops\<close>

definition max_encoded_size :: "nat \<Rightarrow> nat" where
  "max_encoded_size decoded_size = decoded_size + decoded_size div 254 + 2"

function cobs_encode_loop ::
    "byte list \<Rightarrow> nat \<Rightarrow> nat \<Rightarrow> nat \<Rightarrow> u8 \<Rightarrow> byte list \<Rightarrow> nat \<times> byte list" where
  "cobs_encode_loop input read write code_index code output =
     (if read < length input then
        if input ! read = 0 then
          cobs_encode_loop input (read + 1) (write + 1) write 1 (output[code_index := code])
        else
          let output = output[write := input ! read]; write = write + 1; code = code + 1 in
          if code = 0xFF then
            cobs_encode_loop input (read + 1) (write + 1) write 1 (output[code_index := code])
          else cobs_encode_loop input (read + 1) write code_index code output
      else (write + 1, (output[code_index := code])[write := 0]))"
  by pat_completeness auto
termination
  by (relation "measure (\<lambda>(input, read, _). length input - read)") auto

declare cobs_encode_loop.simps [simp del]

definition cobs_encode :: "byte list \<Rightarrow> byte list \<Rightarrow> (remote_error + nat) \<times> byte list" where
  "cobs_encode input output =
     (if length output < max_encoded_size (length input) then
        (remote_fail St_NoSpace Re_NoSpace Op_FrameEncode, output)
      else
        let (write, output) = cobs_encode_loop input 0 1 0 1 output in (Inr write, output))"

definition copy_bytes :: "nat \<Rightarrow> byte list \<Rightarrow> nat \<Rightarrow> nat \<Rightarrow> byte list \<Rightarrow> byte list" where
  "copy_bytes n input read write output =
     fold (\<lambda>i out. out[write + i := input ! (read + i)]) [0..<n] output"

function cobs_decode_loop ::
    "byte list \<Rightarrow> nat \<Rightarrow> nat \<Rightarrow> byte list \<Rightarrow> (remote_error + nat) \<times> byte list" where
  "cobs_decode_loop input read write output =
     (if read < length input then
        let code = input ! read; read = read + 1 in
        if code = 0 \<or> read + (unat code - 1) > length input then
          (remote_fail St_ProtocolError Re_Malformed Op_FrameDecode, output)
        else if write + unat code - 1 > length output then
          (remote_fail St_NoSpace Re_NoSpace Op_FrameDecode, output)
        else
          let n = unat code - 1;
              output = copy_bytes n input read write output;
              read = read + n;
              write = write + n
          in
          if code \<noteq> 0xFF \<and> read < length input then
            if write = length output then
              (remote_fail St_NoSpace Re_NoSpace Op_FrameDecode, output)
            else cobs_decode_loop input read (write + 1) (output[write := 0])
          else cobs_decode_loop input read write output
      else (Inr write, output))"
  by pat_completeness auto
termination
  by (relation "measure (\<lambda>(input, read, _). length input - read)") auto

declare cobs_decode_loop.simps [simp del]

definition cobs_decode :: "byte list \<Rightarrow> byte list \<Rightarrow> (remote_error + nat) \<times> byte list" where
  "cobs_decode input output =
     (let input = (if input \<noteq> [] \<and> last input = 0 then butlast input else input)
      in cobs_decode_loop input 0 0 output)"

section \<open>List specification\<close>

text \<open>\<open>stuff blk xs\<close>: the encoding of \<open>xs\<close> when the open block already holds \<open>blk\<close>.\<close>

fun stuff :: "byte list \<Rightarrow> byte list \<Rightarrow> byte list" where
  "stuff blk [] = of_nat (length blk + 1) # blk"
| "stuff blk (x # xs) =
     (if x = 0 then (of_nat (length blk + 1) # blk) @ stuff [] xs
      else if length blk + 2 = 255 then (255 # blk @ [x]) @ stuff [] xs
      else stuff (blk @ [x]) xs)"

function unstuff :: "byte list \<Rightarrow> byte list option" where
  "unstuff [] = Some []"
| "unstuff (c # xs) =
     (let n = unat c - 1 in
      if c = 0 \<or> n > length xs then None
      else map_option
        (\<lambda>ys. take n xs @ (if c \<noteq> 0xFF \<and> n < length xs then [0] else []) @ ys)
        (unstuff (drop n xs)))"
  by pat_completeness auto
termination
  by (relation "measure length") auto

declare unstuff.simps(2) [simp del]

section \<open>Properties of the specification\<close>

lemma unat_of_nat_code: "n < 255 \<Longrightarrow> unat (of_nat (n + 1) :: byte) = n + 1"
  by (simp add: unat_of_nat del: of_nat_add of_nat_Suc)

lemma of_nat_code_neq_0: "n < 255 \<Longrightarrow> (of_nat (n + 1) :: byte) \<noteq> 0"
  using unat_of_nat_code [of n] by force

lemma of_nat_code_neq_ff: "n < 254 \<Longrightarrow> (of_nat (n + 1) :: byte) \<noteq> 0xFF"
proof
  assume "n < 254" and "(of_nat (n + 1) :: byte) = 0xFF"
  then have "unat (of_nat (n + 1) :: byte) = unat (0xFF :: byte)" by (rule_tac arg_cong)
  with unat_of_nat_code [of n] \<open>n < 254\<close> show False by simp
qed

lemma stuff_nonempty [simp]: "stuff blk xs \<noteq> []"
  by (induction blk xs rule: stuff.induct) auto

lemma stuff_no_zero: "length blk < 254 \<Longrightarrow> 0 \<notin> set blk \<Longrightarrow> 0 \<notin> set (stuff blk xs)"
proof (induction blk xs rule: stuff.induct)
  case (1 blk)
  then show ?case using of_nat_code_neq_0 [of "length blk"] by auto
next
  case (2 blk x xs)
  then show ?case using of_nat_code_neq_0 [of "length blk"] by auto
qed

lemma unstuff_block:
  assumes "length blk < 254" and "rest \<noteq> []"
  shows "unstuff ((of_nat (length blk + 1) # blk) @ rest) =
    map_option (\<lambda>ys. blk @ 0 # ys) (unstuff rest)"
  using assms of_nat_code_neq_0 [of "length blk"] of_nat_code_neq_ff [of "length blk"]
    unat_of_nat_code [of "length blk"]
  by (simp add: unstuff.simps(2) Let_def del: of_nat_add of_nat_Suc)

lemma unstuff_full_block:
  assumes "length blk = 254"
  shows "unstuff ((255 # blk) @ rest) = map_option (\<lambda>ys. blk @ ys) (unstuff rest)"
  using assms by (simp add: unstuff.simps(2) Let_def)

lemma unstuff_last_block:
  assumes "length blk < 254"
  shows "unstuff (of_nat (length blk + 1) # blk) = Some blk"
  using assms of_nat_code_neq_0 [of "length blk"] unat_of_nat_code [of "length blk"]
  by (simp add: unstuff.simps(2) Let_def del: of_nat_add of_nat_Suc)

lemma unstuff_stuff: "length blk < 254 \<Longrightarrow> unstuff (stuff blk xs) = Some (blk @ xs)"
proof (induction blk xs rule: stuff.induct)
  case (1 blk)
  then show ?case using unstuff_last_block by simp
next
  case (2 blk x xs)
  consider "x = 0" | "x \<noteq> 0" "length blk + 2 = 255" | "x \<noteq> 0" "length blk + 2 \<noteq> 255" by blast
  then show ?case
  proof cases
    case 1
    with 2 unstuff_block [of blk "stuff [] xs"] show ?thesis by simp
  next
    case 2
    with "2.IH"(2) unstuff_full_block [of "blk @ [x]" "stuff [] xs"] show ?thesis by simp
  next
    case 3
    with 2 show ?thesis by simp
  qed
qed

lemma length_stuff_ge: "length blk + 1 \<le> length (stuff blk xs)"
  by (induction blk xs rule: stuff.induct) auto

lemma length_stuff:
  "length blk < 254 \<Longrightarrow> length (stuff blk xs) \<le> length blk + length xs + 1 + (length blk + length xs) div 254"
proof (induction blk xs rule: stuff.induct)
  case (1 blk)
  then show ?case by simp
next
  case (2 blk x xs)
  consider "x = 0" | "x \<noteq> 0" "length blk + 2 = 255" | "x \<noteq> 0" "length blk + 2 \<noteq> 255" by blast
  then show ?case
  proof cases
    case 1
    with "2.IH"(1) have "length (stuff [] xs) \<le> length xs + 1 + length xs div 254" by simp
    moreover have "length xs div 254 \<le> (length blk + Suc (length xs)) div 254"
      by (rule div_le_mono) simp
    ultimately show ?thesis using 1 by simp
  next
    case 2
    with "2.IH"(2) have "length (stuff [] xs) \<le> length xs + 1 + length xs div 254" by simp
    moreover have "(length blk + Suc (length xs)) div 254 = length xs div 254 + 1"
      using 2 by simp
    ultimately show ?thesis using 2 by simp
  next
    case 3
    with 2 have "length (stuff (blk @ [x]) xs) \<le>
        length (blk @ [x]) + length xs + 1 + (length (blk @ [x]) + length xs) div 254"
      by (intro "2.IH"(3)) auto
    with 3 show ?thesis by simp
  qed
qed

section \<open>The encoder loop computes the specification\<close>

lemma close_block:
  assumes "take (length done + 1 + length blk) out = done @ c # blk"
  shows "take (length done + 1 + length blk) (out[length done := code]) = done @ code # blk"
  using assms by (simp add: take_update_swap)

lemma open_next_block:
  assumes "take (length d) out = d" and "length d < length out"
  shows "take (length d + 1 + length []) out = d @ out ! length d # []"
  using assms by (simp add: take_Suc_conv_app_nth)

lemma extend_block:
  assumes "take n out = done @ c # blk" and "n < length out"
  shows "take (n + 1) (out[n := x]) = done @ c # (blk @ [x])"
  using assms by (simp add: take_Suc_update)

lemma code_succ_ff:
  "k < 254 \<Longrightarrow> (of_nat (k + 1) :: byte) + 1 = 0xFF \<longleftrightarrow> k + 2 = 255"
proof -
  assume "k < 254"
  then have "unat ((of_nat (k + 1) :: byte) + 1) = k + 2"
    using unat_of_nat_code [of "k + 1"] by (simp add: add.commute)
  moreover have "unat (0xFF :: byte) = 255" by simp
  ultimately show ?thesis by (metis word_unat_eq_iff)
qed

lemma cobs_encode_loop_stuff:
  assumes "drop read input = xs"
    and "take (length done + 1 + length blk) out = done @ c # blk"
    and "length blk < 254"
    and "length done + length (stuff blk xs) < length out"
  shows "\<exists>out'. cobs_encode_loop input read (length done + 1 + length blk) (length done)
      (of_nat (length blk + 1)) out = (length done + length (stuff blk xs) + 1, out') \<and>
    length out' = length out \<and>
    take (length done + length (stuff blk xs) + 1) out' = done @ stuff blk xs @ [0]"
  using assms
proof (induction xs arbitrary: read "done" blk out c)
  case Nil
  let ?w = "length done + 1 + length blk"
  let ?out = "out[length done := of_nat (length blk + 1)]"
  from Nil.prems(1) have "\<not> read < length input" by simp
  moreover have "take (?w + 1) (?out[?w := 0]) = done @ stuff blk [] @ [0]"
    using Nil.prems(4) close_block [OF Nil.prems(2)] by (simp add: take_Suc_update)
  ultimately show ?case
    by (subst cobs_encode_loop.simps) (auto simp: add.assoc)
next
  case (Cons x xs)
  let ?w = "length done + 1 + length blk"
  have read: "read < length input" "input ! read = x"
      "drop (read + 1) input = xs"
    using drop_eq_ConsD [OF Cons.prems(1)] by simp_all
  note step = cobs_encode_loop.simps [of input read ?w "length done" "of_nat (length blk + 1)" out]
  consider (zero) "x = 0" | (full) "x \<noteq> 0" "length blk + 2 = 255"
    | (more) "x \<noteq> 0" "length blk + 2 \<noteq> 255" by blast
  then show ?case
  proof cases
    case zero
    let ?out = "out[length done := of_nat (length blk + 1)]"
    let ?done = "done @ of_nat (length blk + 1) # blk"
    have "take (length ?done + 1 + length []) ?out = ?done @ ?out ! length ?done # []"
      using close_block [OF Cons.prems(2), of "of_nat (length blk + 1)"] Cons.prems(4) zero
      by (intro open_next_block) simp_all
    from Cons.IH [OF read(3) this] Cons.prems(4) zero step read show ?thesis
      by (simp add: add.assoc)
  next
    case full
    let ?out1 = "out[?w := x]"
    let ?out = "?out1[length done := 0xFF]"
    let ?done = "done @ 0xFF # blk @ [x]"
    have "take (length done + 1 + length (blk @ [x])) ?out1 = done @ c # (blk @ [x])"
      using extend_block [OF Cons.prems(2)] Cons.prems(4) full by simp
    from close_block [OF this, of "0xFF"]
    have "take (length ?done + 1 + length []) ?out = ?done @ ?out ! length ?done # []"
      using Cons.prems(4) full by (intro open_next_block) (simp_all add: add.commute)
    from Cons.IH [OF read(3) this] Cons.prems(3,4) full step read code_succ_ff [of "length blk"]
    show ?thesis by (simp add: add.assoc)
  next
    case more
    let ?out = "out[?w := x]"
    have "?w < length out" using Cons.prems(3,4) more length_stuff_ge [of "blk @ [x]" xs] by simp
    then have "take (length done + 1 + length (blk @ [x])) ?out = done @ c # (blk @ [x])"
      using extend_block [OF Cons.prems(2)] by simp
    from Cons.IH [OF read(3) this] Cons.prems(3,4) more step read code_succ_ff [of "length blk"]
    show ?thesis by (simp add: algebra_simps)
  qed
qed

section \<open>The decoder loop computes the specification\<close>

lemma length_copy_bytes [simp]: "length (copy_bytes n input read write out) = length out"
  by (induction n) (simp_all add: copy_bytes_def)

lemma copy_bytes_Suc:
  "copy_bytes (Suc n) input read write out =
     (copy_bytes n input read write out)[write + n := input ! (read + n)]"
  by (simp add: copy_bytes_def)

lemma take_copy_bytes:
  assumes "read + n \<le> length input" and "write + n \<le> length out"
  shows "take (write + n) (copy_bytes n input read write out) =
    take write out @ take n (drop read input)"
  using assms
proof (induction n)
  case 0
  then show ?case by (simp add: copy_bytes_def)
next
  case (Suc n)
  then show ?case
    by (simp add: copy_bytes_Suc take_Suc_update take_Suc_conv_app_nth)
qed

lemma unat_byte_pos: "c \<noteq> 0 \<Longrightarrow> 0 < unat (c :: byte)"
  by (simp add: unat_gt_0)

lemma cobs_decode_loop_unstuff:
  assumes "unstuff (drop read input) = Some ys" and "read \<le> length input"
    and "take wr out = pre" and "length pre = wr"
    and "wr + length ys \<le> length out"
  shows "\<exists>out'. cobs_decode_loop input read wr out = (Inr (wr + length ys), out') \<and>
    length out' = length out \<and> take (wr + length ys) out' = pre @ ys"
  using assms
proof (induction "length input - read" arbitrary: read wr out pre ys rule: less_induct)
  case less
  note step = cobs_decode_loop.simps [of input read wr out]
  show ?case
  proof (cases "read < length input")
    case False
    with less.prems step show ?thesis by simp
  next
    case True
    define code where "code = input ! read"
    define n where "n = unat code - 1"
    let ?xs = "drop (read + 1) input"
    have drop: "drop read input = code # ?xs"
      using True by (simp add: code_def Cons_nth_drop_Suc)
    from less.prems(1) obtain zs where code: "code \<noteq> 0" "n \<le> length ?xs"
      and zs: "unstuff (drop n ?xs) = Some zs"
      and ys: "ys = take n ?xs @ (if code \<noteq> 0xFF \<and> n < length ?xs then [0] else []) @ zs"
      unfolding drop by (auto simp: unstuff.simps(2) Let_def n_def split: if_splits)
    let ?out = "copy_bytes n input (read + 1) wr out"
    have fits: "wr + n \<le> length out" using less.prems(5) ys code(2) by simp
    have n: "unat code = n + 1" using unat_byte_pos [OF code(1)] n_def by simp
    have copied: "take (wr + n) ?out = pre @ take n ?xs"
      using take_copy_bytes [of "read + 1" n input wr out] fits code(2) True less.prems(3)
      by simp
    have rest: "unstuff (drop (read + 1 + n) input) = Some zs" using zs by (simp add: add.commute)
    have decr: "length input - (read + 1 + n) < length input - read" using True by simp
    have inside: "read + 1 + n \<le> length input" using True code(2) by auto
    show ?thesis
    proof (cases "code \<noteq> 0xFF \<and> read + 1 + n < length input")
      case more: True
      then have "n < length ?xs" by auto
      with more have ys': "ys = take n ?xs @ 0 # zs" using ys by simp
      have w: "wr + n < length out" using less.prems(5) ys' code(2) by simp
      have "take (wr + n + 1) (?out[wr + n := 0]) = pre @ take n ?xs @ [0]"
        using copied w by (simp add: take_Suc_update)
      moreover have "unstuff (drop (read + 1 + n) input) = Some zs" by (rule rest)
      ultimately obtain out' where
        "cobs_decode_loop input (read + 1 + n) (wr + n + 1) (?out[wr + n := 0]) =
           (Inr (wr + n + 1 + length zs), out')"
        "length out' = length out" "take (wr + n + 1 + length zs) out' = pre @ take n ?xs @ [0] @ zs"
        using less.hyps [OF decr, of zs "wr + n + 1" "?out[wr + n := 0]"
            "pre @ take n ?xs @ [0]"] True code(2) more less.prems(4,5) ys' by auto
      moreover have "cobs_decode_loop input read wr out =
          cobs_decode_loop input (read + 1 + n) (wr + n + 1) (?out[wr + n := 0])"
        using step True code fits more w by (simp add: code_def [symmetric] n Let_def)
      ultimately show ?thesis using ys' code(2) by (simp add: add.assoc)
    next
      case False
      then have ys': "ys = take n ?xs @ zs" using ys code(2) by auto
      obtain out' where
        "cobs_decode_loop input (read + 1 + n) (wr + n) ?out = (Inr (wr + n + length zs), out')"
        "length out' = length out" "take (wr + n + length zs) out' = pre @ take n ?xs @ zs"
        using less.hyps [OF decr, of zs "wr + n" ?out "pre @ take n ?xs"]
          inside code(2) rest copied less.prems(4,5) ys' by auto
      moreover have "cobs_decode_loop input read wr out =
          cobs_decode_loop input (read + 1 + n) (wr + n) ?out"
        using step True code(1) inside fits False
        by (auto simp: code_def [symmetric] n Let_def)
      ultimately show ?thesis using ys' code(2) by (simp add: add.assoc)
    qed
  qed
qed

section \<open>Encoding and decoding\<close>

abbreviation cobs_body :: "byte list \<Rightarrow> byte list" where
  "cobs_body input \<equiv> stuff [] input"

lemma cobs_body_no_zero: "0 \<notin> set (cobs_body input)"
  by (rule stuff_no_zero) simp_all

lemma cobs_body_size: "length (cobs_body input) + 1 \<le> max_encoded_size (length input)"
  using length_stuff [of "[]" input] by (simp add: max_encoded_size_def)

lemma cobs_encode_ok:
  assumes "max_encoded_size (length input) \<le> length output"
  shows "\<exists>out. cobs_encode input output = (Inr (length (cobs_body input) + 1), out) \<and>
    length out = length output \<and>
    take (length (cobs_body input) + 1) out = cobs_body input @ [0]"
proof -
  have room: "length (cobs_body input) < length output"
    using cobs_body_size [of input] assms by simp
  then have "output \<noteq> []" by auto
  then have "take (length ([] :: byte list) + 1 + length ([] :: byte list)) output =
      [] @ output ! 0 # []"
    by (cases "output") simp_all
  from cobs_encode_loop_stuff [of 0 input input "[]" "[]" "output", OF _ this] room
  obtain out where "cobs_encode_loop input 0 1 0 1 output = (length (cobs_body input) + 1, out)"
      "length out = length output"
      "take (length (cobs_body input) + 1) out = cobs_body input @ [0]"
    by auto
  with assms show ?thesis by (simp add: cobs_encode_def)
qed

lemma cobs_encode_no_space:
  "length output < max_encoded_size (length input) \<Longrightarrow>
     cobs_encode input output = (remote_fail St_NoSpace Re_NoSpace Op_FrameEncode, output)"
  by (simp add: cobs_encode_def)

lemma cobs_decode_strip:
  assumes "0 \<notin> set body" and "body \<noteq> []"
  shows "cobs_decode (body @ [0]) output = cobs_decode body output"
    and "cobs_decode body output = cobs_decode_loop body 0 0 output"
proof -
  have "last body \<noteq> 0" using assms by (metis last_in_set)
  with assms show "cobs_decode (body @ [0]) output = cobs_decode body output"
    and "cobs_decode body output = cobs_decode_loop body 0 0 output"
    by (simp_all add: cobs_decode_def)
qed

lemma cobs_decode_body:
  assumes "length input \<le> length output"
  shows "\<exists>out. cobs_decode (cobs_body input) output = (Inr (length input), out) \<and>
    length out = length output \<and> take (length input) out = input"
  using cobs_decode_loop_unstuff [of 0 "cobs_body input" input 0 "output" "[]"]
    unstuff_stuff [of "[]" input] assms cobs_decode_strip(2) [OF cobs_body_no_zero]
  by simp

text \<open>
  byte stuffing loses nothing. With an output buffer of \<^verbatim>\<open>max_encoded_size\<close> bytes the encoder
  always succeeds, writes at most that many bytes, and what it writes is a body without a zero
  byte followed by one zero delimiter; decoding the body, with or without the delimiter, into any
  buffer that can hold the input restores the input.
\<close>

theorem cobs_roundtrip:
  assumes "max_encoded_size (length input) \<le> length output"
    and "length input \<le> length scratch"
  shows "\<exists>n out body scratch'. cobs_encode input output = (Inr n, out) \<and>
    n \<le> max_encoded_size (length input) \<and>
    take n out = body @ [0] \<and> 0 \<notin> set body \<and>
    cobs_decode (take n out) scratch = (Inr (length input), scratch') \<and>
    cobs_decode body scratch = (Inr (length input), scratch') \<and>
    take (length input) scratch' = input"
proof -
  from cobs_encode_ok [OF assms(1)] obtain out where out:
    "cobs_encode input output = (Inr (length (cobs_body input) + 1), out)"
    "take (length (cobs_body input) + 1) out = cobs_body input @ [0]" by blast
  from cobs_decode_body [OF assms(2)] obtain scratch' where
    "cobs_decode (cobs_body input) scratch = (Inr (length input), scratch')"
    "take (length input) scratch' = input" by blast
  with out cobs_body_size [of input] cobs_body_no_zero [of input]
    cobs_decode_strip(1) [OF cobs_body_no_zero, of input scratch]
  show ?thesis
    by (intro exI [of _ "length (cobs_body input) + 1"] exI [of _ out]
        exI [of _ "cobs_body input"] exI [of _ scratch']) simp
qed

theorem cobs_roundtrip_witness:
  "\<exists>n out body scratch'. cobs_encode [1, 0, 2] (replicate 5 9) = (Inr n, out) \<and>
    n \<le> max_encoded_size (length [1, 0, 2 :: byte]) \<and>
    take n out = body @ [0] \<and> 0 \<notin> set body \<and>
    cobs_decode (take n out) (replicate 3 9) = (Inr (length [1, 0, 2 :: byte]), scratch') \<and>
    cobs_decode body (replicate 3 9) = (Inr (length [1, 0, 2 :: byte]), scratch') \<and>
    take (length [1, 0, 2 :: byte]) scratch' = [1, 0, 2]"
  by (rule cobs_roundtrip) (simp_all add: max_encoded_size_def)

end
