(* ===== verification/Byte_Checksum.thy ===== *)
theory Byte_Checksum
  imports Solar_Prelude
begin

text \<open>
  What the running checksums of the code have in common: a step that takes the state and the next
  byte, injective in each. The locale \<open>byte_checksum\<close> derives from the two laws that a single changed
  byte always changes the checksum; it is interpreted on the CRC of \<^verbatim>\<open>remote/frame.hpp\<close> in
  \<^verbatim>\<open>Remote_Frame\<close> and on the FNV-1a hash of \<^verbatim>\<open>parameters/persistence.hpp\<close> in \<^verbatim>\<open>Parameter_Record\<close>.
\<close>

lemma xor_cancel_right: "a XOR c = b XOR c \<longleftrightarrow> a = b" for a b c :: "'a::len word"
  by (metis xor.assoc xor.right_neutral xor_self_eq)

lemma xor_cancel_left: "c XOR a = c XOR b \<longleftrightarrow> a = b" for a b c :: "'a::len word"
  by (metis xor.commute xor_cancel_right)

lemma ucast_byte_inj: "(ucast v :: u32) = ucast w \<longleftrightarrow> v = w" for v w :: byte
proof
  assume eq: "(ucast v :: u32) = ucast w"
  show "v = w"
  proof (rule bit_word_eqI)
    fix n
    assume "n < LENGTH(8)"
    then show "bit v n = bit w n"
      using arg_cong [OF eq, of "\<lambda>x. bit x n"] by (simp add: bit_unsigned_iff)
  qed
qed simp

locale byte_checksum =
  fixes step :: "'h \<Rightarrow> byte \<Rightarrow> 'h"
  assumes step_inj_state: "step a v = step b v \<Longrightarrow> a = b"
    and step_inj_byte: "step a v = step a w \<Longrightarrow> v = w"
begin

lemma run_inj: "fold (\<lambda>v h. step h v) xs a = fold (\<lambda>v h. step h v) xs b \<longleftrightarrow> a = b"
  by (induction xs arbitrary: a b) (auto dest: step_inj_state)

lemma run_changed_byte:
  assumes "i < length xs" and "v \<noteq> xs ! i"
  shows "fold (\<lambda>v h. step h v) (xs[i := v]) c \<noteq> fold (\<lambda>v h. step h v) xs c"
proof -
  have "fold (\<lambda>v h. step h v) (take i xs @ v # drop (Suc i) xs) c \<noteq>
      fold (\<lambda>v h. step h v) (take i xs @ xs ! i # drop (Suc i) xs) c"
    using assms(2) by (auto simp: run_inj dest: step_inj_byte)
  then show ?thesis
    using assms(1) by (simp add: upd_conv_take_nth_drop id_take_nth_drop [symmetric])
qed

end

end
