(* ===== verification/Remote_Frame.thy ===== *)
theory Remote_Frame
  imports Remote_Protocol Remote_Cobs Byte_Checksum
begin

text \<open>
  The frame layer of \<^verbatim>\<open>remote/frame.hpp\<close>: the CRC-32C checksum, frame encoding and decoding
  (envelope, payload, checksum, byte stuffing) and the incremental \<^verbatim>\<open>StreamDecoder\<close>. The model
  follows the host build; the build-time ceiling \<^verbatim>\<open>CONFIG_SOLAR_REMOTE_MAX_FRAME_BYTES\<close>, when
  defined, is the argument \<open>max_frame\<close>. The handler a caller passes to \<^verbatim>\<open>feed\<close> is modelled by
  the list of frames it is called with, in call order.
\<close>

section \<open>Checksum\<close>

definition crc_bit :: "u32 \<Rightarrow> u32" where
  "crc_bit crc = drop_bit 1 crc XOR (0x82F63B78 AND (0 - (crc AND 1)))"

definition crc_byte :: "u32 \<Rightarrow> byte \<Rightarrow> u32" where
  "crc_byte crc v = (crc_bit ^^ 8) (crc XOR ucast v)"

definition crc32c :: "byte list \<Rightarrow> u32" where
  "crc32c input = NOT (fold (\<lambda>v crc. crc_byte crc v) input 0xFFFFFFFF)"

section \<open>Frames\<close>

definition overlay :: "byte list \<Rightarrow> nat \<Rightarrow> byte list \<Rightarrow> byte list" where
  "overlay dst off src = take off dst @ src @ drop (off + length src) dst"

record decoded_frame =
  df_envelope :: envelope
  df_payload :: "byte list"

definition above_ceiling :: "nat option \<Rightarrow> nat \<Rightarrow> bool" where
  "above_ceiling max_frame n = (case max_frame of None \<Rightarrow> False | Some m \<Rightarrow> n > m)"

definition frame_encode ::
    "nat option \<Rightarrow> envelope \<Rightarrow> byte list \<Rightarrow> byte list \<Rightarrow> byte list \<Rightarrow>
     (remote_error + nat) \<times> byte list \<times> byte list" where
  "frame_encode max_frame authored payload scratch output =
     (if length payload > 65535 \<or> length scratch < envelope_size + length payload + crc_size then
        (remote_fail St_MessageTooLarge Re_Oversized Op_FrameEncode, scratch, output)
      else if above_ceiling max_frame (envelope_size + length payload + crc_size) then
        (remote_fail St_MessageTooLarge Re_Oversized Op_FrameEncode, scratch, output)
      else
        let e = authored\<lparr>payload_size := of_nat (length payload)\<rparr> in
        case encode_envelope e of
          Inl err \<Rightarrow> (Inl err, scratch, output)
        | Inr encoded_envelope \<Rightarrow>
            let scratch = overlay scratch 0 encoded_envelope;
                scratch = overlay scratch envelope_size payload;
                content_size = envelope_size + length payload;
                checksum = crc32c (take content_size scratch);
                scratch = put_u32 scratch content_size checksum;
                (result, output) = cobs_encode (take (content_size + crc_size) scratch) output
            in (result, scratch, output))"

text \<open>The part of \<^verbatim>\<open>frame::decode\<close> after unstuffing, on the decoded bytes.\<close>

definition frame_parse :: "nat option \<Rightarrow> byte list \<Rightarrow> remote_error + decoded_frame" where
  "frame_parse max_frame bytes =
     (if length bytes < envelope_size + crc_size then
        remote_fail St_ProtocolError Re_Malformed Op_FrameDecode
      else if above_ceiling max_frame (length bytes) then
        remote_fail St_MessageTooLarge Re_Oversized Op_FrameDecode
      else
        let content_size = length bytes - crc_size;
            expected = get_u32 bytes content_size
        in
        if crc32c (take content_size bytes) \<noteq> expected then
          remote_fail St_ProtocolError Re_IntegrityFailure Op_FrameDecode
        else
          case decode_envelope (take envelope_size bytes) of
            Inl err \<Rightarrow> Inl err
          | Inr e \<Rightarrow>
              if unat (payload_size e) \<noteq> content_size - envelope_size then
                remote_fail St_ProtocolError Re_Malformed Op_FrameDecode
              else Inr \<lparr>df_envelope = e,
                        df_payload = take (unat (payload_size e)) (drop envelope_size bytes)\<rparr>)"

definition frame_decode ::
    "nat option \<Rightarrow> byte list \<Rightarrow> byte list \<Rightarrow> (remote_error + decoded_frame) \<times> byte list" where
  "frame_decode max_frame encoded scratch =
     (case cobs_decode encoded scratch of
        (Inl err, scratch) \<Rightarrow> (Inl err, scratch)
      | (Inr decoded_size, scratch) \<Rightarrow>
          (frame_parse max_frame (take decoded_size scratch), scratch))"

section \<open>The stream decoder\<close>

record feed_record =
  accepted :: nat
  rejected :: nat
  overflowed :: nat

record stream_decoder =
  sd_encoded :: "byte list"
  sd_scratch :: "byte list"
  sd_encoded_size :: nat
  sd_dropping :: bool
  sd_totals :: feed_record

definition no_frames :: feed_record where
  "no_frames = \<lparr>accepted = 0, rejected = 0, overflowed = 0\<rparr>"

definition add_records :: "feed_record \<Rightarrow> feed_record \<Rightarrow> feed_record" where
  "add_records a b = \<lparr>accepted = accepted a + accepted b, rejected = rejected a + rejected b,
     overflowed = overflowed a + overflowed b\<rparr>"

text \<open>One iteration of the loop over the input bytes.\<close>

definition feed_byte ::
    "nat option \<Rightarrow> byte \<Rightarrow> stream_decoder \<times> feed_record \<times> decoded_frame list \<Rightarrow>
     stream_decoder \<times> feed_record \<times> decoded_frame list" where
  "feed_byte max_frame b = (\<lambda>(st, rec, handled).
     if b = 0 then
       if sd_dropping st then
         (st\<lparr>sd_dropping := False, sd_encoded_size := 0\<rparr>,
          rec\<lparr>overflowed := overflowed rec + 1\<rparr>, handled)
       else if sd_encoded_size st \<noteq> 0 then
         case frame_decode max_frame (take (sd_encoded_size st) (sd_encoded st)) (sd_scratch st) of
           (Inr d, scratch) \<Rightarrow>
             (st\<lparr>sd_scratch := scratch, sd_encoded_size := 0\<rparr>,
              rec\<lparr>accepted := accepted rec + 1\<rparr>, handled @ [d])
         | (Inl _, scratch) \<Rightarrow>
             (st\<lparr>sd_scratch := scratch, sd_encoded_size := 0\<rparr>,
              rec\<lparr>rejected := rejected rec + 1\<rparr>, handled)
       else (st, rec, handled)
     else if sd_dropping st then (st, rec, handled)
     else if sd_encoded_size st = length (sd_encoded st) then
       (st\<lparr>sd_dropping := True, sd_encoded_size := 0\<rparr>, rec, handled)
     else
       (st\<lparr>sd_encoded := (sd_encoded st)[sd_encoded_size st := b],
           sd_encoded_size := sd_encoded_size st + 1\<rparr>, rec, handled))"

definition feed ::
    "nat option \<Rightarrow> byte list \<Rightarrow> stream_decoder \<Rightarrow>
     stream_decoder \<times> feed_record \<times> decoded_frame list" where
  "feed max_frame input st =
     (let (st, rec, handled) = fold (feed_byte max_frame) input (st, no_frames, [])
      in (st\<lparr>sd_totals := add_records (sd_totals st) rec\<rparr>, rec, handled))"

definition stream_record :: "stream_decoder \<Rightarrow> feed_record" where
  "stream_record st = sd_totals st"

definition pending_bytes :: "stream_decoder \<Rightarrow> nat" where
  "pending_bytes st = sd_encoded_size st"

definition stream_reset :: "stream_decoder \<Rightarrow> stream_decoder" where
  "stream_reset st = st\<lparr>sd_encoded_size := 0, sd_dropping := False, sd_totals := no_frames\<rparr>"

section \<open>The checksum detects a changed byte\<close>

lemma and_minus_one_bit:
  "w AND (0 - (c AND 1)) = (if odd c then w else 0)" for w c :: "'a::len word"
  by (simp add: and_one_eq mod_2_eq_odd)

lemma crc_bit_alt: "crc_bit c = (if odd c then drop_bit 1 c XOR 0x82F63B78 else drop_bit 1 c)"
  unfolding crc_bit_def and_minus_one_bit by simp

lemma bit31_crc_bit: "bit (crc_bit c) 31 \<longleftrightarrow> odd c"
proof -
  have "\<not> bit (drop_bit 1 c) 31"
    using bit_imp_le_length [of c 32] by (auto simp: bit_drop_bit_eq)
  moreover have "bit (0x82F63B78 :: u32) 31" by (simp add: bit_numeral_rec)
  ultimately show ?thesis by (simp add: crc_bit_alt bit_xor_iff)
qed

lemma crc_bit_inj: "crc_bit a = crc_bit b \<Longrightarrow> a = b"
proof -
  assume eq: "crc_bit a = crc_bit b"
  then have parity: "odd a = odd b" using bit31_crc_bit by metis
  with eq have drop: "drop_bit 1 a = drop_bit 1 b"
    by (auto simp: crc_bit_alt xor_cancel_right split: if_splits)
  have "bit a n = bit b n" for n
  proof (cases n)
    case 0
    with parity show ?thesis by (simp add: bit_0)
  next
    case (Suc m)
    then show ?thesis using arg_cong [OF drop, of "\<lambda>w. bit w m"] by (simp add: bit_drop_bit_eq)
  qed
  then show ?thesis by (rule bit_eqI)
qed

lemma crc_bits_inj: "(crc_bit ^^ n) a = (crc_bit ^^ n) b \<Longrightarrow> a = b"
  by (induction n) (auto dest: crc_bit_inj)

lemma crc_byte_inj_crc: "crc_byte a v = crc_byte b v \<longleftrightarrow> a = b"
proof
  assume "crc_byte a v = crc_byte b v"
  then have "a XOR ucast v = b XOR ucast v"
    unfolding crc_byte_def by (rule crc_bits_inj)
  then show "a = b" by (simp only: xor_cancel_right)
qed simp

lemma crc_byte_inj_byte: "crc_byte a v = crc_byte a w \<longleftrightarrow> v = w"
proof
  assume "crc_byte a v = crc_byte a w"
  then have "a XOR ucast v = a XOR ucast w"
    unfolding crc_byte_def by (rule crc_bits_inj)
  then show "v = w" by (simp only: xor_cancel_left ucast_byte_inj)
qed simp

interpretation crc: byte_checksum crc_byte
  by unfold_locales (simp_all add: crc_byte_inj_crc crc_byte_inj_byte)

lemma crc32c_changed_byte:
  assumes "i < length xs" and "v \<noteq> xs ! i"
  shows "crc32c (xs[i := v]) \<noteq> crc32c xs"
  using crc.run_changed_byte [OF assms] by (simp add: crc32c_def)

text \<open>
  C24: a frame that is accepted is rejected once any single byte of it (envelope, payload or
  checksum, after unstuffing) has another value, and the rejection is the integrity failure.
\<close>

theorem frame_byte_corruption_detected:
  assumes "frame_parse max_frame bytes = Inr d" and "i < length bytes" and "v \<noteq> bytes ! i"
  shows "frame_parse max_frame (bytes[i := v]) =
    remote_fail St_ProtocolError Re_IntegrityFailure Op_FrameDecode"
proof -
  let ?n = "length bytes - crc_size"
  from assms(1) have len: "envelope_size + crc_size \<le> length bytes"
    and ceiling: "\<not> above_ceiling max_frame (length bytes)"
    and crc: "crc32c (take ?n bytes) = get_u32 bytes ?n"
    by (auto simp: frame_parse_def Let_def not_less split: if_splits)
  have "crc32c (take ?n (bytes[i := v])) \<noteq> get_u32 (bytes[i := v]) ?n"
  proof (cases "i < ?n")
    case True
    have "get_u32 (bytes[i := v]) ?n = get_u32 bytes ?n"
      using True by (intro f32.get_cong) simp
    with True crc assms(3) crc32c_changed_byte [of i "take ?n bytes" v] show ?thesis
      by (simp add: take_update_swap)
  next
    case False
    with crc assms(2,3) len f32.get_changed [of ?n i bytes v] show ?thesis
      by (simp add: wire_sizes)
  qed
  with len ceiling show ?thesis by (simp add: frame_parse_def Let_def)
qed

section \<open>Frames survive encoding and decoding\<close>

lemma frame_parse_built:
  assumes enc: "encode_envelope e = Inr enc"
    and size: "payload_size e = of_nat (length payload)" "length payload \<le> 65535"
    and bytes: "length bytes = envelope_size + length payload + crc_size"
      "take (envelope_size + length payload) bytes = enc @ payload"
      "get_u32 bytes (envelope_size + length payload) = crc32c (enc @ payload)"
    and ceiling: "\<not> above_ceiling max_frame (length bytes)"
  shows "frame_parse max_frame bytes = Inr \<lparr>df_envelope = e, df_payload = payload\<rparr>"
proof -
  have len: "length enc = envelope_size" by (rule length_encode_envelope [OF enc])
  have "take envelope_size bytes = take envelope_size (enc @ payload)"
    using arg_cong [OF bytes(2), of "take envelope_size"] by (simp add: min_def)
  then have env: "take envelope_size bytes = enc" using len by simp
  have "take (length payload) (drop envelope_size bytes) =
      drop envelope_size (take (envelope_size + length payload) bytes)"
    by (simp add: drop_take)
  also have "\<dots> = payload" unfolding bytes(2) using len by simp
  finally have payload: "take (length payload) (drop envelope_size bytes) = payload" .
  have "unat (payload_size e) = length payload" using size by (simp add: unat_of_nat)
  with bytes ceiling env payload decode_encode_envelope [OF enc, of "[]"] show ?thesis
    by (simp add: frame_parse_def Let_def)
qed

lemma length_overlay:
  "off + length src \<le> length dst \<Longrightarrow> length (overlay dst off src) = length dst"
  by (simp add: overlay_def)

lemma take_overlay:
  "off + length src \<le> length dst \<Longrightarrow>
     take (off + length src) (overlay dst off src) = take off dst @ src"
  by (simp add: overlay_def)

definition frame_fits :: "nat option \<Rightarrow> byte list \<Rightarrow> byte list \<Rightarrow> byte list \<Rightarrow> bool" where
  "frame_fits max_frame payload scratch output \<longleftrightarrow>
     length payload \<le> 65535 \<and>
     envelope_size + length payload + crc_size \<le> length scratch \<and>
     \<not> above_ceiling max_frame (envelope_size + length payload + crc_size) \<and>
     max_encoded_size (envelope_size + length payload + crc_size) \<le> length output"

lemma frame_encode_ok:
  fixes authored payload
  defines "e \<equiv> authored\<lparr>payload_size := of_nat (length payload)\<rparr>"
  assumes fits: "frame_fits max_frame payload scratch out0" and wf: "envelope_wf authored"
  shows "\<exists>content scratch' out.
    frame_encode max_frame authored payload scratch out0 =
      (Inr (length (cobs_body content) + 1), scratch', out) \<and>
    take (length (cobs_body content) + 1) out = cobs_body content @ [0] \<and>
    length content = envelope_size + length payload + crc_size \<and>
    frame_parse max_frame content = Inr \<lparr>df_envelope = e, df_payload = payload\<rparr>"
proof -
  have "envelope_wf e" using wf by (simp add: envelope_wf_def e_def)
  then obtain enc where enc: "encode_envelope e = Inr enc"
    using encode_envelope_ok_iff [of e] by (auto elim: is_okE)
  have len: "length enc = envelope_size" by (rule length_encode_envelope [OF enc])
  let ?n = "envelope_size + length payload"
  define s2 where "s2 = overlay (overlay scratch 0 enc) envelope_size payload"
  define s3 where "s3 = put_u32 s2 ?n (crc32c (take ?n s2))"
  define content where "content = take (?n + crc_size) s3"
  have l1: "length (overlay scratch 0 enc) = length scratch"
    using fits len by (intro length_overlay) (simp add: frame_fits_def)
  then have l2: "length s2 = length scratch"
    using fits unfolding s2_def by (subst length_overlay) (simp_all add: frame_fits_def)
  have t1: "take envelope_size (overlay scratch 0 enc) = enc"
    using take_overlay [of 0 enc scratch] fits len by (simp add: frame_fits_def)
  have t2: "take ?n s2 = enc @ payload"
    using take_overlay [of envelope_size payload "overlay scratch 0 enc"] fits l1 t1
    by (simp add: s2_def frame_fits_def)
  have room: "?n + 4 \<le> length s2" using fits l2 by (simp add: frame_fits_def wire_sizes)
  have t3: "take ?n s3 = enc @ payload"
    unfolding s3_def t2 [symmetric]
    by (rule take_eq_nthI)
      (use room in \<open>simp_all add: f32.length_put f32.nth_put_outside\<close>)
  have g3: "get_u32 s3 ?n = crc32c (enc @ payload)"
    unfolding s3_def using room by (subst f32.get_put) (simp_all add: t2)
  have c: "length content = ?n + crc_size" "take ?n content = enc @ payload"
      "get_u32 content ?n = crc32c (enc @ payload)"
    using room t3 g3
    by (simp_all add: content_def s3_def f32.length_put f32.get_take wire_sizes min_def)
  have parse: "frame_parse max_frame content = Inr \<lparr>df_envelope = e, df_payload = payload\<rparr>"
    using fits c by (intro frame_parse_built [OF enc]) (simp_all add: e_def frame_fits_def)
  obtain out where out: "cobs_encode content out0 = (Inr (length (cobs_body content) + 1), out)"
      "take (length (cobs_body content) + 1) out = cobs_body content @ [0]"
    using cobs_encode_ok [of content out0] fits c(1) by (auto simp: frame_fits_def)
  have "frame_encode max_frame authored payload scratch out0 =
      (Inr (length (cobs_body content) + 1), s3, out)"
    using fits enc out(1)
    unfolding frame_encode_def e_def [symmetric] Let_def s2_def [symmetric] s3_def [symmetric]
      content_def [symmetric]
    by (simp add: frame_fits_def s2_def [symmetric] s3_def [symmetric] content_def [symmetric])
  with out(2) c(1) parse show ?thesis by blast
qed

lemma frame_decode_content:
  assumes "length content \<le> length scratch"
  shows "\<exists>scratch'. frame_decode max_frame (cobs_body content) scratch =
      (frame_parse max_frame content, scratch') \<and> length scratch' = length scratch"
  using cobs_decode_body [OF assms] by (auto simp: frame_decode_def)

lemma frame_encode_okD:
  assumes "frame_encode max_frame authored payload scratch out0 = (Inr n, scratch', out)"
  shows "frame_fits max_frame payload scratch out0" and "envelope_wf authored"
proof -
  let ?e = "authored\<lparr>payload_size := of_nat (length payload)\<rparr>"
  let ?n = "envelope_size + length payload + crc_size"
  from assms obtain enc c where enc: "encode_envelope ?e = Inr enc"
    and fits: "length payload \<le> 65535" "?n \<le> length scratch" "\<not> above_ceiling max_frame ?n"
    and cobs: "cobs_encode (take ?n (put_u32
        (overlay (overlay scratch 0 enc) envelope_size payload) (envelope_size + length payload) c))
        out0 = (Inr n, out)"
    by (auto simp: frame_encode_def Let_def not_less split: if_splits sum.splits prod.splits)
  have "length (overlay (overlay scratch 0 enc) envelope_size payload) = length scratch"
    using fits(2) length_encode_envelope [OF enc] by (simp add: length_overlay)
  with cobs fits(2) have cobs: "\<exists>xs. length xs = ?n \<and> is_ok (fst (cobs_encode xs out0))"
    by (metis (no_types, lifting) f32.length_put fst_conv length_take min.absorb2 sum.disc(2))
  from enc show "envelope_wf authored"
    using encode_envelope_ok_iff [of ?e] by (simp add: envelope_wf_def)
  from cobs have "max_encoded_size ?n \<le> length out0"
    by (auto simp: cobs_encode_def not_less split: if_splits prod.splits)
  with fits show "frame_fits max_frame payload scratch out0" by (simp add: frame_fits_def)
qed

text \<open>
  C22: whatever the frame encoder writes, the frame decoder reads back. If encoding succeeds, the
  written bytes contain a zero only as their last byte, and decoding them into any scratch buffer
  that holds the unstuffed frame returns the authored envelope, with its payload size filled in,
  and the payload. Encoding succeeds exactly when the envelope is well formed and payload, scratch
  and output sizes are within their limits.
\<close>

theorem frame_roundtrip:
  "(is_ok (fst (frame_encode max_frame authored payload scratch out0)) \<longleftrightarrow>
      envelope_wf authored \<and> frame_fits max_frame payload scratch out0) \<and>
   (frame_encode max_frame authored payload scratch out0 = (Inr n, scratch', out) \<longrightarrow>
      envelope_size + length payload + crc_size \<le> length scratch2 \<longrightarrow>
      0 \<notin> set (butlast (take n out)) \<and> last (take n out) = 0 \<and>
      fst (frame_decode max_frame (take n out) scratch2) =
        Inr \<lparr>df_envelope = authored\<lparr>payload_size := of_nat (length payload)\<rparr>,
             df_payload = payload\<rparr>)"
  (is "?A \<and> (?enc \<longrightarrow> ?room \<longrightarrow> ?B)")
proof (intro conjI impI)
  show ?A
  proof
    assume "is_ok (fst (frame_encode max_frame authored payload scratch out0))"
    then obtain n' s' out' where
      "frame_encode max_frame authored payload scratch out0 = (Inr n', s', out')"
      by (metis is_okE prod.collapse)
    then show "envelope_wf authored \<and> frame_fits max_frame payload scratch out0"
      by (simp add: frame_encode_okD)
  next
    assume "envelope_wf authored \<and> frame_fits max_frame payload scratch out0"
    then show "is_ok (fst (frame_encode max_frame authored payload scratch out0))"
      using frame_encode_ok [of max_frame payload scratch out0 authored] by auto
  qed
next
  assume ?enc and room: ?room
  from frame_encode_ok [OF frame_encode_okD [OF \<open>?enc\<close>]] \<open>?enc\<close> obtain content where
    w: "take n out = cobs_body content @ [0]"
    and len: "length content = envelope_size + length payload + crc_size"
    and parse: "frame_parse max_frame content =
      Inr \<lparr>df_envelope = authored\<lparr>payload_size := of_nat (length payload)\<rparr>,
           df_payload = payload\<rparr>"
    by auto
  have "frame_decode max_frame (take n out) scratch2 =
      frame_decode max_frame (cobs_body content) scratch2"
    unfolding w frame_decode_def
    by (simp add: cobs_decode_strip(1) [OF cobs_body_no_zero])
  then show "fst (frame_decode max_frame (take n out) scratch2) =
      Inr \<lparr>df_envelope = authored\<lparr>payload_size := of_nat (length payload)\<rparr>,
           df_payload = payload\<rparr>"
    using frame_decode_content [of content scratch2 max_frame] room len parse by auto
  show "0 \<notin> set (butlast (take n out))" and "last (take n out) = 0"
    unfolding w using cobs_body_no_zero by simp_all
qed

section \<open>The stream decoder, byte by byte\<close>

lemma add_records_simps [simp]:
  "add_records no_frames r = r" "add_records r no_frames = r"
  "add_records (add_records a b) c = add_records a (add_records b c)"
  by (simp_all add: add_records_def no_frames_def)

lemma feed_byte_acc:
  "feed_byte mf b (st, rec, hs) =
     (let (st', rec', hs') = feed_byte mf b (st, no_frames, []) in
      (st', add_records rec rec', hs @ hs'))"
  by (auto simp: feed_byte_def add_records_def no_frames_def split: sum.split prod.split)

lemma feed_bytes_acc:
  "fold (feed_byte mf) xs (st, rec, hs) =
     (let (st', rec', hs') = fold (feed_byte mf) xs (st, no_frames, []) in
      (st', add_records rec rec', hs @ hs'))"
proof (induction xs arbitrary: st rec hs)
  case Nil
  then show ?case by simp
next
  case (Cons b xs)
  obtain st1 r1 h1 where one: "feed_byte mf b (st, no_frames, []) = (st1, r1, h1)"
    by (metis prod_cases3)
  obtain st2 r2 h2 where two: "fold (feed_byte mf) xs (st1, no_frames, []) = (st2, r2, h2)"
    by (metis prod_cases3)
  have "feed_byte mf b (st, rec, hs) = (st1, add_records rec r1, hs @ h1)"
    by (subst feed_byte_acc) (simp add: one)
  moreover have "fold (feed_byte mf) xs (st1, rec', hs') = (st2, add_records rec' r2, hs' @ h2)"
    for rec' hs'
    using Cons.IH [of st1 rec' hs'] two by simp
  ultimately show ?case by (simp add: one)
qed

lemma feed_byte_totals:
  "feed_byte mf b (st\<lparr>sd_totals := t\<rparr>, rec, hs) =
     (let (st', rec', hs') = feed_byte mf b (st, rec, hs) in (st'\<lparr>sd_totals := t\<rparr>, rec', hs'))"
  by (auto simp: feed_byte_def split: sum.split prod.split)

lemma feed_bytes_totals:
  "fold (feed_byte mf) xs (st\<lparr>sd_totals := t\<rparr>, rec, hs) =
     (let (st', rec', hs') = fold (feed_byte mf) xs (st, rec, hs) in
      (st'\<lparr>sd_totals := t\<rparr>, rec', hs'))"
proof (induction xs arbitrary: st rec hs)
  case Nil
  then show ?case by simp
next
  case (Cons b xs)
  obtain st1 r1 h1 where "feed_byte mf b (st, rec, hs) = (st1, r1, h1)" by (metis prod_cases3)
  with Cons.IH [of st1 r1 h1] show ?case by (simp add: feed_byte_totals)
qed

lemma feed_byte_keeps_totals:
  "feed_byte mf b (st, rec, hs) = (st', rec', hs') \<Longrightarrow> sd_totals st' = sd_totals st"
  by (auto simp: feed_byte_def split: if_splits sum.splits prod.splits)

lemma feed_bytes_keep_totals:
  "fold (feed_byte mf) xs (st, rec, hs) = (st', rec', hs') \<Longrightarrow> sd_totals st' = sd_totals st"
proof (induction xs arbitrary: st rec hs)
  case Nil
  then show ?case by simp
next
  case (Cons b xs)
  obtain st1 r1 h1 where one: "feed_byte mf b (st, rec, hs) = (st1, r1, h1)"
    by (metis prod_cases3)
  with Cons show ?case by (auto dest: feed_byte_keeps_totals)
qed

text \<open>
  How a byte stream is cut into reads does not matter. Feeding two chunks one after the other
  gives the same decoder state, the same counters in total and the same frames in the same order
  as feeding their concatenation at once.
\<close>

theorem feed_chunk_independent:
  "feed max_frame (xs @ ys) st =
     (let (st1, rec1, frames1) = feed max_frame xs st;
          (st2, rec2, frames2) = feed max_frame ys st1
      in (st2, add_records rec1 rec2, frames1 @ frames2))"
proof -
  obtain st1 r1 h1 where one: "fold (feed_byte max_frame) xs (st, no_frames, []) = (st1, r1, h1)"
    by (metis prod_cases3)
  obtain st2 r2 h2 where two: "fold (feed_byte max_frame) ys (st1, no_frames, []) = (st2, r2, h2)"
    by (metis prod_cases3)
  have "fold (feed_byte max_frame) ys (st1, r1, h1) = (st2, add_records r1 r2, h1 @ h2)"
    by (subst feed_bytes_acc) (simp add: two)
  moreover have "fold (feed_byte max_frame) ys (st1\<lparr>sd_totals := t\<rparr>, no_frames, []) =
      (st2\<lparr>sd_totals := t\<rparr>, r2, h2)" for t
    by (subst feed_bytes_totals) (simp add: two)
  moreover have "sd_totals st1 = sd_totals st" "sd_totals st2 = sd_totals st1"
    by (rule feed_bytes_keep_totals [OF one], rule feed_bytes_keep_totals [OF two])
  ultimately show ?thesis by (simp add: feed_def one)
qed

section \<open>The stream decoder, frame by frame\<close>

definition stream_ok :: "stream_decoder \<Rightarrow> bool" where
  "stream_ok st \<longleftrightarrow> sd_encoded_size st \<le> length (sd_encoded st) \<and>
     (sd_dropping st \<longrightarrow> sd_encoded_size st = 0)"

definition stream_idle :: "stream_decoder \<Rightarrow> bool" where
  "stream_idle st \<longleftrightarrow> \<not> sd_dropping st \<and> sd_encoded_size st = 0"

lemma length_cobs_decode_loop:
  "length (snd (cobs_decode_loop input read wr out)) = length out"
proof (induction "length input - read" arbitrary: read wr out rule: less_induct)
  case less
  let ?n = "unat (input ! read) - 1"
  have IH: "read < length input \<Longrightarrow>
      length (snd (cobs_decode_loop input (read + 1 + ?n) wr' out')) = length out'" for wr' out'
    by (rule less.hyps) simp
  show ?case
    by (subst cobs_decode_loop.simps) (simp add: Let_def IH [simplified])
qed

lemma length_frame_decode_scratch:
  "length (snd (frame_decode mf encoded scratch)) = length scratch"
proof -
  obtain r sc where rs: "cobs_decode encoded scratch = (r, sc)" by force
  then have "length sc = length scratch"
    by (metis cobs_decode_def length_cobs_decode_loop snd_conv)
  with rs show ?thesis by (cases r) (simp_all add: frame_decode_def)
qed

lemma feed_byte_shape:
  assumes "feed_byte mf b (st, rec, hs) = (st', rec', hs')"
  shows "length (sd_encoded st') = length (sd_encoded st)"
    and "length (sd_scratch st') = length (sd_scratch st)"
    and "stream_ok st \<Longrightarrow> stream_ok st'"
    and "b = 0 \<Longrightarrow> stream_idle st'"
  using assms length_frame_decode_scratch
    [of mf "take (sd_encoded_size st) (sd_encoded st)" "sd_scratch st"]
  by (auto simp: feed_byte_def stream_ok_def stream_idle_def
      split: if_splits sum.splits prod.splits)

lemma feed_bytes_shape:
  assumes "fold (feed_byte mf) xs (st, rec, hs) = (st', rec', hs')"
  shows "length (sd_encoded st') = length (sd_encoded st) \<and>
    length (sd_scratch st') = length (sd_scratch st) \<and> (stream_ok st \<longrightarrow> stream_ok st')"
  using assms
proof (induction xs arbitrary: st rec hs)
  case Nil
  then show ?case by simp
next
  case (Cons b xs)
  obtain st1 r1 h1 where one: "feed_byte mf b (st, rec, hs) = (st1, r1, h1)"
    by (metis prod_cases3)
  with Cons.prems have "fold (feed_byte mf) xs (st1, r1, h1) = (st', rec', hs')" by simp
  from Cons.IH [OF this] feed_byte_shape [OF one] show ?case by simp
qed

text \<open>Bytes of a frame body accumulate in the buffer.\<close>

lemma feed_body:
  assumes "0 \<notin> set body" and "\<not> sd_dropping st"
    and "sd_encoded_size st + length body \<le> length (sd_encoded st)"
  shows "\<exists>enc. fold (feed_byte mf) body (st, rec, hs) =
      (st\<lparr>sd_encoded := enc, sd_encoded_size := sd_encoded_size st + length body\<rparr>, rec, hs) \<and>
    length enc = length (sd_encoded st) \<and>
    take (sd_encoded_size st + length body) enc =
      take (sd_encoded_size st) (sd_encoded st) @ body"
  using assms
proof (induction body arbitrary: st)
  case Nil
  then show ?case by (intro exI [of _ "sd_encoded st"]) simp
next
  case (Cons b body)
  let ?st = "st\<lparr>sd_encoded := (sd_encoded st)[sd_encoded_size st := b],
      sd_encoded_size := sd_encoded_size st + 1\<rparr>"
  have "feed_byte mf b (st, rec, hs) = (?st, rec, hs)"
    using Cons.prems by (auto simp: feed_byte_def)
  moreover from Cons.IH [of ?st] Cons.prems obtain enc where
    "fold (feed_byte mf) body (?st, rec, hs) =
       (?st\<lparr>sd_encoded := enc, sd_encoded_size := sd_encoded_size ?st + length body\<rparr>, rec, hs)"
    "length enc = length (sd_encoded st)"
    "take (sd_encoded_size ?st + length body) enc =
       take (sd_encoded_size ?st) (sd_encoded ?st) @ body"
    by auto
  ultimately show ?case
    using Cons.prems(3) by (intro exI [of _ enc]) (simp add: take_Suc_update)
qed

lemma feed_one_frame:
  assumes idle: "stream_idle st"
    and room: "length (cobs_body content) \<le> length (sd_encoded st)"
      "length content \<le> length (sd_scratch st)"
    and parse: "frame_parse mf content = Inr d"
  shows "\<exists>st'. fold (feed_byte mf) (cobs_body content @ [0]) (st, rec, hs) =
      (st', rec\<lparr>accepted := accepted rec + 1\<rparr>, hs @ [d]) \<and> stream_idle st' \<and>
    length (sd_encoded st') = length (sd_encoded st) \<and>
    length (sd_scratch st') = length (sd_scratch st)"
proof -
  let ?body = "cobs_body content"
  from feed_body [of ?body st mf rec hs] cobs_body_no_zero idle room obtain enc where enc:
    "fold (feed_byte mf) ?body (st, rec, hs) =
       (st\<lparr>sd_encoded := enc, sd_encoded_size := length ?body\<rparr>, rec, hs)"
    "length enc = length (sd_encoded st)" "take (length ?body) enc = ?body"
    by (auto simp: stream_idle_def)
  from frame_decode_content [OF room(2), of mf] parse obtain sc where
    "frame_decode mf ?body (sd_scratch st) = (Inr d, sc)" "length sc = length (sd_scratch st)"
    by auto
  with enc idle show ?thesis by (simp add: feed_byte_def stream_idle_def)
qed

text \<open>
  \<open>is_wire mf f w\<close>: the byte string \<open>w\<close> is what the frame encoder writes for the frame \<open>f\<close>.
\<close>

definition is_wire :: "nat option \<Rightarrow> decoded_frame \<Rightarrow> byte list \<Rightarrow> bool" where
  "is_wire mf f w \<longleftrightarrow> (\<exists>authored payload scratch out0 n scratch' out.
     frame_encode mf authored payload scratch out0 = (Inr n, scratch', out) \<and> w = take n out \<and>
     f = \<lparr>df_envelope = authored\<lparr>payload_size := of_nat (length payload)\<rparr>,
          df_payload = payload\<rparr>)"

lemma is_wireE:
  assumes "is_wire mf f w"
  obtains content where "w = cobs_body content @ [0]"
    "length content = envelope_size + length (df_payload f) + crc_size"
    "frame_parse mf content = Inr f"
proof -
  from assms obtain authored payload scratch out0 n scratch' out where
    enc: "frame_encode mf authored payload scratch out0 = (Inr n, scratch', out)"
    and w: "w = take n out"
    and f: "f = \<lparr>df_envelope = authored\<lparr>payload_size := of_nat (length payload)\<rparr>,
                df_payload = payload\<rparr>"
    by (auto simp: is_wire_def)
  from frame_encode_ok [OF frame_encode_okD [OF enc]] enc w f that show ?thesis by auto
qed

lemma feed_frames:
  assumes "list_all2 (is_wire mf) frames ws" and "stream_idle st"
    and "\<forall>w \<in> set ws. length w \<le> length (sd_encoded st) + 1"
    and "\<forall>f \<in> set frames.
      envelope_size + length (df_payload f) + crc_size \<le> length (sd_scratch st)"
  shows "\<exists>st'. fold (feed_byte mf) (concat ws) (st, rec, hs) =
      (st', rec\<lparr>accepted := accepted rec + length frames\<rparr>, hs @ frames) \<and> stream_idle st'"
  using assms
proof (induction frames ws arbitrary: st rec hs rule: list_all2_induct)
  case Nil
  then show ?case by simp
next
  case (Cons f frames w ws)
  from \<open>is_wire mf f w\<close> obtain content where c: "w = cobs_body content @ [0]"
    "length content = envelope_size + length (df_payload f) + crc_size"
    "frame_parse mf content = Inr f"
    by (rule is_wireE)
  from feed_one_frame [OF Cons.prems(1) _ _ c(3), of rec hs] Cons.prems(2,3) c(1,2)
  obtain st1 where st1: "fold (feed_byte mf) w (st, rec, hs) =
      (st1, rec\<lparr>accepted := accepted rec + 1\<rparr>, hs @ [f])" "stream_idle st1"
      "length (sd_encoded st1) = length (sd_encoded st)"
      "length (sd_scratch st1) = length (sd_scratch st)"
    by auto
  from Cons.IH [OF st1(2), of "rec\<lparr>accepted := accepted rec + 1\<rparr>" "hs @ [f]"] st1(1,3,4)
    Cons.prems(2,3)
  show ?case by (auto simp: add.commute)
qed

lemma feed_delimiter_idle:
  assumes "feed mf (garbage @ [0]) st = (st0, rec0, pre)"
  shows "stream_idle st0 \<and> length (sd_encoded st0) = length (sd_encoded st) \<and>
    length (sd_scratch st0) = length (sd_scratch st)"
proof -
  obtain st1 r1 h1 where one: "fold (feed_byte mf) garbage (st, no_frames, []) = (st1, r1, h1)"
    by (metis prod_cases3)
  obtain st2 r2 h2 where two: "feed_byte mf 0 (st1, r1, h1) = (st2, r2, h2)"
    by (metis prod_cases3)
  from assms one two have "st0 = st2\<lparr>sd_totals := add_records (sd_totals st2) r2\<rparr>"
    by (auto simp: feed_def)
  with feed_byte_shape [OF two] feed_bytes_shape [OF one] show ?thesis
    by (simp add: stream_idle_def)
qed

text \<open>
  C23: the stream decoder resynchronises at a delimiter and then loses nothing. From any decoder
  state and after any bytes whatsoever, one zero byte makes the decoder idle; every well-formed
  frame that follows, of a size the decoder's buffers are declared for, is accepted and handed to
  the handler exactly once and in order, and none is rejected or counted as overflow.
\<close>

theorem stream_decoder_resynchronises:
  assumes "list_all2 (is_wire max_frame) frames ws"
    and "\<forall>w \<in> set ws. length w \<le> length (sd_encoded st) + 1"
    and "\<forall>f \<in> set frames.
      envelope_size + length (df_payload f) + crc_size \<le> length (sd_scratch st)"
  shows "\<exists>st0 rec0 frames0 st1.
    feed max_frame (garbage @ [0]) st = (st0, rec0, frames0) \<and> stream_idle st0 \<and>
    feed max_frame (concat ws) st0 =
      (st1, \<lparr>accepted = length frames, rejected = 0, overflowed = 0\<rparr>, frames) \<and>
    stream_idle st1"
proof -
  obtain st0 rec0 frames0 where zero: "feed max_frame (garbage @ [0]) st = (st0, rec0, frames0)"
    by (metis prod_cases3)
  note shape = feed_delimiter_idle [OF zero]
  from feed_frames [OF assms(1), of st0 no_frames "[]"] shape assms(2,3) obtain st' where
    "fold (feed_byte max_frame) (concat ws) (st0, no_frames, []) =
       (st', no_frames\<lparr>accepted := length frames\<rparr>, frames)" "stream_idle st'"
    by (auto simp: no_frames_def)
  with zero shape show ?thesis by (simp add: feed_def no_frames_def stream_idle_def)
qed

section \<open>Instances\<close>

definition sample_envelope :: envelope where
  "sample_envelope = \<lparr>env_major = 1, env_minor = 2, env_kind = 12, env_flags = 0,
     session_epoch = 5, frame_sequence = 6, env_target = 7, request_id = 8, payload_size = 0,
     fragment_id = 0, fragment_index = 0, fragment_count = 1, env_reserved = 0\<rparr>"

definition sample_frame :: decoded_frame where
  "sample_frame =
     \<lparr>df_envelope = sample_envelope\<lparr>payload_size := of_nat (length [42 :: byte])\<rparr>,
      df_payload = [42]\<rparr>"

lemma sample_envelope_wf: "envelope_wf sample_envelope"
  by (simp add: envelope_wf_def sample_envelope_def valid_kind_def wire_constants)

lemma sample_fits: "frame_fits None [42] (replicate 64 0) (replicate 64 0)"
  by (simp add: frame_fits_def wire_sizes above_ceiling_def max_encoded_size_def)

lemma sample_encode:
  obtains n scratch' out content where
    "frame_encode None sample_envelope [42] (replicate 64 0) (replicate 64 0) =
       (Inr n, scratch', out)"
    "length (take n out) \<le> 39" "frame_parse None content = Inr sample_frame" "content \<noteq> []"
proof -
  from frame_encode_ok [OF sample_fits sample_envelope_wf] obtain content scratch' out where c:
    "frame_encode None sample_envelope [42] (replicate 64 0) (replicate 64 0) =
       (Inr (length (cobs_body content) + 1), scratch', out)"
    "take (length (cobs_body content) + 1) out = cobs_body content @ [0]"
    "length content = 37" "frame_parse None content = Inr sample_frame"
    by (auto simp: sample_frame_def wire_sizes)
  from cobs_body_size [of content] c(3) have "length (cobs_body content @ [0]) \<le> 39"
    by (simp add: max_encoded_size_def)
  with c(2) have "length (take (length (cobs_body content) + 1) out) \<le> 39" by simp
  moreover from c(3) have "content \<noteq> []" by auto
  ultimately show ?thesis using c(1,4) by (intro that)
qed

theorem frame_byte_corruption_detected_witness:
  "\<exists>bytes. frame_parse None bytes = Inr sample_frame \<and> 0 < length bytes \<and>
     frame_parse None (bytes[0 := bytes ! 0 + 1]) =
       remote_fail St_ProtocolError Re_IntegrityFailure Op_FrameDecode"
proof -
  obtain content where "frame_parse None content = Inr sample_frame" "content \<noteq> []"
    by (rule sample_encode)
  with frame_byte_corruption_detected [of None content sample_frame 0 "content ! 0 + 1"]
  show ?thesis by auto
qed

theorem frame_roundtrip_witness:
  "\<exists>n scratch' out.
     frame_encode None sample_envelope [42] (replicate 64 0) (replicate 64 0) =
       (Inr n, scratch', out) \<and>
     fst (frame_decode None (take n out) (replicate 40 0)) = Inr sample_frame"
proof -
  obtain n scratch' out where
    enc: "frame_encode None sample_envelope [42] (replicate 64 0) (replicate 64 0) =
       (Inr n, scratch', out)"
    by (rule sample_encode)
  with frame_roundtrip [of None sample_envelope "[42]" "replicate 64 0" "replicate 64 0" n
      scratch' out "replicate 40 0"]
  show ?thesis by (auto simp: sample_frame_def wire_sizes)
qed

definition sample_decoder :: stream_decoder where
  "sample_decoder = \<lparr>sd_encoded = replicate 64 0, sd_scratch = replicate 64 0,
     sd_encoded_size = 3, sd_dropping = True, sd_totals = no_frames\<rparr>"

theorem stream_decoder_resynchronises_witness:
  "\<exists>w. is_wire None sample_frame w \<and> (\<exists>st0 rec0 frames0 st1.
     feed None ([1, 2, 3] @ [0]) sample_decoder = (st0, rec0, frames0) \<and> stream_idle st0 \<and>
     feed None (concat [w, w]) st0 =
       (st1, \<lparr>accepted = length [sample_frame, sample_frame], rejected = 0, overflowed = 0\<rparr>,
        [sample_frame, sample_frame]) \<and> stream_idle st1)"
proof -
  obtain n scratch' out where
    enc: "frame_encode None sample_envelope [42] (replicate 64 0) (replicate 64 0) =
       (Inr n, scratch', out)" and len: "length (take n out) \<le> 39"
    by (rule sample_encode)
  from enc have w: "is_wire None sample_frame (take n out)"
    unfolding is_wire_def sample_frame_def by blast
  have "list_all2 (is_wire None) [sample_frame, sample_frame] [take n out, take n out]"
    using w by simp
  from stream_decoder_resynchronises [OF this, of sample_decoder "[1, 2, 3]"] len w
  show ?thesis
    by (intro exI [of _ "take n out"]) (simp add: sample_decoder_def sample_frame_def wire_sizes)
qed

end
