(* ===== verification/System_Graph.thy ===== *)
theory System_Graph
  imports Main "HOL-Library.Multiset"
begin

text \<open>
  The compile-time component graph of \<^verbatim>\<open>system/graph.hpp\<close> and the type-list operations of
  \<^verbatim>\<open>core/type_list.hpp\<close> it is computed with. A component type is a value of an arbitrary type
  \<open>'c\<close>, a type list is a list; a graph is given by the authored dependencies of each component
  (\<^verbatim>\<open>Component::Dependencies\<close>) and the predicate \<^verbatim>\<open>generated_component_dependency\<close> the facilities
  specialise. A failing \<^verbatim>\<open>static_assert\<close> and a template with no matching specialisation are the
  results \<open>False\<close> and \<open>None\<close>.
\<close>

section \<open>Type lists\<close>

definition count_types :: "'c \<Rightarrow> 'c list \<Rightarrow> nat" where
  "count_types needle types = foldr (\<lambda>t n. (if needle = t then 1 else 0) + n) types 0"

definition contains_type :: "'c \<Rightarrow> 'c list \<Rightarrow> bool" where
  "contains_type needle types \<longleftrightarrow> count_types needle types \<noteq> 0"

definition unique_types :: "'c list \<Rightarrow> bool" where
  "unique_types types \<longleftrightarrow> list_all (\<lambda>t. count_types t types = 1) types"

fun unique_into :: "'c list \<Rightarrow> 'c list \<Rightarrow> 'c list" where
  "unique_into result [] = result"
| "unique_into result (head # tail) =
     (if list_ex (\<lambda>r. head = r) result then unique_into result tail
      else unique_into (result @ [head]) tail)"

definition make_unique :: "'c list \<Rightarrow> 'c list" where
  "make_unique types = unique_into [] types"

fun remove_first :: "'c \<Rightarrow> 'c list \<Rightarrow> 'c list" where
  "remove_first needle [] = []"
| "remove_first needle (head # tail) =
     (if needle = head then tail else head # remove_first needle tail)"

fun reverse_list :: "'c list \<Rightarrow> 'c list" where
  "reverse_list [] = []"
| "reverse_list (head # tail) = reverse_list tail @ [head]"

section \<open>Dependencies\<close>

record 'c graph =
  components :: "'c list"
  authored :: "'c \<Rightarrow> 'c list"
  generated :: "'c \<Rightarrow> 'c \<Rightarrow> bool"

fun generated_dependencies :: "('c \<Rightarrow> 'c \<Rightarrow> bool) \<Rightarrow> 'c \<Rightarrow> 'c list \<Rightarrow> 'c list" where
  "generated_dependencies gen c [] = []"
| "generated_dependencies gen c (head # tail) =
     (if gen c head then [head] @ generated_dependencies gen c tail
      else generated_dependencies gen c tail)"

definition dependencies :: "'c graph \<Rightarrow> 'c \<Rightarrow> 'c list" where
  "dependencies g c =
     make_unique (authored g c @ generated_dependencies (generated g) c (components g))"

definition validate_dependencies :: "'c graph \<Rightarrow> 'c \<Rightarrow> bool" where
  "validate_dependencies g c \<longleftrightarrow>
     list_all (\<lambda>r. contains_type r (components g)) (dependencies g c)"

section \<open>Type-list operations are the list operations they name\<close>

lemma count_types_count_list: "count_types x xs = count_list xs x"
  by (induction xs) (auto simp: count_types_def)

lemma contains_type_iff [simp]: "contains_type x xs \<longleftrightarrow> x \<in> set xs"
  by (simp add: contains_type_def count_types_count_list count_list_0_iff)

lemma unique_types_iff [simp]: "unique_types xs \<longleftrightarrow> distinct xs"
proof -
  have "(\<forall>t \<in> set xs. count_list xs t = 1) \<longleftrightarrow> distinct xs"
    by (metis One_nat_def count_list_0_iff count_mset distinct_count_atmost_1 not_gr_zero)
  then show ?thesis by (simp add: unique_types_def list_all_iff count_types_count_list)
qed

lemma set_unique_into [simp]: "set (unique_into result xs) = set result \<union> set xs"
  by (induction result xs rule: unique_into.induct) (auto simp: list_ex_iff)

lemma set_make_unique [simp]: "set (make_unique xs) = set xs"
  by (simp add: make_unique_def)

lemma remove_first_remove1 [simp]: "remove_first x xs = remove1 x xs"
  by (induction xs) auto

lemma reverse_list_rev [simp]: "reverse_list xs = rev xs"
  by (induction xs) auto

lemma set_generated_dependencies [simp]:
  "set (generated_dependencies gen c xs) = {d \<in> set xs. gen c d}"
  by (induction xs) auto

lemma set_dependencies:
  "set (dependencies g c) = set (authored g c) \<union> {d \<in> set (components g). generated g c d}"
  by (simp add: dependencies_def)

section \<open>Cycle check\<close>

text \<open>
  \<^verbatim>\<open>ValidateComponentVisit\<close> and \<^verbatim>\<open>ValidateDependencyVisits\<close>: a depth-first walk that rejects a
  component already on the current path. A dependency outside the component list is rejected by
  \<^verbatim>\<open>ValidateComponentDependencies\<close> in the same declaration; the walk rejects it too, which makes
  it a total function.
\<close>

function visit :: "'c graph \<Rightarrow> 'c list \<Rightarrow> 'c \<Rightarrow> bool" where
  "visit g path c =
     (if c \<in> set (components g) \<and> \<not> contains_type c path
      then list_all (visit g (path @ [c])) (dependencies g c)
      else False)"
  by pat_completeness auto
termination
proof (relation "measure (\<lambda>(g, path, c). card (set (components g) - set path))")
  fix g :: "'c graph" and path c d
  assume "c \<in> set (components g) \<and> \<not> contains_type c path" and "d \<in> set (dependencies g c)"
  then have "set (components g) - set (path @ [c]) \<subset> set (components g) - set path" by auto
  then show "((g, path @ [c], d), g, path, c)
      \<in> measure (\<lambda>(g, path, c). card (set (components g) - set path))"
    by (simp add: psubset_card_mono)
qed simp

declare visit.simps [simp del]

definition validate_graph :: "'c graph \<Rightarrow> bool" where
  "validate_graph g \<longleftrightarrow>
     unique_types (components g) \<and>
     list_all (validate_dependencies g) (components g) \<and>
     list_all (visit g []) (components g)"

section \<open>Topological order\<close>

definition dependencies_satisfied :: "'c graph \<Rightarrow> 'c list \<Rightarrow> 'c \<Rightarrow> bool" where
  "dependencies_satisfied g placed c \<longleftrightarrow>
     list_all (\<lambda>d. contains_type d placed) (dependencies g c)"

fun first_ready :: "'c graph \<Rightarrow> 'c list \<Rightarrow> 'c list \<Rightarrow> 'c option" where
  "first_ready g placed [] = None"
| "first_ready g placed (head # tail) =
     (if dependencies_satisfied g placed head then Some head else first_ready g placed tail)"

lemma first_ready_SomeD:
  "first_ready g placed xs = Some r \<Longrightarrow> r \<in> set xs \<and> dependencies_satisfied g placed r"
  by (induction xs) (auto split: if_splits)

lemma first_ready_NoneD:
  "first_ready g placed xs = None \<Longrightarrow> x \<in> set xs \<Longrightarrow> \<not> dependencies_satisfied g placed x"
  by (induction xs) (auto split: if_splits)

function topological_sort :: "'c graph \<Rightarrow> 'c list \<Rightarrow> 'c list \<Rightarrow> 'c list option" where
  "topological_sort g remaining placed =
     (if remaining = [] then Some placed
      else case first_ready g placed remaining of
             None \<Rightarrow> None
           | Some ready \<Rightarrow>
               topological_sort g (remove_first ready remaining) (placed @ [ready]))"
  by pat_completeness auto
termination
  by (relation "measure (\<lambda>(g, remaining, placed). length remaining)")
    (auto dest!: first_ready_SomeD simp: length_remove1 length_pos_if_in_set)

declare topological_sort.simps [simp del]

definition topological_order :: "'c graph \<Rightarrow> 'c list option" where
  "topological_order g = topological_sort g (components g) []"

definition reverse_topological_order :: "'c graph \<Rightarrow> 'c list option" where
  "reverse_topological_order g = map_option reverse_list (topological_order g)"

section \<open>What the order promises\<close>

text \<open>Every component comes after all its dependencies.\<close>

definition dependencies_first :: "'c graph \<Rightarrow> 'c list \<Rightarrow> bool" where
  "dependencies_first g xs \<longleftrightarrow>
     (\<forall>i < length xs. \<forall>d \<in> set (dependencies g (xs ! i)). d \<in> set (take i xs))"

lemma dependencies_first_Nil: "dependencies_first g []"
  by (simp add: dependencies_first_def)

lemma dependencies_first_snoc:
  "dependencies_first g (xs @ [x]) \<longleftrightarrow>
     dependencies_first g xs \<and> set (dependencies g x) \<subseteq> set xs"
  by (auto simp: dependencies_first_def nth_append less_Suc_eq)

lemma topological_sort_order:
  assumes "topological_sort g remaining placed = Some order" and "dependencies_first g placed"
  shows "dependencies_first g order \<and> mset order = mset remaining + mset placed"
  using assms
proof (induction g remaining placed rule: topological_sort.induct)
  case (1 g remaining placed)
  show ?case
  proof (cases "remaining = []")
    case True
    with "1.prems" show ?thesis by (simp add: topological_sort.simps)
  next
    case False
    with "1.prems"(1) obtain r where r: "first_ready g placed remaining = Some r"
      by (auto simp: topological_sort.simps [of g remaining placed] split: option.splits)
    note ready = first_ready_SomeD [OF r]
    from "1.prems"(1) False r
    have "topological_sort g (remove_first r remaining) (placed @ [r]) = Some order"
      by (simp add: topological_sort.simps [of g remaining placed])
    moreover have "dependencies_first g (placed @ [r])"
      using "1.prems"(2) ready
      by (auto simp: dependencies_first_snoc dependencies_satisfied_def list_all_iff)
    ultimately have "dependencies_first g order \<and>
        mset order = mset (remove1 r remaining) + mset (placed @ [r])"
      using "1.IH" [OF False r] by simp
    with ready show ?thesis by (simp add: mset_remove1)
  qed
qed

text \<open>A set in which every component depends on another of the set fails the cycle check.\<close>

lemma visit_no_trap:
  assumes "visit g path c" and "c \<in> S" and "\<forall>x \<in> S. \<exists>y \<in> S. y \<in> set (dependencies g x)"
  shows False
  using assms
proof (induction g path c rule: visit.induct)
  case (1 g path c)
  from "1.prems"(2,3) obtain y where y: "y \<in> S" "y \<in> set (dependencies g c)" by blast
  from "1.prems"(1) have ok: "c \<in> set (components g) \<and> \<not> contains_type c path"
    and "list_all (visit g (path @ [c])) (dependencies g c)"
    by (auto simp: visit.simps [of g path c] split: if_splits)
  with y have "visit g (path @ [c]) y" by (simp add: list_all_iff)
  with "1.IH" [OF ok y(2)] y(1) "1.prems"(3) show False by blast
qed

lemma first_ready_exists:
  assumes "validate_graph g" and "remaining \<noteq> []"
    and "set remaining \<union> set placed = set (components g)"
  shows "first_ready g placed remaining \<noteq> None"
proof
  assume none: "first_ready g placed remaining = None"
  have "\<exists>y \<in> set remaining. y \<in> set (dependencies g x)" if x: "x \<in> set remaining" for x
  proof -
    from first_ready_NoneD [OF none x] obtain y where
      y: "y \<in> set (dependencies g x)" "y \<notin> set placed"
      by (auto simp: dependencies_satisfied_def list_all_iff)
    moreover from x assms(1,3) y(1) have "y \<in> set (components g)"
      by (auto simp: validate_graph_def validate_dependencies_def list_all_iff)
    ultimately show ?thesis using assms(3) by blast
  qed
  moreover obtain c where "c \<in> set remaining" using assms(2) by (cases remaining) auto
  moreover from this have "visit g [] c"
    using assms(1,3) by (auto simp: validate_graph_def list_all_iff)
  ultimately show False using visit_no_trap [of g "[]" c "set remaining"] by blast
qed

lemma topological_sort_total:
  assumes "validate_graph g" and "distinct remaining"
    and "set remaining \<union> set placed = set (components g)"
  shows "\<exists>order. topological_sort g remaining placed = Some order"
  using assms
proof (induction g remaining placed rule: topological_sort.induct)
  case (1 g remaining placed)
  show ?case
  proof (cases "remaining = []")
    case True
    then show ?thesis by (simp add: topological_sort.simps)
  next
    case False
    with "1.prems" obtain r where r: "first_ready g placed remaining = Some r"
      using first_ready_exists [of g remaining placed] by blast
    with first_ready_SomeD [OF r] "1.prems"
    have "\<exists>order. topological_sort g (remove_first r remaining) (placed @ [r]) = Some order"
      by (intro "1.IH" [OF False r]) auto
    with False r show ?thesis by (simp add: topological_sort.simps [of g remaining placed])
  qed
qed

lemma topological_order_total:
  assumes "validate_graph g"
  obtains order where "topological_order g = Some order" and "mset order = mset (components g)"
    and "distinct order" and "dependencies_first g order"
proof -
  have distinct: "distinct (components g)" using assms by (simp add: validate_graph_def)
  with topological_sort_total [OF assms, of "components g" "[]"] obtain order where
    order: "topological_sort g (components g) [] = Some order" by auto
  from topological_sort_order [OF this dependencies_first_Nil]
  have "dependencies_first g order" "mset order = mset (components g)" by auto
  moreover from this(2) distinct have "distinct order" by (metis mset_eq_imp_distinct_iff)
  ultimately show ?thesis using order that by (simp add: topological_order_def)
qed

text \<open>
  C28: a component graph that passes validation (no duplicate, no missing dependency, no cycle)
  always has a topological order: the sort never gets stuck, its result contains each component
  exactly once, and every component comes after all of its authored and generated dependencies.
\<close>

theorem topological_order_correct:
  assumes "validate_graph g"
  shows "\<exists>order. topological_order g = Some order \<and> mset order = mset (components g) \<and>
    distinct order \<and> dependencies_first g order"
  using topological_order_total [OF assms] by metis

text \<open>The reverse order tears a component down before anything it depends on.\<close>

lemma dependencies_first_rev:
  assumes "dependencies_first g order" and "i < length order"
    and "d \<in> set (dependencies g (rev order ! i))"
  shows "d \<in> set (drop (Suc i) (rev order))"
proof -
  let ?j = "length order - Suc i"
  have "rev order ! i = order ! ?j" using assms(2) by (rule rev_nth)
  with assms have "d \<in> set (take ?j order)" by (auto simp: dependencies_first_def)
  then show ?thesis using assms(2) by (simp add: drop_rev)
qed

lemma topological_sort_sorted:
  assumes "dependencies_first g (placed @ remaining)"
  shows "topological_sort g remaining placed = Some (placed @ remaining)"
  using assms
proof (induction remaining arbitrary: placed)
  case Nil
  then show ?case by (simp add: topological_sort.simps)
next
  case (Cons r rest)
  from Cons.prems have "set (dependencies g r) \<subseteq> set placed"
    unfolding dependencies_first_def by (force dest!: spec [of _ "length placed"])
  then have "first_ready g placed (r # rest) = Some r"
    by (auto simp: dependencies_satisfied_def list_all_iff)
  with Cons.IH [of "placed @ [r]"] Cons.prems show ?case
    by (simp add: topological_sort.simps [of g "r # rest" placed])
qed

text \<open>
  The sort is stable. A component list that already satisfies every dependency is its own
  topological order, so declaration order decides between independent components.
\<close>

theorem topological_order_stable:
  assumes "dependencies_first g (components g)"
  shows "topological_order g = Some (components g)"
  using topological_sort_sorted [of g "[]" "components g"] assms
  by (simp add: topological_order_def)

section \<open>Instances\<close>

definition sample_graph :: "nat graph" where
  "sample_graph = \<lparr>components = [2, 1, 0], authored = (\<lambda>c. if c = 2 then [1] else []),
     generated = (\<lambda>c d. c = 1 \<and> d = 0)\<rparr>"

lemma sample_dependencies:
  "dependencies sample_graph c = (if c = 2 then [1] else if c = 1 then [0] else [])"
  by (simp add: dependencies_def sample_graph_def make_unique_def)

lemma sample_components: "components sample_graph = [2, 1, 0]"
  by (simp add: sample_graph_def)

lemma sample_graph_valid: "validate_graph sample_graph"
  by (simp add: validate_graph_def validate_dependencies_def sample_dependencies
      sample_components visit.simps)

theorem topological_order_correct_witness:
  "validate_graph sample_graph \<and>
   (\<exists>order. topological_order sample_graph = Some order \<and>
      mset order = mset (components sample_graph) \<and> distinct order \<and>
      dependencies_first sample_graph order)"
  using sample_graph_valid topological_order_correct [OF sample_graph_valid] by blast

definition sorted_sample :: "nat graph" where
  "sorted_sample = sample_graph\<lparr>components := [0, 1, 2]\<rparr>"

lemma sorted_sample_first: "dependencies_first sorted_sample (components sorted_sample)"
proof -
  have "dependencies sorted_sample c = (if c = 2 then [1] else if c = 1 then [0] else [])" for c
    by (simp add: dependencies_def sample_graph_def sorted_sample_def make_unique_def)
  then show ?thesis
    by (simp add: dependencies_first_def sorted_sample_def sample_graph_def less_Suc_eq
        all_conj_distrib numeral_2_eq_2)
qed

theorem topological_order_stable_witness:
  "dependencies_first sorted_sample (components sorted_sample) \<and>
   topological_order sorted_sample = Some (components sorted_sample)"
  using sorted_sample_first topological_order_stable [OF sorted_sample_first] by blast

end
