(* ===== verification/Lifecycle_Types.thy ===== *)
theory Lifecycle_Types
  imports Solar_Status System_Graph
begin

text \<open>
  The data of the lifecycle component: \<^verbatim>\<open>lifecycle/types.hpp\<close>, the hooks of \<^verbatim>\<open>lifecycle/hooks.hpp\<close>,
  the execution protocols of \<^verbatim>\<open>lifecycle/protocol.hpp\<close> and the engine storage of
  \<^verbatim>\<open>lifecycle/engine.hpp\<close>.

  Component hooks (\<^verbatim>\<open>init\<close>, \<^verbatim>\<open>start\<close>, \<^verbatim>\<open>stop\<close>, \<^verbatim>\<open>deinit\<close>) are application code and the execution and
  catalog protocols are specialised by other subsystems: they are fields of the record \<open>lifecycle_config\<close>,
  functions that read and change an opaque world \<open>'w\<close>. Each engine state carries, beside the
  fields of \<^verbatim>\<open>Storage\<close>, that world and the log of the calls made into it; the log is what the
  ordering theorems talk about. Component records are kept per component instead of in an array
  indexed by the catalog's local id, which is a bijection; the static descriptor view is left out.
\<close>

datatype system_state =
    Sys_Dormant | Sys_Initializing | Sys_Starting | Sys_Running | Sys_Stopping
  | Sys_Deinitializing | Sys_RollingBack | Sys_Stopped | Sys_Failed

datatype component_state =
    Comp_Registered | Comp_Initializing | Comp_Initialized | Comp_Starting | Comp_Running
  | Comp_Stopping | Comp_Stopped | Comp_Deinitializing | Comp_Deinitialized | Comp_Failed

datatype component_category = Cat_Device | Cat_Facility | Cat_Service | Cat_Executor

datatype lifecycle_operation =
    LOp_None | LOp_Init | LOp_Start | LOp_PrepareExecution | LOp_ValidateExecution
  | LOp_ActivateExecution | LOp_RequestExecutionStop | LOp_ContainExecution | LOp_Stop | LOp_Deinit

datatype hook_outcome = Hook_NotPresent | Hook_NotAttempted | Hook_Succeeded | Hook_Failed

record hook_record =
  hk_outcome :: hook_outcome
  hk_status :: status
  hk_attempts :: u16

record 'c failure =
  fl_component :: "'c option"
  fl_category :: component_category
  fl_operation :: lifecycle_operation
  fl_status :: status
  fl_primary :: bool
  fl_catalog :: "(u64 \<times> u16) option"

record 'c component_record =
  cr_category :: component_category
  cr_state :: component_state
  cr_init :: hook_record
  cr_start :: hook_record
  cr_stop :: hook_record
  cr_deinit :: hook_record
  cr_last_operation :: lifecycle_operation
  cr_last_status :: status
  cr_first_failure :: "'c failure option"
  cr_transitions :: u32
  cr_attempts :: u32
  cr_init_succeeded :: bool
  cr_start_succeeded :: bool
  cr_execution_prepared :: bool
  cr_execution_contained :: bool
  cr_cleanup_blocked :: bool

record component_page =
  cpg_offset :: nat
  cpg_count :: nat
  cpg_total :: nat

definition has_more :: "component_page \<Rightarrow> bool" where
  "has_more p \<longleftrightarrow> cpg_offset p + cpg_count p < cpg_total p"

text \<open>\<^verbatim>\<open>FailureDetails\<close>: the retained prefix of the entries array and the number of failures seen.\<close>

record 'c failure_details =
  fd_entries :: "'c failure list"
  fd_total :: nat

definition no_failures :: "'c failure_details" where
  "no_failures = \<lparr>fd_entries = [], fd_total = 0\<rparr>"

definition truncated :: "'c failure_details \<Rightarrow> bool" where
  "truncated d \<longleftrightarrow> fd_total d > length (fd_entries d)"

definition add_failure :: "nat \<Rightarrow> 'c failure \<Rightarrow> 'c failure_details \<Rightarrow> 'c failure_details" where
  "add_failure capacity f d =
     (let d = d\<lparr>fd_total := fd_total d + 1\<rparr> in
      if length (fd_entries d) < capacity then d\<lparr>fd_entries := fd_entries d @ [f]\<rparr> else d)"

record 'c boot_report =
  br_initial_state :: system_state
  br_final_state :: system_state
  br_initialization_completed :: bool
  br_start_completed :: bool
  br_primary_failure :: "'c failure option"
  br_initialized_components :: nat
  br_started_components :: nat
  br_rollback_attempted :: bool
  br_rollback_completed :: bool
  br_cleanup_failures :: "'c failure_details"
  br_uncontained_execution :: nat
  br_preserved_dependencies :: nat

datatype boot_error_reason =
    BE_Busy | BE_AlreadyRunning | BE_RebootUnsupported | BE_ComponentFailure
  | BE_ExecutionFailure | BE_InternalInvariant

record 'c boot_error =
  be_reason :: boot_error_reason
  be_status :: status
  be_failure :: "'c failure option"

text \<open>
  The part of \<^verbatim>\<open>StopReport\<close> that \<^verbatim>\<open>request_execution_stop\<close> and \<^verbatim>\<open>contain_execution\<close> update; the
  rollback passes them a \<^verbatim>\<open>RollbackReportAdapter\<close> with the same fields.
\<close>

record 'c execution_report =
  xr_failures :: "'c failure_details"
  xr_uncontained_execution :: nat
  xr_preserved_dependencies :: nat
  xr_clean_exits :: nat
  xr_forced_exits :: nat
  xr_join_timeouts :: nat
  xr_abort_attempts :: nat
  xr_abort_failures :: nat

record 'c stop_report = "'c execution_report" +
  sr_initial_state :: system_state
  sr_final_state :: system_state
  sr_stopped_components :: nat
  sr_deinitialized_components :: nat

datatype stop_error_reason = SE_Busy | SE_InvalidState | SE_ShutdownFailed | SE_InternalInvariant

record 'c stop_error =
  se_reason :: stop_error_reason
  se_status :: status
  se_failure :: "'c failure option"

record containment =
  ct_status :: status
  ct_contained :: bool
  ct_forced :: bool
  ct_timed_out :: bool
  ct_abort_attempted :: bool
  ct_abort_failed :: bool

section \<open>What the engine is configured with\<close>

type_synonym hook_result = "status + unit"

datatype 'c call =
    Call_Init 'c | Call_Start 'c | Call_Stop 'c | Call_Deinit 'c
  | Call_Prepare 'c | Call_Validate 'c | Call_Activate 'c | Call_RequestStop 'c | Call_Contain 'c
  | Call_SystemPrepare | Call_SystemValidate | Call_SystemActivate
  | Call_SystemRequestStop | Call_SystemContain
  | Call_Commit nat | Call_ActivateCatalog nat

record ('c, 'w) lifecycle_config =
  lc_graph :: "'c graph"
  lc_category :: "'c \<Rightarrow> component_category"
  lc_failure_capacity :: nat
  lc_records_lock :: "status option"
  lc_has_init :: "'c \<Rightarrow> bool"
  lc_has_start :: "'c \<Rightarrow> bool"
  lc_has_stop :: "'c \<Rightarrow> bool"
  lc_has_deinit :: "'c \<Rightarrow> bool"
  lc_init :: "'c \<Rightarrow> 'w \<Rightarrow> hook_result \<times> 'w"
  lc_start :: "'c \<Rightarrow> 'w \<Rightarrow> hook_result \<times> 'w"
  lc_stop :: "'c \<Rightarrow> 'w \<Rightarrow> hook_result \<times> 'w"
  lc_deinit :: "'c \<Rightarrow> 'w \<Rightarrow> hook_result \<times> 'w"
  lc_participates :: "'c \<Rightarrow> bool"
  lc_prepare :: "'c \<Rightarrow> 'w \<Rightarrow> hook_result \<times> 'w"
  lc_validate :: "'c \<Rightarrow> 'w \<Rightarrow> hook_result \<times> 'w"
  lc_activate :: "'c \<Rightarrow> 'w \<Rightarrow> 'w"
  lc_request_stop :: "'c \<Rightarrow> 'w \<Rightarrow> hook_result \<times> 'w"
  lc_contain :: "'c \<Rightarrow> 'w \<Rightarrow> containment \<times> 'w"
  lc_uncontained_dependencies :: "'c \<Rightarrow> 'w \<Rightarrow> 'c list"
  lc_system_participates :: bool
  lc_system_prepare :: "'w \<Rightarrow> hook_result \<times> 'w"
  lc_system_validate :: "'w \<Rightarrow> hook_result \<times> 'w"
  lc_system_activate :: "'w \<Rightarrow> 'w"
  lc_system_request_stop :: "'w \<Rightarrow> hook_result \<times> 'w"
  lc_system_contain :: "'w \<Rightarrow> containment \<times> 'w"
  lc_system_failure :: "lifecycle_operation \<Rightarrow> status \<Rightarrow> 'w \<Rightarrow> 'c failure"
  lc_system_uncontained_count :: "'w \<Rightarrow> nat"
  lc_system_uncontained_dependencies :: "'w \<Rightarrow> 'c list"
  lc_catalogs :: nat
  lc_catalog_participates :: "nat \<Rightarrow> bool"
  lc_commit :: "nat \<Rightarrow> 'w \<Rightarrow> hook_result \<times> 'w"
  lc_commit_failure :: "nat \<Rightarrow> lifecycle_operation \<Rightarrow> status \<Rightarrow> 'w \<Rightarrow> 'c failure"
  lc_activate_catalog :: "nat \<Rightarrow> 'w \<Rightarrow> 'w"

record ('c, 'w) engine =
  en_system_state :: system_state
  en_operation_active :: bool
  en_records :: "'c \<Rightarrow> 'c component_record"
  en_last_boot :: "'c boot_report option"
  en_last_stop :: "'c stop_report option"
  en_world :: 'w
  en_calls :: "'c call list"

definition topo :: "('c, 'w) lifecycle_config \<Rightarrow> 'c list" where
  "topo cfg = (case topological_order (lc_graph cfg) of Some order \<Rightarrow> order | None \<Rightarrow> [])"

definition rtopo :: "('c, 'w) lifecycle_config \<Rightarrow> 'c list" where
  "rtopo cfg = reverse_list (topo cfg)"

section \<open>Initial storage\<close>

definition initial_hook :: "bool \<Rightarrow> hook_record" where
  "initial_hook present =
     \<lparr>hk_outcome = (if present then Hook_NotAttempted else Hook_NotPresent),
      hk_status = St_Ok, hk_attempts = 0\<rparr>"

definition initial_record :: "('c, 'w) lifecycle_config \<Rightarrow> 'c \<Rightarrow> 'c component_record" where
  "initial_record cfg c =
     \<lparr>cr_category = lc_category cfg c, cr_state = Comp_Registered,
      cr_init = initial_hook (lc_has_init cfg c), cr_start = initial_hook (lc_has_start cfg c),
      cr_stop = initial_hook (lc_has_stop cfg c), cr_deinit = initial_hook (lc_has_deinit cfg c),
      cr_last_operation = LOp_None, cr_last_status = St_Ok, cr_first_failure = None,
      cr_transitions = 0, cr_attempts = 0, cr_init_succeeded = False,
      cr_start_succeeded = False, cr_execution_prepared = False, cr_execution_contained = True,
      cr_cleanup_blocked = False\<rparr>"

definition initial_engine :: "('c, 'w) lifecycle_config \<Rightarrow> 'w \<Rightarrow> ('c, 'w) engine" where
  "initial_engine cfg w =
     \<lparr>en_system_state = Sys_Dormant, en_operation_active = False,
      en_records = initial_record cfg, en_last_boot = None, en_last_stop = None,
      en_world = w, en_calls = []\<rparr>"

section \<open>Bounded failure lists\<close>

lemma add_failure_total [simp]: "fd_total (add_failure n f d) = fd_total d + 1"
  by (simp add: add_failure_def Let_def)

lemma add_failure_bounded:
  "length (fd_entries d) \<le> n \<Longrightarrow> length (fd_entries (add_failure n f d)) \<le> n"
  by (simp add: add_failure_def Let_def)

lemma fold_add_failure:
  "fold (add_failure n) fs no_failures = \<lparr>fd_entries = take n fs, fd_total = length fs\<rparr>"
proof (induction fs rule: rev_induct)
  case Nil
  then show ?case by (simp add: no_failures_def)
next
  case (snoc f fs)
  then show ?case by (cases "length fs < n") (simp_all add: add_failure_def Let_def)
qed

text \<open>
  A failure list of capacity \<open>n\<close> keeps the first \<open>n\<close> failures in order and counts all of
  them, and it is reported as truncated exactly when more than \<open>n\<close> failures were added.
\<close>

theorem failure_details_first_n:
  "fold (add_failure n) fs no_failures = \<lparr>fd_entries = take n fs, fd_total = length fs\<rparr> \<and>
   (truncated (fold (add_failure n) fs no_failures) \<longleftrightarrow> n < length fs)"
  by (auto simp: fold_add_failure truncated_def)

end
