(* ===== verification/Lifecycle_Engine.thy ===== *)
theory Lifecycle_Engine
  imports Lifecycle_Types
begin

text \<open>
  The operations of \<^verbatim>\<open>lifecycle/engine.hpp\<close>: initialising, starting, stopping and tearing down a
  component, containing its execution, preserving what an uncontained execution still uses,
  rolling back a failed boot, and the engine's entry points \<^verbatim>\<open>boot\<close>, \<^verbatim>\<open>stop\<close>, \<^verbatim>\<open>component_page\<close>,
  \<^verbatim>\<open>boot_report\<close>, \<^verbatim>\<open>stop_report\<close> and \<^verbatim>\<open>report_execution_failure\<close>.

  Each operation takes the configuration, and the engine state it changes; a hook appends its
  call to \<open>en_calls\<close> exactly when the C++ code calls a function the component really has.
\<close>

section \<open>Access to the records\<close>

definition with_records ::
  "('c, 'w) lifecycle_config \<Rightarrow> (('c, 'w) engine \<Rightarrow> ('c, 'w) engine) \<Rightarrow> ('c, 'w) engine \<Rightarrow>
     hook_result \<times> ('c, 'w) engine" where
  "with_records cfg f en =
     (case lc_records_lock cfg of Some e \<Rightarrow> (Inl e, en) | None \<Rightarrow> (Inr (), f en))"

definition mutate_record ::
  "('c, 'w) lifecycle_config \<Rightarrow> 'c \<Rightarrow> ('c component_record \<Rightarrow> 'c component_record) \<Rightarrow>
     ('c, 'w) engine \<Rightarrow> ('c, 'w) engine" where
  "mutate_record cfg c f en =
     snd (with_records cfg
            (\<lambda>en. en\<lparr>en_records := (en_records en)(c := f (en_records en c))\<rparr>) en)"

definition default_record :: "'c component_record" where
  "default_record =
     \<lparr>cr_category = Cat_Facility, cr_state = Comp_Registered,
      cr_init = initial_hook False, cr_start = initial_hook False, cr_stop = initial_hook False,
      cr_deinit = initial_hook False, cr_last_operation = LOp_None, cr_last_status = St_Ok,
      cr_first_failure = None, cr_transitions = 0, cr_attempts = 0, cr_init_succeeded = False,
      cr_start_succeeded = False, cr_execution_prepared = False, cr_execution_contained = True,
      cr_cleanup_blocked = False\<rparr>"

definition record_copy ::
  "('c, 'w) lifecycle_config \<Rightarrow> 'c \<Rightarrow> ('c, 'w) engine \<Rightarrow> 'c component_record" where
  "record_copy cfg c en =
     (case lc_records_lock cfg of Some e \<Rightarrow> default_record | None \<Rightarrow> en_records en c)"

definition make_failure ::
  "('c, 'w) lifecycle_config \<Rightarrow> 'c \<Rightarrow> lifecycle_operation \<Rightarrow> status \<Rightarrow> bool \<Rightarrow> 'c failure" where
  "make_failure cfg c operation status primary =
     \<lparr>fl_component = Some c, fl_category = lc_category cfg c, fl_operation = operation,
      fl_status = status, fl_primary = primary, fl_catalog = None\<rparr>"

definition record_failure ::
  "('c, 'w) lifecycle_config \<Rightarrow> 'c \<Rightarrow> 'c failure \<Rightarrow> ('c, 'w) engine \<Rightarrow> ('c, 'w) engine" where
  "record_failure cfg c f =
     mutate_record cfg c (\<lambda>r. r\<lparr>cr_state := Comp_Failed,
       cr_last_operation := fl_operation f, cr_last_status := fl_status f,
       cr_first_failure := (if cr_first_failure r = None then Some f else cr_first_failure r),
       cr_transitions := cr_transitions r + 1\<rparr>)"

section \<open>Calls into hooks and protocols\<close>

definition call_world ::
  "'c call \<Rightarrow> ('w \<Rightarrow> 'r \<times> 'w) \<Rightarrow> ('c, 'w) engine \<Rightarrow> 'r \<times> ('c, 'w) engine" where
  "call_world call f en =
     (let (r, w) = f (en_world en) in (r, en\<lparr>en_world := w, en_calls := en_calls en @ [call]\<rparr>))"

definition invoke_init ::
  "('c, 'w) lifecycle_config \<Rightarrow> 'c \<Rightarrow> ('c, 'w) engine \<Rightarrow> hook_result \<times> ('c, 'w) engine" where
  "invoke_init cfg c en =
     (if lc_has_init cfg c then call_world (Call_Init c) (lc_init cfg c) en else (Inr (), en))"

definition invoke_start ::
  "('c, 'w) lifecycle_config \<Rightarrow> 'c \<Rightarrow> ('c, 'w) engine \<Rightarrow> hook_result \<times> ('c, 'w) engine" where
  "invoke_start cfg c en =
     (if lc_has_start cfg c then call_world (Call_Start c) (lc_start cfg c) en else (Inr (), en))"

definition invoke_stop ::
  "('c, 'w) lifecycle_config \<Rightarrow> 'c \<Rightarrow> ('c, 'w) engine \<Rightarrow> hook_result \<times> ('c, 'w) engine" where
  "invoke_stop cfg c en =
     (if lc_has_stop cfg c then call_world (Call_Stop c) (lc_stop cfg c) en else (Inr (), en))"

definition invoke_deinit ::
  "('c, 'w) lifecycle_config \<Rightarrow> 'c \<Rightarrow> ('c, 'w) engine \<Rightarrow> hook_result \<times> ('c, 'w) engine" where
  "invoke_deinit cfg c en =
     (if lc_has_deinit cfg c then call_world (Call_Deinit c) (lc_deinit cfg c) en
      else (Inr (), en))"

text \<open>\<^verbatim>\<open>result ? Status::Ok : status_of(result.error())\<close>, and the outcome kept in a hook record.\<close>

definition result_status :: "hook_result \<Rightarrow> status" where
  "result_status result = (case result of Inr u \<Rightarrow> St_Ok | Inl e \<Rightarrow> e)"

definition hook_attempt :: "bool \<Rightarrow> hook_record \<Rightarrow> hook_record" where
  "hook_attempt present h = (if present then h\<lparr>hk_attempts := hk_attempts h + 1\<rparr> else h)"

definition hook_done :: "bool \<Rightarrow> hook_result \<Rightarrow> hook_record \<Rightarrow> hook_record" where
  "hook_done present result h =
     (if present
      then h\<lparr>hk_outcome := (if is_ok result then Hook_Succeeded else Hook_Failed),
             hk_status := result_status result\<rparr>
      else h)"

section \<open>One component\<close>

definition initialize_component ::
  "('c, 'w) lifecycle_config \<Rightarrow> 'c \<Rightarrow> ('c, 'w) engine \<Rightarrow> hook_result \<times> ('c, 'w) engine" where
  "initialize_component cfg c en =
     (let en = mutate_record cfg c (\<lambda>r. r\<lparr>cr_state := Comp_Initializing,
            cr_last_operation := LOp_Init, cr_transitions := cr_transitions r + 1,
            cr_attempts := cr_attempts r + 1,
            cr_init := hook_attempt (lc_has_init cfg c) (cr_init r)\<rparr>) en;
          (result, en) = invoke_init cfg c en;
          en = mutate_record cfg c (\<lambda>r. r\<lparr>cr_last_status := result_status result,
            cr_init := hook_done (lc_has_init cfg c) result (cr_init r),
            cr_init_succeeded := (is_ok result \<or> cr_init_succeeded r),
            cr_state := (if is_ok result then Comp_Initialized else cr_state r),
            cr_transitions := cr_transitions r + 1\<rparr>) en
      in (result, en))"

definition start_component ::
  "('c, 'w) lifecycle_config \<Rightarrow> 'c \<Rightarrow> ('c, 'w) engine \<Rightarrow> hook_result \<times> ('c, 'w) engine" where
  "start_component cfg c en =
     (let en = mutate_record cfg c (\<lambda>r. r\<lparr>cr_state := Comp_Starting,
            cr_last_operation := LOp_Start, cr_transitions := cr_transitions r + 1,
            cr_attempts := cr_attempts r + 1,
            cr_start := hook_attempt (lc_has_start cfg c) (cr_start r)\<rparr>) en;
          (result, en) = invoke_start cfg c en;
          en = mutate_record cfg c (\<lambda>r. r\<lparr>cr_last_status := result_status result,
            cr_start := hook_done (lc_has_start cfg c) result (cr_start r)\<rparr>) en
      in if \<not> is_ok result then (result, en)
         else
           let (result, en) =
             (if lc_participates cfg c
              then
                let en = mutate_record cfg c (\<lambda>r. r\<lparr>cr_last_operation := LOp_PrepareExecution,
                       cr_attempts := cr_attempts r + 1\<rparr>) en;
                    (result, en) = call_world (Call_Prepare c) (lc_prepare cfg c) en
                in if \<not> is_ok result
                   then (result, mutate_record cfg c
                           (\<lambda>r. r\<lparr>cr_last_status := result_status result\<rparr>) en)
                   else (result, mutate_record cfg c (\<lambda>r. r\<lparr>cr_execution_prepared := True,
                           cr_execution_contained := False, cr_last_status := St_Ok\<rparr>) en)
              else (Inr (), en))
           in if \<not> is_ok result then (result, en)
              else (Inr (), mutate_record cfg c (\<lambda>r. r\<lparr>cr_start_succeeded := True,
                      cr_last_status := St_Ok, cr_transitions := cr_transitions r + 1\<rparr>) en))"

definition validate_execution ::
  "('c, 'w) lifecycle_config \<Rightarrow> 'c \<Rightarrow> ('c, 'w) engine \<Rightarrow> hook_result \<times> ('c, 'w) engine" where
  "validate_execution cfg c en =
     (if \<not> lc_participates cfg c then (Inr (), en)
      else if \<not> cr_execution_prepared (record_copy cfg c en) then (Inr (), en)
      else
        let en = mutate_record cfg c (\<lambda>r. r\<lparr>cr_last_operation := LOp_ValidateExecution,
               cr_attempts := cr_attempts r + 1\<rparr>) en;
            (result, en) = call_world (Call_Validate c) (lc_validate cfg c) en
        in if \<not> is_ok result
           then (result, mutate_record cfg c
                   (\<lambda>r. r\<lparr>cr_last_status := result_status result\<rparr>) en)
           else (result, en))"

definition activate_execution ::
  "('c, 'w) lifecycle_config \<Rightarrow> 'c \<Rightarrow> ('c, 'w) engine \<Rightarrow> ('c, 'w) engine" where
  "activate_execution cfg c en =
     (if lc_participates cfg c \<and> cr_execution_prepared (record_copy cfg c en)
      then
        let en = mutate_record cfg c (\<lambda>r. r\<lparr>cr_last_operation := LOp_ActivateExecution,
               cr_last_status := St_Ok, cr_attempts := cr_attempts r + 1\<rparr>) en
        in snd (call_world (Call_Activate c) (\<lambda>w. ((), lc_activate cfg c w)) en)
      else en)"

definition stop_component ::
  "('c, 'w) lifecycle_config \<Rightarrow> 'c \<Rightarrow> 'c failure_details \<Rightarrow> ('c, 'w) engine \<Rightarrow>
     'c failure_details \<times> ('c, 'w) engine" where
  "stop_component cfg c failures en =
     (let prior = record_copy cfg c en
      in if \<not> cr_start_succeeded prior \<or> cr_cleanup_blocked prior then (failures, en)
         else
           let en = mutate_record cfg c (\<lambda>r. r\<lparr>cr_state := Comp_Stopping,
                  cr_last_operation := LOp_Stop, cr_transitions := cr_transitions r + 1,
                  cr_attempts := cr_attempts r + 1,
                  cr_stop := hook_attempt (lc_has_stop cfg c) (cr_stop r)\<rparr>) en;
               (result, en) = invoke_stop cfg c en;
               en = mutate_record cfg c (\<lambda>r. r\<lparr>cr_start_succeeded := False,
                  cr_last_status := result_status result,
                  cr_stop := hook_done (lc_has_stop cfg c) result (cr_stop r),
                  cr_state := (if is_ok result \<and> cr_first_failure r = None
                               then Comp_Stopped else Comp_Failed),
                  cr_transitions := cr_transitions r + 1\<rparr>) en
           in if \<not> is_ok result
              then let failure = make_failure cfg c LOp_Stop (result_status result) False
                   in (add_failure (lc_failure_capacity cfg) failure failures,
                       record_failure cfg c failure en)
              else (failures, en))"

definition deinitialize_component ::
  "('c, 'w) lifecycle_config \<Rightarrow> 'c \<Rightarrow> 'c failure_details \<Rightarrow> ('c, 'w) engine \<Rightarrow>
     'c failure_details \<times> ('c, 'w) engine" where
  "deinitialize_component cfg c failures en =
     (let prior = record_copy cfg c en
      in if \<not> cr_init_succeeded prior \<or> cr_cleanup_blocked prior then (failures, en)
         else
           let en = mutate_record cfg c (\<lambda>r. r\<lparr>cr_state := Comp_Deinitializing,
                  cr_last_operation := LOp_Deinit, cr_transitions := cr_transitions r + 1,
                  cr_attempts := cr_attempts r + 1,
                  cr_deinit := hook_attempt (lc_has_deinit cfg c) (cr_deinit r)\<rparr>) en;
               (result, en) = invoke_deinit cfg c en;
               en = mutate_record cfg c (\<lambda>r. r\<lparr>cr_init_succeeded := False,
                  cr_last_status := result_status result,
                  cr_deinit := hook_done (lc_has_deinit cfg c) result (cr_deinit r),
                  cr_state := (if is_ok result \<and> cr_first_failure r = None
                               then Comp_Deinitialized else Comp_Failed),
                  cr_transitions := cr_transitions r + 1\<rparr>) en
           in if \<not> is_ok result
              then let failure = make_failure cfg c LOp_Deinit (result_status result) False
                   in (add_failure (lc_failure_capacity cfg) failure failures,
                       record_failure cfg c failure en)
              else (failures, en))"

section \<open>Execution that does not stop\<close>

text \<open>
  \<^verbatim>\<open>mark_dependency_closure\<close> recurses over the dependency graph at compile time; a validated graph
  has no cycle, so a chain of dependencies is no longer than the component list and the
  recursion depth given in \<open>mark_closure\<close> is enough (\<open>mark_closure_depth\<close> below).
\<close>

fun mark_dependency_closure ::
  "nat \<Rightarrow> ('c, 'w) lifecycle_config \<Rightarrow> bool \<Rightarrow> 'c \<Rightarrow> nat \<times> ('c, 'w) engine \<Rightarrow> nat \<times> ('c, 'w) engine"
where
  "mark_dependency_closure 0 cfg count_component c s = s"
| "mark_dependency_closure (Suc depth) cfg count_component c (preserved, en) =
     (let newly_blocked = (lc_records_lock cfg = None \<and> \<not> cr_cleanup_blocked (en_records en c));
          en = mutate_record cfg c (\<lambda>r. r\<lparr>cr_cleanup_blocked := True\<rparr>) en;
          preserved = (if newly_blocked \<and> count_component then preserved + 1 else preserved)
      in fold (mark_dependency_closure depth cfg True) (dependencies (lc_graph cfg) c)
           (preserved, en))"

definition mark_closure ::
  "('c, 'w) lifecycle_config \<Rightarrow> bool \<Rightarrow> 'c \<Rightarrow> nat \<times> ('c, 'w) engine \<Rightarrow> nat \<times> ('c, 'w) engine" where
  "mark_closure cfg = mark_dependency_closure (length (components (lc_graph cfg))) cfg"

definition add_report_failure ::
  "('c, 'w) lifecycle_config \<Rightarrow> 'c failure \<Rightarrow> ('c, 'z) execution_report_scheme \<Rightarrow>
     ('c, 'z) execution_report_scheme" where
  "add_report_failure cfg failure report =
     report\<lparr>xr_failures := add_failure (lc_failure_capacity cfg) failure (xr_failures report)\<rparr>"

definition request_execution_stop ::
  "('c, 'w) lifecycle_config \<Rightarrow> 'c \<Rightarrow> ('c, 'z) execution_report_scheme \<times> ('c, 'w) engine \<Rightarrow>
     ('c, 'z) execution_report_scheme \<times> ('c, 'w) engine" where
  "request_execution_stop cfg c = (\<lambda>(report, en).
     (let r = record_copy cfg c en
      in if \<not> lc_participates cfg c \<or> \<not> cr_execution_prepared r \<or> cr_execution_contained r
         then (report, en)
         else
           let en = mutate_record cfg c (\<lambda>r. r\<lparr>cr_last_operation := LOp_RequestExecutionStop,
                  cr_attempts := cr_attempts r + 1\<rparr>) en;
               (result, en) = call_world (Call_RequestStop c) (lc_request_stop cfg c) en
           in if \<not> is_ok result \<and> result_status result \<noteq> St_Already
              then let failure = make_failure cfg c LOp_RequestExecutionStop
                                   (result_status result) False
                   in (add_report_failure cfg failure report, record_failure cfg c failure en)
              else (report, en)))"

definition count_containment ::
  "containment \<Rightarrow> ('c, 'z) execution_report_scheme \<Rightarrow> ('c, 'z) execution_report_scheme" where
  "count_containment ct report =
     (let report = (if ct_timed_out ct
            then report\<lparr>xr_join_timeouts := xr_join_timeouts report + 1\<rparr> else report);
          report = (if ct_abort_attempted ct
            then report\<lparr>xr_abort_attempts := xr_abort_attempts report + 1\<rparr> else report);
          report = (if ct_abort_failed ct
            then report\<lparr>xr_abort_failures := xr_abort_failures report + 1\<rparr> else report)
      in if ct_forced ct then report\<lparr>xr_forced_exits := xr_forced_exits report + 1\<rparr>
         else if ct_contained ct \<and> ct_status ct = St_Ok
         then report\<lparr>xr_clean_exits := xr_clean_exits report + 1\<rparr>
         else report)"

definition preserve_all ::
  "('c, 'w) lifecycle_config \<Rightarrow> 'c list \<Rightarrow>
     ('c, 'z) execution_report_scheme \<times> ('c, 'w) engine \<Rightarrow>
     ('c, 'z) execution_report_scheme \<times> ('c, 'w) engine" where
  "preserve_all cfg ds = (\<lambda>(report, en).
     (let (preserved, en) =
            fold (mark_closure cfg True) ds (xr_preserved_dependencies report, en)
      in (report\<lparr>xr_preserved_dependencies := preserved\<rparr>, en)))"

definition containment_status :: "containment \<Rightarrow> status" where
  "containment_status ct = (if ct_status ct = St_Ok then St_UnexpectedExit else ct_status ct)"

definition containment_failed :: "containment \<Rightarrow> bool" where
  "containment_failed ct \<longleftrightarrow> ct_status ct \<noteq> St_Ok \<or> ct_forced ct \<or> \<not> ct_contained ct"

definition contain_execution ::
  "('c, 'w) lifecycle_config \<Rightarrow> 'c \<Rightarrow> ('c, 'z) execution_report_scheme \<times> ('c, 'w) engine \<Rightarrow>
     ('c, 'z) execution_report_scheme \<times> ('c, 'w) engine" where
  "contain_execution cfg c = (\<lambda>(report, en).
     (let prior = record_copy cfg c en
      in if \<not> lc_participates cfg c \<or> \<not> cr_execution_prepared prior
            \<or> cr_execution_contained prior
         then (report, en)
         else
           let en = mutate_record cfg c (\<lambda>r. r\<lparr>cr_last_operation := LOp_ContainExecution,
                  cr_attempts := cr_attempts r + 1\<rparr>) en;
               (ct, en) = call_world (Call_Contain c) (lc_contain cfg c) en;
               report = count_containment ct report;
               en = mutate_record cfg c (\<lambda>r. r\<lparr>cr_execution_contained := ct_contained ct,
                  cr_execution_prepared := (\<not> ct_contained ct \<and> cr_execution_prepared r),
                  cr_last_status := ct_status ct\<rparr>) en;
               (report, en) =
                 (if ct_contained ct then (report, en)
                  else
                    let report = report\<lparr>xr_uncontained_execution :=
                                          xr_uncontained_execution report + 1\<rparr>;
                        (preserved, en) =
                          mark_closure cfg False c (xr_preserved_dependencies report, en);
                        report = report\<lparr>xr_preserved_dependencies := preserved\<rparr>
                    in preserve_all cfg (lc_uncontained_dependencies cfg c (en_world en))
                         (report, en))
           in if containment_failed ct
              then let failure = make_failure cfg c LOp_ContainExecution
                                   (containment_status ct) False
                   in (add_report_failure cfg failure report, record_failure cfg c failure en)
              else (report, en)))"

definition request_system_execution_stop ::
  "('c, 'w) lifecycle_config \<Rightarrow> ('c, 'z) execution_report_scheme \<times> ('c, 'w) engine \<Rightarrow>
     ('c, 'z) execution_report_scheme \<times> ('c, 'w) engine" where
  "request_system_execution_stop cfg = (\<lambda>(report, en).
     (if \<not> lc_system_participates cfg then (report, en)
      else
        let (result, en) = call_world Call_SystemRequestStop (lc_system_request_stop cfg) en
        in if \<not> is_ok result \<and> result_status result \<noteq> St_Already
           then let failure = (lc_system_failure cfg LOp_RequestExecutionStop
                                 (result_status result) (en_world en))\<lparr>fl_primary := False\<rparr>
                in (add_report_failure cfg failure report, en)
           else (report, en)))"

definition contain_system_execution ::
  "('c, 'w) lifecycle_config \<Rightarrow> ('c, 'z) execution_report_scheme \<times> ('c, 'w) engine \<Rightarrow>
     ('c, 'z) execution_report_scheme \<times> ('c, 'w) engine" where
  "contain_system_execution cfg = (\<lambda>(report, en).
     (if \<not> lc_system_participates cfg then (report, en)
      else
        let (ct, en) = call_world Call_SystemContain (lc_system_contain cfg) en;
            (report, en) =
              (if ct_contained ct then (report, en)
               else
                 let count = lc_system_uncontained_count cfg (en_world en);
                     report = report\<lparr>xr_uncontained_execution :=
                       xr_uncontained_execution report + (if count = 0 then 1 else count)\<rparr>
                 in preserve_all cfg (lc_system_uncontained_dependencies cfg (en_world en))
                      (report, en))
        in if containment_failed ct
           then let failure = (lc_system_failure cfg LOp_ContainExecution
                                 (containment_status ct) (en_world en))\<lparr>fl_primary := False\<rparr>
                in (add_report_failure cfg failure report, en)
           else (report, en)))"

section \<open>The whole system\<close>

definition has_resources :: "('c, 'w) lifecycle_config \<Rightarrow> ('c, 'w) engine \<Rightarrow> bool" where
  "has_resources cfg en \<longleftrightarrow> lc_records_lock cfg = None \<and>
     list_ex (\<lambda>c. let r = en_records en c in
         cr_init_succeeded r \<or> cr_start_succeeded r \<or>
         cr_execution_prepared r \<and> \<not> cr_execution_contained r) (components (lc_graph cfg))"

definition publish_boot ::
  "('c, 'w) lifecycle_config \<Rightarrow> 'c boot_report \<Rightarrow> ('c, 'w) engine \<Rightarrow> ('c, 'w) engine" where
  "publish_boot cfg report en = snd (with_records cfg (\<lambda>en. en\<lparr>en_last_boot := Some report\<rparr>) en)"

definition publish_stop ::
  "('c, 'w) lifecycle_config \<Rightarrow> 'c stop_report \<Rightarrow> ('c, 'w) engine \<Rightarrow> ('c, 'w) engine" where
  "publish_stop cfg report en = snd (with_records cfg (\<lambda>en. en\<lparr>en_last_stop := Some report\<rparr>) en)"

fun commit_catalogs ::
  "('c, 'w) lifecycle_config \<Rightarrow> nat list \<Rightarrow> ('c, 'w) engine \<Rightarrow>
     'c failure option \<times> ('c, 'w) engine" where
  "commit_catalogs cfg [] en = (None, en)"
| "commit_catalogs cfg (k # ks) en =
     (if \<not> lc_catalog_participates cfg k then commit_catalogs cfg ks en
      else
        let (result, en) = call_world (Call_Commit k) (lc_commit cfg k) en
        in if is_ok result then commit_catalogs cfg ks en
           else (Some ((lc_commit_failure cfg k LOp_ActivateExecution (result_status result)
                          (en_world en))\<lparr>fl_primary := True\<rparr>), en))"

definition commit_catalog_activation ::
  "('c, 'w) lifecycle_config \<Rightarrow> ('c, 'w) engine \<Rightarrow> 'c failure option \<times> ('c, 'w) engine" where
  "commit_catalog_activation cfg = commit_catalogs cfg [0..<lc_catalogs cfg]"

definition activate_catalog_runtime ::
  "('c, 'w) lifecycle_config \<Rightarrow> ('c, 'w) engine \<Rightarrow> ('c, 'w) engine" where
  "activate_catalog_runtime cfg =
     fold (\<lambda>k en. if lc_catalog_participates cfg k
                   then snd (call_world (Call_ActivateCatalog k)
                               (\<lambda>w. ((), lc_activate_catalog cfg k w)) en)
                   else en) [0..<lc_catalogs cfg]"

definition rollback ::
  "('c, 'w) lifecycle_config \<Rightarrow> bool \<Rightarrow> 'c boot_report \<times> ('c, 'w) engine \<Rightarrow>
     'c boot_report \<times> ('c, 'w) engine" where
  "rollback cfg started_phase = (\<lambda>(report, en).
     (let en = en\<lparr>en_system_state := Sys_RollingBack\<rparr>;
          report = report\<lparr>br_rollback_attempted := True\<rparr>;
          xr = \<lparr>xr_failures = br_cleanup_failures report,
                xr_uncontained_execution = br_uncontained_execution report,
                xr_preserved_dependencies = br_preserved_dependencies report,
                xr_clean_exits = 0, xr_forced_exits = 0, xr_join_timeouts = 0,
                xr_abort_attempts = 0, xr_abort_failures = 0\<rparr>;
          (xr, en) =
            (if started_phase
             then
               let (xr, en) = request_system_execution_stop cfg (xr, en);
                   (xr, en) = contain_system_execution cfg (xr, en);
                   (xr, en) = fold (request_execution_stop cfg) (rtopo cfg) (xr, en);
                   (xr, en) = fold (contain_execution cfg) (rtopo cfg) (xr, en);
                   (failures, en) = fold (\<lambda>c (failures, en). stop_component cfg c failures en)
                                      (rtopo cfg) (xr_failures xr, en)
               in (xr\<lparr>xr_failures := failures\<rparr>, en)
             else (xr, en));
          (failures, en) = fold (\<lambda>c (failures, en). deinitialize_component cfg c failures en)
                             (rtopo cfg) (xr_failures xr, en)
      in (report\<lparr>br_cleanup_failures := failures,
                 br_uncontained_execution := xr_uncontained_execution xr,
                 br_preserved_dependencies := xr_preserved_dependencies xr,
                 br_rollback_completed := (xr_uncontained_execution xr = 0),
                 br_final_state := Sys_Failed\<rparr>,
          en\<lparr>en_system_state := Sys_Failed\<rparr>)))"

definition report_execution_failure ::
  "('c, 'w) lifecycle_config \<Rightarrow> 'c \<Rightarrow> status \<Rightarrow> ('c, 'w) engine \<Rightarrow> ('c, 'w) engine" where
  "report_execution_failure cfg c status en =
     (let en = record_failure cfg c (make_failure cfg c LOp_ActivateExecution status False) en;
          en = mutate_record cfg c (\<lambda>r. r\<lparr>cr_state := Comp_Failed,
                 cr_last_operation := LOp_ActivateExecution, cr_last_status := status,
                 cr_transitions := cr_transitions r + 1\<rparr>) en
      in if en_system_state en = Sys_Running \<or> en_system_state en = Sys_Starting
         then en\<lparr>en_system_state := Sys_Failed\<rparr> else en)"

section \<open>Boot\<close>

fun init_phase ::
  "('c, 'w) lifecycle_config \<Rightarrow> 'c list \<Rightarrow> nat \<Rightarrow> ('c, 'w) engine \<Rightarrow>
     'c failure option \<times> nat \<times> ('c, 'w) engine" where
  "init_phase cfg [] n en = (None, n, en)"
| "init_phase cfg (c # cs) n en =
     (let (result, en) = initialize_component cfg c en
      in if is_ok result then init_phase cfg cs (n + 1) en
         else let primary = make_failure cfg c LOp_Init (result_status result) True
              in (Some primary, n, record_failure cfg c primary en))"

fun start_phase ::
  "('c, 'w) lifecycle_config \<Rightarrow> 'c list \<Rightarrow> nat \<Rightarrow> ('c, 'w) engine \<Rightarrow>
     ('c failure \<times> bool) option \<times> nat \<times> ('c, 'w) engine" where
  "start_phase cfg [] n en = (None, n, en)"
| "start_phase cfg (c # cs) n en =
     (let (result, en) = start_component cfg c en
      in if is_ok result then start_phase cfg cs (n + 1) en
         else let operation = cr_last_operation (record_copy cfg c en);
                  primary = make_failure cfg c operation (result_status result) True
              in (Some (primary, operation = LOp_PrepareExecution), n,
                  record_failure cfg c primary en))"

fun validate_phase ::
  "('c, 'w) lifecycle_config \<Rightarrow> 'c list \<Rightarrow> ('c, 'w) engine \<Rightarrow>
     ('c failure \<times> bool) option \<times> ('c, 'w) engine" where
  "validate_phase cfg [] en = (None, en)"
| "validate_phase cfg (c # cs) en =
     (let (result, en) = validate_execution cfg c en
      in if is_ok result then validate_phase cfg cs en
         else let primary = make_failure cfg c LOp_ValidateExecution (result_status result) True
              in (Some (primary, True), record_failure cfg c primary en))"

definition system_phase ::
  "('c, 'w) lifecycle_config \<Rightarrow> 'c call \<Rightarrow> lifecycle_operation \<Rightarrow>
     ('w \<Rightarrow> hook_result \<times> 'w) \<Rightarrow> ('c, 'w) engine \<Rightarrow> ('c failure \<times> bool) option \<times> ('c, 'w) engine"
where
  "system_phase cfg call operation f en =
     (if \<not> lc_system_participates cfg then (None, en)
      else
        let (result, en) = call_world call f en
        in if is_ok result then (None, en)
           else (Some ((lc_system_failure cfg operation (result_status result) (en_world en))
                         \<lparr>fl_primary := True\<rparr>, True), en))"

text \<open>
  What \<^verbatim>\<open>boot\<close> does between the end of initialisation and the decision to run or roll back: start
  the components, prepare the system execution, validate, commit. The flag beside the primary
  failure is \<^verbatim>\<open>execution_failure\<close>.
\<close>

definition start_sequence ::
  "('c, 'w) lifecycle_config \<Rightarrow> ('c, 'w) engine \<Rightarrow>
     ('c failure \<times> bool) option \<times> nat \<times> ('c, 'w) engine" where
  "start_sequence cfg en =
     (let (primary, started, en) = start_phase cfg (topo cfg) 0 en;
          (primary, en) = (if primary \<noteq> None then (primary, en)
            else system_phase cfg Call_SystemPrepare LOp_PrepareExecution
                   (lc_system_prepare cfg) en);
          (primary, en) = (if primary \<noteq> None then (primary, en)
            else validate_phase cfg (topo cfg) en);
          (primary, en) = (if primary \<noteq> None then (primary, en)
            else system_phase cfg Call_SystemValidate LOp_ValidateExecution
                   (lc_system_validate cfg) en);
          (primary, en) = (if primary \<noteq> None then (primary, en)
            else let (failure, en) = commit_catalog_activation cfg en
                 in (map_option (\<lambda>f. (f, False)) failure, en))
      in (primary, started, en))"

definition initial_boot_report :: "system_state \<Rightarrow> 'c boot_report" where
  "initial_boot_report initial =
     \<lparr>br_initial_state = initial, br_final_state = Sys_Dormant,
      br_initialization_completed = False, br_start_completed = False,
      br_primary_failure = None, br_initialized_components = 0, br_started_components = 0,
      br_rollback_attempted = False, br_rollback_completed = False,
      br_cleanup_failures = no_failures, br_uncontained_execution = 0,
      br_preserved_dependencies = 0\<rparr>"

definition mark_running ::
  "('c, 'w) lifecycle_config \<Rightarrow> 'c \<Rightarrow> ('c, 'w) engine \<Rightarrow> ('c, 'w) engine" where
  "mark_running cfg c =
     mutate_record cfg c (\<lambda>r. r\<lparr>cr_state := Comp_Running, cr_transitions := cr_transitions r + 1\<rparr>)"

definition boot_body ::
  "('c, 'w) lifecycle_config \<Rightarrow> ('c, 'w) engine \<Rightarrow>
     ('c boot_error + 'c boot_report) \<times> ('c, 'w) engine" where
  "boot_body cfg en =
     (let report = initial_boot_report (en_system_state en);
          en = en\<lparr>en_system_state := Sys_Initializing\<rparr>;
          (primary, initialized, en) = init_phase cfg (topo cfg) 0 en;
          report = report\<lparr>br_initialized_components := initialized\<rparr>
      in case primary of
           Some failure \<Rightarrow>
             let report = report\<lparr>br_primary_failure := Some failure\<rparr>;
                 (report, en) = rollback cfg False (report, en)
             in (Inl \<lparr>be_reason = BE_ComponentFailure, be_status = fl_status failure,
                      be_failure = Some failure\<rparr>, publish_boot cfg report en)
         | None \<Rightarrow>
             let report = report\<lparr>br_initialization_completed := True\<rparr>;
                 en = en\<lparr>en_system_state := Sys_Starting\<rparr>;
                 (primary, started, en) = start_sequence cfg en;
                 report = report\<lparr>br_started_components := started\<rparr>
             in case primary of
                  Some (failure, execution_failure) \<Rightarrow>
                    let report = report\<lparr>br_primary_failure := Some failure\<rparr>;
                        (report, en) = rollback cfg True (report, en)
                    in (Inl \<lparr>be_reason = (if execution_failure then BE_ExecutionFailure
                                           else BE_ComponentFailure),
                             be_status = fl_status failure, be_failure = Some failure\<rparr>,
                        publish_boot cfg report en)
                | None \<Rightarrow>
                    let en = fold (mark_running cfg) (topo cfg) en;
                        report = report\<lparr>br_start_completed := True, br_final_state := Sys_Running\<rparr>;
                        en = en\<lparr>en_system_state := Sys_Running\<rparr>;
                        en = publish_boot cfg report en;
                        en = (if lc_system_participates cfg
                              then snd (call_world Call_SystemActivate
                                          (\<lambda>w. ((), lc_system_activate cfg w)) en)
                              else en);
                        en = fold (activate_execution cfg) (topo cfg) en;
                        en = activate_catalog_runtime cfg en
                    in (Inr report, en))"

definition boot ::
  "('c, 'w) lifecycle_config \<Rightarrow> ('c, 'w) engine \<Rightarrow>
     ('c boot_error + 'c boot_report) \<times> ('c, 'w) engine" where
  "boot cfg en =
     (if en_operation_active en
      then (Inl \<lparr>be_reason = BE_Busy, be_status = St_Busy, be_failure = None\<rparr>, en)
      else
        let en = en\<lparr>en_operation_active := True\<rparr>;
            (result, en) =
              (if en_system_state en = Sys_Running
               then (Inl \<lparr>be_reason = BE_AlreadyRunning, be_status = St_Already,
                          be_failure = None\<rparr>, en)
               else if en_system_state en \<noteq> Sys_Dormant
               then (Inl \<lparr>be_reason = BE_RebootUnsupported, be_status = St_NotSupported,
                          be_failure = None\<rparr>, en)
               else boot_body cfg en)
        in (result, en\<lparr>en_operation_active := False\<rparr>))"

section \<open>Stop\<close>

definition initial_stop_report :: "system_state \<Rightarrow> 'c stop_report" where
  "initial_stop_report initial =
     \<lparr>xr_failures = no_failures, xr_uncontained_execution = 0, xr_preserved_dependencies = 0,
      xr_clean_exits = 0, xr_forced_exits = 0, xr_join_timeouts = 0, xr_abort_attempts = 0,
      xr_abort_failures = 0, sr_initial_state = initial, sr_final_state = Sys_Dormant,
      sr_stopped_components = 0, sr_deinitialized_components = 0\<rparr>"

definition stop_step ::
  "('c, 'w) lifecycle_config \<Rightarrow> 'c \<Rightarrow> 'c stop_report \<times> ('c, 'w) engine \<Rightarrow>
     'c stop_report \<times> ('c, 'w) engine" where
  "stop_step cfg c = (\<lambda>(report, en).
     (let prior = record_copy cfg c en
      in if cr_start_succeeded prior \<and> \<not> cr_cleanup_blocked prior
         then let (failures, en) = stop_component cfg c (xr_failures report) en
              in (report\<lparr>xr_failures := failures,
                         sr_stopped_components := sr_stopped_components report + 1\<rparr>, en)
         else (report, en)))"

definition deinit_step ::
  "('c, 'w) lifecycle_config \<Rightarrow> 'c \<Rightarrow> 'c stop_report \<times> ('c, 'w) engine \<Rightarrow>
     'c stop_report \<times> ('c, 'w) engine" where
  "deinit_step cfg c = (\<lambda>(report, en).
     (let prior = record_copy cfg c en
      in if cr_init_succeeded prior \<and> \<not> cr_cleanup_blocked prior
         then let (failures, en) = deinitialize_component cfg c (xr_failures report) en
              in (report\<lparr>xr_failures := failures,
                         sr_deinitialized_components := sr_deinitialized_components report + 1\<rparr>,
                  en)
         else (report, en)))"

definition stop_body ::
  "('c, 'w) lifecycle_config \<Rightarrow> ('c, 'w) engine \<Rightarrow>
     ('c stop_error + 'c stop_report) \<times> ('c, 'w) engine" where
  "stop_body cfg en =
     (let report = initial_stop_report (en_system_state en);
          en = en\<lparr>en_system_state := Sys_Stopping\<rparr>;
          (report, en) = request_system_execution_stop cfg (report, en);
          (report, en) = contain_system_execution cfg (report, en);
          (report, en) = fold (request_execution_stop cfg) (rtopo cfg) (report, en);
          (report, en) = fold (contain_execution cfg) (rtopo cfg) (report, en);
          (report, en) = fold (stop_step cfg) (rtopo cfg) (report, en);
          en = en\<lparr>en_system_state := Sys_Deinitializing\<rparr>;
          (report, en) = fold (deinit_step cfg) (rtopo cfg) (report, en);
          clean = (fd_total (xr_failures report) = 0 \<and> xr_uncontained_execution report = 0);
          report = report\<lparr>sr_final_state := (if clean then Sys_Stopped else Sys_Failed)\<rparr>;
          en = en\<lparr>en_system_state := sr_final_state report\<rparr>;
          en = publish_stop cfg report en
      in if \<not> clean
         then (Inl \<lparr>se_reason = SE_ShutdownFailed, se_status = St_Error,
                    se_failure = (case fd_entries (xr_failures report) of
                                    [] \<Rightarrow> None | f # fs \<Rightarrow> Some f)\<rparr>, en)
         else (Inr report, en))"

definition stop_system ::
  "('c, 'w) lifecycle_config \<Rightarrow> ('c, 'w) engine \<Rightarrow>
     ('c stop_error + 'c stop_report) \<times> ('c, 'w) engine" where
  "stop_system cfg en =
     (if en_operation_active en
      then (Inl \<lparr>se_reason = SE_Busy, se_status = St_Busy, se_failure = None\<rparr>, en)
      else
        let en = en\<lparr>en_operation_active := True\<rparr>;
            (result, en) =
              (if en_system_state en \<noteq> Sys_Running \<and>
                  \<not> (en_system_state en = Sys_Failed \<and> has_resources cfg en)
               then (Inl \<lparr>se_reason = SE_InvalidState, se_status = St_NotReady,
                          se_failure = None\<rparr>, en)
               else stop_body cfg en)
        in (result, en\<lparr>en_operation_active := False\<rparr>))"

section \<open>Queries\<close>

definition query_components ::
  "('c, 'w) lifecycle_config \<Rightarrow> ('c, 'w) engine \<Rightarrow> status + 'c component_record list" where
  "query_components cfg en =
     (case lc_records_lock cfg of Some e \<Rightarrow> Inl e
      | None \<Rightarrow> Inr (map (en_records en) (components (lc_graph cfg))))"

definition component_page ::
  "('c, 'w) lifecycle_config \<Rightarrow> ('c, 'w) engine \<Rightarrow> 'c component_record list \<Rightarrow> nat \<Rightarrow>
     (status + component_page) \<times> 'c component_record list" where
  "component_page cfg en destination offset =
     (let records = map (en_records en) (components (lc_graph cfg));
          component_count = length records
      in if offset > component_count then (Inl St_Invalid, destination)
         else
           let available = component_count - offset;
               count = (if length destination < available then length destination else available)
           in case lc_records_lock cfg of
                Some e \<Rightarrow> (Inl e, destination)
              | None \<Rightarrow>
                  (Inr \<lparr>cpg_offset = offset, cpg_count = count, cpg_total = component_count\<rparr>,
                   take count (drop offset records) @ drop count destination))"

definition query_record ::
  "('c, 'w) lifecycle_config \<Rightarrow> ('c, 'w) engine \<Rightarrow> 'c \<Rightarrow> status + 'c component_record" where
  "query_record cfg en c =
     (case lc_records_lock cfg of Some e \<Rightarrow> Inl e | None \<Rightarrow> Inr (en_records en c))"

definition query_boot_report ::
  "('c, 'w) lifecycle_config \<Rightarrow> ('c, 'w) engine \<Rightarrow> status + 'c boot_report" where
  "query_boot_report cfg en =
     (case lc_records_lock cfg of Some e \<Rightarrow> Inl e
      | None \<Rightarrow> (case en_last_boot en of None \<Rightarrow> Inl St_NotReady | Some report \<Rightarrow> Inr report))"

definition query_stop_report ::
  "('c, 'w) lifecycle_config \<Rightarrow> ('c, 'w) engine \<Rightarrow> status + 'c stop_report" where
  "query_stop_report cfg en =
     (case lc_records_lock cfg of Some e \<Rightarrow> Inl e
      | None \<Rightarrow> (case en_last_stop en of None \<Rightarrow> Inl St_NotReady | Some report \<Rightarrow> Inr report))"

end
