(* ===== verification/Lifecycle_Phases.thy ===== *)
theory Lifecycle_Phases
  imports Lifecycle_Engine
begin

text \<open>
  The loops of the lifecycle engine run one operation over the components in (reverse)
  topological order. The locale \<open>component_phase\<close> is the contract such an operation satisfies: it
  leaves what a view shows of every other component alone, keeps the system state, and appends
  calls that depend only on the component and its own record. From it follow the calls of the
  whole loop and that each component is processed in the record the loop started with. The
  interpretations discharge the contract for the operations of the engine.
\<close>

section \<open>Projections\<close>

lemma mutate_record_sel [simp]:
  "en_records (mutate_record cfg c f en) =
     (if lc_records_lock cfg = None then (en_records en)(c := f (en_records en c))
      else en_records en)"
  "en_calls (mutate_record cfg c f en) = en_calls en"
  "en_world (mutate_record cfg c f en) = en_world en"
  "en_system_state (mutate_record cfg c f en) = en_system_state en"
  "en_operation_active (mutate_record cfg c f en) = en_operation_active en"
  "en_last_boot (mutate_record cfg c f en) = en_last_boot en"
  "en_last_stop (mutate_record cfg c f en) = en_last_stop en"
  by (simp_all add: mutate_record_def with_records_def split: option.splits)

lemma record_failure_sel [simp]:
  "en_calls (record_failure cfg c f en) = en_calls en"
  "en_world (record_failure cfg c f en) = en_world en"
  "en_system_state (record_failure cfg c f en) = en_system_state en"
  "en_operation_active (record_failure cfg c f en) = en_operation_active en"
  "en_last_boot (record_failure cfg c f en) = en_last_boot en"
  "en_last_stop (record_failure cfg c f en) = en_last_stop en"
  by (simp_all add: record_failure_def)

lemma call_world_sel [simp]:
  "en_records (snd (call_world x f en)) = en_records en"
  "en_calls (snd (call_world x f en)) = en_calls en @ [x]"
  "en_system_state (snd (call_world x f en)) = en_system_state en"
  "en_operation_active (snd (call_world x f en)) = en_operation_active en"
  "en_last_boot (snd (call_world x f en)) = en_last_boot en"
  "en_last_stop (snd (call_world x f en)) = en_last_stop en"
  by (simp_all add: call_world_def split_beta Let_def)

definition opt_call :: "bool \<Rightarrow> 'c call \<Rightarrow> 'c call list" where
  "opt_call present x = (if present then [x] else [])"

lemma invoke_records [simp]:
  "en_records (snd (invoke_init cfg c en)) = en_records en"
  "en_records (snd (invoke_start cfg c en)) = en_records en"
  "en_records (snd (invoke_stop cfg c en)) = en_records en"
  "en_records (snd (invoke_deinit cfg c en)) = en_records en"
  by (simp_all add: invoke_init_def invoke_start_def invoke_stop_def invoke_deinit_def)

lemma invoke_calls [simp]:
  "en_calls (snd (invoke_init cfg c en)) = en_calls en @ opt_call (lc_has_init cfg c) (Call_Init c)"
  "en_calls (snd (invoke_start cfg c en)) =
     en_calls en @ opt_call (lc_has_start cfg c) (Call_Start c)"
  "en_calls (snd (invoke_stop cfg c en)) = en_calls en @ opt_call (lc_has_stop cfg c) (Call_Stop c)"
  "en_calls (snd (invoke_deinit cfg c en)) =
     en_calls en @ opt_call (lc_has_deinit cfg c) (Call_Deinit c)"
  by (simp_all add: invoke_init_def invoke_start_def invoke_stop_def invoke_deinit_def opt_call_def)

lemma invoke_system [simp]:
  "en_system_state (snd (invoke_init cfg c en)) = en_system_state en"
  "en_system_state (snd (invoke_start cfg c en)) = en_system_state en"
  "en_system_state (snd (invoke_stop cfg c en)) = en_system_state en"
  "en_system_state (snd (invoke_deinit cfg c en)) = en_system_state en"
  by (simp_all add: invoke_init_def invoke_start_def invoke_stop_def invoke_deinit_def)

lemma record_failure_records [simp]:
  "en_records (record_failure cfg c f en) =
     (if lc_records_lock cfg = None
      then (en_records en)(c := (en_records en c)\<lparr>cr_state := Comp_Failed,
             cr_last_operation := fl_operation f, cr_last_status := fl_status f,
             cr_first_failure := (if cr_first_failure (en_records en c) = None then Some f
                                  else cr_first_failure (en_records en c)),
             cr_transitions := cr_transitions (en_records en c) + 1\<rparr>)
      else en_records en)"
  by (simp add: record_failure_def)

lemma record_copy_cases:
  "record_copy cfg c en = (if lc_records_lock cfg = None then en_records en c else default_record)"
  by (simp add: record_copy_def split: option.splits)

lemmas engine_unfold = Let_def split_beta record_copy_cases

section \<open>The contract of a phase operation\<close>

locale component_phase =
  fixes step :: "'c \<Rightarrow> 's \<times> ('c, 'w) engine \<Rightarrow> 's \<times> ('c, 'w) engine"
    and calls :: "'c \<Rightarrow> 'v \<Rightarrow> 'c call list"
    and view :: "'c component_record \<Rightarrow> 'v"
  assumes frame: "d \<noteq> c \<Longrightarrow> view (en_records (snd (step c s)) d) = view (en_records (snd s) d)"
    and appends: "en_calls (snd (step c s)) =
      en_calls (snd s) @ calls c (view (en_records (snd s) c))"
    and keeps_system: "en_system_state (snd (step c s)) = en_system_state (snd s)"
begin

lemma fold_frame:
  "d \<notin> set cs \<Longrightarrow> view (en_records (snd (fold step cs s)) d) = view (en_records (snd s) d)"
  by (induction cs arbitrary: s) (auto simp: frame)

lemma fold_system: "en_system_state (snd (fold step cs s)) = en_system_state (snd s)"
  by (induction cs arbitrary: s) (auto simp: keeps_system)

lemma fold_calls:
  assumes "distinct cs"
  shows "en_calls (snd (fold step cs s)) =
    en_calls (snd s) @ concat (map (\<lambda>c. calls c (view (en_records (snd s) c))) cs)"
  using assms
proof (induction cs arbitrary: s)
  case (Cons c cs)
  then have "map (\<lambda>d. calls d (view (en_records (snd (step c s)) d))) cs =
      map (\<lambda>d. calls d (view (en_records (snd s) d))) cs"
    by (intro map_cong refl) (metis distinct.simps(2) frame)
  with Cons show ?case by (simp add: appends cong: map_cong)
qed simp

text \<open>
  Whatever one step establishes of its component, given what the view showed of it, the loop
  establishes for each component of the list.
\<close>

lemma fold_establishes:
  assumes "distinct cs" and "c \<in> set cs"
    and step: "\<And>s'. view (en_records (snd s') c) = view (en_records (snd s) c) \<Longrightarrow>
      P (view (en_records (snd (step c s')) c))"
  shows "P (view (en_records (snd (fold step cs s)) c))"
  using assms
proof (induction cs arbitrary: s)
  case (Cons d cs)
  show ?case
  proof (cases "c = d")
    case True
    with Cons.prems show ?thesis by (simp add: fold_frame)
  next
    case False
    with Cons.prems show ?thesis by (auto simp: frame intro!: Cons.IH)
  qed
qed simp

end

section \<open>The engine's operations satisfy it\<close>

definition unblocked :: "('c, 'w) lifecycle_config \<Rightarrow> 'c component_record \<Rightarrow> bool" where
  "unblocked cfg r \<longleftrightarrow> lc_records_lock cfg = None \<and> \<not> cr_cleanup_blocked r"

definition executing :: "('c, 'w) lifecycle_config \<Rightarrow> 'c \<Rightarrow> 'c component_record \<Rightarrow> bool" where
  "executing cfg c r \<longleftrightarrow> lc_records_lock cfg = None \<and> lc_participates cfg c \<and>
     cr_execution_prepared r \<and> \<not> cr_execution_contained r"

definition stop_calls :: "('c, 'w) lifecycle_config \<Rightarrow> 'c \<Rightarrow> 'c component_record \<Rightarrow> 'c call list"
  where "stop_calls cfg c r =
    opt_call (lc_has_stop cfg c \<and> unblocked cfg r \<and> cr_start_succeeded r) (Call_Stop c)"

definition deinit_calls :: "('c, 'w) lifecycle_config \<Rightarrow> 'c \<Rightarrow> 'c component_record \<Rightarrow> 'c call list"
  where "deinit_calls cfg c r =
    opt_call (lc_has_deinit cfg c \<and> unblocked cfg r \<and> cr_init_succeeded r) (Call_Deinit c)"

text \<open>\<open>forget_blocked\<close> is the view of a record that containment of another component keeps.\<close>

definition forget_blocked :: "'c component_record \<Rightarrow> 'c component_record" where
  "forget_blocked r = r\<lparr>cr_cleanup_blocked := False\<rparr>"

lemma stop_component_frame:
  "d \<noteq> c \<Longrightarrow> en_records (snd (stop_component cfg c fs en)) d = en_records en d"
  by (simp add: stop_component_def engine_unfold)

lemma stop_component_calls:
  "en_calls (snd (stop_component cfg c fs en)) = en_calls en @ stop_calls cfg c (en_records en c)"
  by (simp add: stop_component_def engine_unfold stop_calls_def unblocked_def opt_call_def
      default_record_def)

lemma stop_component_system:
  "en_system_state (snd (stop_component cfg c fs en)) = en_system_state en"
  by (simp add: stop_component_def engine_unfold)

lemma stop_component_flags:
  "cr_start_succeeded (en_records (snd (stop_component cfg c fs en)) c) \<longleftrightarrow>
     cr_start_succeeded (en_records en c) \<and> \<not> unblocked cfg (en_records en c)"
  "cr_init_succeeded (en_records (snd (stop_component cfg c fs en)) c) =
     cr_init_succeeded (en_records en c)"
  "cr_cleanup_blocked (en_records (snd (stop_component cfg c fs en)) c) =
     cr_cleanup_blocked (en_records en c)"
  "cr_execution_prepared (en_records (snd (stop_component cfg c fs en)) c) =
     cr_execution_prepared (en_records en c)"
  "cr_execution_contained (en_records (snd (stop_component cfg c fs en)) c) =
     cr_execution_contained (en_records en c)"
  by (auto simp: stop_component_def engine_unfold unblocked_def default_record_def)

lemma deinitialize_component_frame:
  "d \<noteq> c \<Longrightarrow> en_records (snd (deinitialize_component cfg c fs en)) d = en_records en d"
  by (simp add: deinitialize_component_def engine_unfold)

lemma deinitialize_component_calls:
  "en_calls (snd (deinitialize_component cfg c fs en)) =
     en_calls en @ deinit_calls cfg c (en_records en c)"
  by (simp add: deinitialize_component_def engine_unfold deinit_calls_def unblocked_def
      opt_call_def default_record_def)

lemma deinitialize_component_system:
  "en_system_state (snd (deinitialize_component cfg c fs en)) = en_system_state en"
  by (simp add: deinitialize_component_def engine_unfold)

lemma deinitialize_component_flags:
  "cr_init_succeeded (en_records (snd (deinitialize_component cfg c fs en)) c) \<longleftrightarrow>
     cr_init_succeeded (en_records en c) \<and> \<not> unblocked cfg (en_records en c)"
  "cr_start_succeeded (en_records (snd (deinitialize_component cfg c fs en)) c) =
     cr_start_succeeded (en_records en c)"
  "cr_cleanup_blocked (en_records (snd (deinitialize_component cfg c fs en)) c) =
     cr_cleanup_blocked (en_records en c)"
  "cr_execution_prepared (en_records (snd (deinitialize_component cfg c fs en)) c) =
     cr_execution_prepared (en_records en c)"
  "cr_execution_contained (en_records (snd (deinitialize_component cfg c fs en)) c) =
     cr_execution_contained (en_records en c)"
  by (auto simp: deinitialize_component_def engine_unfold unblocked_def default_record_def)

text \<open>The loops of \<^verbatim>\<open>stop\<close> guard the same operations with the condition they test themselves.\<close>

lemma stop_step_snd:
  "snd (stop_step cfg c s) = snd (stop_component cfg c (xr_failures (fst s)) (snd s))"
  by (simp add: stop_step_def stop_component_def split_beta Let_def)

lemma deinit_step_snd:
  "snd (deinit_step cfg c s) = snd (deinitialize_component cfg c (xr_failures (fst s)) (snd s))"
  by (simp add: deinit_step_def deinitialize_component_def split_beta Let_def)

interpretation stopping: component_phase
  "\<lambda>c (failures, en). stop_component cfg c failures en" "stop_calls cfg" "\<lambda>r. r" for cfg
  by unfold_locales
    (simp_all add: split_beta stop_component_frame stop_component_calls stop_component_system)

interpretation deinitializing: component_phase
  "\<lambda>c (failures, en). deinitialize_component cfg c failures en" "deinit_calls cfg" "\<lambda>r. r" for cfg
  by unfold_locales
    (simp_all add: split_beta deinitialize_component_frame deinitialize_component_calls
      deinitialize_component_system)

interpretation stop_loop: component_phase "stop_step cfg" "stop_calls cfg" "\<lambda>r. r" for cfg
  by unfold_locales
    (simp_all add: stop_step_snd stop_component_frame stop_component_calls stop_component_system)

interpretation deinit_loop: component_phase "deinit_step cfg" "deinit_calls cfg" "\<lambda>r. r" for cfg
  by unfold_locales
    (simp_all add: deinit_step_snd deinitialize_component_frame deinitialize_component_calls
      deinitialize_component_system)

interpretation requesting: component_phase "request_execution_stop cfg"
  "\<lambda>c r. opt_call (executing cfg c r) (Call_RequestStop c)" "\<lambda>r. r" for cfg
  by unfold_locales
    (simp_all add: request_execution_stop_def engine_unfold executing_def opt_call_def
      default_record_def)

section \<open>What an uncontained execution preserves\<close>

definition closure :: "('c, 'w) lifecycle_config \<Rightarrow> 'c \<Rightarrow> 'c set" where
  "closure cfg c = {d. (c, d) \<in> {(x, y). y \<in> set (dependencies (lc_graph cfg) x)}\<^sup>*}"

definition block :: "'c set \<Rightarrow> ('c, 'w) engine \<Rightarrow> ('c, 'w) engine" where
  "block B en = en\<lparr>en_records := (\<lambda>d. if d \<in> B then (en_records en d)\<lparr>cr_cleanup_blocked := True\<rparr>
                                    else en_records en d)\<rparr>"

lemma block_sel [simp]:
  "en_records (block B en) d = (if d \<in> B then (en_records en d)\<lparr>cr_cleanup_blocked := True\<rparr>
     else en_records en d)"
  "en_calls (block B en) = en_calls en"
  "en_world (block B en) = en_world en"
  "en_system_state (block B en) = en_system_state en"
  "en_operation_active (block B en) = en_operation_active en"
  "en_last_boot (block B en) = en_last_boot en"
  "en_last_stop (block B en) = en_last_stop en"
  by (simp_all add: block_def)

lemma block_empty [simp]: "block {} en = en"
  by (simp add: block_def)

lemma block_block [simp]: "block A (block B en) = block (A \<union> B) en"
  by (auto simp: block_def fun_eq_iff)

lemma closure_refl [simp]: "c \<in> closure cfg c"
  by (simp add: closure_def)

lemma closure_unfold:
  "closure cfg c = {c} \<union> (\<Union>d \<in> set (dependencies (lc_graph cfg) c). closure cfg d)"
  unfolding closure_def by (auto elim: converse_rtranclE intro: converse_rtrancl_into_rtrancl)

lemma closure_trans: "d \<in> closure cfg c \<Longrightarrow> closure cfg d \<subseteq> closure cfg c"
  unfolding closure_def by (auto intro: rtrancl_trans)

text \<open>In every case the walk only sets \<^verbatim>\<open>cleanup_blocked\<close>, of components it reaches.\<close>

lemma mark_dependency_closure_blocks:
  "\<exists>B \<subseteq> closure cfg c. snd (mark_dependency_closure depth cfg cnt c s) = block B (snd s)"
proof (induction depth arbitrary: cnt c s)
  case 0
  then show ?case by (auto intro: exI [of _ "{}"])
next
  case (Suc depth)
  have folds: "\<exists>B \<subseteq> (\<Union>d \<in> set ds. closure cfg d).
      snd (fold (mark_dependency_closure depth cfg True) ds t) = block B (snd t)" for ds t
  proof (induction ds arbitrary: t)
    case (Cons d ds)
    obtain B where B: "B \<subseteq> closure cfg d"
        "snd (mark_dependency_closure depth cfg True d t) = block B (snd t)"
      using Suc.IH [of d True t] by blast
    obtain B' where "B' \<subseteq> (\<Union>d \<in> set ds. closure cfg d)"
        "snd (fold (mark_dependency_closure depth cfg True) (d # ds) t) = block B' (block B (snd t))"
      using Cons.IH [of "mark_dependency_closure depth cfg True d t"] B(2) by auto
    with B(1) show ?case by (intro exI [of _ "B' \<union> B"]) auto
  qed (auto intro: exI [of _ "{}"])
  obtain preserved en where s: "s = (preserved, en)" by fastforce
  let ?B = "if lc_records_lock cfg = None then {c} else {}"
  have "mutate_record cfg c (\<lambda>r. r\<lparr>cr_cleanup_blocked := True\<rparr>) en = block ?B en"
    by (auto simp: mutate_record_def with_records_def block_def fun_eq_iff split: option.splits)
  then obtain p where "mark_dependency_closure (Suc depth) cfg cnt c s =
      fold (mark_dependency_closure depth cfg True) (dependencies (lc_graph cfg) c)
        (p, block ?B en)"
    by (simp add: s Let_def)
  with folds [of "dependencies (lc_graph cfg) c" "(p, block ?B en)"]
  obtain B where "B \<subseteq> (\<Union>d \<in> set (dependencies (lc_graph cfg) c). closure cfg d)"
      "snd (mark_dependency_closure (Suc depth) cfg cnt c s) = block B (block ?B en)"
    by auto
  then show ?case
    by (intro exI [of _ "B \<union> ?B"]) (auto simp: s closure_unfold [of cfg c])
qed

lemma mark_closure_blocks:
  "\<exists>B \<subseteq> closure cfg c. snd (mark_closure cfg cnt c s) = block B (snd s)"
  by (simp add: mark_closure_def mark_dependency_closure_blocks)

text \<open>On a validated graph it reaches all of them: the depth is enough.\<close>

lemma mark_closure_depth:
  assumes order: "dependencies_first (lc_graph cfg) order" and unlocked: "lc_records_lock cfg = None"
    and "i < length order" and "i < depth"
  shows "snd (mark_dependency_closure depth cfg cnt (order ! i) s) =
    block (closure cfg (order ! i)) (snd s)"
  using assms(3,4)
proof (induction depth arbitrary: cnt i s)
  case (Suc depth)
  have folds: "snd (fold (mark_dependency_closure depth cfg True) ds t) =
      block (\<Union>d \<in> set ds. closure cfg d) (snd t)" if "set ds \<subseteq> set (take i order)" for ds t
    using that
  proof (induction ds arbitrary: t)
    case (Cons d ds)
    then obtain j where j: "j < i" "d = order ! j" "j < length order"
      by (auto simp: in_set_conv_nth)
    then have "snd (mark_dependency_closure depth cfg True d t) = block (closure cfg d) (snd t)"
      using Suc.IH [of j True t] Suc.prems by simp
    with Cons show ?case by (simp add: Un_commute)
  qed simp
  obtain preserved en where s: "s = (preserved, en)" by fastforce
  have "set (dependencies (lc_graph cfg) (order ! i)) \<subseteq> set (take i order)"
    using order Suc.prems(1) by (auto simp: dependencies_first_def)
  from folds [OF this] show ?case
    by (simp add: s Let_def unlocked mutate_record_def with_records_def closure_unfold [of cfg "order ! i"])
      (auto simp: block_def fun_eq_iff)
qed simp

end
