(* ===== verification/Lifecycle_Stop.thy ===== *)
theory Lifecycle_Stop
  imports Lifecycle_Phases
begin

text \<open>
  Correctness of \<^verbatim>\<open>Engine::stop\<close>: the order of the calls, what a failed containment preserves, and
  when the system counts as cleanly stopped.
\<close>

section \<open>Containment\<close>

lemma fold_mark_closure_blocks:
  "\<exists>B. snd (fold (mark_closure cfg cnt) ds s) = block B (snd s)"
proof (induction ds arbitrary: s)
  case Nil
  then show ?case by (auto intro: exI [of _ "{}"])
next
  case (Cons d ds)
  obtain B where "snd (mark_closure cfg cnt d s) = block B (snd s)"
    using mark_closure_blocks [of cfg d cnt s] by blast
  with Cons [of "mark_closure cfg cnt d s"] show ?case by auto
qed

lemma preserve_all_effect:
  "\<exists>B. snd (preserve_all cfg ds s) = block B (snd s)"
  "xr_uncontained_execution (fst (preserve_all cfg ds s)) = xr_uncontained_execution (fst s)"
  "xr_failures (fst (preserve_all cfg ds s)) = xr_failures (fst s)"
  using fold_mark_closure_blocks [of cfg True ds "(xr_preserved_dependencies (fst s), snd s)"]
  by (auto simp: preserve_all_def split_beta Let_def)

lemma count_containment_sel [simp]:
  "xr_uncontained_execution (count_containment ct report) = xr_uncontained_execution report"
  "xr_failures (count_containment ct report) = xr_failures report"
  "xr_preserved_dependencies (count_containment ct report) = xr_preserved_dependencies report"
  by (simp_all add: count_containment_def Let_def)

lemma add_report_failure_sel [simp]:
  "xr_uncontained_execution (add_report_failure cfg f report) = xr_uncontained_execution report"
  "fd_total (xr_failures (add_report_failure cfg f report)) = fd_total (xr_failures report) + 1"
  by (simp_all add: add_report_failure_def)

text \<open>
  A configuration the engine can be built with: the component graph passed validation; and the
  records mutex can be taken, which fails only in an interrupt context.
\<close>

definition config_ok :: "('c, 'w) lifecycle_config \<Rightarrow> bool" where
  "config_ok cfg \<longleftrightarrow> validate_graph (lc_graph cfg) \<and> lc_records_lock cfg = None"

lemma config_ok_topo:
  assumes "config_ok cfg"
  shows "distinct (topo cfg)" and "set (topo cfg) = set (components (lc_graph cfg))"
    and "dependencies_first (lc_graph cfg) (topo cfg)"
    and "length (topo cfg) = length (components (lc_graph cfg))"
proof -
  from assms have "validate_graph (lc_graph cfg)" by (simp add: config_ok_def)
  then obtain order where "topological_order (lc_graph cfg) = Some order" and
      *: "mset order = mset (components (lc_graph cfg))" "distinct order"
      "dependencies_first (lc_graph cfg) order"
    by (rule topological_order_total)
  then have "topo cfg = order" by (simp add: topo_def)
  with * show "distinct (topo cfg)" "set (topo cfg) = set (components (lc_graph cfg))"
    "dependencies_first (lc_graph cfg) (topo cfg)"
    "length (topo cfg) = length (components (lc_graph cfg))"
    by (auto dest: mset_eq_setD mset_eq_length)
qed

lemma config_ok_rtopo:
  assumes "config_ok cfg"
  shows "distinct (rtopo cfg)" and "set (rtopo cfg) = set (components (lc_graph cfg))"
  using config_ok_topo [OF assms] by (simp_all add: rtopo_def)

lemma mark_closure_complete:
  assumes "config_ok cfg" and "c \<in> set (components (lc_graph cfg))"
  shows "snd (mark_closure cfg cnt c s) = block (closure cfg c) (snd s)"
proof -
  note topo = config_ok_topo [OF assms(1)]
  with assms(2) obtain i where "i < length (topo cfg)" "topo cfg ! i = c"
    by (metis in_set_conv_nth)
  with topo assms(1) show ?thesis
    using mark_closure_depth [of cfg "topo cfg" i "length (components (lc_graph cfg))" cnt s]
    by (simp add: mark_closure_def config_ok_def)
qed

text \<open>What one containment does, in terms of the set of components it blocks.\<close>

lemma contain_execution_idle:
  "\<not> executing cfg c (en_records (snd s) c) \<Longrightarrow> contain_execution cfg c s = s"
  by (auto simp: contain_execution_def executing_def engine_unfold default_record_def)

definition contained_record :: "containment \<Rightarrow> 'c component_record \<Rightarrow> 'c component_record" where
  "contained_record ct r = r\<lparr>cr_last_operation := LOp_ContainExecution,
     cr_attempts := cr_attempts r + 1, cr_execution_contained := ct_contained ct,
     cr_execution_prepared := (\<not> ct_contained ct \<and> cr_execution_prepared r),
     cr_last_status := ct_status ct\<rparr>"

lemma contain_execution_shape:
  fixes s :: "('c, 'z) execution_report_scheme \<times> ('c, 'w) engine"
  assumes "executing cfg c (en_records (snd s) c)"
  defines "ct \<equiv> fst (lc_contain cfg c (en_world (snd s)))"
  obtains B en report where
    "en_records en = (\<lambda>d. if d \<in> B
       then ((en_records (snd s))(c := contained_record ct (en_records (snd s) c))) d
              \<lparr>cr_cleanup_blocked := True\<rparr>
       else ((en_records (snd s))(c := contained_record ct (en_records (snd s) c))) d)"
    and "en_calls en = en_calls (snd s) @ [Call_Contain c]"
    and "en_system_state en = en_system_state (snd s)"
    and "ct_contained ct \<Longrightarrow> B = {}"
    and "\<not> ct_contained ct \<Longrightarrow> config_ok cfg \<Longrightarrow> c \<in> set (components (lc_graph cfg)) \<Longrightarrow>
      closure cfg c \<subseteq> B"
    and "xr_uncontained_execution report =
      xr_uncontained_execution (fst s) + (if ct_contained ct then 0 else 1)"
    and "xr_failures report = xr_failures (fst s)"
    and "contain_execution cfg c s =
      (if containment_failed ct
       then let failure = make_failure cfg c LOp_ContainExecution (containment_status ct) False
            in (add_report_failure cfg failure report, record_failure cfg c failure en)
       else (report, en))"
proof -
  obtain report0 en0 where s: "s = (report0, en0)" by fastforce
  let ?en1 = "mutate_record cfg c (\<lambda>r. r\<lparr>cr_last_operation := LOp_ContainExecution,
    cr_attempts := cr_attempts r + 1\<rparr>) en0"
  let ?en2 = "snd (call_world (Call_Contain c) (lc_contain cfg c) ?en1)"
  let ?en3 = "mutate_record cfg c (\<lambda>r. r\<lparr>cr_execution_contained := ct_contained ct,
    cr_execution_prepared := (\<not> ct_contained ct \<and> cr_execution_prepared r),
    cr_last_status := ct_status ct\<rparr>) ?en2"
  let ?report = "count_containment ct report0"
  let ?report1 = "?report\<lparr>xr_uncontained_execution := xr_uncontained_execution ?report + 1\<rparr>"
  let ?m = "mark_closure cfg False c (xr_preserved_dependencies ?report1, ?en3)"
  let ?p = "preserve_all cfg (lc_uncontained_dependencies cfg c (en_world (snd ?m)))
    (?report1\<lparr>xr_preserved_dependencies := fst ?m\<rparr>, snd ?m)"
  let ?re = "if ct_contained ct then (?report, ?en3) else ?p"
  have unlocked: "lc_records_lock cfg = None" using assms(1) by (simp add: executing_def)
  have ct: "fst (call_world (Call_Contain c) (lc_contain cfg c) ?en1) = ct"
    by (simp add: call_world_def ct_def s split_beta Let_def)
  have run: "contain_execution cfg c s =
      (if containment_failed ct
       then let failure = make_failure cfg c LOp_ContainExecution (containment_status ct) False
            in (add_report_failure cfg failure (fst ?re), record_failure cfg c failure (snd ?re))
       else (fst ?re, snd ?re))"
    using assms(1) ct
    by (cases "ct_contained ct"; cases "containment_failed ct")
      (simp_all add: contain_execution_def executing_def engine_unfold s split del: if_split)
  obtain B1 where B1: "B1 \<subseteq> closure cfg c" "snd ?m = block B1 ?en3"
    "config_ok cfg \<Longrightarrow> c \<in> set (components (lc_graph cfg)) \<Longrightarrow> B1 = closure cfg c"
  proof (cases "config_ok cfg \<and> c \<in> set (components (lc_graph cfg))")
    case True
    then show ?thesis
      by (intro that [of "closure cfg c"]) (simp_all add: mark_closure_complete)
  next
    case False
    then show ?thesis
      using mark_closure_blocks [of cfg c False "(xr_preserved_dependencies ?report1, ?en3)"] that
      by auto
  qed
  obtain B2 where B2: "snd ?p = block B2 (snd ?m)"
    using preserve_all_effect(1) by fastforce
  let ?B = "if ct_contained ct then {} else B2 \<union> B1"
  have pick: "snd (if b then (r, e) else q) = block (if b then {} else B2 \<union> B1) e"
    if "snd q = block B2 (block B1 e)" for b and r :: 'r and e :: "('c, 'w) engine" and q
    using that by simp
  have en: "snd ?re = block ?B ?en3"
    by (rule pick) (rule trans [OF B2 arg_cong [OF B1(2), of "block B2"]])
  have en3: "en_records ?en3 = (en_records en0)(c := contained_record ct (en_records en0 c))"
    "en_calls ?en3 = en_calls en0 @ [Call_Contain c]"
    "en_system_state ?en3 = en_system_state en0"
    by (simp_all add: unlocked contained_record_def)
  have report: "xr_uncontained_execution (fst ?re) =
      xr_uncontained_execution report0 + (if ct_contained ct then 0 else 1)"
    "xr_failures (fst ?re) = xr_failures report0"
    by (simp_all add: preserve_all_effect)
  show ?thesis
  proof (rule that [of "snd ?re" ?B "fst ?re"])
    show "en_calls (snd ?re) = en_calls (snd s) @ [Call_Contain c]"
      "en_system_state (snd ?re) = en_system_state (snd s)"
      unfolding en block_sel en3 s by simp_all
    show "en_records (snd ?re) = (\<lambda>d. if d \<in> ?B
       then ((en_records (snd s))(c := contained_record ct (en_records (snd s) c))) d
              \<lparr>cr_cleanup_blocked := True\<rparr>
       else ((en_records (snd s))(c := contained_record ct (en_records (snd s) c))) d)"
      unfolding en by (rule ext) (simp only: block_sel en3 s snd_conv)
    show "closure cfg c \<subseteq> ?B" if "\<not> ct_contained ct" "config_ok cfg"
      "c \<in> set (components (lc_graph cfg))"
      using B1(3) that by simp
  qed (use run report in \<open>simp_all only: s fst_conv if_True\<close>)
qed

lemma forget_blocked_sel [simp]:
  "executing cfg c (forget_blocked r) = executing cfg c r"
  "cr_init_succeeded (forget_blocked r) = cr_init_succeeded r"
  "cr_start_succeeded (forget_blocked r) = cr_start_succeeded r"
  "forget_blocked (r\<lparr>cr_cleanup_blocked := b\<rparr>) = forget_blocked r"
  by (simp_all add: forget_blocked_def executing_def)

lemma contained_record_sel [simp]:
  "cr_init_succeeded (contained_record ct r) = cr_init_succeeded r"
  "cr_start_succeeded (contained_record ct r) = cr_start_succeeded r"
  "cr_cleanup_blocked (contained_record ct r) = cr_cleanup_blocked r"
  by (simp_all add: contained_record_def)

lemma contain_execution_effect:
  fixes s :: "('c, 'z) execution_report_scheme \<times> ('c, 'w) engine"
  assumes exec: "executing cfg c (en_records (snd s) c)"
  defines "ct \<equiv> fst (lc_contain cfg c (en_world (snd s)))" and "s' \<equiv> contain_execution cfg c s"
  obtains B where
    "en_calls (snd s') = en_calls (snd s) @ [Call_Contain c]"
    "en_system_state (snd s') = en_system_state (snd s)"
    "\<And>d. d \<noteq> c \<Longrightarrow> forget_blocked (en_records (snd s') d) = forget_blocked (en_records (snd s) d)"
    "\<And>d. cr_init_succeeded (en_records (snd s') d) = cr_init_succeeded (en_records (snd s) d)"
    "\<And>d. cr_start_succeeded (en_records (snd s') d) = cr_start_succeeded (en_records (snd s) d)"
    "\<And>d. cr_cleanup_blocked (en_records (snd s') d) \<longleftrightarrow>
      cr_cleanup_blocked (en_records (snd s) d) \<or> d \<in> B"
    "executing cfg c (en_records (snd s') c) \<longleftrightarrow> \<not> ct_contained ct"
    "cr_execution_prepared (en_records (snd s') c) \<longleftrightarrow> \<not> ct_contained ct"
    "cr_execution_contained (en_records (snd s') c) \<longleftrightarrow> ct_contained ct"
    "ct_contained ct \<Longrightarrow> B = {}"
    "\<not> ct_contained ct \<Longrightarrow> config_ok cfg \<Longrightarrow> c \<in> set (components (lc_graph cfg)) \<Longrightarrow>
      closure cfg c \<subseteq> B"
    "xr_uncontained_execution (fst s') =
      xr_uncontained_execution (fst s) + (if ct_contained ct then 0 else 1)"
    "fd_total (xr_failures (fst s')) =
      fd_total (xr_failures (fst s)) + (if containment_failed ct then 1 else 0)"
proof -
  from exec have lock: "lc_records_lock cfg = None" by (simp add: executing_def)
  from exec show ?thesis
  proof (rule contain_execution_shape, fold ct_def, goal_cases)
    case (1 B en report)
    show ?case
      by (rule that [of B]; cases "containment_failed ct")
        (use 1 exec lock in \<open>simp_all add: s'_def Let_def executing_def contained_record_def
          forget_blocked_def\<close>)
  qed
qed

text \<open>The consequences the loops use.\<close>

lemma contain_execution_phase:
  "d \<noteq> c \<Longrightarrow> forget_blocked (en_records (snd (contain_execution cfg c s)) d) =
     forget_blocked (en_records (snd s) d)"
  "en_calls (snd (contain_execution cfg c s)) =
     en_calls (snd s) @ opt_call (executing cfg c (en_records (snd s) c)) (Call_Contain c)"
  "en_system_state (snd (contain_execution cfg c s)) = en_system_state (snd s)"
  by (atomize (full), cases "executing cfg c (en_records (snd s) c)",
      rule contain_execution_effect [of cfg c s], assumption,
      auto simp: contain_execution_idle opt_call_def)

interpretation containing: component_phase "contain_execution cfg"
  "\<lambda>c r. opt_call (executing cfg c r) (Call_Contain c)" forget_blocked for cfg
  by unfold_locales (simp_all add: contain_execution_phase)

lemma contain_execution_keeps:
  "cr_init_succeeded (en_records (snd (contain_execution cfg c s)) d) =
     cr_init_succeeded (en_records (snd s) d)"
  "cr_start_succeeded (en_records (snd (contain_execution cfg c s)) d) =
     cr_start_succeeded (en_records (snd s) d)"
  "cr_cleanup_blocked (en_records (snd s) d) \<Longrightarrow>
     cr_cleanup_blocked (en_records (snd (contain_execution cfg c s)) d)"
  by (atomize (full), cases "executing cfg c (en_records (snd s) c)",
      erule contain_execution_effect, auto simp: contain_execution_idle)

lemma contain_execution_report:
  "xr_uncontained_execution (fst s) \<le> xr_uncontained_execution (fst (contain_execution cfg c s))"
  "fd_total (xr_failures (fst s)) \<le> fd_total (xr_failures (fst (contain_execution cfg c s)))"
  by (atomize (full), cases "executing cfg c (en_records (snd s) c)",
      erule contain_execution_effect, auto simp: contain_execution_idle)

lemma contain_execution_uncontained:
  assumes "config_ok cfg" and "c \<in> set (components (lc_graph cfg))"
    and "executing cfg c (en_records (snd (contain_execution cfg c s)) c)"
  shows "\<forall>d \<in> closure cfg c. cr_cleanup_blocked (en_records (snd (contain_execution cfg c s)) d)"
proof (cases "executing cfg c (en_records (snd s) c)")
  case True
  then obtain B where
    "\<And>d. cr_cleanup_blocked (en_records (snd (contain_execution cfg c s)) d) \<longleftrightarrow>
      cr_cleanup_blocked (en_records (snd s) d) \<or> d \<in> B" and "closure cfg c \<subseteq> B"
    by (rule contain_execution_effect) (use assms in auto)
  then show ?thesis by auto
next
  case False
  with assms(3) show ?thesis by (simp add: contain_execution_idle)
qed

lemma contain_execution_all_contained:
  assumes "xr_uncontained_execution (fst (contain_execution cfg c s)) = 0"
  shows "\<not> executing cfg c (en_records (snd (contain_execution cfg c s)) c) \<and>
    (\<forall>d. cr_cleanup_blocked (en_records (snd (contain_execution cfg c s)) d) =
       cr_cleanup_blocked (en_records (snd s) d))"
proof (cases "executing cfg c (en_records (snd s) c)")
  case True
  then show ?thesis
    by (rule contain_execution_effect) (use assms in \<open>auto split: if_splits\<close>)
next
  case False
  then show ?thesis by (simp add: contain_execution_idle)
qed

section \<open>Stopping execution\<close>

lemma request_execution_stop_flags:
  "cr_init_succeeded (en_records (snd (request_execution_stop cfg c s)) d) =
     cr_init_succeeded (en_records (snd s) d)"
  "cr_start_succeeded (en_records (snd (request_execution_stop cfg c s)) d) =
     cr_start_succeeded (en_records (snd s) d)"
  "cr_cleanup_blocked (en_records (snd (request_execution_stop cfg c s)) d) =
     cr_cleanup_blocked (en_records (snd s) d)"
  "cr_execution_prepared (en_records (snd (request_execution_stop cfg c s)) d) =
     cr_execution_prepared (en_records (snd s) d)"
  "cr_execution_contained (en_records (snd (request_execution_stop cfg c s)) d) =
     cr_execution_contained (en_records (snd s) d)"
  "xr_uncontained_execution (fst (request_execution_stop cfg c s)) =
     xr_uncontained_execution (fst s)"
  "fd_total (xr_failures (fst s)) \<le> fd_total (xr_failures (fst (request_execution_stop cfg c s)))"
  by (simp_all add: request_execution_stop_def engine_unfold)

text \<open>The part of a record the calls of a teardown depend on.\<close>

definition same_flags :: "('c, 'w) engine \<Rightarrow> ('c, 'w) engine \<Rightarrow> bool" where
  "same_flags en en' \<longleftrightarrow> (\<forall>d.
     cr_init_succeeded (en_records en' d) = cr_init_succeeded (en_records en d) \<and>
     cr_start_succeeded (en_records en' d) = cr_start_succeeded (en_records en d) \<and>
     cr_cleanup_blocked (en_records en' d) = cr_cleanup_blocked (en_records en d) \<and>
     cr_execution_prepared (en_records en' d) = cr_execution_prepared (en_records en d) \<and>
     cr_execution_contained (en_records en' d) = cr_execution_contained (en_records en d))"

lemma fold_request_effect:
  "same_flags (snd s) (snd (fold (request_execution_stop cfg) cs s)) \<and>
   xr_uncontained_execution (fst (fold (request_execution_stop cfg) cs s)) =
     xr_uncontained_execution (fst s) \<and>
   fd_total (xr_failures (fst s)) \<le>
     fd_total (xr_failures (fst (fold (request_execution_stop cfg) cs s)))"
proof (induction cs arbitrary: s)
  case (Cons c cs)
  show ?case
    using Cons [of "request_execution_stop cfg c s"] request_execution_stop_flags(7) [where s = s and cfg = cfg and c = c]
    by (simp add: same_flags_def request_execution_stop_flags(1-6))
qed (simp add: same_flags_def)

text \<open>
  The containment loop: a component that is still executing afterwards has everything it
  depends on blocked, and if nothing is reported uncontained then nothing is executing and
  nothing new is blocked.
\<close>

definition blocks_closure :: "('c, 'w) lifecycle_config \<Rightarrow> 'c set \<Rightarrow> ('c, 'w) engine \<Rightarrow> bool" where
  "blocks_closure cfg C en \<longleftrightarrow> (\<forall>c \<in> C. executing cfg c (en_records en c) \<longrightarrow>
     (\<forall>d \<in> closure cfg c. cr_cleanup_blocked (en_records en d)))"

lemma fold_contain_keeps:
  fixes cfg cs
  defines "r \<equiv> fold (contain_execution cfg) cs"
  shows "cr_init_succeeded (en_records (snd (r s)) d) = cr_init_succeeded (en_records (snd s) d)"
    and "cr_start_succeeded (en_records (snd (r s)) d) = cr_start_succeeded (en_records (snd s) d)"
    and "cr_cleanup_blocked (en_records (snd s) d) \<Longrightarrow> cr_cleanup_blocked (en_records (snd (r s)) d)"
    and "xr_uncontained_execution (fst s) \<le> xr_uncontained_execution (fst (r s))"
    and "fd_total (xr_failures (fst s)) \<le> fd_total (xr_failures (fst (r s)))"
  unfolding r_def
proof (atomize (full), induction cs arbitrary: s)
  case (Cons c cs)
  show ?case
    using Cons [of "contain_execution cfg c s"] contain_execution_keeps [where cfg = cfg and c = c and s = s and d = d]
      contain_execution_report [where s = s and cfg = cfg and c = c]
    by (auto intro: le_trans)
qed simp

lemma executing_view:
  "forget_blocked r = forget_blocked r' \<Longrightarrow> executing cfg c r = executing cfg c r'"
  by (metis forget_blocked_sel(1))

lemma fold_contain_blocks:
  assumes "config_ok cfg" and "distinct cs" and "set cs \<subseteq> set (components (lc_graph cfg))"
  shows "blocks_closure cfg (set cs) (snd (fold (contain_execution cfg) cs s))"
  using assms(2,3)
proof (induction cs arbitrary: s)
  case (Cons c cs)
  let ?s = "contain_execution cfg c s" and ?r = "fold (contain_execution cfg) cs"
  have "executing cfg c (en_records (snd (?r ?s)) c) = executing cfg c (en_records (snd ?s) c)"
    using Cons.prems by (intro executing_view containing.fold_frame) simp
  then have "\<forall>d \<in> closure cfg c. cr_cleanup_blocked (en_records (snd (?r ?s)) d)"
    if "executing cfg c (en_records (snd (?r ?s)) c)"
    using contain_execution_uncontained [OF assms(1), of c s] that Cons.prems
    by (auto intro: fold_contain_keeps(3))
  moreover have "blocks_closure cfg (set cs) (snd (?r ?s))" using Cons by simp
  ultimately show ?case by (simp add: blocks_closure_def)
qed (simp add: blocks_closure_def)

lemma fold_contain_all_contained:
  assumes "distinct cs" and "xr_uncontained_execution (fst (fold (contain_execution cfg) cs s)) = 0"
  shows "(\<forall>c \<in> set cs. \<not> executing cfg c
        (en_records (snd (fold (contain_execution cfg) cs s)) c)) \<and>
    (\<forall>d. cr_cleanup_blocked (en_records (snd (fold (contain_execution cfg) cs s)) d) =
      cr_cleanup_blocked (en_records (snd s) d))"
  using assms
proof (induction cs arbitrary: s)
  case (Cons c cs)
  let ?s = "contain_execution cfg c s" and ?r = "fold (contain_execution cfg) cs"
  have "executing cfg c (en_records (snd (?r ?s)) c) = executing cfg c (en_records (snd ?s) c)"
    using Cons.prems by (intro executing_view containing.fold_frame) simp
  moreover have "xr_uncontained_execution (fst ?s) = 0"
    using Cons.prems fold_contain_keeps(4) [where s = ?s and cs = cs and cfg = cfg] by simp
  ultimately show ?case
    using Cons contain_execution_all_contained [of cfg c s] by simp
qed simp

section \<open>The system's own execution\<close>

lemma request_system_stop_effect:
  "en_records (snd (request_system_execution_stop cfg s)) = en_records (snd s)"
  "en_calls (snd (request_system_execution_stop cfg s)) =
     en_calls (snd s) @ opt_call (lc_system_participates cfg) Call_SystemRequestStop"
  "en_system_state (snd (request_system_execution_stop cfg s)) = en_system_state (snd s)"
  "xr_uncontained_execution (fst (request_system_execution_stop cfg s)) =
     xr_uncontained_execution (fst s)"
  "fd_total (xr_failures (fst s)) \<le>
     fd_total (xr_failures (fst (request_system_execution_stop cfg s)))"
  by (simp_all add: request_system_execution_stop_def split_beta Let_def opt_call_def)

lemma contain_system_effect:
  obtains B where
    "en_records (snd (contain_system_execution cfg s)) = en_records (block B (snd s))"
    "en_calls (snd (contain_system_execution cfg s)) =
       en_calls (snd s) @ opt_call (lc_system_participates cfg) Call_SystemContain"
    "en_system_state (snd (contain_system_execution cfg s)) = en_system_state (snd s)"
    "xr_uncontained_execution (fst s) \<le>
       xr_uncontained_execution (fst (contain_system_execution cfg s))"
    "fd_total (xr_failures (fst s)) \<le> fd_total (xr_failures (fst (contain_system_execution cfg s)))"
    "xr_uncontained_execution (fst (contain_system_execution cfg s)) = 0 \<Longrightarrow> B = {}"
proof -
  obtain report en where s: "s = (report, en)" by fastforce
  let ?cw = "call_world Call_SystemContain (lc_system_contain cfg) en"
  let ?count = "lc_system_uncontained_count cfg (en_world (snd ?cw))"
  let ?report = "report\<lparr>xr_uncontained_execution :=
    xr_uncontained_execution report + (if ?count = 0 then 1 else ?count)\<rparr>"
  let ?ds = "lc_system_uncontained_dependencies cfg (en_world (snd ?cw))"
  obtain B where B: "snd (preserve_all cfg ?ds (?report, snd ?cw)) = block B (snd ?cw)"
    using preserve_all_effect(1) [of cfg ?ds "(?report, snd ?cw)"] by auto
  show ?thesis
    by (rule that [of "if lc_system_participates cfg \<and> \<not> ct_contained (fst ?cw) then B else {}"];
        cases "lc_system_participates cfg"; cases "ct_contained (fst ?cw)";
        cases "containment_failed (fst ?cw)")
      (simp_all add: contain_system_execution_def s split_beta Let_def opt_call_def B
        preserve_all_effect fun_eq_iff split: if_splits)
qed

section \<open>Quiescing: the common prefix of stop and rollback\<close>

definition quiesce ::
  "('c, 'w) lifecycle_config \<Rightarrow> ('c, 'z) execution_report_scheme \<times> ('c, 'w) engine \<Rightarrow>
     ('c, 'z) execution_report_scheme \<times> ('c, 'w) engine" where
  "quiesce cfg s = fold (contain_execution cfg) (rtopo cfg)
     (fold (request_execution_stop cfg) (rtopo cfg)
       (contain_system_execution cfg (request_system_execution_stop cfg s)))"

definition quiesce_calls :: "('c, 'w) lifecycle_config \<Rightarrow> ('c, 'w) engine \<Rightarrow> 'c call list" where
  "quiesce_calls cfg en =
     opt_call (lc_system_participates cfg) Call_SystemRequestStop @
     opt_call (lc_system_participates cfg) Call_SystemContain @
     map Call_RequestStop (filter (\<lambda>c. executing cfg c (en_records en c)) (rtopo cfg)) @
     map Call_Contain (filter (\<lambda>c. executing cfg c (en_records en c)) (rtopo cfg))"

lemma concat_opt_call:
  "concat (map (\<lambda>c. opt_call (P c) (f c)) cs) = map f (filter P cs)"
  by (induction cs) (auto simp: opt_call_def)

lemma quiesce_effect:
  fixes s :: "('c, 'z) execution_report_scheme \<times> ('c, 'w) engine"
  assumes ok: "config_ok cfg"
  defines "q \<equiv> quiesce cfg s"
  shows "en_calls (snd q) = en_calls (snd s) @ quiesce_calls cfg (snd s)"
    and "en_system_state (snd q) = en_system_state (snd s)"
    and "cr_init_succeeded (en_records (snd q) d) = cr_init_succeeded (en_records (snd s) d)"
    and "cr_start_succeeded (en_records (snd q) d) = cr_start_succeeded (en_records (snd s) d)"
    and "cr_cleanup_blocked (en_records (snd s) d) \<Longrightarrow> cr_cleanup_blocked (en_records (snd q) d)"
    and "blocks_closure cfg (set (components (lc_graph cfg))) (snd q)"
    and "fd_total (xr_failures (fst s)) \<le> fd_total (xr_failures (fst q))"
    and "xr_uncontained_execution (fst q) = 0 \<Longrightarrow>
      xr_uncontained_execution (fst s) = 0 \<and>
      (\<forall>c \<in> set (components (lc_graph cfg)). \<not> executing cfg c (en_records (snd q) c)) \<and>
      (\<forall>d. cr_cleanup_blocked (en_records (snd q) d) = cr_cleanup_blocked (en_records (snd s) d))"
proof -
  note rt = config_ok_rtopo [OF ok]
  let ?s1 = "request_system_execution_stop cfg s"
  let ?s2 = "contain_system_execution cfg ?s1"
  let ?s3 = "fold (request_execution_stop cfg) (rtopo cfg) ?s2"
  have q: "q = fold (contain_execution cfg) (rtopo cfg) ?s3" by (simp add: q_def quiesce_def)
  note s1 = request_system_stop_effect [where cfg = cfg and s = s]
  obtain B where s2: "en_records (snd ?s2) = en_records (block B (snd ?s1))"
    "en_calls (snd ?s2) = en_calls (snd ?s1) @ opt_call (lc_system_participates cfg) Call_SystemContain"
    "en_system_state (snd ?s2) = en_system_state (snd ?s1)"
    "xr_uncontained_execution (fst ?s1) \<le> xr_uncontained_execution (fst ?s2)"
    "fd_total (xr_failures (fst ?s1)) \<le> fd_total (xr_failures (fst ?s2))"
    "xr_uncontained_execution (fst ?s2) = 0 \<Longrightarrow> B = {}"
    by (rule contain_system_effect [where cfg = cfg and s = ?s1]) (rule that; simp)
  note s3 = fold_request_effect [where s = ?s2 and cfg = cfg and cs = "rtopo cfg"]
  note s4 = fold_contain_keeps [where cfg = cfg and cs = "rtopo cfg" and s = ?s3]
  have exec2: "executing cfg c (en_records (snd ?s2) c) = executing cfg c (en_records (snd s) c)" for c
    by (simp add: s2(1) s1 executing_def)
  moreover have "executing cfg c (en_records (snd ?s3) c) = executing cfg c (en_records (snd ?s2) c)" for c
    using s3 by (simp add: same_flags_def executing_def)
  ultimately show "en_calls (snd q) = en_calls (snd s) @ quiesce_calls cfg (snd s)"
    using containing.fold_calls [OF rt(1), of cfg ?s3] requesting.fold_calls [OF rt(1), of cfg ?s2]
    by (simp add: q s2 s1 quiesce_calls_def concat_opt_call)
  show "en_system_state (snd q) = en_system_state (snd s)"
    by (simp add: q containing.fold_system requesting.fold_system s2 s1)
  show "cr_init_succeeded (en_records (snd q) d) = cr_init_succeeded (en_records (snd s) d)"
    "cr_start_succeeded (en_records (snd q) d) = cr_start_succeeded (en_records (snd s) d)"
    using s3 s4(1,2) [of d] by (simp_all add: q same_flags_def s2 s1)
  show "cr_cleanup_blocked (en_records (snd q) d)" if "cr_cleanup_blocked (en_records (snd s) d)"
    using that s3 s4(3) [of d] by (simp add: q same_flags_def s2 s1)
  show "blocks_closure cfg (set (components (lc_graph cfg))) (snd q)"
    using fold_contain_blocks [OF ok rt(1)] rt(2) by (simp add: q)
  show "fd_total (xr_failures (fst s)) \<le> fd_total (xr_failures (fst q))"
    using s1(5) s2(5) s3 s4(5) by (simp add: q)
  assume 0: "xr_uncontained_execution (fst q) = 0"
  with s4(4) s3 s2(4,6) s1(4)
  have z: "xr_uncontained_execution (fst ?s3) = 0" "B = {}" "xr_uncontained_execution (fst s) = 0"
    by (simp_all add: q)
  show "xr_uncontained_execution (fst s) = 0 \<and>
      (\<forall>c \<in> set (components (lc_graph cfg)). \<not> executing cfg c (en_records (snd q) c)) \<and>
      (\<forall>d. cr_cleanup_blocked (en_records (snd q) d) = cr_cleanup_blocked (en_records (snd s) d))"
    using fold_contain_all_contained [OF rt(1), of cfg ?s3] 0 z s3 rt(2)
    by (simp add: q same_flags_def s2 s1)
qed

section \<open>Tearing down\<close>

lemma stop_loop_flags:
  assumes "distinct cs" and "c \<in> set cs"
  shows "(cr_start_succeeded (en_records (snd (fold (stop_step cfg) cs s)) c) \<longleftrightarrow>
      cr_start_succeeded (en_records (snd s) c) \<and> \<not> unblocked cfg (en_records (snd s) c)) \<and>
    cr_init_succeeded (en_records (snd (fold (stop_step cfg) cs s)) c) =
      cr_init_succeeded (en_records (snd s) c) \<and>
    cr_cleanup_blocked (en_records (snd (fold (stop_step cfg) cs s)) c) =
      cr_cleanup_blocked (en_records (snd s) c) \<and>
    executing cfg c (en_records (snd (fold (stop_step cfg) cs s)) c) =
      executing cfg c (en_records (snd s) c)"
  by (rule stop_loop.fold_establishes [OF assms])
    (simp add: stop_step_snd stop_component_flags executing_def)

lemma deinit_loop_flags:
  assumes "distinct cs" and "c \<in> set cs"
  shows "(cr_init_succeeded (en_records (snd (fold (deinit_step cfg) cs s)) c) \<longleftrightarrow>
      cr_init_succeeded (en_records (snd s) c) \<and> \<not> unblocked cfg (en_records (snd s) c)) \<and>
    cr_start_succeeded (en_records (snd (fold (deinit_step cfg) cs s)) c) =
      cr_start_succeeded (en_records (snd s) c) \<and>
    cr_cleanup_blocked (en_records (snd (fold (deinit_step cfg) cs s)) c) =
      cr_cleanup_blocked (en_records (snd s) c) \<and>
    executing cfg c (en_records (snd (fold (deinit_step cfg) cs s)) c) =
      executing cfg c (en_records (snd s) c)"
  by (rule deinit_loop.fold_establishes [OF assms])
    (simp add: deinit_step_snd deinitialize_component_flags executing_def)

lemma stop_loops_uncontained:
  "xr_uncontained_execution (fst (fold (stop_step cfg) cs s)) = xr_uncontained_execution (fst s)"
  "xr_uncontained_execution (fst (fold (deinit_step cfg) cs s)) = xr_uncontained_execution (fst s)"
  by (induction cs arbitrary: s) (simp_all add: stop_step_def deinit_step_def split_beta Let_def)

text \<open>The state in which the teardown loops of \<^verbatim>\<open>stop\<close> run, and the state they leave.\<close>

definition stop_quiesced ::
  "('c, 'w) lifecycle_config \<Rightarrow> ('c, 'w) engine \<Rightarrow> 'c stop_report \<times> ('c, 'w) engine" where
  "stop_quiesced cfg en = quiesce cfg (initial_stop_report (en_system_state en),
     en\<lparr>en_operation_active := True, en_system_state := Sys_Stopping\<rparr>)"

definition stop_torn_down ::
  "('c, 'w) lifecycle_config \<Rightarrow> ('c, 'w) engine \<Rightarrow> 'c stop_report \<times> ('c, 'w) engine" where
  "stop_torn_down cfg en =
     (let s = fold (stop_step cfg) (rtopo cfg) (stop_quiesced cfg en)
      in fold (deinit_step cfg) (rtopo cfg)
           (fst s, (snd s)\<lparr>en_system_state := Sys_Deinitializing\<rparr>))"

definition stop_allowed :: "('c, 'w) lifecycle_config \<Rightarrow> ('c, 'w) engine \<Rightarrow> bool" where
  "stop_allowed cfg en \<longleftrightarrow> \<not> en_operation_active en \<and>
     (en_system_state en = Sys_Running \<or> en_system_state en = Sys_Failed \<and> has_resources cfg en)"

definition stop_clean :: "'c stop_report \<Rightarrow> bool" where
  "stop_clean report \<longleftrightarrow> fd_total (xr_failures report) = 0 \<and> xr_uncontained_execution report = 0"

lemma stop_system_run:
  assumes "stop_allowed cfg en"
  defines "t \<equiv> stop_torn_down cfg en"
  defines "state \<equiv> if stop_clean (fst t) then Sys_Stopped else Sys_Failed"
  defines "report \<equiv> (fst t)\<lparr>sr_final_state := state\<rparr>"
  shows "stop_system cfg en =
    (if stop_clean (fst t) then Inr report
     else Inl \<lparr>se_reason = SE_ShutdownFailed, se_status = St_Error,
                se_failure = (case fd_entries (xr_failures (fst t)) of
                                [] \<Rightarrow> None | f # fs \<Rightarrow> Some f)\<rparr>,
     (publish_stop cfg report ((snd t)\<lparr>en_system_state := state\<rparr>))\<lparr>en_operation_active := False\<rparr>)"
  using assms(1)
  by (auto simp: stop_allowed_def stop_system_def stop_body_def t_def state_def report_def
      stop_torn_down_def stop_quiesced_def quiesce_def stop_clean_def has_resources_def
      split_beta Let_def)

lemma publish_sel [simp]:
  "en_records (publish_stop cfg r en) = en_records en"
  "en_calls (publish_stop cfg r en) = en_calls en"
  "en_system_state (publish_stop cfg r en) = en_system_state en"
  "en_operation_active (publish_stop cfg r en) = en_operation_active en"
  "en_records (publish_boot cfg r' en) = en_records en"
  "en_calls (publish_boot cfg r' en) = en_calls en"
  "en_system_state (publish_boot cfg r' en) = en_system_state en"
  "en_operation_active (publish_boot cfg r' en) = en_operation_active en"
  by (simp_all add: publish_stop_def publish_boot_def with_records_def split: option.splits)

lemma stop_quiesced_effect:
  assumes "config_ok cfg"
  shows "en_calls (snd (stop_quiesced cfg en)) = en_calls en @ quiesce_calls cfg en"
    and "cr_init_succeeded (en_records (snd (stop_quiesced cfg en)) d) =
      cr_init_succeeded (en_records en d)"
    and "cr_start_succeeded (en_records (snd (stop_quiesced cfg en)) d) =
      cr_start_succeeded (en_records en d)"
    and "blocks_closure cfg (set (components (lc_graph cfg))) (snd (stop_quiesced cfg en))"
  unfolding stop_quiesced_def
  by (simp_all add: quiesce_effect [OF assms] quiesce_calls_def)

lemma stop_system_records:
  assumes ok: "config_ok cfg" and allowed: "stop_allowed cfg en"
    and c: "c \<in> set (components (lc_graph cfg))"
  defines "en' \<equiv> snd (stop_system cfg en)"
  shows "cr_cleanup_blocked (en_records en' c) =
      cr_cleanup_blocked (en_records (snd (stop_quiesced cfg en)) c)"
    and "cr_init_succeeded (en_records en' c) \<longleftrightarrow>
      cr_init_succeeded (en_records en c) \<and> cr_cleanup_blocked (en_records en' c)"
    and "cr_start_succeeded (en_records en' c) \<longleftrightarrow>
      cr_start_succeeded (en_records en c) \<and> cr_cleanup_blocked (en_records en' c)"
    and "executing cfg c (en_records en' c) \<longleftrightarrow>
      executing cfg c (en_records (snd (stop_quiesced cfg en)) c)"
proof -
  note rt = config_ok_rtopo [OF ok] and q = stop_quiesced_effect [OF ok]
  have c': "c \<in> set (rtopo cfg)" using c rt(2) by simp
  let ?s = "fold (stop_step cfg) (rtopo cfg) (stop_quiesced cfg en)"
  let ?s' = "(fst ?s, (snd ?s)\<lparr>en_system_state := Sys_Deinitializing\<rparr>)"
  have en': "en_records en' = en_records (snd (fold (deinit_step cfg) (rtopo cfg) ?s'))"
    by (simp add: en'_def stop_system_run [OF allowed] stop_torn_down_def Let_def)
  have lock: "lc_records_lock cfg = None" using ok by (simp add: config_ok_def)
  note facts = stop_loop_flags [OF rt(1) c', of cfg "stop_quiesced cfg en"]
    deinit_loop_flags [OF rt(1) c', of cfg ?s']
  show "cr_cleanup_blocked (en_records en' c) =
      cr_cleanup_blocked (en_records (snd (stop_quiesced cfg en)) c)"
    "cr_init_succeeded (en_records en' c) \<longleftrightarrow>
      cr_init_succeeded (en_records en c) \<and> cr_cleanup_blocked (en_records en' c)"
    "cr_start_succeeded (en_records en' c) \<longleftrightarrow>
      cr_start_succeeded (en_records en c) \<and> cr_cleanup_blocked (en_records en' c)"
    "executing cfg c (en_records en' c) \<longleftrightarrow>
      executing cfg c (en_records (snd (stop_quiesced cfg en)) c)"
    using facts lock by (simp_all add: en' unblocked_def q)
qed

lemma filter_opt_calls:
  assumes "\<And>c. c \<in> set cs \<Longrightarrow> calls c = opt_call (P c) (f c)"
  shows "concat (map calls cs) = map f (filter P cs)"
  using assms by (induction cs) (auto simp: opt_call_def)

lemma stop_system_calls:
  assumes ok: "config_ok cfg" and allowed: "stop_allowed cfg en"
  defines "en' \<equiv> snd (stop_system cfg en)"
  shows "en_calls en' = en_calls en @ quiesce_calls cfg en @
    map Call_Stop (filter (\<lambda>c. lc_has_stop cfg c \<and> cr_start_succeeded (en_records en c) \<and>
      \<not> cr_cleanup_blocked (en_records en' c)) (rtopo cfg)) @
    map Call_Deinit (filter (\<lambda>c. lc_has_deinit cfg c \<and> cr_init_succeeded (en_records en c) \<and>
      \<not> cr_cleanup_blocked (en_records en' c)) (rtopo cfg))"
proof -
  note rt = config_ok_rtopo [OF ok] and q = stop_quiesced_effect [OF ok]
  let ?q = "stop_quiesced cfg en"
  let ?s = "fold (stop_step cfg) (rtopo cfg) ?q"
  let ?s' = "(fst ?s, (snd ?s)\<lparr>en_system_state := Sys_Deinitializing\<rparr>)"
  have lock: "lc_records_lock cfg = None" using ok by (simp add: config_ok_def)
  have blocked: "cr_cleanup_blocked (en_records en' c) = cr_cleanup_blocked (en_records (snd ?q) c)"
    if "c \<in> set (rtopo cfg)" for c
    unfolding en'_def using stop_system_records(1) [OF ok allowed] that rt(2) by simp
  have "en_calls en' = en_calls (snd (fold (deinit_step cfg) (rtopo cfg) ?s'))"
    by (simp add: en'_def stop_system_run [OF allowed] stop_torn_down_def Let_def)
  also have "\<dots> = en_calls (snd ?s) @
      concat (map (\<lambda>c. deinit_calls cfg c (en_records (snd ?s) c)) (rtopo cfg))"
    using deinit_loop.fold_calls [OF rt(1), of cfg ?s'] by simp
  also have "concat (map (\<lambda>c. deinit_calls cfg c (en_records (snd ?s) c)) (rtopo cfg)) =
      map Call_Deinit (filter (\<lambda>c. lc_has_deinit cfg c \<and> cr_init_succeeded (en_records en c) \<and>
        \<not> cr_cleanup_blocked (en_records en' c)) (rtopo cfg))"
    by (rule filter_opt_calls)
      (use stop_loop_flags [OF rt(1), of _ cfg ?q] lock q in
        \<open>auto simp: deinit_calls_def unblocked_def blocked opt_call_def\<close>)
  also have "en_calls (snd ?s) = en_calls (snd ?q) @
      concat (map (\<lambda>c. stop_calls cfg c (en_records (snd ?q) c)) (rtopo cfg))"
    by (rule stop_loop.fold_calls [OF rt(1)])
  also have "concat (map (\<lambda>c. stop_calls cfg c (en_records (snd ?q) c)) (rtopo cfg)) =
      map Call_Stop (filter (\<lambda>c. lc_has_stop cfg c \<and> cr_start_succeeded (en_records en c) \<and>
        \<not> cr_cleanup_blocked (en_records en' c)) (rtopo cfg))"
    by (rule filter_opt_calls)
      (use lock q in \<open>auto simp: stop_calls_def unblocked_def blocked opt_call_def\<close>)
  finally show ?thesis by (simp add: q)
qed

lemma closure_components:
  assumes "config_ok cfg" and "c \<in> set (components (lc_graph cfg))" and "d \<in> closure cfg c"
  shows "d \<in> set (components (lc_graph cfg))"
proof -
  from assms(3) have "(c, d) \<in> {(x, y). y \<in> set (dependencies (lc_graph cfg) x)}\<^sup>*"
    by (simp add: closure_def)
  then show ?thesis
    using assms(1,2)
    by induction
      (auto simp: config_ok_def validate_graph_def validate_dependencies_def list_all_iff)
qed

section \<open>Properties\<close>

text \<open>
  C7: the calls of a stop. Stop first asks the system execution and every executing component to
  stop, then contains them, and only then runs the \<^verbatim>\<open>stop()\<close> hooks and after all of those the
  \<^verbatim>\<open>deinit()\<close> hooks; each of the four passes is in reverse topological order, and the hooks run for
  exactly the components that were started (initialised) and are not blocked by an execution
  that could not be contained.
\<close>

theorem stop_teardown_order:
  assumes "config_ok cfg" and "stop_allowed cfg en"
  shows "en_calls (snd (stop_system cfg en)) = en_calls en @ quiesce_calls cfg en @
    map Call_Stop (filter (\<lambda>c. lc_has_stop cfg c \<and> cr_start_succeeded (en_records en c) \<and>
      \<not> cr_cleanup_blocked (en_records (snd (stop_system cfg en)) c)) (rtopo cfg)) @
    map Call_Deinit (filter (\<lambda>c. lc_has_deinit cfg c \<and> cr_init_succeeded (en_records en c) \<and>
      \<not> cr_cleanup_blocked (en_records (snd (stop_system cfg en)) c)) (rtopo cfg))"
  using assms by (rule stop_system_calls)

text \<open>
  C8: an execution that could not be contained keeps its dependencies. If a component is still
  executing after a stop, then the component and everything it transitively depends on is marked
  cleanup-blocked, stays initialised if it was, and none of their \<^verbatim>\<open>stop()\<close> and \<^verbatim>\<open>deinit()\<close> hooks
  was called.
\<close>

theorem stop_preserves_dependencies:
  assumes "config_ok cfg" and "stop_allowed cfg en" and "c \<in> set (components (lc_graph cfg))"
    and "executing cfg c (en_records (snd (stop_system cfg en)) c)" and "d \<in> closure cfg c"
  shows "cr_cleanup_blocked (en_records (snd (stop_system cfg en)) d) \<and>
    cr_init_succeeded (en_records (snd (stop_system cfg en)) d) =
      cr_init_succeeded (en_records en d) \<and>
    (\<exists>new. en_calls (snd (stop_system cfg en)) = en_calls en @ new \<and>
       Call_Stop d \<notin> set new \<and> Call_Deinit d \<notin> set new)"
proof -
  note records = stop_system_records [OF assms(1,2)]
  have d: "d \<in> set (components (lc_graph cfg))" using closure_components [OF assms(1,3,5)] .
  have "executing cfg c (en_records (snd (stop_quiesced cfg en)) c)"
    using records(4) [OF assms(3)] assms(4) by simp
  with stop_quiesced_effect(4) [OF assms(1), of en] assms(3,5)
  have blocked: "cr_cleanup_blocked (en_records (snd (stop_system cfg en)) d)"
    using records(1) [OF d] by (auto simp: blocks_closure_def)
  moreover have "Call_Stop d \<notin> set (quiesce_calls cfg en)" "Call_Deinit d \<notin> set (quiesce_calls cfg en)"
    by (auto simp: quiesce_calls_def opt_call_def)
  ultimately show ?thesis
    using records(2) [OF d] stop_system_calls [OF assms(1,2)] by auto
qed

lemma stop_refused:
  assumes "\<not> en_operation_active en" and "\<not> stop_allowed cfg en"
  shows "stop_system cfg en =
    (Inl \<lparr>se_reason = SE_InvalidState, se_status = St_NotReady, se_failure = None\<rparr>, en)"
  using assms by (cases en) (auto simp: stop_system_def stop_allowed_def has_resources_def Let_def)

lemma stop_clean_final [simp]: "stop_clean (r\<lparr>sr_final_state := x\<rparr>) = stop_clean r"
  by (simp add: stop_clean_def)

text \<open>
  the outcome of a stop. It is refused without any effect while another operation is active,
  and in a state other than running or failed-with-resources; otherwise it returns a report
  exactly when nothing failed and nothing stayed uncontained. The final state is Stopped or
  Failed accordingly, and the operation guard is released.
\<close>

theorem stop_outcome:
  "case stop_system cfg en of
     (Inr report, en') \<Rightarrow> stop_allowed cfg en \<and> stop_clean report \<and>
       sr_final_state report = Sys_Stopped \<and> en_system_state en' = Sys_Stopped \<and>
       \<not> en_operation_active en'
   | (Inl e, en') \<Rightarrow>
       if en_operation_active en then se_reason e = SE_Busy \<and> en' = en
       else if \<not> stop_allowed cfg en then se_reason e = SE_InvalidState \<and> en' = en
       else se_reason e = SE_ShutdownFailed \<and> \<not> stop_clean (fst (stop_torn_down cfg en)) \<and>
         en_system_state en' = Sys_Failed \<and> \<not> en_operation_active en'"
proof (cases "stop_allowed cfg en")
  case True
  then show ?thesis by (simp add: stop_system_run stop_allowed_def)
next
  case False
  show ?thesis
  proof (cases "en_operation_active en")
    case True
    then show ?thesis by (simp add: stop_system_def)
  next
    case idle: False
    then show ?thesis using stop_refused [OF idle False] False by simp
  qed
qed

text \<open>
  C9: a stop that succeeds on a system with nothing blocked releases everything: afterwards no
  component is initialised, started or executing.
\<close>

theorem stop_releases_everything:
  assumes "config_ok cfg" and "stop_system cfg en = (Inr report, en')"
    and "\<forall>c \<in> set (components (lc_graph cfg)). \<not> cr_cleanup_blocked (en_records en c)"
    and "c \<in> set (components (lc_graph cfg))"
  shows "\<not> cr_init_succeeded (en_records en' c) \<and> \<not> cr_start_succeeded (en_records en' c) \<and>
    \<not> executing cfg c (en_records en' c)"
proof -
  have allowed: "stop_allowed cfg en"
    using assms(2) stop_refused [of en cfg] by (auto simp: stop_system_def split: if_splits)
  have en': "en' = snd (stop_system cfg en)" using assms(2) by simp
  let ?q = "stop_quiesced cfg en"
  have "stop_clean (fst (stop_torn_down cfg en))"
    using assms(2) by (auto simp: stop_system_run [OF allowed] split: if_splits)
  moreover have "xr_uncontained_execution (fst (stop_torn_down cfg en)) =
      xr_uncontained_execution (fst ?q)"
    by (simp add: stop_torn_down_def Let_def stop_loops_uncontained)
  ultimately have "xr_uncontained_execution (fst ?q) = 0" by (simp add: stop_clean_def)
  from quiesce_effect(8) [OF assms(1) this [unfolded stop_quiesced_def]] assms(3,4)
  have "\<not> executing cfg c (en_records (snd ?q) c)" "\<not> cr_cleanup_blocked (en_records (snd ?q) c)"
    by (simp_all add: stop_quiesced_def)
  then show ?thesis
    using stop_system_records [OF assms(1) allowed assms(4)] by (simp add: en')
qed

end
