(* ===== verification/Lifecycle_Boot.thy ===== *)
theory Lifecycle_Boot
  imports Lifecycle_Stop
begin

text \<open>
  Correctness of \<^verbatim>\<open>Engine::boot\<close>: the guards, the order of the calls of a successful boot, what a
  failed boot tears down, and that a system whose hooks succeed comes up.
\<close>

section \<open>The forward operations\<close>

lemma opt_call_simps: "opt_call True x = [x]" "opt_call False x = []"
  by (simp_all add: opt_call_def)

lemma initialize_component_effect:
  fixes cfg c and en :: "('c, 'w) engine"
  defines "en' \<equiv> snd (initialize_component cfg c en)" and "res \<equiv> fst (initialize_component cfg c en)"
  assumes lock: "lc_records_lock cfg = None"
  shows "en_calls en' = en_calls en @ opt_call (lc_has_init cfg c) (Call_Init c)"
    and "en_system_state en' = en_system_state en"
    and "cr_init_succeeded (en_records en' d) \<longleftrightarrow>
      cr_init_succeeded (en_records en d) \<or> d = c \<and> is_ok res"
    and "cr_start_succeeded (en_records en' d) = cr_start_succeeded (en_records en d)"
    and "cr_cleanup_blocked (en_records en' d) = cr_cleanup_blocked (en_records en d)"
    and "cr_execution_prepared (en_records en' d) = cr_execution_prepared (en_records en d)"
    and "cr_execution_contained (en_records en' d) = cr_execution_contained (en_records en d)"
  using lock
  by (auto simp: en'_def res_def initialize_component_def engine_unfold)

lemma start_component_effect:
  fixes cfg c and en :: "('c, 'w) engine"
  defines "en' \<equiv> snd (start_component cfg c en)" and "res \<equiv> fst (start_component cfg c en)"
  assumes lock: "lc_records_lock cfg = None"
  shows "is_ok res \<Longrightarrow> en_calls en' = en_calls en @ opt_call (lc_has_start cfg c) (Call_Start c) @
      opt_call (lc_participates cfg c) (Call_Prepare c)"
    and "en_system_state en' = en_system_state en"
    and "cr_init_succeeded (en_records en' d) = cr_init_succeeded (en_records en d)"
    and "cr_start_succeeded (en_records en' d) \<longleftrightarrow>
      cr_start_succeeded (en_records en d) \<or> d = c \<and> is_ok res"
    and "cr_cleanup_blocked (en_records en' d) = cr_cleanup_blocked (en_records en d)"
    and "cr_execution_prepared (en_records en' d) \<longleftrightarrow>
      cr_execution_prepared (en_records en d) \<or> d = c \<and> is_ok res \<and> lc_participates cfg c"
    and "cr_execution_contained (en_records en' d) \<longleftrightarrow>
      cr_execution_contained (en_records en d) \<and> \<not> (d = c \<and> is_ok res \<and> lc_participates cfg c)"
  using lock
  by (auto simp: en'_def res_def start_component_def engine_unfold opt_call_simps split: if_splits)

lemma validate_execution_effect:
  fixes cfg c and en :: "('c, 'w) engine"
  defines "en' \<equiv> snd (validate_execution cfg c en)"
  shows "en_calls en' = en_calls en @ opt_call (lc_participates cfg c \<and>
      lc_records_lock cfg = None \<and> cr_execution_prepared (en_records en c)) (Call_Validate c)"
    and "en_system_state en' = en_system_state en"
    and "same_flags en en'"
  by (auto simp: en'_def validate_execution_def engine_unfold opt_call_def same_flags_def
      default_record_def)

lemma activate_execution_effect:
  fixes cfg c and en :: "('c, 'w) engine"
  defines "en' \<equiv> activate_execution cfg c en"
  shows "en_calls en' = en_calls en @ opt_call (lc_participates cfg c \<and>
      lc_records_lock cfg = None \<and> cr_execution_prepared (en_records en c)) (Call_Activate c)"
    and "en_system_state en' = en_system_state en"
    and "same_flags en en'"
    and "cr_state (en_records en' d) = cr_state (en_records en d)"
    and "en_last_boot en' = en_last_boot en"
  by (auto simp: en'_def activate_execution_def engine_unfold opt_call_def same_flags_def
      default_record_def)

lemma record_failure_flags [simp]:
  "cr_init_succeeded (en_records (record_failure cfg c f en) d) = cr_init_succeeded (en_records en d)"
  "cr_start_succeeded (en_records (record_failure cfg c f en) d) = cr_start_succeeded (en_records en d)"
  "cr_cleanup_blocked (en_records (record_failure cfg c f en) d) = cr_cleanup_blocked (en_records en d)"
  "cr_execution_prepared (en_records (record_failure cfg c f en) d) =
     cr_execution_prepared (en_records en d)"
  "cr_execution_contained (en_records (record_failure cfg c f en) d) =
     cr_execution_contained (en_records en d)"
  by simp_all

declare record_failure_records [simp del]

lemma same_flags_refl [simp]: "same_flags en en"
  by (simp add: same_flags_def)

lemma same_flags_trans [trans]: "same_flags a b \<Longrightarrow> same_flags b c \<Longrightarrow> same_flags a c"
  by (simp add: same_flags_def)

lemma commit_catalogs_effect:
  "same_flags en (snd (commit_catalogs cfg ks en))"
  "en_system_state (snd (commit_catalogs cfg ks en)) = en_system_state en"
  "fst (commit_catalogs cfg ks en) = None \<Longrightarrow> en_calls (snd (commit_catalogs cfg ks en)) =
     en_calls en @ map Call_Commit (filter (lc_catalog_participates cfg) ks)"
  by (induction ks arbitrary: en) (auto simp: split_beta Let_def same_flags_def)

lemma system_phase_effect:
  "same_flags en (snd (system_phase cfg x operation f en))"
  "en_system_state (snd (system_phase cfg x operation f en)) = en_system_state en"
  "en_calls (snd (system_phase cfg x operation f en)) =
     en_calls en @ opt_call (lc_system_participates cfg) x"
  by (auto simp: system_phase_def split_beta Let_def same_flags_def opt_call_def)

section \<open>The phases of a boot\<close>

lemma init_phase_effect:
  assumes lock: "lc_records_lock cfg = None" and "init_phase cfg cs n en = (primary, m, en')"
  shows "\<exists>pre. (case primary of None \<Rightarrow> pre = cs
        | Some f \<Rightarrow> \<exists>c post. cs = pre @ c # post \<and> fl_component f = Some c \<and>
            fl_operation f = LOp_Init \<and> fl_primary f) \<and> m = n + length pre \<and>
      en_calls en' = en_calls en @
        map Call_Init (filter (lc_has_init cfg) (take (Suc (length pre)) cs)) \<and>
      en_system_state en' = en_system_state en \<and>
      same_flags (en\<lparr>en_records := (\<lambda>d. (en_records en d)\<lparr>cr_init_succeeded :=
        (cr_init_succeeded (en_records en d) \<or> d \<in> set pre)\<rparr>)\<rparr>) en'"
  using assms(2)
proof (induction cs arbitrary: n en)
  case Nil
  then show ?case by (simp add: same_flags_def)
next
  case (Cons c cs)
  let ?en = "snd (initialize_component cfg c en)"
  note step = initialize_component_effect [OF lock, of c en]
  show ?case
  proof (cases "is_ok (fst (initialize_component cfg c en))")
    case True
    with Cons.prems have "init_phase cfg cs (n + 1) ?en = (primary, m, en')"
      by (simp add: split_beta Let_def)
    from Cons.IH [OF this] obtain pre where pre: "case primary of None \<Rightarrow> pre = cs
        | Some f \<Rightarrow> \<exists>c post. cs = pre @ c # post \<and> fl_component f = Some c \<and>
            fl_operation f = LOp_Init \<and> fl_primary f" "m = n + 1 + length pre"
      "en_calls en' = en_calls ?en @
        map Call_Init (filter (lc_has_init cfg) (take (Suc (length pre)) cs))"
      "en_system_state en' = en_system_state ?en"
      "same_flags (?en\<lparr>en_records := (\<lambda>d. (en_records ?en d)\<lparr>cr_init_succeeded :=
        (cr_init_succeeded (en_records ?en d) \<or> d \<in> set pre)\<rparr>)\<rparr>) en'"
      by blast
    then show ?thesis
      using step True
      by (intro exI [of _ "c # pre"])
        (auto simp: opt_call_def same_flags_def split: option.splits)
  next
    case False
    with Cons.prems step show ?thesis
      by (intro exI [of _ "[]"])
        (auto simp: split_beta Let_def opt_call_def same_flags_def make_failure_def lock)
  qed
qed

definition start_calls :: "('c, 'w) lifecycle_config \<Rightarrow> 'c \<Rightarrow> 'c call list" where
  "start_calls cfg c = opt_call (lc_has_start cfg c) (Call_Start c) @
     opt_call (lc_participates cfg c) (Call_Prepare c)"

definition started_flags ::
  "('c, 'w) lifecycle_config \<Rightarrow> 'c set \<Rightarrow> ('c, 'w) engine \<Rightarrow> ('c, 'w) engine" where
  "started_flags cfg S en = en\<lparr>en_records := (\<lambda>d. let r = en_records en d; e = (d \<in> S \<and> lc_participates cfg d)
     in r\<lparr>cr_start_succeeded := (cr_start_succeeded r \<or> d \<in> S),
          cr_execution_prepared := (cr_execution_prepared r \<or> e),
          cr_execution_contained := (cr_execution_contained r \<and> \<not> e)\<rparr>)\<rparr>"

lemma start_phase_effect:
  assumes lock: "lc_records_lock cfg = None" and "start_phase cfg cs n en = (primary, m, en')"
  shows "\<exists>pre. (case primary of None \<Rightarrow> pre = cs \<and>
           en_calls en' = en_calls en @ concat (map (start_calls cfg) cs)
        | Some (f, x) \<Rightarrow> \<exists>c post. cs = pre @ c # post \<and> fl_component f = Some c \<and> fl_primary f) \<and>
      m = n + length pre \<and> en_system_state en' = en_system_state en \<and>
      same_flags (started_flags cfg (set pre) en) en'"
  using assms(2)
proof (induction cs arbitrary: n en)
  case Nil
  then show ?case by (simp add: same_flags_def started_flags_def Let_def)
next
  case (Cons c cs)
  let ?en = "snd (start_component cfg c en)"
  note step = start_component_effect [OF lock, of c en]
  show ?case
  proof (cases "is_ok (fst (start_component cfg c en))")
    case True
    with Cons.prems have "start_phase cfg cs (n + 1) ?en = (primary, m, en')"
      by (simp add: split_beta Let_def)
    from Cons.IH [OF this] obtain pre where pre: "case primary of None \<Rightarrow> pre = cs \<and>
           en_calls en' = en_calls ?en @ concat (map (start_calls cfg) cs)
        | Some (f, x) \<Rightarrow> \<exists>c post. cs = pre @ c # post \<and> fl_component f = Some c \<and> fl_primary f"
      "m = n + 1 + length pre" "en_system_state en' = en_system_state ?en"
      "same_flags (started_flags cfg (set pre) ?en) en'"
      by blast
    then show ?thesis
      using step True
      by (intro exI [of _ "c # pre"])
        (auto simp: start_calls_def [of cfg c] same_flags_def started_flags_def Let_def split: option.splits)
  next
    case False
    with Cons.prems step show ?thesis
      by (intro exI [of _ "[]"])
        (auto simp: split_beta Let_def same_flags_def started_flags_def make_failure_def lock)
  qed
qed

lemma validate_phase_effect:
  assumes "validate_phase cfg cs en = (primary, en')"
  shows "same_flags en en' \<and> en_system_state en' = en_system_state en \<and>
    (primary = None \<longrightarrow> en_calls en' = en_calls en @ map Call_Validate (filter (\<lambda>c.
       lc_participates cfg c \<and> lc_records_lock cfg = None \<and> cr_execution_prepared (en_records en c)) cs))"
  using assms
proof (induction cs arbitrary: en)
  case (Cons c cs)
  let ?en = "snd (validate_execution cfg c en)"
  note step = validate_execution_effect [where cfg = cfg and c = c and en = en]
  show ?case
  proof (cases "is_ok (fst (validate_execution cfg c en))")
    case True
    with Cons.prems have "validate_phase cfg cs ?en = (primary, en')"
      by (simp add: split_beta Let_def)
    note IH = Cons.IH [OF this]
    have prepared: "(\<lambda>c. lc_participates cfg c \<and> lc_records_lock cfg = None \<and>
        cr_execution_prepared (en_records ?en c)) = (\<lambda>c. lc_participates cfg c \<and>
        lc_records_lock cfg = None \<and> cr_execution_prepared (en_records en c))"
      using step(3) by (simp add: same_flags_def)
    show ?thesis
    proof (intro conjI impI)
      show "same_flags en en'" using same_flags_trans [OF step(3)] IH by blast
      show "en_system_state en' = en_system_state en" using IH step(2) by metis
    next
      assume "primary = None"
      with IH have "en_calls en' = en_calls ?en @ map Call_Validate (filter (\<lambda>c.
          lc_participates cfg c \<and> lc_records_lock cfg = None \<and>
          cr_execution_prepared (en_records en c)) cs)"
        unfolding prepared by blast
      then show "en_calls en' = en_calls en @ map Call_Validate (filter (\<lambda>c.
          lc_participates cfg c \<and> lc_records_lock cfg = None \<and>
          cr_execution_prepared (en_records en c)) (c # cs))"
        unfolding step(1) by (simp add: opt_call_def)
    qed
  next
    case False
    with Cons.prems obtain f where en': "en' = record_failure cfg c f ?en" and "primary \<noteq> None"
      by (auto simp: split_beta Let_def)
    moreover have "same_flags ?en en'" by (simp add: en' same_flags_def)
    ultimately show ?thesis using step(2) same_flags_trans [OF step(3)] by auto
  qed
qed simp

text \<open>A later phase runs only if no earlier phase failed, and changes no flag.\<close>

lemma guarded_phase:
  assumes "(if primary \<noteq> None then (primary, en) else r) = (primary', en')"
    and "same_flags en (snd r)"
    and "en_system_state (snd r) = en_system_state en"
  shows "same_flags en en' \<and> en_system_state en' = en_system_state en \<and>
    (primary' = None \<longrightarrow> primary = None \<and> r = (None, en')) \<and>
    (\<forall>x. primary = Some x \<longrightarrow> primary' = Some x)"
  using assms by (auto split: if_splits)

definition boot_start_calls :: "('c, 'w) lifecycle_config \<Rightarrow> 'c call list" where
  "boot_start_calls cfg = concat (map (start_calls cfg) (topo cfg)) @
     opt_call (lc_system_participates cfg) Call_SystemPrepare @
     map Call_Validate (filter (lc_participates cfg) (topo cfg)) @
     opt_call (lc_system_participates cfg) Call_SystemValidate @
     map Call_Commit (filter (lc_catalog_participates cfg) [0..<lc_catalogs cfg])"

lemma start_sequence_effect:
  assumes lock: "lc_records_lock cfg = None" and "start_sequence cfg en = (primary, m, en')"
  shows "\<exists>pre. set pre \<subseteq> set (topo cfg) \<and> same_flags (started_flags cfg (set pre) en) en' \<and>
    en_system_state en' = en_system_state en \<and>
    (primary = None \<longrightarrow> pre = topo cfg \<and> m = length (topo cfg) \<and>
       en_calls en' = en_calls en @ boot_start_calls cfg)"
proof -
  obtain p1 m1 e1 where r1: "start_phase cfg (topo cfg) 0 en = (p1, m1, e1)"
    by (rule prod_cases3)
  obtain p2 e2 where r2: "(if p1 \<noteq> None then (p1, e1) else system_phase cfg Call_SystemPrepare
      LOp_PrepareExecution (lc_system_prepare cfg) e1) = (p2, e2)" by fastforce
  obtain p3 e3 where r3: "(if p2 \<noteq> None then (p2, e2) else validate_phase cfg (topo cfg) e2) =
      (p3, e3)" by fastforce
  obtain p4 e4 where r4: "(if p3 \<noteq> None then (p3, e3) else system_phase cfg Call_SystemValidate
      LOp_ValidateExecution (lc_system_validate cfg) e3) = (p4, e4)" by fastforce
  define commit where "commit en = (let (failure, en) = commit_catalog_activation cfg en
      in (map_option (\<lambda>f. (f, False)) failure, en))" for en
  have r5: "(if p4 \<noteq> None then (p4, e4) else commit e4) = (primary, en')" and m: "m1 = m"
    using assms(2)
    by (simp_all only: start_sequence_def r1 r2 r3 r4 Let_def prod.case)
      (auto simp: commit_def split_beta split: if_splits)
  obtain pre where pre: "case p1 of None \<Rightarrow> pre = topo cfg \<and>
         en_calls e1 = en_calls en @ concat (map (start_calls cfg) (topo cfg))
      | Some (f, x) \<Rightarrow> \<exists>c post. topo cfg = pre @ c # post \<and> fl_component f = Some c \<and> fl_primary f"
    "m = length pre" "en_system_state e1 = en_system_state en"
    "same_flags (started_flags cfg (set pre) en) e1"
    using start_phase_effect [OF lock r1] m by auto
  note g2 = guarded_phase [OF r2 system_phase_effect(1,2)]
  have "same_flags e2 (snd (validate_phase cfg (topo cfg) e2))"
    "en_system_state (snd (validate_phase cfg (topo cfg) e2)) = en_system_state e2"
    using validate_phase_effect [of cfg "topo cfg" e2] by (metis prod.collapse)+
  note g3 = guarded_phase [OF r3 this]
  note g4 = guarded_phase [OF r4 system_phase_effect(1,2)]
  have "same_flags e4 (snd (commit e4))" "en_system_state (snd (commit e4)) = en_system_state e4"
    by (simp_all add: commit_def commit_catalog_activation_def commit_catalogs_effect split_beta)
  note g5 = guarded_phase [OF r5 this]
  have flags: "same_flags (started_flags cfg (set pre) en) en'"
    using pre(4) g2 g3 g4 g5 by (meson same_flags_trans)
  have calls: "pre = topo cfg \<and> m = length (topo cfg) \<and>
      en_calls en' = en_calls en @ boot_start_calls cfg" if none: "primary = None"
  proof -
    from none g5 have p4: "p4 = None" "commit e4 = (None, en')" by auto
    with g4 have p3: "p3 = None" and s4: "en_calls e4 =
        en_calls e3 @ opt_call (lc_system_participates cfg) Call_SystemValidate"
      using system_phase_effect(3) [of cfg Call_SystemValidate] by (metis snd_conv)+
    with g3 have p2: "p2 = None" and v: "validate_phase cfg (topo cfg) e2 = (None, e3)" by auto
    with g2 have p1: "p1 = None" and s2: "en_calls e2 =
        en_calls e1 @ opt_call (lc_system_participates cfg) Call_SystemPrepare"
      using system_phase_effect(3) [of cfg Call_SystemPrepare] by (metis snd_conv)+
    have "same_flags (started_flags cfg (set (topo cfg)) en) e2"
      using pre p1 g2 by (auto intro: same_flags_trans)
    then have "filter (\<lambda>c. lc_participates cfg c \<and> lc_records_lock cfg = None \<and>
        cr_execution_prepared (en_records e2 c)) (topo cfg) =
        filter (lc_participates cfg) (topo cfg)"
      by (intro filter_cong refl) (auto simp: same_flags_def started_flags_def Let_def lock)
    with validate_phase_effect [OF v] have s3: "en_calls e3 = en_calls e2 @
        map Call_Validate (filter (lc_participates cfg) (topo cfg))"
      by simp
    have "en_calls en' = en_calls e4 @
        map Call_Commit (filter (lc_catalog_participates cfg) [0..<lc_catalogs cfg])"
      using p4(2) commit_catalogs_effect(3) [of cfg "[0..<lc_catalogs cfg]" e4]
      by (simp add: commit_def commit_catalog_activation_def split_beta)
    with s4 s3 s2 pre p1 show ?thesis by (simp add: boot_start_calls_def)
  qed
  moreover have "set pre \<subseteq> set (topo cfg)" using pre(1) by (auto split: option.splits)
  moreover have "en_system_state en' = en_system_state en"
    by (simp only: pre(3) g2 [THEN conjunct2, THEN conjunct1] g3 [THEN conjunct2, THEN conjunct1]
        g4 [THEN conjunct2, THEN conjunct1] g5 [THEN conjunct2, THEN conjunct1])
  ultimately show ?thesis using flags by blast
qed

section \<open>Rollback\<close>

lemma contain_execution_prepared:
  "cr_execution_prepared (en_records (snd (contain_execution cfg c s)) d) \<Longrightarrow>
     cr_execution_prepared (en_records (snd s) d)"
proof (cases "executing cfg c (en_records (snd s) c)")
  case True
  have view: "d \<noteq> c \<Longrightarrow> cr_execution_prepared (en_records (snd (contain_execution cfg c s)) d) =
      cr_execution_prepared (en_records (snd s) d)"
    using arg_cong [OF contain_execution_phase(1), of d c cr_execution_prepared cfg s]
    by (simp add: forget_blocked_def)
  assume "cr_execution_prepared (en_records (snd (contain_execution cfg c s)) d)"
  with view True show ?thesis by (cases "d = c") (auto simp: executing_def)
qed (simp add: contain_execution_idle)

lemma quiesce_prepared:
  "cr_execution_prepared (en_records (snd (quiesce cfg s)) d) \<Longrightarrow>
     cr_execution_prepared (en_records (snd s) d)"
proof -
  let ?s1 = "request_system_execution_stop cfg s"
  let ?s2 = "contain_system_execution cfg ?s1"
  let ?s3 = "fold (request_execution_stop cfg) (rtopo cfg) ?s2"
  have *: "cr_execution_prepared (en_records (snd (fold (contain_execution cfg) cs t)) d) \<Longrightarrow>
      cr_execution_prepared (en_records (snd t) d)" for cs t
  proof (induction cs arbitrary: t)
    case (Cons c cs)
    then show ?case using contain_execution_prepared by fastforce
  qed simp
  obtain B where "en_records (snd ?s2) = en_records (block B (snd ?s1))"
    by (rule contain_system_effect [where cfg = cfg and s = ?s1]) (rule that)
  then have "cr_execution_prepared (en_records (snd ?s3) d) = cr_execution_prepared (en_records (snd s) d)"
    using fold_request_effect [where s = ?s2 and cfg = cfg and cs = "rtopo cfg"]
    by (simp add: same_flags_def request_system_stop_effect)
  moreover assume "cr_execution_prepared (en_records (snd (quiesce cfg s)) d)"
  ultimately show ?thesis using * [of "rtopo cfg" ?s3] by (simp add: quiesce_def)
qed

lemma stopping_flags:
  assumes "distinct cs" and "c \<in> set cs"
  shows "(\<lambda>r. (cr_start_succeeded r \<longleftrightarrow>
      cr_start_succeeded (en_records (snd s) c) \<and> \<not> unblocked cfg (en_records (snd s) c)) \<and>
    cr_init_succeeded r = cr_init_succeeded (en_records (snd s) c) \<and>
    cr_cleanup_blocked r = cr_cleanup_blocked (en_records (snd s) c) \<and>
    cr_execution_prepared r = cr_execution_prepared (en_records (snd s) c) \<and>
    cr_execution_contained r = cr_execution_contained (en_records (snd s) c))
    (en_records (snd (fold (\<lambda>c (failures, en). stop_component cfg c failures en) cs s)) c)"
  by (rule stopping.fold_establishes [OF assms]) (simp add: split_beta stop_component_flags)

lemma deinitializing_flags:
  assumes "distinct cs" and "c \<in> set cs"
  shows "(\<lambda>r. (cr_init_succeeded r \<longleftrightarrow>
      cr_init_succeeded (en_records (snd s) c) \<and> \<not> unblocked cfg (en_records (snd s) c)) \<and>
    cr_start_succeeded r = cr_start_succeeded (en_records (snd s) c) \<and>
    cr_cleanup_blocked r = cr_cleanup_blocked (en_records (snd s) c) \<and>
    cr_execution_prepared r = cr_execution_prepared (en_records (snd s) c) \<and>
    cr_execution_contained r = cr_execution_contained (en_records (snd s) c))
    (en_records (snd (fold (\<lambda>c (failures, en). deinitialize_component cfg c failures en) cs s)) c)"
  by (rule deinitializing.fold_establishes [OF assms])
    (simp add: split_beta deinitialize_component_flags)

text \<open>Rolling back after an initialisation failure only deinitialises.\<close>

lemma rollback_init:
  fixes report and en :: "('c, 'w) engine"
  assumes ok: "config_ok cfg"
  defines "r \<equiv> rollback cfg False (report, en)"
  shows "en_calls (snd r) = en_calls en @ map Call_Deinit (filter (\<lambda>c. lc_has_deinit cfg c \<and>
      cr_init_succeeded (en_records en c) \<and> \<not> cr_cleanup_blocked (en_records en c)) (rtopo cfg))"
    and "en_system_state (snd r) = Sys_Failed"
    and "br_uncontained_execution (fst r) = br_uncontained_execution report"
    and "br_rollback_completed (fst r) \<longleftrightarrow> br_uncontained_execution report = 0"
    and "br_primary_failure (fst r) = br_primary_failure report"
    and "br_initialization_completed (fst r) = br_initialization_completed report"
    and "br_initialized_components (fst r) = br_initialized_components report"
    and "c \<in> set (components (lc_graph cfg)) \<Longrightarrow>
      (cr_init_succeeded (en_records (snd r) c) \<longleftrightarrow>
        cr_init_succeeded (en_records en c) \<and> cr_cleanup_blocked (en_records en c)) \<and>
      cr_start_succeeded (en_records (snd r) c) = cr_start_succeeded (en_records en c) \<and>
      cr_execution_prepared (en_records (snd r) c) = cr_execution_prepared (en_records en c) \<and>
      cr_execution_contained (en_records (snd r) c) = cr_execution_contained (en_records en c)"
proof -
  note rt = config_ok_rtopo [OF ok]
  have lock: "lc_records_lock cfg = None" using ok by (simp add: config_ok_def)
  let ?s = "(br_cleanup_failures report, en\<lparr>en_system_state := Sys_RollingBack\<rparr>)"
  let ?f = "fold (\<lambda>c (failures, en). deinitialize_component cfg c failures en) (rtopo cfg) ?s"
  have r: "snd r = (snd ?f)\<lparr>en_system_state := Sys_Failed\<rparr>"
    by (simp add: r_def rollback_def Let_def split_beta)
  show "en_system_state (snd r) = Sys_Failed" by (simp add: r)
  show "br_uncontained_execution (fst r) = br_uncontained_execution report"
    "br_rollback_completed (fst r) \<longleftrightarrow> br_uncontained_execution report = 0"
    "br_primary_failure (fst r) = br_primary_failure report"
    "br_initialization_completed (fst r) = br_initialization_completed report"
    "br_initialized_components (fst r) = br_initialized_components report"
    by (simp_all add: r_def rollback_def Let_def split_beta)
  have "concat (map (\<lambda>c. deinit_calls cfg c (en_records (snd ?s) c)) (rtopo cfg)) =
      map Call_Deinit (filter (\<lambda>c. lc_has_deinit cfg c \<and>
        cr_init_succeeded (en_records en c) \<and> \<not> cr_cleanup_blocked (en_records en c)) (rtopo cfg))"
    by (rule filter_opt_calls) (auto simp: deinit_calls_def unblocked_def lock opt_call_def)
  then show "en_calls (snd r) = en_calls en @ map Call_Deinit (filter (\<lambda>c. lc_has_deinit cfg c \<and>
      cr_init_succeeded (en_records en c) \<and> \<not> cr_cleanup_blocked (en_records en c)) (rtopo cfg))"
    using deinitializing.fold_calls [OF rt(1), of cfg ?s] by (simp add: r)
  assume "c \<in> set (components (lc_graph cfg))"
  then have "c \<in> set (rtopo cfg)" using rt(2) by simp
  from deinitializing_flags [OF rt(1) this, where s = ?s and cfg = cfg]
  show "(cr_init_succeeded (en_records (snd r) c) \<longleftrightarrow>
        cr_init_succeeded (en_records en c) \<and> cr_cleanup_blocked (en_records en c)) \<and>
      cr_start_succeeded (en_records (snd r) c) = cr_start_succeeded (en_records en c) \<and>
      cr_execution_prepared (en_records (snd r) c) = cr_execution_prepared (en_records en c) \<and>
      cr_execution_contained (en_records (snd r) c) = cr_execution_contained (en_records en c)"
    by (simp add: r unblocked_def lock)
qed

text \<open>Rolling back after a start failure also stops the execution and the started components.\<close>

lemma rollback_started:
  fixes report and en :: "('c, 'w) engine"
  assumes ok: "config_ok cfg"
  defines "r \<equiv> rollback cfg True (report, en)"
  shows "en_system_state (snd r) = Sys_Failed"
    and "br_rollback_completed (fst r) \<longleftrightarrow> br_uncontained_execution (fst r) = 0"
    and "br_primary_failure (fst r) = br_primary_failure report"
    and "br_initialization_completed (fst r) = br_initialization_completed report"
    and "c \<in> set (components (lc_graph cfg)) \<Longrightarrow>
      (cr_init_succeeded (en_records (snd r) c) \<longleftrightarrow>
        cr_init_succeeded (en_records en c) \<and> cr_cleanup_blocked (en_records (snd r) c)) \<and>
      (cr_start_succeeded (en_records (snd r) c) \<longleftrightarrow>
        cr_start_succeeded (en_records en c) \<and> cr_cleanup_blocked (en_records (snd r) c)) \<and>
      (cr_execution_prepared (en_records (snd r) c) \<longrightarrow> cr_execution_prepared (en_records en c)) \<and>
      (br_uncontained_execution (fst r) = 0 \<longrightarrow>
        \<not> executing cfg c (en_records (snd r) c) \<and>
        cr_cleanup_blocked (en_records (snd r) c) = cr_cleanup_blocked (en_records en c))"
proof -
  note rt = config_ok_rtopo [OF ok]
  have lock: "lc_records_lock cfg = None" using ok by (simp add: config_ok_def)
  let ?xr = "\<lparr>xr_failures = br_cleanup_failures report,
    xr_uncontained_execution = br_uncontained_execution report,
    xr_preserved_dependencies = br_preserved_dependencies report,
    xr_clean_exits = 0, xr_forced_exits = 0, xr_join_timeouts = 0,
    xr_abort_attempts = 0, xr_abort_failures = 0\<rparr>"
  define s0 where "s0 = (?xr, en\<lparr>en_system_state := Sys_RollingBack\<rparr>)"
  define q where "q = quiesce cfg s0"
  define s where "s = fold (\<lambda>c (failures, en). stop_component cfg c failures en) (rtopo cfg)
    (xr_failures (fst q), snd q)"
  define d where "d = fold (\<lambda>c (failures, en). deinitialize_component cfg c failures en) (rtopo cfg) s"
  have r: "snd r = (snd d)\<lparr>en_system_state := Sys_Failed\<rparr>"
    "br_uncontained_execution (fst r) = xr_uncontained_execution (fst q)"
    "br_rollback_completed (fst r) \<longleftrightarrow> xr_uncontained_execution (fst q) = 0"
    "br_primary_failure (fst r) = br_primary_failure report"
    "br_initialization_completed (fst r) = br_initialization_completed report"
    by (simp_all add: r_def d_def s_def q_def s0_def rollback_def quiesce_def Let_def split_beta)
  then show "en_system_state (snd r) = Sys_Failed"
    "br_rollback_completed (fst r) \<longleftrightarrow> br_uncontained_execution (fst r) = 0"
    "br_primary_failure (fst r) = br_primary_failure report"
    "br_initialization_completed (fst r) = br_initialization_completed report"
    by simp_all
  have s0: "en_records (snd s0) = en_records en" by (simp add: s0_def)
  note q_facts = quiesce_effect [OF ok, where s = s0, folded q_def, unfolded s0]
  assume c: "c \<in> set (components (lc_graph cfg))"
  then have c': "c \<in> set (rtopo cfg)" using rt(2) by simp
  have "cr_execution_prepared (en_records (snd q) c) \<Longrightarrow> cr_execution_prepared (en_records en c)"
    using quiesce_prepared [of cfg s0 c] by (simp add: q_def s0)
  moreover note deinitializing_flags [OF rt(1) c', where s = s and cfg = cfg, folded d_def]
    stopping_flags [OF rt(1) c', where s = "(xr_failures (fst q), snd q)" and cfg = cfg,
      folded s_def]
  ultimately show "(cr_init_succeeded (en_records (snd r) c) \<longleftrightarrow>
        cr_init_succeeded (en_records en c) \<and> cr_cleanup_blocked (en_records (snd r) c)) \<and>
      (cr_start_succeeded (en_records (snd r) c) \<longleftrightarrow>
        cr_start_succeeded (en_records en c) \<and> cr_cleanup_blocked (en_records (snd r) c)) \<and>
      (cr_execution_prepared (en_records (snd r) c) \<longrightarrow> cr_execution_prepared (en_records en c)) \<and>
      (br_uncontained_execution (fst r) = 0 \<longrightarrow>
        \<not> executing cfg c (en_records (snd r) c) \<and>
        cr_cleanup_blocked (en_records (snd r) c) = cr_cleanup_blocked (en_records en c))"
    using q_facts(3,4) [of c] q_facts(8) c
    by (simp add: r unblocked_def lock executing_def)
qed

section \<open>The three ways a boot ends\<close>

definition bootable :: "('c, 'w) engine \<Rightarrow> bool" where
  "bootable en \<longleftrightarrow> \<not> en_operation_active en \<and> en_system_state en = Sys_Dormant"

definition fresh :: "('c, 'w) lifecycle_config \<Rightarrow> ('c, 'w) engine \<Rightarrow> bool" where
  "fresh cfg en \<longleftrightarrow> (\<forall>c \<in> set (components (lc_graph cfg)). let r = en_records en c in
     \<not> cr_init_succeeded r \<and> \<not> cr_start_succeeded r \<and> \<not> cr_execution_prepared r \<and>
     cr_execution_contained r \<and> \<not> cr_cleanup_blocked r)"

definition boot_entry :: "('c, 'w) engine \<Rightarrow> ('c, 'w) engine" where
  "boot_entry en = en\<lparr>en_operation_active := True, en_system_state := Sys_Initializing\<rparr>"

definition boot_finish ::
  "('c, 'w) lifecycle_config \<Rightarrow> 'c boot_report \<Rightarrow> ('c, 'w) engine \<Rightarrow> ('c, 'w) engine" where
  "boot_finish cfg report en =
     (let en = publish_boot cfg report
            ((fold (mark_running cfg) (topo cfg) en)\<lparr>en_system_state := Sys_Running\<rparr>);
          en = (if lc_system_participates cfg
                then snd (call_world Call_SystemActivate (\<lambda>w. ((), lc_system_activate cfg w)) en)
                else en)
      in (activate_catalog_runtime cfg (fold (activate_execution cfg) (topo cfg) en))
           \<lparr>en_operation_active := False\<rparr>)"

lemma boot_cases:
  assumes "bootable en"
  obtains
    (init_failed) f n e1 report r where
      "init_phase cfg (topo cfg) 0 (boot_entry en) = (Some f, n, e1)"
      "br_uncontained_execution report = 0" "br_primary_failure report = Some f"
      "\<not> br_initialization_completed report"
      "r = rollback cfg False (report, e1)"
      "boot cfg en = (Inl \<lparr>be_reason = BE_ComponentFailure, be_status = fl_status f,
         be_failure = Some f\<rparr>, (publish_boot cfg (fst r) (snd r))\<lparr>en_operation_active := False\<rparr>)"
  | (start_failed) n e1 f x m e2 report r where
      "init_phase cfg (topo cfg) 0 (boot_entry en) = (None, n, e1)"
      "start_sequence cfg (e1\<lparr>en_system_state := Sys_Starting\<rparr>) = (Some (f, x), m, e2)"
      "br_primary_failure report = Some f" "br_initialization_completed report"
      "r = rollback cfg True (report, e2)"
      "boot cfg en = (Inl \<lparr>be_reason = (if x then BE_ExecutionFailure else BE_ComponentFailure),
         be_status = fl_status f, be_failure = Some f\<rparr>,
         (publish_boot cfg (fst r) (snd r))\<lparr>en_operation_active := False\<rparr>)"
  | (running) n e1 m e2 report where
      "init_phase cfg (topo cfg) 0 (boot_entry en) = (None, n, e1)"
      "start_sequence cfg (e1\<lparr>en_system_state := Sys_Starting\<rparr>) = (None, m, e2)"
      "report = (initial_boot_report Sys_Dormant)\<lparr>br_initialized_components := n,
         br_initialization_completed := True, br_started_components := m,
         br_start_completed := True, br_final_state := Sys_Running\<rparr>"
      "boot cfg en = (Inr report, boot_finish cfg report e2)"
proof -
  obtain p1 n e1 where r1: "init_phase cfg (topo cfg) 0 (boot_entry en) = (p1, n, e1)"
    by (rule prod_cases3)
  obtain p2 m e2 where r2: "start_sequence cfg (e1\<lparr>en_system_state := Sys_Starting\<rparr>) = (p2, m, e2)"
    by (rule prod_cases3)
  note unfolded = boot_def boot_body_def Let_def bootable_def initial_boot_report_def
  show ?thesis
  proof (cases p1)
    case (Some f)
    show ?thesis
      by (rule init_failed [of f n e1 "(initial_boot_report Sys_Dormant)\<lparr>
            br_initialized_components := n, br_primary_failure := Some f\<rparr>"])
        (use assms r1 Some in \<open>simp_all add: unfolded boot_entry_def split_beta\<close>)
  next
    case None
    show ?thesis
    proof (cases p2)
      case None2: None
      show ?thesis
        by (rule running [of n e1 m e2]; cases "lc_system_participates cfg")
          (use assms r1 r2 None None2 in
            \<open>simp_all add: unfolded boot_entry_def boot_finish_def split_beta\<close>)
    next
      case (Some fx)
      show ?thesis
        by (rule start_failed [of n e1 "fst fx" "snd fx" m e2 "(initial_boot_report Sys_Dormant)\<lparr>
              br_initialized_components := n, br_initialization_completed := True,
              br_started_components := m, br_primary_failure := Some (fst fx)\<rparr>"])
          (use assms r1 r2 None Some in \<open>simp_all add: unfolded boot_entry_def split_beta\<close>)
    qed
  qed
qed

lemma fold_mark_running:
  assumes lock: "lc_records_lock cfg = None"
  shows "same_flags en (fold (mark_running cfg) cs en)"
    and "en_calls (fold (mark_running cfg) cs en) = en_calls en"
    and "c \<in> set cs \<or> cr_state (en_records en c) = Comp_Running \<Longrightarrow>
      cr_state (en_records (fold (mark_running cfg) cs en) c) = Comp_Running"
proof (atomize (full), induction cs arbitrary: en)
  case (Cons d cs)
  have "same_flags en (mark_running cfg d en)" "en_calls (mark_running cfg d en) = en_calls en"
    "cr_state (en_records (mark_running cfg d en) c) =
      (if c = d then Comp_Running else cr_state (en_records en c))"
    by (simp_all add: mark_running_def same_flags_def lock)
  with Cons [of "mark_running cfg d en"] show ?case
    by (auto intro: same_flags_trans)
qed simp

lemma fold_activate_execution:
  assumes lock: "lc_records_lock cfg = None"
  shows "same_flags en (fold (activate_execution cfg) cs en)"
    and "en_system_state (fold (activate_execution cfg) cs en) = en_system_state en"
    and "cr_state (en_records (fold (activate_execution cfg) cs en) c) = cr_state (en_records en c)"
    and "en_last_boot (fold (activate_execution cfg) cs en) = en_last_boot en"
    and "en_calls (fold (activate_execution cfg) cs en) = en_calls en @ map Call_Activate
      (filter (\<lambda>c. lc_participates cfg c \<and> cr_execution_prepared (en_records en c)) cs)"
proof (atomize (full), induction cs arbitrary: en)
  case (Cons d cs)
  note step = activate_execution_effect [where cfg = cfg and c = d and en = en, unfolded lock]
  have prepared: "cr_execution_prepared (en_records (activate_execution cfg d en) c) =
      cr_execution_prepared (en_records en c)" for c
    using step(3) by (simp add: same_flags_def)
  from Cons [of "activate_execution cfg d en"] step(1,2,4,5) same_flags_trans [OF step(3)] prepared
  show ?case by (simp add: opt_call_def)
qed simp

lemma activate_catalog_effect:
  "en_records (activate_catalog_runtime cfg en) = en_records en"
  "en_system_state (activate_catalog_runtime cfg en) = en_system_state en"
  "en_last_boot (activate_catalog_runtime cfg en) = en_last_boot en"
  "en_calls (activate_catalog_runtime cfg en) =
     en_calls en @ map Call_ActivateCatalog (filter (lc_catalog_participates cfg) [0..<lc_catalogs cfg])"
proof -
  have "en_records (fold (\<lambda>k en. if lc_catalog_participates cfg k
        then snd (call_world (Call_ActivateCatalog k) (\<lambda>w. ((), lc_activate_catalog cfg k w)) en)
        else en) ks en) = en_records en \<and>
      en_system_state (fold (\<lambda>k en. if lc_catalog_participates cfg k
        then snd (call_world (Call_ActivateCatalog k) (\<lambda>w. ((), lc_activate_catalog cfg k w)) en)
        else en) ks en) = en_system_state en \<and>
      en_last_boot (fold (\<lambda>k en. if lc_catalog_participates cfg k
        then snd (call_world (Call_ActivateCatalog k) (\<lambda>w. ((), lc_activate_catalog cfg k w)) en)
        else en) ks en) = en_last_boot en \<and>
      en_calls (fold (\<lambda>k en. if lc_catalog_participates cfg k
        then snd (call_world (Call_ActivateCatalog k) (\<lambda>w. ((), lc_activate_catalog cfg k w)) en)
        else en) ks en) =
      en_calls en @ map Call_ActivateCatalog (filter (lc_catalog_participates cfg) ks)" for ks
    by (induction ks arbitrary: en) auto
  then show "en_records (activate_catalog_runtime cfg en) = en_records en"
    "en_system_state (activate_catalog_runtime cfg en) = en_system_state en"
    "en_last_boot (activate_catalog_runtime cfg en) = en_last_boot en"
    "en_calls (activate_catalog_runtime cfg en) =
       en_calls en @ map Call_ActivateCatalog (filter (lc_catalog_participates cfg) [0..<lc_catalogs cfg])"
    unfolding activate_catalog_runtime_def by blast+
qed

definition boot_activate_calls :: "('c, 'w) lifecycle_config \<Rightarrow> 'c call list" where
  "boot_activate_calls cfg =
     opt_call (lc_system_participates cfg) Call_SystemActivate @
     map Call_Activate (filter (lc_participates cfg) (topo cfg)) @
     map Call_ActivateCatalog (filter (lc_catalog_participates cfg) [0..<lc_catalogs cfg])"

lemma boot_finish_effect:
  assumes lock: "lc_records_lock cfg = None"
    and prepared: "\<forall>c \<in> set (topo cfg). cr_execution_prepared (en_records en c) = lc_participates cfg c"
  shows "same_flags en (boot_finish cfg report en)"
    and "en_system_state (boot_finish cfg report en) = Sys_Running"
    and "\<not> en_operation_active (boot_finish cfg report en)"
    and "en_last_boot (boot_finish cfg report en) = Some report"
    and "c \<in> set (topo cfg) \<Longrightarrow> cr_state (en_records (boot_finish cfg report en) c) = Comp_Running"
    and "en_calls (boot_finish cfg report en) = en_calls en @ boot_activate_calls cfg"
proof -
  define e1 where "e1 = fold (mark_running cfg) (topo cfg) en"
  define e2 where "e2 = publish_boot cfg report (e1\<lparr>en_system_state := Sys_Running\<rparr>)"
  define e3 where "e3 = (if lc_system_participates cfg
    then snd (call_world Call_SystemActivate (\<lambda>w. ((), lc_system_activate cfg w)) e2) else e2)"
  define e4 where "e4 = fold (activate_execution cfg) (topo cfg) e3"
  have fin: "boot_finish cfg report en = (activate_catalog_runtime cfg e4)\<lparr>en_operation_active := False\<rparr>"
    by (simp only: boot_finish_def Let_def e4_def e3_def e2_def e1_def)
  note e1 = fold_mark_running [OF lock, where en = en and cs = "topo cfg", folded e1_def]
  have e3: "same_flags e1 e3" "en_records e3 = en_records e1" "en_system_state e3 = Sys_Running"
    "en_last_boot e3 = Some report"
    "en_calls e3 = en_calls en @ opt_call (lc_system_participates cfg) Call_SystemActivate"
    by (simp_all add: e3_def e2_def same_flags_def e1 opt_call_def publish_boot_def
        with_records_def lock)
  note e4 = fold_activate_execution [OF lock, where en = e3 and cs = "topo cfg", folded e4_def]
  have "same_flags en e4" using e1(1) e3(1) e4(1) by (blast intro: same_flags_trans)
  then show "same_flags en (boot_finish cfg report en)"
    by (simp add: fin same_flags_def activate_catalog_effect)
  have "filter (\<lambda>c. lc_participates cfg c \<and> cr_execution_prepared (en_records e3 c)) (topo cfg) =
      filter (lc_participates cfg) (topo cfg)"
    using prepared e1(1) unfolding e3(2) by (intro filter_cong refl) (auto simp: same_flags_def)
  then show "en_calls (boot_finish cfg report en) = en_calls en @ boot_activate_calls cfg"
    by (simp add: fin activate_catalog_effect e4(5) e3(5) boot_activate_calls_def)
  show "en_system_state (boot_finish cfg report en) = Sys_Running"
    "\<not> en_operation_active (boot_finish cfg report en)"
    "en_last_boot (boot_finish cfg report en) = Some report"
    by (simp_all add: fin activate_catalog_effect e4(2,4) e3(3,4))
  show "cr_state (en_records (boot_finish cfg report en) c) = Comp_Running" if "c \<in> set (topo cfg)"
    using that e1(3) by (simp add: fin activate_catalog_effect e4(3) e3(2))
qed

lemma boot_refused:
  assumes "\<not> bootable en"
  shows "boot cfg en = (Inl \<lparr>be_reason = (if en_operation_active en then BE_Busy
       else if en_system_state en = Sys_Running then BE_AlreadyRunning else BE_RebootUnsupported),
     be_status = (if en_operation_active en then St_Busy
       else if en_system_state en = Sys_Running then St_Already else St_NotSupported),
     be_failure = None\<rparr>, en)"
  using assms by (cases en) (auto simp: bootable_def boot_def Let_def)

text \<open>What a boot has done when its initialisation phase is over, on a fresh engine.\<close>

lemma fresh_init_phase:
  assumes ok: "config_ok cfg" and fresh: "fresh cfg en"
    and init: "init_phase cfg (topo cfg) 0 (boot_entry en) = (p, n, e1)"
  obtains pre where "case p of None \<Rightarrow> pre = topo cfg
      | Some f \<Rightarrow> \<exists>c post. topo cfg = pre @ c # post \<and> fl_component f = Some c \<and>
          fl_operation f = LOp_Init \<and> fl_primary f"
    and "n = length pre"
    and "en_calls e1 = en_calls en @
      map Call_Init (filter (lc_has_init cfg) (take (Suc (length pre)) (topo cfg)))"
    and "\<forall>c \<in> set (topo cfg). cr_init_succeeded (en_records e1 c) = (c \<in> set pre) \<and>
      \<not> cr_start_succeeded (en_records e1 c) \<and> \<not> cr_execution_prepared (en_records e1 c) \<and>
      cr_execution_contained (en_records e1 c) \<and> \<not> cr_cleanup_blocked (en_records e1 c)"
proof -
  have lock: "lc_records_lock cfg = None" using ok by (simp add: config_ok_def)
  from init_phase_effect [OF lock init] obtain pre where
    pre: "case p of None \<Rightarrow> pre = topo cfg
      | Some f \<Rightarrow> \<exists>c post. topo cfg = pre @ c # post \<and> fl_component f = Some c \<and>
          fl_operation f = LOp_Init \<and> fl_primary f" "n = length pre"
    "en_calls e1 = en_calls (boot_entry en) @
      map Call_Init (filter (lc_has_init cfg) (take (Suc (length pre)) (topo cfg)))" and
    flags: "same_flags ((boot_entry en)\<lparr>en_records := (\<lambda>d. (en_records (boot_entry en) d)\<lparr>
      cr_init_succeeded := (cr_init_succeeded (en_records (boot_entry en) d) \<or> d \<in> set pre)\<rparr>)\<rparr>) e1"
    by auto
  show ?thesis
    by (rule that [of pre])
      (use pre flags fresh config_ok_topo(2) [OF ok] in
        \<open>simp_all add: boot_entry_def same_flags_def fresh_def Let_def\<close>)
qed

lemma boot_success_effect:
  assumes ok: "config_ok cfg" and fresh: "fresh cfg en" and run: "boot cfg en = (Inr report, en')"
  shows "en_calls en' = en_calls en @ map Call_Init (filter (lc_has_init cfg) (topo cfg)) @
      boot_start_calls cfg @ boot_activate_calls cfg \<and>
    en_system_state en' = Sys_Running \<and> \<not> en_operation_active en' \<and>
    query_boot_report cfg en' = Inr report \<and>
    br_initialized_components report = length (components (lc_graph cfg)) \<and>
    br_started_components report = length (components (lc_graph cfg)) \<and>
    (\<forall>c \<in> set (components (lc_graph cfg)). let r = en_records en' c in
       cr_state r = Comp_Running \<and> cr_init_succeeded r \<and> cr_start_succeeded r \<and>
       cr_execution_prepared r = lc_participates cfg c \<and>
       cr_execution_contained r = (\<not> lc_participates cfg c) \<and> \<not> cr_cleanup_blocked r)"
proof -
  have lock: "lc_records_lock cfg = None" using ok by (simp add: config_ok_def)
  note topo = config_ok_topo [OF ok]
  from run have "bootable en" using boot_refused [of en cfg] by (cases "bootable en") auto
  then show ?thesis
  proof (cases rule: boot_cases [where cfg = cfg])
    case (running n e1 m e2 report')
    from run running(4) have rep: "report' = report" "en' = boot_finish cfg report e2" by auto
    from running(1) obtain "n = length (topo cfg)"
      and calls1: "en_calls e1 = en_calls en @ map Call_Init (filter (lc_has_init cfg) (topo cfg))"
      and flags1: "\<forall>c \<in> set (topo cfg). cr_init_succeeded (en_records e1 c) \<and>
      \<not> cr_start_succeeded (en_records e1 c) \<and> \<not> cr_execution_prepared (en_records e1 c) \<and>
      cr_execution_contained (en_records e1 c) \<and> \<not> cr_cleanup_blocked (en_records e1 c)"
      by (rule fresh_init_phase [OF ok fresh]) auto
    from start_sequence_effect [OF lock running(2)]
    have calls2: "m = length (topo cfg)" "en_calls e2 = en_calls e1 @ boot_start_calls cfg"
      and "same_flags (started_flags cfg (set (topo cfg)) (e1\<lparr>en_system_state := Sys_Starting\<rparr>)) e2"
      by auto
    with flags1 have flags2: "\<forall>c \<in> set (topo cfg). let r = en_records e2 c in
       cr_init_succeeded r \<and> cr_start_succeeded r \<and>
       cr_execution_prepared r = lc_participates cfg c \<and>
       cr_execution_contained r = (\<not> lc_participates cfg c) \<and> \<not> cr_cleanup_blocked r"
      by (simp add: same_flags_def started_flags_def Let_def)
    then have "\<forall>c \<in> set (topo cfg). cr_execution_prepared (en_records e2 c) = lc_participates cfg c"
      by (simp add: Let_def)
    note fin = boot_finish_effect [OF lock this, where report = report, folded rep(2)]
    show ?thesis
      using calls1 calls2 fin flags2 running(3) rep(1) \<open>n = length (topo cfg)\<close> topo(2,4)
      by (simp add: same_flags_def Let_def query_boot_report_def lock)
  qed (use run in auto)
qed

text \<open>
  C1: a successful boot. It calls every \<^verbatim>\<open>init()\<close> hook in topological order, then for each component
  \<^verbatim>\<open>start()\<close> followed by the preparation of its execution, then prepares the system execution,
  validates all executions, commits the catalogs, and only then activates anything; no other hook
  is called. Afterwards the system and all components are running, each component is initialised
  and started and executes exactly if it participates, and the report counts all of them.
\<close>

theorem boot_success:
  assumes "config_ok cfg" and "fresh cfg en" and "boot cfg en = (Inr report, en')"
  shows "en_calls en' = en_calls en @ map Call_Init (filter (lc_has_init cfg) (topo cfg)) @
      boot_start_calls cfg @ boot_activate_calls cfg \<and>
    en_system_state en' = Sys_Running \<and> \<not> en_operation_active en' \<and>
    query_boot_report cfg en' = Inr report \<and>
    br_initialized_components report = length (components (lc_graph cfg)) \<and>
    br_started_components report = length (components (lc_graph cfg)) \<and>
    (\<forall>c \<in> set (components (lc_graph cfg)). let r = en_records en' c in
       cr_state r = Comp_Running \<and> cr_init_succeeded r \<and> cr_start_succeeded r \<and>
       cr_execution_prepared r = lc_participates cfg c \<and>
       cr_execution_contained r = (\<not> lc_participates cfg c) \<and> \<not> cr_cleanup_blocked r)"
  using assms by (rule boot_success_effect)

lemma filter_before:
  assumes "distinct (pre @ c # post)"
  shows "filter (\<lambda>d. P d \<and> d \<in> set pre) (rev (pre @ c # post)) = filter P (rev pre)"
proof -
  have "filter (\<lambda>d. P d \<and> d \<in> set pre) post = []" using assms by (auto simp: filter_empty_conv)
  moreover have "filter (\<lambda>d. P d \<and> d \<in> set pre) (rev pre) = filter P (rev pre)"
    by (rule filter_cong) auto
  ultimately show ?thesis using assms by (simp add: rev_filter [symmetric])
qed

text \<open>
  C2: a failing \<^verbatim>\<open>init()\<close>. If initialisation did not complete, the hooks called are exactly the
  \<^verbatim>\<open>init()\<close> hooks of a prefix of the topological order ending in the failing component, followed by
  the \<^verbatim>\<open>deinit()\<close> hooks of the components before it, in reverse: cleanup is attempted for what was
  initialised and only for that. No component stays initialised, and the error names the component.
\<close>

theorem boot_init_failure:
  assumes ok: "config_ok cfg" and fresh: "fresh cfg en" and boot: "bootable en"
    and run: "boot cfg en = (Inl e, en')" and last: "en_last_boot en' = Some report"
    and incomplete: "\<not> br_initialization_completed report"
  shows "\<exists>pre c post. topo cfg = pre @ c # post \<and>
    en_calls en' = en_calls en @ map Call_Init (filter (lc_has_init cfg) (pre @ [c])) @
      map Call_Deinit (filter (lc_has_deinit cfg) (rev pre)) \<and>
    (\<exists>f. be_failure e = Some f \<and> fl_component f = Some c \<and> fl_operation f = LOp_Init \<and>
       br_primary_failure report = Some f) \<and>
    en_system_state en' = Sys_Failed \<and>
    (\<forall>d \<in> set (components (lc_graph cfg)). \<not> cr_init_succeeded (en_records en' d))"
proof -
  have lock: "lc_records_lock cfg = None" using ok by (simp add: config_ok_def)
  note topo = config_ok_topo [OF ok]
  have published: "en_last_boot ((publish_boot cfg r x)\<lparr>en_operation_active := False\<rparr>) = Some r" for r x
    by (simp add: publish_boot_def with_records_def lock)
  from boot show ?thesis
  proof (cases rule: boot_cases [where cfg = cfg])
    case (init_failed f n e1 report0 r)
    from init_failed(6) run have en': "en' = (publish_boot cfg (fst r) (snd r))\<lparr>en_operation_active := False\<rparr>"
      and e: "be_failure e = Some f" by auto
    with last published have report: "report = fst r" by simp
    from init_failed(1) obtain pre c post where pre: "topo cfg = pre @ c # post"
      "fl_component f = Some c" "fl_operation f = LOp_Init"
      "en_calls e1 = en_calls en @ map Call_Init (filter (lc_has_init cfg) (pre @ [c]))"
      "\<forall>c \<in> set (topo cfg). cr_init_succeeded (en_records e1 c) = (c \<in> set pre) \<and>
        \<not> cr_cleanup_blocked (en_records e1 c)"
      by (rule fresh_init_phase [OF ok fresh]) auto
    note r = rollback_init [OF ok, where report = report0 and en = e1, folded init_failed(5)]
    have "filter (\<lambda>c. lc_has_deinit cfg c \<and> cr_init_succeeded (en_records e1 c) \<and>
        \<not> cr_cleanup_blocked (en_records e1 c)) (rtopo cfg) = filter (lc_has_deinit cfg) (rev pre)"
    proof -
      have "filter (\<lambda>c. lc_has_deinit cfg c \<and> cr_init_succeeded (en_records e1 c) \<and>
          \<not> cr_cleanup_blocked (en_records e1 c)) (rtopo cfg) =
          filter (\<lambda>d. lc_has_deinit cfg d \<and> d \<in> set pre) (rev (pre @ c # post))"
        using pre(5) by (intro filter_cong) (auto simp: rtopo_def pre(1))
      also have "\<dots> = filter (lc_has_deinit cfg) (rev pre)"
        using topo(1) unfolding pre(1) by (rule filter_before)
      finally show ?thesis .
    qed
    moreover have "\<forall>d \<in> set (components (lc_graph cfg)). \<not> cr_init_succeeded (en_records en' d)"
      using r(8) pre(5) topo(2) by (simp add: en')
    ultimately show ?thesis
      using r(1,2,5) pre(1-4) e init_failed(3)
      by (intro exI [where x = pre], intro exI [where x = c], intro exI [where x = post])
        (simp add: en' report)
  next
    case (start_failed n e1 f x m e2 report0 r)
    with rollback_started(4) [OF ok, where report = report0 and en = e2, folded start_failed(5)]
    show ?thesis using run last published incomplete by auto
  next
    case running
    with run show ?thesis by auto
  qed
qed

text \<open>
  C3: a failed boot cleans up. Whatever phase failed, the system ends in Failed, the error carries
  the primary failure that the retained report shows, and a component is left initialised or
  started only if it is blocked by an execution that could not be contained. If the report says
  that the rollback completed, nothing is left: no component is initialised, started or
  executing, and a later stop is refused as there is nothing to stop.
\<close>

theorem boot_failure_releases:
  assumes ok: "config_ok cfg" and fresh: "fresh cfg en" and boot: "bootable en"
    and run: "boot cfg en = (Inl e, en')"
  shows "\<exists>report f. query_boot_report cfg en' = Inr report \<and> br_primary_failure report = Some f \<and>
      be_failure e = Some f \<and> be_status e = fl_status f \<and>
      be_reason e \<in> {BE_ComponentFailure, BE_ExecutionFailure} \<and>
      en_system_state en' = Sys_Failed \<and> \<not> en_operation_active en' \<and>
      (\<forall>c \<in> set (components (lc_graph cfg)).
         cr_init_succeeded (en_records en' c) \<or> cr_start_succeeded (en_records en' c) \<longrightarrow>
         cr_cleanup_blocked (en_records en' c)) \<and>
      (br_rollback_completed report \<longrightarrow> \<not> has_resources cfg en' \<and>
         stop_system cfg en' =
           (Inl \<lparr>se_reason = SE_InvalidState, se_status = St_NotReady, se_failure = None\<rparr>, en'))"
proof -
  have lock: "lc_records_lock cfg = None" using ok by (simp add: config_ok_def)
  note topo = config_ok_topo [OF ok]
  have published: "query_boot_report cfg ((publish_boot cfg r x)\<lparr>en_operation_active := False\<rparr>) = Inr r"
    for r x
    by (simp add: publish_boot_def with_records_def query_boot_report_def lock)
  have refused: "stop_system cfg en' =
      (Inl \<lparr>se_reason = SE_InvalidState, se_status = St_NotReady, se_failure = None\<rparr>, en')"
    if "\<not> has_resources cfg en'" "en_system_state en' = Sys_Failed" "\<not> en_operation_active en'"
    using that by (intro stop_refused) (auto simp: stop_allowed_def)
  from boot show ?thesis
  proof (cases rule: boot_cases [where cfg = cfg])
    case (init_failed f n e1 report0 r)
    from init_failed(6) run have en': "en' = (publish_boot cfg (fst r) (snd r))\<lparr>en_operation_active := False\<rparr>"
      and e: "be_failure e = Some f" "be_status e = fl_status f" "be_reason e = BE_ComponentFailure"
      by auto
    from init_failed(1) have flags: "\<forall>c \<in> set (topo cfg). \<not> cr_start_succeeded (en_records e1 c) \<and>
        \<not> cr_execution_prepared (en_records e1 c) \<and> \<not> cr_cleanup_blocked (en_records e1 c)"
      by (rule fresh_init_phase [OF ok fresh]) auto
    note r = rollback_init [OF ok, where report = report0 and en = e1, folded init_failed(5)]
    have none: "\<forall>c \<in> set (components (lc_graph cfg)). \<not> cr_init_succeeded (en_records en' c) \<and>
        \<not> cr_start_succeeded (en_records en' c) \<and> \<not> cr_execution_prepared (en_records en' c)"
      using flags r(8) topo(2) by (simp add: en')
    then have "\<not> has_resources cfg en'"
      by (auto simp: has_resources_def list_ex_iff Let_def)
    with none e r(2,5) init_failed(3) refused show ?thesis
      by (intro exI [of _ "fst r"] exI [of _ f]) (auto simp: en' published)
  next
    case (start_failed n e1 f x m e2 report0 r)
    from start_failed(6) run have en': "en' = (publish_boot cfg (fst r) (snd r))\<lparr>en_operation_active := False\<rparr>"
      and e: "be_failure e = Some f" "be_status e = fl_status f"
        "be_reason e \<in> {BE_ComponentFailure, BE_ExecutionFailure}"
      by auto
    from start_failed(1) have flags1: "\<forall>c \<in> set (topo cfg). \<not> cr_execution_prepared (en_records e1 c) \<and>
        \<not> cr_cleanup_blocked (en_records e1 c)"
      by (rule fresh_init_phase [OF ok fresh]) auto
    from start_sequence_effect [OF lock start_failed(2)] obtain pre where
      "same_flags (started_flags cfg (set pre) (e1\<lparr>en_system_state := Sys_Starting\<rparr>)) e2" by blast
    with flags1 have flags2: "\<forall>c \<in> set (topo cfg). \<not> cr_cleanup_blocked (en_records e2 c) \<and>
        (cr_execution_prepared (en_records e2 c) \<longrightarrow> lc_participates cfg c)"
      by (simp add: same_flags_def started_flags_def Let_def)
    note r = rollback_started [OF ok, where report = report0 and en = e2, folded start_failed(5)]
    have kept: "\<forall>c \<in> set (components (lc_graph cfg)).
        cr_init_succeeded (en_records en' c) \<or> cr_start_succeeded (en_records en' c) \<longrightarrow>
        cr_cleanup_blocked (en_records en' c)"
      using r(5) by (auto simp: en')
    have "\<not> has_resources cfg en'" if "br_rollback_completed (fst r)"
      using that r(2,5) flags2 topo(2)
      by (auto simp: en' has_resources_def list_ex_iff Let_def executing_def lock)
    with kept e r(1,3) start_failed(3) refused show ?thesis
      by (intro exI [of _ "fst r"] exI [of _ f]) (auto simp: en' published)
  next
    case running
    with run show ?thesis by auto
  qed
qed

section \<open>A system whose hooks succeed comes up\<close>

definition hooks_succeed :: "('c, 'w) lifecycle_config \<Rightarrow> bool" where
  "hooks_succeed cfg \<longleftrightarrow>
     (\<forall>c w. fst (lc_init cfg c w) = Inr () \<and> fst (lc_start cfg c w) = Inr () \<and>
        fst (lc_prepare cfg c w) = Inr () \<and> fst (lc_validate cfg c w) = Inr ()) \<and>
     (\<forall>w. fst (lc_system_prepare cfg w) = Inr () \<and> fst (lc_system_validate cfg w) = Inr ()) \<and>
     (\<forall>k w. fst (lc_commit cfg k w) = Inr ())"

lemma call_world_fst: "fst (call_world x f en) = fst (f (en_world en))"
  by (simp add: call_world_def split_beta Let_def)

lemma hooks_succeed_components:
  assumes "hooks_succeed cfg"
  shows "fst (initialize_component cfg c en) = Inr ()" and "fst (start_component cfg c en) = Inr ()"
    and "fst (validate_execution cfg c en) = Inr ()"
  using assms
  by (simp_all add: hooks_succeed_def initialize_component_def start_component_def
      validate_execution_def invoke_init_def invoke_start_def engine_unfold call_world_fst)

lemma hooks_succeed_phases:
  assumes "hooks_succeed cfg"
  shows "fst (init_phase cfg cs n en) = None" and "fst (start_phase cfg cs n en) = None"
    and "fst (validate_phase cfg cs en) = None" and "fst (commit_catalogs cfg ks en) = None"
    and "fst (system_phase cfg Call_SystemPrepare LOp_PrepareExecution (lc_system_prepare cfg) en) = None"
    and "fst (system_phase cfg Call_SystemValidate LOp_ValidateExecution (lc_system_validate cfg) en) = None"
proof -
  show "fst (init_phase cfg cs n en) = None" "fst (start_phase cfg cs n en) = None"
    by (induction cs arbitrary: n en)
      (simp_all add: split_beta Let_def hooks_succeed_components [OF assms])
  show "fst (validate_phase cfg cs en) = None"
    by (induction cs arbitrary: en)
      (simp_all add: split_beta Let_def hooks_succeed_components [OF assms])
  show "fst (commit_catalogs cfg ks en) = None"
    using assms
    by (induction ks arbitrary: en) (simp_all add: split_beta Let_def hooks_succeed_def call_world_fst)
  show "fst (system_phase cfg Call_SystemPrepare LOp_PrepareExecution (lc_system_prepare cfg) en) = None"
    "fst (system_phase cfg Call_SystemValidate LOp_ValidateExecution (lc_system_validate cfg) en) = None"
    using assms by (simp_all add: system_phase_def split_beta Let_def hooks_succeed_def call_world_fst)
qed

lemma boot_comes_up:
  assumes "hooks_succeed cfg" and "bootable en"
  shows "\<exists>report en'. boot cfg en = (Inr report, en') \<and> br_start_completed report"
proof -
  note none = hooks_succeed_phases [OF assms(1)]
  from assms(2) show ?thesis
  proof (cases rule: boot_cases [where cfg = cfg])
    case (init_failed f n e1 report r)
    with none(1) [of "topo cfg" 0 "boot_entry en"] show ?thesis by simp
  next
    case (start_failed n e1 f x m e2 report r)
    have "fst (start_sequence cfg e) = None" for e
      by (simp add: start_sequence_def split_beta Let_def commit_catalog_activation_def none)
    with start_failed(2) show ?thesis by (metis fst_conv option.distinct(1))
  next
    case running
    then show ?thesis by simp
  qed
qed

text \<open>
  C4: a system whose hooks all succeed comes up: booting a dormant engine returns a report, never
  an error.
\<close>

theorem boot_succeeds:
  assumes "hooks_succeed cfg" and "bootable en"
  shows "\<exists>report en'. boot cfg en = (Inr report, en') \<and> br_start_completed report"
  using assms by (rule boot_comes_up)

text \<open>
  A boot is refused, without changing anything, unless the engine is idle and dormant: Busy
  while another operation runs, AlreadyRunning when the system is up, RebootUnsupported in every
  other state, so a system never boots twice.
\<close>

theorem boot_guards:
  assumes "\<not> bootable en"
  shows "boot cfg en = (Inl \<lparr>be_reason = (if en_operation_active en then BE_Busy
       else if en_system_state en = Sys_Running then BE_AlreadyRunning else BE_RebootUnsupported),
     be_status = (if en_operation_active en then St_Busy
       else if en_system_state en = Sys_Running then St_Already else St_NotSupported),
     be_failure = None\<rparr>, en)"
  using assms by (rule boot_refused)

section \<open>Reachable engines\<close>

text \<open>
  The engine's entry points as a step relation; \<^verbatim>\<open>report_execution_failure\<close> is called by a service
  thread that ends unexpectedly.
\<close>

inductive lifecycle_step :: "('c, 'w) lifecycle_config \<Rightarrow> ('c, 'w) engine \<Rightarrow> ('c, 'w) engine \<Rightarrow> bool"
  for cfg where
  step_boot: "boot cfg en = (result, en') \<Longrightarrow> lifecycle_step cfg en en'"
| step_stop: "stop_system cfg en = (result, en') \<Longrightarrow> lifecycle_step cfg en en'"
| step_failure: "c \<in> set (components (lc_graph cfg)) \<Longrightarrow>
    lifecycle_step cfg en (report_execution_failure cfg c status en)"

inductive lifecycle_reachable ::
  "('c, 'w) lifecycle_config \<Rightarrow> 'w \<Rightarrow> ('c, 'w) engine \<Rightarrow> bool" for cfg w where
  reach_init: "lifecycle_reachable cfg w (initial_engine cfg w)"
| reach_step: "lifecycle_reachable cfg w en \<Longrightarrow> lifecycle_step cfg en en' \<Longrightarrow>
    lifecycle_reachable cfg w en'"

definition all_up :: "('c, 'w) lifecycle_config \<Rightarrow> ('c, 'w) engine \<Rightarrow> bool" where
  "all_up cfg en \<longleftrightarrow> (\<forall>c \<in> set (components (lc_graph cfg)). let r = en_records en c in
     cr_init_succeeded r \<and> cr_start_succeeded r \<and> cr_execution_prepared r = lc_participates cfg c \<and>
     cr_execution_contained r = (\<not> lc_participates cfg c) \<and> \<not> cr_cleanup_blocked r)"

definition lifecycle_inv :: "('c, 'w) lifecycle_config \<Rightarrow> ('c, 'w) engine \<Rightarrow> bool" where
  "lifecycle_inv cfg en \<longleftrightarrow> \<not> en_operation_active en \<and>
     en_system_state en \<in> {Sys_Dormant, Sys_Running, Sys_Stopped, Sys_Failed} \<and>
     (en_system_state en = Sys_Dormant \<longrightarrow> fresh cfg en) \<and>
     (en_system_state en = Sys_Running \<longrightarrow> all_up cfg en)"

lemma initial_engine_inv: "lifecycle_inv cfg (initial_engine cfg w)"
  by (simp add: lifecycle_inv_def initial_engine_def initial_record_def fresh_def)

lemma boot_keeps_inv:
  assumes ok: "config_ok cfg" and inv: "lifecycle_inv cfg en" and run: "boot cfg en = (result, en')"
  shows "lifecycle_inv cfg en' \<and> (en_system_state en \<noteq> Sys_Dormant \<longrightarrow> en' = en)"
proof (cases "bootable en")
  case False
  with inv boot_refused [OF False, of cfg] run show ?thesis by simp
next
  case True
  then have dormant: "en_system_state en = Sys_Dormant" by (simp add: bootable_def)
  with inv have fresh: "fresh cfg en" by (simp add: lifecycle_inv_def)
  from True show ?thesis
  proof (cases rule: boot_cases [where cfg = cfg])
    case (init_failed f n e1 report r)
    with rollback_init(2) [OF ok, where report = report and en = e1] run dormant show ?thesis
      by (auto simp: lifecycle_inv_def)
  next
    case (start_failed n e1 f x m e2 report r)
    with rollback_started(1) [OF ok, where report = report and en = e2] run dormant show ?thesis
      by (auto simp: lifecycle_inv_def)
  next
    case (running n e1 m e2 report)
    with run have "boot cfg en = (Inr report, en')" by simp
    from boot_success_effect [OF ok fresh this] dormant show ?thesis
      by (auto simp: lifecycle_inv_def all_up_def Let_def)
  qed
qed

lemma stop_final_state:
  assumes "stop_allowed cfg en" and "stop_system cfg en = (result, en')"
  shows "en_system_state en' \<in> {Sys_Stopped, Sys_Failed} \<and> \<not> en_operation_active en'"
  using assms by (auto simp: stop_system_run split: if_splits)

lemma stop_keeps_inv:
  assumes "lifecycle_inv cfg en" and "stop_system cfg en = (result, en')"
  shows "lifecycle_inv cfg en' \<and>
    (en_system_state en \<in> {Sys_Dormant, Sys_Stopped} \<longrightarrow> en' = en) \<and>
    (en_system_state en = Sys_Failed \<longrightarrow> en_system_state en' \<in> {Sys_Stopped, Sys_Failed})"
proof (cases "stop_allowed cfg en")
  case True
  with stop_final_state [OF True assms(2)] show ?thesis
    by (auto simp: lifecycle_inv_def stop_allowed_def)
next
  case False
  with assms stop_refused [OF _ False] show ?thesis by (auto simp: lifecycle_inv_def)
qed

lemma failure_keeps_inv:
  assumes "lifecycle_inv cfg en"
  shows "lifecycle_inv cfg (report_execution_failure cfg c status en) \<and>
    en_system_state (report_execution_failure cfg c status en) =
      (if en_system_state en = Sys_Running then Sys_Failed else en_system_state en)"
  using assms
  by (auto simp: lifecycle_inv_def report_execution_failure_def Let_def fresh_def)

lemma reachable_inv:
  assumes "config_ok cfg" and "lifecycle_reachable cfg w en"
  shows "lifecycle_inv cfg en"
  using assms(2)
proof induction
  case reach_init
  show ?case by (rule initial_engine_inv)
next
  case (reach_step en en')
  from reach_step(2) show ?case
  proof cases
    case (step_boot result)
    from boot_keeps_inv [OF assms(1) reach_step(3) this] show ?thesis by blast
  next
    case (step_stop result)
    from stop_keeps_inv [OF reach_step(3) this] show ?thesis by blast
  next
    case (step_failure c status)
    with failure_keeps_inv [OF reach_step(3), of c status] show ?thesis by simp
  qed
qed

text \<open>
  C5: the lifecycle is safe in every reachable state. Between operations no guard is held and the
  system is dormant, running, stopped or failed; a dormant engine has touched no component; a
  running engine has every component initialised and started, with exactly the participating
  ones executing and nothing blocked.
\<close>

theorem lifecycle_safe:
  assumes "config_ok cfg" and "lifecycle_reachable cfg w en"
  shows "lifecycle_inv cfg en"
  using assms by (rule reachable_inv)

text \<open>
  C6: a lifecycle is never restarted. Once the system is stopped it stays stopped, once it has
  failed it can only stay failed or become stopped, and no step ever leads back to dormant.
\<close>

theorem lifecycle_one_way:
  assumes "config_ok cfg" and "lifecycle_reachable cfg w en" and "lifecycle_step cfg en en'"
  shows "(en_system_state en' = Sys_Dormant \<longrightarrow> en_system_state en = Sys_Dormant) \<and>
    (en_system_state en = Sys_Stopped \<longrightarrow> en_system_state en' = Sys_Stopped) \<and>
    (en_system_state en = Sys_Failed \<longrightarrow> en_system_state en' \<in> {Sys_Stopped, Sys_Failed}) \<and>
    (en_system_state en = Sys_Running \<longrightarrow> en_system_state en' \<noteq> Sys_Dormant)"
proof -
  have inv: "lifecycle_inv cfg en" using reachable_inv [OF assms(1,2)] .
  from assms(3) show ?thesis
  proof cases
    case (step_boot result)
    with boot_keeps_inv [OF assms(1) inv step_boot] show ?thesis by auto
  next
    case (step_stop result)
    note stop = stop_keeps_inv [OF inv step_stop]
    have "en_system_state en' \<noteq> Sys_Dormant" if "en_system_state en = Sys_Running"
      using that stop_final_state [OF _ step_stop] inv by (auto simp: stop_allowed_def lifecycle_inv_def)
    with stop inv show ?thesis by (auto simp: lifecycle_inv_def)
  next
    case (step_failure c status)
    with failure_keeps_inv [OF inv, of c status] show ?thesis by auto
  qed
qed

end
