(* ===== verification/Lifecycle_Examples.thy ===== *)
theory Lifecycle_Examples
  imports Lifecycle_Boot
begin

text \<open>
  Concrete systems that run the lifecycle engine: a three-component system whose middle component
  has an execution, a variant with a failing \<^verbatim>\<open>init()\<close>, and a single component whose execution
  outlives the first attempt to contain it.
\<close>

section \<open>Hooks\<close>

text \<open>The world is one bit: whether the execution has been told to end before.\<close>

definition demo_contain :: "'a \<Rightarrow> bool \<Rightarrow> containment \<times> bool" where
  "demo_contain c released =
     (\<lparr>ct_status = St_Ok, ct_contained = released, ct_forced = False, ct_timed_out = (\<not> released),
       ct_abort_attempted = False, ct_abort_failed = False\<rparr>, True)"

definition demo_ok :: "'a \<Rightarrow> bool \<Rightarrow> hook_result \<times> bool" where
  "demo_ok c released = (Inr (), released)"

definition demo_failure :: "lifecycle_operation \<Rightarrow> status \<Rightarrow> bool \<Rightarrow> 'a failure" where
  "demo_failure operation status w = \<lparr>fl_component = None, fl_category = Cat_Facility,
     fl_operation = operation, fl_status = status, fl_primary = True, fl_catalog = None\<rparr>"

definition demo_system :: "'c graph \<Rightarrow> ('c \<Rightarrow> bool) \<Rightarrow> ('c, bool) lifecycle_config" where
  "demo_system g participates =
     \<lparr>lc_graph = g, lc_category = (\<lambda>c. Cat_Service), lc_failure_capacity = 4,
      lc_records_lock = None,
      lc_has_init = (\<lambda>c. True), lc_has_start = (\<lambda>c. True), lc_has_stop = (\<lambda>c. True),
      lc_has_deinit = (\<lambda>c. True),
      lc_init = demo_ok, lc_start = demo_ok, lc_stop = demo_ok, lc_deinit = demo_ok,
      lc_participates = participates, lc_prepare = demo_ok, lc_validate = demo_ok,
      lc_activate = (\<lambda>c w. w), lc_request_stop = demo_ok, lc_contain = demo_contain,
      lc_uncontained_dependencies = (\<lambda>c w. []),
      lc_system_participates = False, lc_system_prepare = demo_ok (),
      lc_system_validate = demo_ok (), lc_system_activate = (\<lambda>w. w),
      lc_system_request_stop = demo_ok (), lc_system_contain = demo_contain (),
      lc_system_failure = demo_failure, lc_system_uncontained_count = (\<lambda>w. 0),
      lc_system_uncontained_dependencies = (\<lambda>w. []),
      lc_catalogs = 1, lc_catalog_participates = (\<lambda>k. True), lc_commit = demo_ok,
      lc_commit_failure = (\<lambda>k. demo_failure), lc_activate_catalog = (\<lambda>k w. w)\<rparr>"

definition demo :: "(nat, bool) lifecycle_config" where
  "demo = demo_system sample_graph (\<lambda>c. c = 1)"

definition demo_boot_failing :: "(nat, bool) lifecycle_config" where
  "demo_boot_failing = demo\<lparr>lc_init := (\<lambda>c w. if c = 1 then (Inl St_Timeout, w) else (Inr (), w))\<rparr>"

definition solo_graph :: "nat graph" where
  "solo_graph = \<lparr>components = [0], authored = (\<lambda>c. []), generated = (\<lambda>c d. False)\<rparr>"

definition solo :: "(nat, bool) lifecycle_config" where
  "solo = demo_system solo_graph (\<lambda>c. True)"

lemma demo_system_sel [simp]:
  "lc_graph (demo_system g p) = g" "lc_records_lock (demo_system g p) = None"
  "lc_category (demo_system g p) c = Cat_Service" "lc_failure_capacity (demo_system g p) = 4"
  "lc_has_init (demo_system g p) c" "lc_has_start (demo_system g p) c"
  "lc_has_stop (demo_system g p) c" "lc_has_deinit (demo_system g p) c"
  "lc_init (demo_system g p) = demo_ok" "lc_start (demo_system g p) = demo_ok"
  "lc_stop (demo_system g p) = demo_ok" "lc_deinit (demo_system g p) = demo_ok"
  "lc_participates (demo_system g p) = p" "lc_prepare (demo_system g p) = demo_ok"
  "lc_validate (demo_system g p) = demo_ok" "lc_activate (demo_system g p) c w = w"
  "lc_request_stop (demo_system g p) = demo_ok" "lc_contain (demo_system g p) = demo_contain"
  "lc_uncontained_dependencies (demo_system g p) c w = []"
  "\<not> lc_system_participates (demo_system g p)" "lc_system_prepare (demo_system g p) = demo_ok ()"
  "lc_system_validate (demo_system g p) = demo_ok ()"
  "lc_catalogs (demo_system g p) = 1" "lc_catalog_participates (demo_system g p) k"
  "lc_commit (demo_system g p) = demo_ok" "lc_activate_catalog (demo_system g p) k w = w"
  by (simp_all add: demo_system_def)

lemmas solo_sel = demo_system_sel [where g = solo_graph and p = "\<lambda>c. True", folded solo_def]

lemmas demo_sel = demo_system_sel [where g = sample_graph and p = "\<lambda>c. c = 1", folded demo_def]

lemma solo_graph_sel [simp]: "dependencies solo_graph c = []" "components solo_graph = [0]"
  by (simp_all add: solo_graph_def dependencies_def make_unique_def)

lemma demo_ok_run: "config_ok demo" "config_ok demo_boot_failing" "config_ok solo"
proof -
  have "validate_graph solo_graph"
    by (simp add: validate_graph_def validate_dependencies_def visit.simps)
  then show "config_ok demo" "config_ok demo_boot_failing" "config_ok solo"
    by (simp_all add: config_ok_def demo_def demo_boot_failing_def solo_def sample_graph_valid)
qed

lemma demo_topo: "topo demo = [0, 1, 2]" "topo demo_boot_failing = [0, 1, 2]"
proof -
  have "topological_order sample_graph = Some [0, 1, 2]" by code_simp
  then show "topo demo = [0, 1, 2]" "topo demo_boot_failing = [0, 1, 2]"
    by (simp_all add: topo_def demo_def demo_boot_failing_def)
qed

lemma solo_topo: "topo solo = [0]" "rtopo solo = [0]"
proof -
  have "topological_order solo_graph = Some [0]" by code_simp
  then show "topo solo = [0]" "rtopo solo = [0]"
    by (simp_all add: topo_def rtopo_def solo_def)
qed

lemma initial_ready: "fresh cfg (initial_engine cfg w)" "bootable (initial_engine cfg w)"
  by (simp_all add: fresh_def bootable_def initial_engine_def initial_record_def)

lemma demo_hooks: "hooks_succeed demo"
  by (simp add: hooks_succeed_def demo_def demo_ok_def)

section \<open>Boot\<close>

theorem boot_success_witness:
  "\<exists>report en'. boot demo (initial_engine demo False) = (Inr report, en') \<and>
     en_system_state en' = Sys_Running \<and>
     en_calls en' = [Call_Init 0, Call_Init 1, Call_Init 2, Call_Start 0, Call_Start 1,
       Call_Prepare 1, Call_Start 2, Call_Validate 1, Call_Commit 0, Call_Activate 1,
       Call_ActivateCatalog 0]"
proof -
  obtain report en' where run: "boot demo (initial_engine demo False) = (Inr report, en')"
    using boot_comes_up [OF demo_hooks initial_ready(2)] by blast
  from boot_success [OF demo_ok_run(1) initial_ready(1) run]
  have "en_system_state en' = Sys_Running \<and>
     en_calls en' = [Call_Init 0, Call_Init 1, Call_Init 2, Call_Start 0, Call_Start 1,
       Call_Prepare 1, Call_Start 2, Call_Validate 1, Call_Commit 0, Call_Activate 1,
       Call_ActivateCatalog 0]"
    by (simp add: initial_engine_def boot_start_calls_def boot_activate_calls_def start_calls_def
        opt_call_def demo_topo) (simp add: demo_def)
  with run show ?thesis by blast
qed

theorem boot_succeeds_witness:
  "hooks_succeed demo \<and> bootable (initial_engine demo False) \<and>
   (\<exists>report en'. boot demo (initial_engine demo False) = (Inr report, en') \<and>
      br_start_completed report)"
  by (intro conjI demo_hooks initial_ready(2) boot_succeeds [OF demo_hooks initial_ready(2)])

theorem boot_guards_witness:
  "\<not> bootable ((initial_engine demo False)\<lparr>en_system_state := Sys_Stopped\<rparr>) \<and>
   be_reason (projl (fst (boot demo ((initial_engine demo False)\<lparr>en_system_state := Sys_Stopped\<rparr>)))) =
     BE_RebootUnsupported"
proof -
  have no: "\<not> bootable ((initial_engine demo False)\<lparr>en_system_state := Sys_Stopped\<rparr>)"
    by (simp add: bootable_def)
  from no boot_guards [OF no, of demo] show ?thesis by (simp add: initial_engine_def)
qed

text \<open>The failing variant stops at component 1 and takes component 0 down again.\<close>

lemma failing_init_phase:
  "\<exists>f e1. init_phase demo_boot_failing [0, 1, 2] 0 en = (Some f, 1, e1)"
  by (simp add: initialize_component_def invoke_init_def engine_unfold call_world_def
      demo_boot_failing_def demo_def)

lemma failing_boot:
  obtains e en' report where
    "boot demo_boot_failing (initial_engine demo_boot_failing False) = (Inl e, en')"
    "en_last_boot en' = Some report" "\<not> br_initialization_completed report"
proof -
  let ?en = "initial_engine demo_boot_failing False"
  have lock: "lc_records_lock demo_boot_failing = None"
    using demo_ok_run(2) by (simp add: config_ok_def)
  obtain g e1 where init: "init_phase demo_boot_failing (topo demo_boot_failing) 0 (boot_entry ?en) =
      (Some g, 1, e1)"
    using failing_init_phase [of "boot_entry ?en"] by (auto simp: demo_topo)
  from initial_ready(2) [of demo_boot_failing False] show ?thesis
  proof (cases rule: boot_cases [where cfg = demo_boot_failing])
    case (init_failed f n e1 report r)
    then show ?thesis
      using rollback_init(6) [OF demo_ok_run(2), where report = report and en = e1]
      by (intro that [of _ _ "fst r"]) (auto simp: publish_boot_def with_records_def lock)
  qed (use init in auto)
qed

theorem boot_init_failure_witness:
  "\<exists>e en'. boot demo_boot_failing (initial_engine demo_boot_failing False) = (Inl e, en') \<and>
     (\<exists>pre c post. [0, 1, 2] = pre @ c # post \<and>
        en_calls en' = map Call_Init (pre @ [c]) @ map Call_Deinit (rev pre))"
proof (rule failing_boot)
  fix e en' report
  assume run: "boot demo_boot_failing (initial_engine demo_boot_failing False) = (Inl e, en')"
    "en_last_boot en' = Some report" "\<not> br_initialization_completed report"
  have hooks: "lc_has_init demo_boot_failing = (\<lambda>c. True)" "lc_has_deinit demo_boot_failing = (\<lambda>c. True)"
    by (simp_all add: demo_boot_failing_def demo_def fun_eq_iff)
  from boot_init_failure [OF demo_ok_run(2) initial_ready run] run(1) show ?thesis
    by (auto simp: demo_topo hooks initial_engine_def)
qed

theorem boot_failure_releases_witness:
  "\<exists>e en' report f. boot demo_boot_failing (initial_engine demo_boot_failing False) = (Inl e, en') \<and>
     query_boot_report demo_boot_failing en' = Inr report \<and> br_primary_failure report = Some f \<and>
     en_system_state en' = Sys_Failed"
proof (rule failing_boot)
  fix e en' report
  assume run: "boot demo_boot_failing (initial_engine demo_boot_failing False) = (Inl e, en')"
  from boot_failure_releases [OF demo_ok_run(2) initial_ready run] run show ?thesis by blast
qed

section \<open>Reachability\<close>

lemma demo_running_reachable:
  obtains report en where "boot demo (initial_engine demo False) = (Inr report, en)"
    "lifecycle_reachable demo False en"
proof -
  obtain report en where run: "boot demo (initial_engine demo False) = (Inr report, en)"
    using boot_comes_up [OF demo_hooks initial_ready(2)] by blast
  then have "lifecycle_reachable demo False en"
    by (intro reach_step [OF reach_init] step_boot)
  with run show ?thesis by (rule that)
qed

theorem lifecycle_safe_witness:
  "\<exists>en. lifecycle_reachable demo False en \<and> en \<noteq> initial_engine demo False \<and> lifecycle_inv demo en"
proof (rule demo_running_reachable)
  fix report en
  assume run: "boot demo (initial_engine demo False) = (Inr report, en)" "lifecycle_reachable demo False en"
  have "en_system_state en = Sys_Running"
    using boot_success_effect [OF demo_ok_run(1) initial_ready(1) run(1)] by blast
  then have "en \<noteq> initial_engine demo False" by (auto simp: initial_engine_def)
  with run(2) lifecycle_safe [OF demo_ok_run(1) run(2)] show ?thesis by blast
qed

theorem lifecycle_one_way_witness:
  "\<exists>en en'. lifecycle_reachable demo False en \<and> lifecycle_step demo en en' \<and>
     en_system_state en = Sys_Running \<and> en_system_state en' \<noteq> Sys_Dormant"
proof (rule demo_running_reachable)
  fix report en
  assume run: "boot demo (initial_engine demo False) = (Inr report, en)" "lifecycle_reachable demo False en"
  have running: "en_system_state en = Sys_Running"
    using boot_success_effect [OF demo_ok_run(1) initial_ready(1) run(1)] by blast
  have step: "lifecycle_step demo en (snd (stop_system demo en))"
    by (rule step_stop [of _ _ "fst (stop_system demo en)"]) simp
  from lifecycle_one_way [OF demo_ok_run(1) run(2) step] running step run(2) show ?thesis by blast
qed

section \<open>Stop\<close>

text \<open>A running engine of the three-component system.\<close>

definition demo_up :: "bool \<Rightarrow> (nat, bool) engine" where
  "demo_up released = (initial_engine demo released)\<lparr>en_system_state := Sys_Running,
     en_records := (\<lambda>c. (initial_record demo c)\<lparr>cr_state := Comp_Running,
       cr_init_succeeded := True, cr_start_succeeded := True,
       cr_execution_prepared := (c = 1), cr_execution_contained := (c \<noteq> 1)\<rparr>)\<rparr>"

lemma demo_up_allowed: "stop_allowed demo (demo_up released)"
  by (simp add: stop_allowed_def demo_up_def initial_engine_def)

lemma demo_rtopo: "rtopo demo = [2, 1, 0]"
  by (simp add: rtopo_def demo_topo)

lemmas evaluate_engine = engine_unfold call_world_def demo_ok_def demo_contain_def containment_failed_def containment_status_def mark_closure_def
  preserve_all_def result_status_def request_execution_stop_def contain_execution_def
  request_system_execution_stop_def contain_system_execution_def
  initial_engine_def initial_record_def

lemma demo_quiesce_calls:
  "quiesce_calls demo (demo_up released) = [Call_RequestStop 1, Call_Contain 1]"
proof -
  have "executing demo c (en_records (demo_up released) c) \<longleftrightarrow> c = 1" for c
    by (simp add: executing_def demo_sel demo_up_def)
  then show ?thesis by (simp add: quiesce_calls_def opt_call_def demo_rtopo demo_sel)
qed

theorem stop_teardown_order_witness:
  "stop_allowed demo (demo_up True) \<and>
   (\<exists>rest. en_calls (snd (stop_system demo (demo_up True))) =
      en_calls (demo_up True) @ [Call_RequestStop 1, Call_Contain 1] @ rest)"
  using demo_up_allowed [of True] stop_teardown_order [OF demo_ok_run(1) demo_up_allowed [of True]]
  unfolding demo_quiesce_calls by blast

lemma demo_request_idle: "c \<noteq> 1 \<Longrightarrow> request_execution_stop demo c s = s"
  by (simp add: request_execution_stop_def demo_sel split_beta)

lemma demo_contain_idle: "c \<noteq> 1 \<Longrightarrow> contain_execution demo c s = s"
  by (rule contain_execution_idle) (simp add: executing_def demo_sel)

lemma demo_up_quiesced:
  "executing demo 1 (en_records (snd (stop_quiesced demo (demo_up False))) 1)"
proof -
  let ?s = "(initial_stop_report Sys_Running,
    (demo_up False)\<lparr>en_operation_active := True, en_system_state := Sys_Stopping\<rparr>)"
  let ?t = "request_execution_stop demo 1 ?s"
  have "stop_quiesced demo (demo_up False) = contain_execution demo 1 ?t"
    by (simp add: stop_quiesced_def quiesce_def demo_rtopo demo_request_idle demo_contain_idle
        request_system_execution_stop_def contain_system_execution_def demo_sel)
      (simp add: demo_up_def initial_engine_def)
  moreover have exec: "executing demo 1 (en_records (snd ?t) 1)" and world: "\<not> en_world (snd ?t)"
    by (simp_all add: request_execution_stop_def executing_def demo_sel engine_unfold call_world_def
        demo_ok_def) (simp_all add: demo_up_def initial_engine_def)
  moreover from exec have "executing demo 1 (en_records (snd (contain_execution demo 1 ?t)) 1)"
    by (rule contain_execution_effect) (use world in \<open>simp add: demo_sel demo_contain_def\<close>)
  ultimately show ?thesis by (simp only:)
qed

theorem stop_preserves_dependencies_witness:
  "executing demo 1 (en_records (snd (stop_system demo (demo_up False))) 1) \<and>
   0 \<in> closure demo 1 \<and>
   cr_cleanup_blocked (en_records (snd (stop_system demo (demo_up False))) 0) \<and>
   Call_Deinit 0 \<notin> set (en_calls (snd (stop_system demo (demo_up False))))"
proof -
  have c: "1 \<in> set (components (lc_graph demo))" by (simp add: demo_def sample_components)
  have exec: "executing demo 1 (en_records (snd (stop_system demo (demo_up False))) 1)"
    using stop_system_records(4) [OF demo_ok_run(1) demo_up_allowed c] demo_up_quiesced by simp
  have dep: "0 \<in> closure demo 1"
    by (subst closure_unfold) (simp add: demo_def sample_dependencies)
  from stop_preserves_dependencies [OF demo_ok_run(1) demo_up_allowed c exec dep] exec dep
  show ?thesis by (auto simp: demo_up_def initial_engine_def)
qed

definition solo_up :: "bool \<Rightarrow> (nat, bool) engine" where
  "solo_up released = snd (boot solo (initial_engine solo released))"

lemma solo_up_world: "en_world (solo_up released) = released"
  unfolding solo_up_def
  by (simp add: boot_def boot_body_def start_sequence_def system_phase_def
      commit_catalog_activation_def activate_catalog_runtime_def initialize_component_def
      start_component_def validate_execution_def activate_execution_def invoke_init_def
      invoke_start_def mark_running_def publish_boot_def evaluate_engine mutate_record_def
      with_records_def initial_hook_def solo_topo solo_sel)

lemma solo_hooks: "hooks_succeed solo"
  by (simp add: hooks_succeed_def solo_def demo_ok_def)

lemma solo_up_running:
  "en_system_state (solo_up released) = Sys_Running" "\<not> en_operation_active (solo_up released)"
  "all_up solo (solo_up released)" "lifecycle_reachable solo released (solo_up released)"
proof -
  obtain report en where run: "boot solo (initial_engine solo released) = (Inr report, en)"
    using boot_comes_up [OF solo_hooks initial_ready(2)] by blast
  then have up: "solo_up released = en" by (simp add: solo_up_def)
  from boot_success_effect [OF demo_ok_run(3) initial_ready(1) run]
  show "en_system_state (solo_up released) = Sys_Running" "\<not> en_operation_active (solo_up released)"
    "all_up solo (solo_up released)"
    by (auto simp: up all_up_def Let_def)
  from run show "lifecycle_reachable solo released (solo_up released)"
    unfolding up by (intro reach_step [OF reach_init] step_boot)
qed

text \<open>Stopping the single component while its execution runs: the first attempt fails.\<close>

lemma solo_quiesce:
  assumes "cr_execution_prepared (en_records en 0)" and "\<not> cr_execution_contained (en_records en 0)"
  shows "xr_uncontained_execution (fst (stop_quiesced solo en)) = (if en_world en then 0 else 1)"
    and "fd_total (xr_failures (fst (stop_quiesced solo en))) = (if en_world en then 0 else 1)"
    and "en_world (snd (stop_quiesced solo en))"
    and "cr_execution_prepared (en_records (snd (stop_quiesced solo en)) 0) = (\<not> en_world en)"
    and "cr_execution_contained (en_records (snd (stop_quiesced solo en)) 0) = en_world en"
    and "cr_cleanup_blocked (en_records (snd (stop_quiesced solo en)) 0) \<longleftrightarrow>
      cr_cleanup_blocked (en_records en 0) \<or> \<not> en_world en"
  unfolding stop_quiesced_def quiesce_def solo_topo
  using assms
  by (simp_all add: evaluate_engine solo_sel initial_stop_report_def no_failures_def)

lemma stop_step_blocked:
  "cr_cleanup_blocked (en_records (snd s) c) \<Longrightarrow> lc_records_lock cfg = None \<Longrightarrow> stop_step cfg c s = s"
  "cr_cleanup_blocked (en_records (snd s) c) \<Longrightarrow> lc_records_lock cfg = None \<Longrightarrow> deinit_step cfg c s = s"
  by (simp_all add: stop_step_def deinit_step_def engine_unfold)

text \<open>
  What a stop of the single component does in a state where the component is already blocked, or
  where its execution cannot be contained.
\<close>

lemma solo_stop:
  assumes exec: "cr_execution_prepared (en_records en 0)" "\<not> cr_execution_contained (en_records en 0)"
    and blocked: "cr_cleanup_blocked (en_records en 0) \<or> \<not> en_world en"
    and init: "cr_init_succeeded (en_records en 0)" and allowed: "stop_allowed solo en"
  obtains result en' where "stop_system solo en = (result, en')" and "is_ok result = en_world en"
    and "en_system_state en' = (if en_world en then Sys_Stopped else Sys_Failed)"
    and "cr_init_succeeded (en_records en' 0)" and "cr_cleanup_blocked (en_records en' 0)"
    and "en_world en'" and "cr_execution_prepared (en_records en' 0) = (\<not> en_world en)"
    and "cr_execution_contained (en_records en' 0) = en_world en" and "\<not> en_operation_active en'"
proof -
  note q = solo_quiesce [OF exec]
  have lock: "lc_records_lock solo = None" by (simp add: solo_sel)
  have "cr_cleanup_blocked (en_records (snd (stop_quiesced solo en)) 0)" using q(6) blocked by simp
  then have torn: "stop_torn_down solo en = (fst (stop_quiesced solo en),
      (snd (stop_quiesced solo en))\<lparr>en_system_state := Sys_Deinitializing\<rparr>)"
    by (simp add: stop_torn_down_def solo_topo stop_step_blocked lock Let_def)
  have "cr_init_succeeded (en_records (snd (stop_quiesced solo en)) 0)"
    using init stop_quiesced_effect(2) [OF demo_ok_run(3)] by simp
  then show ?thesis
    using q blocked
    by (intro that [OF stop_system_run [OF allowed]])
      (auto simp: stop_clean_def torn publish_stop_def with_records_def lock)
qed

text \<open>
  C29: retrying a stop can leak components. A reachable engine exists, in which an earlier stop
  left a component blocked because its execution was not contained, such that the next stop, in
  which the execution does end, reports a clean stop and leaves the system Stopped although the
  component is still initialised; being Stopped, the system can never deinitialise it.
\<close>

theorem stop_retry_leaks:
  "\<exists>(cfg :: (nat, bool) lifecycle_config) w en report en'. config_ok cfg \<and>
     lifecycle_reachable cfg w en \<and> stop_system cfg en = (Inr report, en') \<and>
     stop_clean report \<and> en_system_state en' = Sys_Stopped \<and> has_resources cfg en' \<and>
     stop_system cfg en' =
       (Inl \<lparr>se_reason = SE_InvalidState, se_status = St_NotReady, se_failure = None\<rparr>, en')"
proof -
  have up: "cr_execution_prepared (en_records (solo_up False) 0)"
    "\<not> cr_execution_contained (en_records (solo_up False) 0)"
    "cr_init_succeeded (en_records (solo_up False) 0)"
    using solo_up_running(3) [of False] by (simp_all add: all_up_def Let_def solo_sel)
  have world: "\<not> en_world (solo_up False)" by (simp add: solo_up_world)
  have allowed: "stop_allowed solo (solo_up False)"
    using solo_up_running(1,2) [of False] by (simp add: stop_allowed_def)
  obtain r1 en1 where first: "stop_system solo (solo_up False) = (r1, en1)"
    "en_system_state en1 = Sys_Failed" "cr_init_succeeded (en_records en1 0)"
    "cr_cleanup_blocked (en_records en1 0)" "en_world en1"
    "cr_execution_prepared (en_records en1 0)" "\<not> cr_execution_contained (en_records en1 0)"
    "\<not> en_operation_active en1"
    by (rule solo_stop [OF up(1,2) _ up(3) allowed]) (use world that in auto)
  have allowed1: "stop_allowed solo en1"
    using first by (simp add: stop_allowed_def has_resources_def solo_sel Let_def)
  obtain r2 en2 where second: "stop_system solo en1 = (r2, en2)" "is_ok r2"
    "en_system_state en2 = Sys_Stopped" "cr_init_succeeded (en_records en2 0)"
    "\<not> en_operation_active en2"
    by (rule solo_stop [OF first(6,7) _ first(3) allowed1]) (use first(4,5) that in auto)
  obtain report where r2: "r2 = Inr report" using second(2) by (cases r2) auto
  have "stop_clean report"
    using second(1) r2 by (auto simp: stop_system_run [OF allowed1] split: if_splits)
  moreover have "lifecycle_reachable solo False en1"
    using reach_step [OF solo_up_running(4) step_stop [OF first(1)]] .
  moreover have "has_resources solo en2"
    using second(4) by (simp add: has_resources_def solo_sel Let_def)
  moreover have "stop_system solo en2 =
      (Inl \<lparr>se_reason = SE_InvalidState, se_status = St_NotReady, se_failure = None\<rparr>, en2)"
    using second(3,5) by (intro stop_refused) (simp_all add: stop_allowed_def)
  ultimately show ?thesis using second(1,3) r2 demo_ok_run(3) by blast
qed

lemma solo_steps_keep_failures:
  "xr_failures (fst (stop_step solo c s)) = xr_failures (fst s)"
  "xr_failures (fst (deinit_step solo c s)) = xr_failures (fst s)"
  by (simp_all add: stop_step_def deinit_step_def stop_component_def deinitialize_component_def
      engine_unfold invoke_stop_def invoke_deinit_def solo_sel call_world_def demo_ok_def)

theorem stop_releases_everything_witness:
  "\<exists>report en'. stop_system solo (solo_up True) = (Inr report, en') \<and>
     \<not> cr_init_succeeded (en_records en' 0) \<and> \<not> executing solo 0 (en_records en' 0)"
proof -
  have up: "cr_execution_prepared (en_records (solo_up True) 0)"
    "\<not> cr_execution_contained (en_records (solo_up True) 0)"
    "\<forall>c \<in> set (components (lc_graph solo)). \<not> cr_cleanup_blocked (en_records (solo_up True) c)"
    using solo_up_running(3) [of True] by (simp_all add: all_up_def Let_def solo_sel)
  have allowed: "stop_allowed solo (solo_up True)"
    using solo_up_running(1,2) [of True] by (simp add: stop_allowed_def)
  have "stop_clean (fst (stop_torn_down solo (solo_up True)))"
    using solo_quiesce(1,2) [OF up(1,2)]
    by (simp add: stop_clean_def stop_torn_down_def Let_def stop_loops_uncontained solo_up_world)
      (simp add: solo_topo solo_steps_keep_failures)
  then obtain report en' where run: "stop_system solo (solo_up True) = (Inr report, en')"
    by (simp add: stop_system_run [OF allowed])
  moreover have "0 \<in> set (components (lc_graph solo))" by (simp add: solo_sel)
  ultimately show ?thesis
    using stop_releases_everything [OF demo_ok_run(3) run up(3)] by blast
qed

end
