(* ===== verification/Execution_Types.thy ===== *)
theory Execution_Types
  imports Solar_Prelude Solar_Status
begin

text \<open>
  The local identifiers of \<^verbatim>\<open>catalog/identity.hpp\<close> and the records of \<^verbatim>\<open>execution/types.hpp\<close> and
  \<^verbatim>\<open>remote/types.hpp\<close> that the health facility observes: the state a service or an executor publishes
  about its thread, and the counters of the remote service and its links. Thread handles
  (\<^verbatim>\<open>void*\<close>) are optional numbers, \<^verbatim>\<open>None\<close> for the null pointer; durations are integers.
\<close>

subsection \<open>Local identifiers\<close>

type_synonym local_id = u16

definition invalid_value :: local_id where
  "invalid_value = 0xFFFF"

definition local_id_valid :: "local_id \<Rightarrow> bool" where
  "local_id_valid i \<longleftrightarrow> i \<noteq> invalid_value"

definition local_id_index :: "local_id \<Rightarrow> nat" where
  "local_id_index i = unat i"

lemma local_id_index_of_nat:
  assumes "n < 65535"
  shows "local_id_index (of_nat n) = n"
  using assms by (simp add: local_id_index_def unat_of_nat take_bit_nat_eq_self)

lemma local_id_inj:
  assumes "i < 65535" and "j < 65535"
  shows "(of_nat i :: local_id) = of_nat j \<longleftrightarrow> i = j"
  using assms by (metis local_id_index_of_nat)

lemma local_id_of_nat_valid:
  assumes "n < 65535"
  shows "local_id_valid (of_nat n)"
proof -
  have "local_id_index invalid_value = 65535" by (simp add: local_id_index_def invalid_value_def)
  with assms show ?thesis
    by (metis local_id_index_of_nat local_id_valid_def less_irrefl)
qed

subsection \<open>The default error value\<close>

record solar_error =
  err_status :: status
  err_native :: int

subsection \<open>Services and executors\<close>

datatype containment_state =
    Ctn_NotPrepared | Ctn_Prepared | Ctn_Clean | Ctn_Forced | Ctn_Uncontained

datatype thread_state =
    Thr_Unknown | Thr_Empty | Thr_Prepared | Thr_Scheduled | Thr_Running | Thr_Suspended
  | Thr_Exited | Thr_Aborted

record service_record =
  sv_component :: local_id
  sv_stack_bytes :: nat
  sv_priority :: int
  sv_stop_timeout :: int
  sv_run_status :: status
  sv_thread_state :: thread_state
  sv_thread :: "nat option"
  sv_containment :: containment_state
  sv_abort_on_timeout :: bool
  sv_thread_created :: bool
  sv_thread_started :: bool
  sv_running :: bool
  sv_stop_requested :: bool
  sv_exited :: bool
  sv_exited_after_stop :: bool
  sv_join_attempted :: bool
  sv_joined :: bool
  sv_timed_out :: bool
  sv_abort_attempted :: bool
  sv_abort_succeeded :: bool
  sv_abort_failed :: bool

record executor_record =
  ex_component :: local_id
  ex_stack_bytes :: nat
  ex_priority :: int
  ex_work_timeout :: int
  ex_stop_timeout :: int
  ex_last_status :: status
  ex_thread :: "nat option"
  ex_containment :: containment_state
  ex_registration_count :: nat
  ex_active_registrations :: nat
  ex_submissions :: u64
  ex_started_items :: u64
  ex_completed_items :: u64
  ex_failed_items :: u64
  ex_pending_count :: u64
  ex_pending_high_water :: u64
  ex_yields_between_items :: bool
  ex_abort_on_timeout :: bool
  ex_initialized :: bool
  ex_started :: bool
  ex_accepting :: bool
  ex_draining :: bool
  ex_plugged :: bool
  ex_stopped :: bool
  ex_timed_out :: bool
  ex_abort_attempted :: bool
  ex_abort_succeeded :: bool
  ex_abort_failed :: bool
  ex_unexpected_exit :: bool

subsection \<open>The remote service\<close>

datatype session_state =
    Ses_Disconnected | Ses_Negotiating | Ses_Active | Ses_Closing | Ses_Faulted

record remote_service_record =
  rs_ready :: bool
  rs_accepting :: bool
  rs_queued_events :: u32
  rs_event_high_water :: u32
  rs_processed_events :: u32
  rs_dropped_events :: u32

record lane_record =
  ln_occupied :: bool
  ln_transmitting :: bool
  ln_depth :: u16
  ln_high_water :: u16
  ln_admitted :: u32
  ln_replaced :: u32
  ln_dropped :: u32

record link_record =
  lk_id :: u32
  lk_session :: session_state
  lk_epoch :: u32
  lk_received_frames :: u32
  lk_received_bytes :: u32
  lk_rejected_frames :: u32
  lk_transmitted_frames :: u32
  lk_transmitted_bytes :: u32
  lk_protocol_errors :: u32
  lk_connections :: u32
  lk_duplicate_requests :: u32
  lk_completed_requests :: u32
  lk_subscriptions :: u32
  lk_lanes :: "lane_record list"
  lk_connected :: bool
  lk_tx_in_flight :: bool

end
