(* ===== verification/Ring_Log.thy ===== *)
theory Ring_Log
  imports Solar_Prelude
begin

text \<open>
  Several facilities keep the last entries of a growing log in a ring buffer indexed by a 64-bit
  sequence number that starts at one, and let clients read it page by page from a cursor.
  \<open>ring_repr\<close> relates such a ring to the log it represents; storing an entry refines appending
  to the log, and a page read refines taking a slice of it. \<open>ring_read\<close> is the loop of the page
  reads, \<open>accept\<close> being the test that some of them make on an entry before copying it. The
  relation says nothing about the ring once the sequence counter has wrapped.
\<close>

section \<open>The read loop\<close>

lemma remaining_decreases:
  fixes sequence newest :: u64
  assumes "sequence < newest"
  shows "unat newest - unat (sequence + 1) < unat newest - unat sequence"
  using assms unat_Suc_below [OF assms] by (simp add: word_less_nat_alt diff_less_mono2)

function ring_read ::
  "('a \<Rightarrow> u64 \<Rightarrow> bool) \<Rightarrow> 'a list \<Rightarrow> u64 \<Rightarrow> u64 \<Rightarrow> nat \<Rightarrow> 'a list \<Rightarrow> u64 \<times> nat \<times> 'a list" where
  "ring_read accept ring newest sequence written destination =
     (if sequence < newest \<and> written < length destination
      then
        let entry = ring ! unat ((sequence - 1) mod of_nat (length ring)) in
        if accept entry sequence
        then ring_read accept ring newest (sequence + 1) (written + 1) (destination[written := entry])
        else ring_read accept ring newest (sequence + 1) written destination
      else (sequence, written, destination))"
  by pat_completeness auto
termination
  by (relation "measure (\<lambda>(a, h, newest, sequence, w, d). unat newest - unat sequence)")
     (auto intro: remaining_decreases)

declare ring_read.simps [simp del]

section \<open>Rings and logs\<close>

definition ring_repr :: "('a \<Rightarrow> u64) \<Rightarrow> 'a list \<Rightarrow> 'a list \<Rightarrow> u64 \<Rightarrow> u64 \<Rightarrow> bool" where
  "ring_repr seq_of log ring next_seq overwritten \<longleftrightarrow>
     next_seq = of_nat (length log + 1) \<and> 0 < length ring \<and> length ring < 2 ^ 64 \<and>
     (length log + 1 < 2 ^ 64 \<longrightarrow>
        overwritten = of_nat (length log - length ring) \<and>
        (\<forall>k < length log. seq_of (log ! k) = of_nat (k + 1)) \<and>
        (\<forall>k < length log. length log \<le> k + length ring \<longrightarrow> ring ! (k mod length ring) = log ! k))"

text \<open>The index in the log at which a read starts: at the cursor, or at the oldest retained entry.\<close>

definition read_start :: "'a list \<Rightarrow> nat \<Rightarrow> u64 \<Rightarrow> nat" where
  "read_start log depth cursor =
     (let oldest = length log - depth in
      if cursor = 0 then oldest else max oldest (unat cursor - 1))"

lemma unat_of_nat_below:
  assumes "n < 2 ^ 64"
  shows "unat (of_nat n :: u64) = n"
  using assms by (simp add: unat_of_nat)

lemma ring_index:
  assumes "n < 2 ^ 64" and "d < 2 ^ 64"
  shows "unat ((of_nat (n + 1) - 1 :: u64) mod of_nat d) = n mod d"
proof -
  have "(of_nat (n + 1) - 1 :: u64) = of_nat n" by simp
  then show ?thesis using assms by (simp only: unat_mod unat_of_nat_below)
qed

lemma mod_distinct_within:
  fixes k n d :: nat
  assumes "k < n" and "n < k + d"
  shows "k mod d \<noteq> n mod d"
proof
  assume "k mod d = n mod d"
  then have "d dvd n - k" using assms(1) by (metis less_imp_le mod_eq_dvd_iff_nat)
  moreover have "0 < n - k" "n - k < d" using assms by auto
  ultimately show False by (meson dvd_imp_le not_le)
qed

lemma ring_repr_empty:
  assumes "0 < length ring" and "length ring < 2 ^ 64"
  shows "ring_repr seq_of [] ring 1 0"
  using assms by (simp add: ring_repr_def)

lemma ring_repr_push:
  assumes repr: "ring_repr seq_of log ring next_seq over" and e: "seq_of e = next_seq"
  shows "ring_repr seq_of (log @ [e])
    (ring[unat ((next_seq - 1) mod of_nat (length ring)) := e]) (next_seq + 1)
    (if next_seq > of_nat (length ring) then over + 1 else over)"
proof -
  define d where "d = length ring"
  define n where "n = length log"
  define ring' where "ring' = ring[unat ((next_seq - 1) mod of_nat d) := e]"
  define over' where "over' = (if next_seq > of_nat d then over + 1 else over)"
  note repr = repr [unfolded ring_repr_def, folded d_def n_def]
  have d: "0 < d" "d < 2 ^ 64" and next_seq: "next_seq = of_nat (n + 1)"
    using repr by auto
  have "over' = of_nat (length (log @ [e]) - d) \<and>
        (\<forall>k < length (log @ [e]). seq_of ((log @ [e]) ! k) = of_nat (k + 1)) \<and>
        (\<forall>k < length (log @ [e]). length (log @ [e]) \<le> k + d \<longrightarrow> ring' ! (k mod d) = (log @ [e]) ! k)"
    if bound: "length (log @ [e]) + 1 < 2 ^ 64"
  proof (intro conjI allI impI)
    have n: "n + 1 < 2 ^ 64" using bound by (simp add: n_def)
    then have old: "over = of_nat (n - d)"
      "\<forall>k < n. seq_of (log ! k) = of_nat (k + 1)"
      "\<forall>k < n. n \<le> k + d \<longrightarrow> ring ! (k mod d) = log ! k"
      using repr by auto
    have ring: "ring' = ring[n mod d := e]"
      using ring_index [of n d] n d by (simp add: ring'_def next_seq)
    have cmp: "next_seq > of_nat d \<longleftrightarrow> d \<le> n"
      using n d unfolding next_seq by (simp only: word_less_nat_alt unat_of_nat_below) linarith
    show "over' = of_nat (length (log @ [e]) - d)"
      using old(1) unfolding over'_def cmp by (auto simp: n_def Suc_diff_le)
    show "seq_of ((log @ [e]) ! k) = of_nat (k + 1)" if "k < length (log @ [e])" for k
      using that old(2) e next_seq by (auto simp: nth_append n_def less_Suc_eq)
    show "ring' ! (k mod d) = (log @ [e]) ! k"
      if "k < length (log @ [e])" "length (log @ [e]) \<le> k + d" for k
    proof (cases "k = n")
      case True
      then show ?thesis using d ring by (simp add: n_def d_def)
    next
      case False
      then have "k < n" "n < k + d" using that by (auto simp: n_def)
      then have "n mod d \<noteq> k mod d" using mod_distinct_within by metis
      then show ?thesis using ring old(3) \<open>k < n\<close> \<open>n < k + d\<close> by (simp add: nth_append n_def)
    qed
  qed
  moreover have "length ring' = d" by (simp add: ring'_def d_def)
  moreover have "next_seq + 1 = of_nat (length (log @ [e]) + 1)" by (simp add: next_seq n_def)
  ultimately have "ring_repr seq_of (log @ [e]) ring' (next_seq + 1) over'"
    using d unfolding ring_repr_def by simp
  then show ?thesis by (simp add: ring'_def over'_def d_def)
qed

section \<open>Reading a page\<close>

lemma ring_read_slice:
  fixes log ring :: "'a list" and seq_of :: "'a \<Rightarrow> u64"
  defines "n \<equiv> length log" and "d \<equiv> length ring"
  assumes bound: "n + 1 < 2 ^ 64" and d: "0 < d" "d < 2 ^ 64"
    and seqs: "\<forall>k < n. accept (log ! k) (of_nat (k + 1))"
    and kept: "\<forall>k. start \<le> k \<longrightarrow> k < n \<longrightarrow> ring ! (k mod d) = log ! k"
    and start: "start \<le> n" and written: "written \<le> length dest"
  shows "ring_read accept ring (of_nat (n + 1)) (of_nat (start + 1)) written dest =
    (let cnt = min (n - start) (length dest - written) in
     (of_nat (start + cnt + 1), written + cnt,
      take written dest @ take cnt (drop start log) @ drop (written + cnt) dest))"
  using start written kept
proof (induction "n - start" arbitrary: start written dest)
  case 0
  then show ?case by (simp add: ring_read.simps Let_def)
next
  case (Suc r)
  then have lt: "start < n" by simp
  then have less: "(of_nat (start + 1) :: u64) < of_nat (n + 1)"
    using bound by (simp only: word_less_nat_alt unat_of_nat_below)
  show ?case
  proof (cases "written < length dest")
    case False
    then have "written = length dest" using Suc.prems by simp
    then show ?thesis by (simp add: ring_read.simps Let_def)
  next
    case True
    have idx: "unat ((of_nat (start + 1) - 1 :: u64) mod of_nat d) = start mod d"
      using lt bound d by (intro ring_index) auto
    have entry: "ring ! (start mod d) = log ! start" using Suc.prems lt by simp
    define dest' where "dest' = dest[written := log ! start]"
    have "ring_read accept ring (of_nat (n + 1)) (of_nat (start + 1)) written dest =
        ring_read accept ring (of_nat (n + 1)) (of_nat (start + 1) + 1) (written + 1) dest'"
      using less True idx entry seqs lt
      by (subst ring_read.simps) (simp add: Let_def d_def dest'_def)
    also have "(of_nat (start + 1) + 1 :: u64) = of_nat (Suc start + 1)" by simp
    also have "ring_read accept ring (of_nat (n + 1)) (of_nat (Suc start + 1)) (written + 1) dest' =
        (let cnt = min (n - Suc start) (length dest' - (written + 1)) in
         (of_nat (Suc start + cnt + 1), written + 1 + cnt,
          take (written + 1) dest' @ take cnt (drop (Suc start) log) @ drop (written + 1 + cnt) dest'))"
      using Suc.hyps(2) Suc.prems True lt
      by (intro Suc.hyps(1)) (auto simp: dest'_def)
    also have "\<dots> = (let cnt = min (n - start) (length dest - written) in
         (of_nat (start + cnt + 1), written + cnt,
          take written dest @ take cnt (drop start log) @ drop (written + cnt) dest))"
    proof -
      define c where "c = min (n - Suc start) (length dest - Suc written)"
      have c: "min (n - start) (length dest - written) = Suc c"
        using lt True by (simp add: c_def min_def) arith
      have "drop start log = log ! start # drop (Suc start) log"
        using lt by (simp add: Cons_nth_drop_Suc n_def)
      then show ?thesis
        using True by (simp add: Let_def c c_def [symmetric] dest'_def take_Suc_update)
    qed
    finally show ?thesis .
  qed
qed

lemma oldest_sequence:
  assumes "n + 1 < 2 ^ 64" and "d < 2 ^ 64"
  shows "(if (of_nat (n + 1) :: u64) > of_nat d then of_nat (n + 1) - of_nat d else 1) =
         (of_nat (n - d + 1) :: u64)"
proof -
  have cmp: "(of_nat (n + 1) :: u64) > of_nat d \<longleftrightarrow> d < n + 1"
    using assms by (simp only: word_less_nat_alt unat_of_nat_below)
  show ?thesis
  proof (cases "d \<le> n")
    case True
    then have "(of_nat (n - d + 1) :: u64) = of_nat (n + 1) - of_nat d"
      by (simp add: of_nat_diff)
    then show ?thesis using True cmp by simp
  next
    case False
    then show ?thesis using cmp by simp
  qed
qed

lemma cursor_sequence:
  fixes cursor :: u64
  assumes "o' < 2 ^ 64"
  shows "(if (if cursor = 0 then of_nat o' else cursor) < of_nat o' then of_nat o'
          else if cursor = 0 then of_nat o' else cursor) =
         (if cursor = 0 then of_nat o' else of_nat (max o' (unat cursor)))"
  using assms by (auto simp: max_def word_less_nat_alt unat_of_nat_below)

lemma read_start_sequence:
  assumes "length log + 1 < 2 ^ 64"
  shows "(let oldest = of_nat (length log - d + 1);
              sequence = (if cursor = 0 then oldest else cursor) in
          if sequence < oldest then oldest else sequence) =
         (of_nat (read_start log d cursor + 1) :: u64)"
    and "read_start log d cursor + 1 < 2 ^ 64"
proof -
  have small: "length log - d + 1 < 2 ^ 64" using assms by simp
  have "max (length log - d + 1) (unat cursor) = max (length log - d) (unat cursor - 1) + 1"
    if "cursor \<noteq> 0"
  proof -
    have "0 < unat cursor" using that by (simp add: unat_gt_0)
    then show ?thesis by simp
  qed
  then show "(let oldest = of_nat (length log - d + 1);
              sequence = (if cursor = 0 then oldest else cursor) in
          if sequence < oldest then oldest else sequence) =
         (of_nat (read_start log d cursor + 1) :: u64)"
    unfolding Let_def cursor_sequence [OF small] by (simp add: read_start_def)
  have "unat cursor < 2 ^ 64" using unsigned_less [of cursor] by simp
  then show "read_start log d cursor + 1 < 2 ^ 64"
    using assms by (auto simp: read_start_def Let_def)
qed

lemma ring_repr_available:
  assumes "n + 1 < 2 ^ 64"
  shows "unat ((of_nat (n + 1) :: u64) - of_nat (n - d + 1)) = min n d"
proof -
  have "(of_nat (n + 1) :: u64) - of_nat (n - d + 1) = of_nat (n + 1 - (n - d + 1))"
    by (simp add: of_nat_diff)
  also have "n + 1 - (n - d + 1) = min n d" by simp
  finally show ?thesis using assms by (simp add: unat_of_nat_below)
qed

text \<open>A read of a represented ring from a cursor is a slice of the log.\<close>

lemma ring_page:
  fixes log ring dest :: "'a list" and cursor :: u64
  defines "d \<equiv> length ring"
  defines "start \<equiv> read_start log d cursor"
  defines "cnt \<equiv> min (length log - start) (length dest)"
  assumes repr: "ring_repr seq_of log ring next_seq over" and bound: "length log + 1 < 2 ^ 64"
    and accept: "\<And>e s. seq_of e = s \<Longrightarrow> accept e s"
  shows "ring_read accept ring next_seq (of_nat (start + 1)) 0 dest =
      (of_nat (start + cnt + 1), cnt, take cnt (drop start log) @ drop cnt dest)"
proof -
  define n where "n = length log"
  note repr = repr [unfolded ring_repr_def, folded d_def n_def]
  have d: "0 < d" "d < 2 ^ 64" and next_seq: "next_seq = of_nat (n + 1)"
    and seqs: "\<forall>k < n. seq_of (log ! k) = of_nat (k + 1)"
    and kept: "\<forall>k < n. n \<le> k + d \<longrightarrow> ring ! (k mod d) = log ! k"
    using repr bound by (auto simp: n_def)
  have acc: "\<forall>k < n. accept (log ! k) (of_nat (k + 1))" using seqs accept by blast
  have start64: "start + 1 < 2 ^ 64"
    unfolding start_def using read_start_sequence(2) [OF bound, of d cursor] by blast
  show ?thesis
  proof (cases "start \<le> n")
    case True
    have lo: "n - d \<le> start" by (simp add: start_def read_start_def n_def Let_def)
    have "ring_read accept ring (of_nat (length log + 1)) (of_nat (start + 1)) 0 dest =
      (let cnt = min (length log - start) (length dest - 0) in
       (of_nat (start + cnt + 1), 0 + cnt,
        take 0 dest @ take cnt (drop start log) @ drop (0 + cnt) dest))"
      by (rule ring_read_slice) (use bound d acc kept lo True in \<open>auto simp: n_def d_def\<close>)
    then show ?thesis by (simp add: n_def cnt_def Let_def next_seq)
  next
    case False
    then have "\<not> (of_nat (start + 1) :: u64) < of_nat (n + 1)"
      using bound start64 by (simp only: word_less_nat_alt unat_of_nat_below n_def)
    with False show ?thesis
      by (subst ring_read.simps) (simp add: cnt_def n_def next_seq)
  qed
qed

end
