(* ===== verification/Health_Types.thy ===== *)
theory Health_Types
  imports Execution_Types Lifecycle_Types Ring_Log
begin

text \<open>
  The data of the health facility: \<^verbatim>\<open>health/types.hpp\<close>, the evidence and storage structures of
  \<^verbatim>\<open>health/facility.hpp\<close> and the tick arithmetic of \<^verbatim>\<open>kernel/time.hpp\<close> it uses.

  Ticks are the signed 64-bit uptime of the kernel, kept as integers: every subtraction in the code
  is between two non-negative uptimes. Counters keep their width as words. The descriptor views held
  by the records are static text and left out; what the code reads of a monitor's descriptor is
  the record \<open>check_descriptor\<close>.
\<close>

type_synonym tick = int

datatype condition = Cond_Unknown | Cond_Nominal | Cond_Degraded | Cond_Faulted

datatype liveness = Live_Unknown | Live_Live | Live_Late | Live_Stalled | Live_Exited

datatype readiness = Rdy_Unknown | Rdy_Ready | Rdy_NotReady

datatype safety = Safe_Unknown | Safe_Acceptable | Safe_AtRisk | Safe_Unsafe

datatype freshness = Fresh_Unknown | Fresh_Current | Fresh_Stale

datatype evidence_quality = Ev_Direct | Ev_Reported | Ev_Inferred

datatype source_kind =
    Src_SelfReport | Src_ComponentAssessment | Src_Lifecycle | Src_Execution | Src_Monitor
  | Src_Events | Src_Metrics | Src_Logging | Src_Remote | Src_Hardware

datatype source_availability = Avl_Unknown | Avl_Available | Avl_Unavailable | Avl_Unsupported

datatype monitor_kind = Mon_Check | Mon_Progress | Mon_StackMargin | Mon_Execution | Mon_Signal

datatype health_operation =
    HOp_Report | HOp_ReportIsr | HOp_Progress | HOp_Assess | HOp_Check | HOp_Refresh | HOp_Query
  | HOp_HistoryRead

datatype health_reason =
    HR_NotReady | HR_Disabled | HR_NotRegistered | HR_InvalidAssessment | HR_Unsupported
  | HR_Unavailable | HR_Busy | HR_Stale | HR_IngressFull | HR_SourceFailed | HR_InternalInvariant

record health_error =
  he_status :: status
  he_reason :: health_reason
  he_operation :: health_operation
  he_subject :: local_id
  he_monitor :: local_id
  he_native :: int
  he_detail :: u32

record evidence_ref =
  er_quality :: evidence_quality
  er_subject :: local_id
  er_monitor :: local_id
  er_source_kind :: source_kind
  er_source_id :: u32

record assessment =
  as_condition :: condition
  as_liveness :: liveness
  as_readiness :: readiness
  as_safety :: safety
  as_freshness :: freshness
  as_last_error :: "health_error option"
  as_detail :: u32
  as_recovering :: bool

definition default_assessment :: assessment where
  "default_assessment =
     \<lparr>as_condition = Cond_Unknown, as_liveness = Live_Unknown, as_readiness = Rdy_Unknown,
      as_safety = Safe_Unknown, as_freshness = Fresh_Current, as_last_error = None,
      as_detail = 0, as_recovering = False\<rparr>"

record observation =
  ob_assessment :: assessment
  ob_quality :: evidence_quality
  ob_availability :: source_availability
  ob_observed_at :: tick
  ob_stale_after :: tick
  ob_required :: bool
  ob_explicit_recovery :: bool

definition default_observation :: observation where
  "default_observation =
     \<lparr>ob_assessment = default_assessment, ob_quality = Ev_Direct, ob_availability = Avl_Available,
      ob_observed_at = 0, ob_stale_after = 0, ob_required = False, ob_explicit_recovery = False\<rparr>"

record compact_observation =
  co_condition :: condition
  co_liveness :: liveness
  co_readiness :: readiness
  co_safety :: safety
  co_status :: status
  co_detail :: u32
  co_recovering :: bool

record check_descriptor =
  cd_kind :: monitor_kind
  cd_period_ns :: int
  cd_stale_after_ns :: int
  cd_stack_margin_bytes :: nat
  cd_required :: bool

record subject_record =
  sb_subject :: local_id
  sb_condition :: condition
  sb_liveness :: liveness
  sb_readiness :: readiness
  sb_safety :: safety
  sb_freshness :: freshness
  sb_assessed_at :: tick
  sb_last_transition :: tick
  sb_assessment_generation :: u64
  sb_transition_count :: u64
  sb_report_count :: u64
  sb_repeated_count :: u64
  sb_last_error :: "health_error option"
  sb_primary_evidence :: "evidence_ref option"
  sb_recovering :: bool

record monitor_record =
  mr_descriptor :: check_descriptor
  mr_monitor :: local_id
  mr_subject :: local_id
  mr_observation :: observation
  mr_observations :: u64
  mr_failures :: u64
  mr_recoveries :: u64
  mr_stale_transitions :: u64
  mr_has_observation :: bool
  mr_stale :: bool

record system_record =
  sy_condition :: condition
  sy_readiness :: readiness
  sy_safety :: safety
  sy_freshness :: freshness
  sy_nominal_subjects :: u32
  sy_degraded_subjects :: u32
  sy_faulted_subjects :: u32
  sy_unknown_subjects :: u32
  sy_stale_subjects :: u32
  sy_primary_evidence :: "evidence_ref option"
  sy_assessment_generation :: u64
  sy_assessed_at :: tick
  sy_isr_reports_admitted :: u64
  sy_isr_reports_dropped :: u64

record receipt =
  rc_subject :: local_id
  rc_generation :: u64
  rc_transitioned :: bool
  rc_repeated :: bool

record progress_receipt =
  pr_subject :: local_id
  pr_generation :: u64
  pr_observed_at :: tick

record transition_record =
  tr_sequence :: u64
  tr_subject :: local_id
  tr_previous :: condition
  tr_current :: condition
  tr_occurred_at :: tick
  tr_evidence :: "evidence_ref option"

record history_page =
  hp_next :: u64
  hp_written :: nat
  hp_available :: nat
  hp_overwritten :: u64

section \<open>Storage of the facility\<close>

record evidence_state =
  es_assessment :: assessment
  es_quality :: evidence_quality
  es_availability :: source_availability
  es_observed_at :: tick
  es_stale_after :: tick
  es_source_kind :: source_kind
  es_source_id :: u32
  es_required :: bool
  es_present :: bool

definition default_evidence :: evidence_state where
  "default_evidence =
     \<lparr>es_assessment = default_assessment, es_quality = Ev_Direct, es_availability = Avl_Unknown,
      es_observed_at = 0, es_stale_after = 0, es_source_kind = Src_SelfReport, es_source_id = 0,
      es_required = False, es_present = False\<rparr>"

record subject_state =
  ss_reported :: evidence_state
  ss_assessment :: evidence_state
  ss_lifecycle :: evidence_state
  ss_execution :: evidence_state
  ss_events :: evidence_state
  ss_metrics :: evidence_state
  ss_logging :: evidence_state
  ss_remote :: evidence_state
  ss_hardware :: evidence_state

record progress_state =
  ps_generation :: u64
  ps_observed_at :: tick

record isr_report =
  ir_subject :: local_id
  ir_observation :: compact_observation
  ir_observed_at :: tick

text \<open>
  \<^verbatim>\<open>Storage<System>\<close>. The field \<open>hs_world\<close> is the rest of the firmware: the clock, the mutex, the component
  hooks and the other facilities the health code calls. \<open>hs_supervisor_waker\<close> is the function
  pointer \<^verbatim>\<open>supervisor_waker\<close>.
\<close>

record 'w health =
  hs_subjects :: "subject_record list"
  hs_subject_state :: "subject_state list"
  hs_monitors :: "monitor_record list"
  hs_progress :: "progress_state list"
  hs_history :: "transition_record list"
  hs_ingress :: "isr_report list"
  hs_system :: system_record
  hs_next_history_sequence :: u64
  hs_history_overwritten :: u64
  hs_first_refresh :: tick
  hs_isr_admitted :: u64
  hs_isr_dropped :: u64
  hs_supervisor_waker :: "('w \<Rightarrow> 'w) option"
  hs_world :: 'w

section \<open>The system the facility is instantiated with\<close>

text \<open>
  The type-level arguments and the environment of the templates: the component list with the optional
  \<^verbatim>\<open>Health\<close> contract of each, the monitor catalog, the Kconfig constants, the Zephyr primitives and the
  accessors of the other facilities, as functions on the world. Errors of foreign calls come in the shapes that
  \<^verbatim>\<open>normalize_error\<close> distinguishes.
\<close>

datatype source_error =
    Err_Health health_error
  | Err_Status status
  | Err_Fields status "int option"
  | Err_Opaque

datatype 'w health_contract =
    No_Assess
  | Assess "'w \<Rightarrow> (source_error + assessment) \<times> 'w" "int option"

datatype 'w health_category =
    Observe_None
  | Observe_Service "'w \<Rightarrow> service_record"
  | Observe_Executor "'w \<Rightarrow> executor_record"

record 'w health_component =
  hm_category :: "'w health_category"
  hm_contract :: "'w health_contract"
  hm_lifecycle :: "'w \<Rightarrow> solar_error + nat component_record"

record 'w health_monitor =
  hn_owner :: local_id
  hn_descriptor :: check_descriptor
  hn_check :: "'w \<Rightarrow> (source_error + observation) \<times> 'w"

record 'w health_remote =
  hr_component :: nat
  hr_record :: "'w \<Rightarrow> remote_service_record"
  hr_links :: "'w \<Rightarrow> (u16 \<times> link_record) list"

record 'w health_config =
  hc_components :: "'w health_component list"
  hc_monitors :: "'w health_monitor list"
  hc_remote :: "'w health_remote option"
  hc_history_depth :: nat
  hc_isr_ingress_depth :: nat
  hc_default_stale_ms :: int
  hc_progress_grace_ms :: int
  hc_errno :: errno_env
  hc_ns_to_ticks_ceil :: "nat \<Rightarrow> nat"
  hc_now_ticks :: "'w \<Rightarrow> tick \<times> 'w"
  hc_lock :: "'w \<Rightarrow> status option \<times> 'w"
  hc_stack_usage :: "nat \<Rightarrow> nat \<Rightarrow> 'w \<Rightarrow> solar_error + nat"

definition tick_max :: int where
  "tick_max = 2 ^ 63 - 1"

definition to_ticks_ceil :: "'w health_config \<Rightarrow> int \<Rightarrow> tick" where
  "to_ticks_ceil cfg nanoseconds =
     (if nanoseconds \<le> 0 then 0
      else let ticks = int (hc_ns_to_ticks_ceil cfg (nat nanoseconds)) in
           if ticks > tick_max then tick_max else ticks)"

definition ms_to_ticks_ceil :: "'w health_config \<Rightarrow> int \<Rightarrow> tick" where
  "ms_to_ticks_ceil cfg ms = to_ticks_ceil cfg (ms * 1000000)"

lemma to_ticks_ceil_nonneg: "0 \<le> to_ticks_ceil cfg ns"
  by (simp add: to_ticks_ceil_def tick_max_def)

end
