(* ===== verification/Health_Facility.thy ===== *)
theory Health_Facility
  imports Health_Types
begin

text \<open>
  \<^verbatim>\<open>health/facility.hpp\<close>: the storage of the health facility and every operation on it. Component
  type arguments are component indices, monitor type arguments indices of the monitor catalog.
\<close>

section \<open>Errors, staleness and the severity order\<close>

definition make_error ::
  "status \<Rightarrow> health_reason \<Rightarrow> health_operation \<Rightarrow> local_id \<Rightarrow> local_id \<Rightarrow> int \<Rightarrow> u32 \<Rightarrow> health_error" where
  "make_error st reason op subject monitor native detail =
     \<lparr>he_status = st, he_reason = reason, he_operation = op, he_subject = subject,
      he_monitor = monitor, he_native = native, he_detail = detail\<rparr>"

fun normalize_error ::
  "errno_env \<Rightarrow> source_error \<Rightarrow> health_operation \<Rightarrow> local_id \<Rightarrow> local_id \<Rightarrow> health_error" where
  "normalize_error env (Err_Health e) op subject monitor =
     e\<lparr>he_operation := op, he_subject := subject, he_monitor := monitor\<rparr>"
| "normalize_error env (Err_Status st) op subject monitor =
     make_error st HR_SourceFailed op subject monitor (to_native_errno env st) 0"
| "normalize_error env (Err_Fields st native) op subject monitor =
     make_error st HR_SourceFailed op subject monitor (case native of Some n \<Rightarrow> n | None \<Rightarrow> 0) 0"
| "normalize_error env Err_Opaque op subject monitor =
     make_error St_Error HR_SourceFailed op subject monitor 0 0"

definition default_stale_ticks :: "'w health_config \<Rightarrow> tick" where
  "default_stale_ticks cfg = ms_to_ticks_ceil cfg (hc_default_stale_ms cfg)"

definition stale_ticks :: "'w health_config \<Rightarrow> int \<Rightarrow> tick" where
  "stale_ticks cfg nanoseconds =
     (if nanoseconds > 0 then to_ticks_ceil cfg nanoseconds else default_stale_ticks cfg)"

definition expired :: "tick \<Rightarrow> tick \<Rightarrow> tick \<Rightarrow> bool" where
  "expired now observed stale_after \<longleftrightarrow>
     observed > 0 \<and> stale_after > 0 \<and> now - observed > stale_after"

text \<open>The numeric values of the enumerators, as the casts to \<^verbatim>\<open>unsigned\<close> read them.\<close>

fun condition_rank :: "condition \<Rightarrow> nat" where
  "condition_rank Cond_Unknown = 0"
| "condition_rank Cond_Nominal = 1"
| "condition_rank Cond_Degraded = 2"
| "condition_rank Cond_Faulted = 3"

fun liveness_rank :: "liveness \<Rightarrow> nat" where
  "liveness_rank Live_Unknown = 0"
| "liveness_rank Live_Live = 1"
| "liveness_rank Live_Late = 2"
| "liveness_rank Live_Stalled = 3"
| "liveness_rank Live_Exited = 4"

fun safety_rank :: "safety \<Rightarrow> nat" where
  "safety_rank Safe_Unknown = 0"
| "safety_rank Safe_Acceptable = 1"
| "safety_rank Safe_AtRisk = 2"
| "safety_rank Safe_Unsafe = 3"

fun freshness_rank :: "freshness \<Rightarrow> nat" where
  "freshness_rank Fresh_Unknown = 0"
| "freshness_rank Fresh_Current = 1"
| "freshness_rank Fresh_Stale = 2"

definition worse_condition :: "condition \<Rightarrow> condition \<Rightarrow> condition" where
  "worse_condition l r = (if condition_rank r > condition_rank l then r else l)"

definition worse_liveness :: "liveness \<Rightarrow> liveness \<Rightarrow> liveness" where
  "worse_liveness l r = (if liveness_rank r > liveness_rank l then r else l)"

definition worse_readiness :: "readiness \<Rightarrow> readiness \<Rightarrow> readiness" where
  "worse_readiness l r =
     (if l = Rdy_NotReady \<or> r = Rdy_NotReady then Rdy_NotReady
      else if l = Rdy_Unknown \<or> r = Rdy_Unknown then Rdy_Unknown
      else Rdy_Ready)"

definition worse_safety :: "safety \<Rightarrow> safety \<Rightarrow> safety" where
  "worse_safety l r = (if safety_rank r > safety_rank l then r else l)"

section \<open>Construction\<close>

definition initial_subject :: "nat \<Rightarrow> subject_record" where
  "initial_subject i =
     \<lparr>sb_subject = of_nat i, sb_condition = Cond_Unknown, sb_liveness = Live_Unknown,
      sb_readiness = Rdy_Unknown, sb_safety = Safe_Unknown, sb_freshness = Fresh_Unknown,
      sb_assessed_at = 0, sb_last_transition = 0, sb_assessment_generation = 0,
      sb_transition_count = 0, sb_report_count = 0, sb_repeated_count = 0,
      sb_last_error = None, sb_primary_evidence = None, sb_recovering = False\<rparr>"

definition initial_monitor :: "nat \<Rightarrow> 'w health_monitor \<Rightarrow> monitor_record" where
  "initial_monitor i m =
     \<lparr>mr_descriptor = hn_descriptor m, mr_monitor = of_nat i, mr_subject = hn_owner m,
      mr_observation = default_observation\<lparr>ob_required := cd_required (hn_descriptor m)\<rparr>,
      mr_observations = 0, mr_failures = 0, mr_recoveries = 0, mr_stale_transitions = 0,
      mr_has_observation = False, mr_stale = False\<rparr>"

definition default_subject_state :: subject_state where
  "default_subject_state =
     \<lparr>ss_reported = default_evidence, ss_assessment = default_evidence,
      ss_lifecycle = default_evidence, ss_execution = default_evidence,
      ss_events = default_evidence, ss_metrics = default_evidence, ss_logging = default_evidence,
      ss_remote = default_evidence, ss_hardware = default_evidence\<rparr>"

definition default_transition :: transition_record where
  "default_transition =
     \<lparr>tr_sequence = 0, tr_subject = invalid_value, tr_previous = Cond_Unknown,
      tr_current = Cond_Unknown, tr_occurred_at = 0, tr_evidence = None\<rparr>"

definition default_system :: system_record where
  "default_system =
     \<lparr>sy_condition = Cond_Unknown, sy_readiness = Rdy_Unknown, sy_safety = Safe_Unknown,
      sy_freshness = Fresh_Unknown, sy_nominal_subjects = 0, sy_degraded_subjects = 0,
      sy_faulted_subjects = 0, sy_unknown_subjects = 0, sy_stale_subjects = 0,
      sy_primary_evidence = None, sy_assessment_generation = 0, sy_assessed_at = 0,
      sy_isr_reports_admitted = 0, sy_isr_reports_dropped = 0\<rparr>"

definition initial_health :: "'w health_config \<Rightarrow> 'w \<Rightarrow> 'w health" where
  "initial_health cfg w =
     \<lparr>hs_subjects = map initial_subject [0..<length (hc_components cfg)],
      hs_subject_state = replicate (length (hc_components cfg)) default_subject_state,
      hs_monitors = map2 initial_monitor [0..<length (hc_monitors cfg)] (hc_monitors cfg),
      hs_progress = replicate (length (hc_components cfg)) \<lparr>ps_generation = 0, ps_observed_at = 0\<rparr>,
      hs_history = replicate (hc_history_depth cfg) default_transition,
      hs_ingress = [],
      hs_system = default_system,
      hs_next_history_sequence = 1,
      hs_history_overwritten = 0,
      hs_first_refresh = 0,
      hs_isr_admitted = 0,
      hs_isr_dropped = 0,
      hs_supervisor_waker = None,
      hs_world = w\<rparr>"

definition set_supervisor_waker :: "('w \<Rightarrow> 'w) option \<Rightarrow> 'w health \<Rightarrow> 'w health" where
  "set_supervisor_waker waker s = s\<lparr>hs_supervisor_waker := waker\<rparr>"

definition wake_supervisor :: "'w health \<Rightarrow> 'w health" where
  "wake_supervisor s =
     (case hs_supervisor_waker s of
        None \<Rightarrow> s
      | Some waker \<Rightarrow> s\<lparr>hs_world := waker (hs_world s)\<rparr>)"

section \<open>Recomputation of the records\<close>

definition append_history ::
  "subject_record \<Rightarrow> condition \<Rightarrow> evidence_ref option \<Rightarrow> 'w health \<Rightarrow> 'w health" where
  "append_history rec prev evidence s =
     (if prev = sb_condition rec then s
      else
        let seq = hs_next_history_sequence s;
            depth = (of_nat (length (hs_history s)) :: u64);
            target = unat ((seq - 1) mod depth);
            s = (if seq > depth
                 then s\<lparr>hs_history_overwritten := hs_history_overwritten s + 1\<rparr> else s) in
        s\<lparr>hs_next_history_sequence := seq + 1,
          hs_history := (hs_history s)[target :=
            \<lparr>tr_sequence = seq, tr_subject = sb_subject rec, tr_previous = prev,
             tr_current = sb_condition rec, tr_occurred_at = sb_assessed_at rec,
             tr_evidence = evidence\<rparr>]\<rparr>)"

text \<open>One iteration of the loop of \<^verbatim>\<open>recompute_system_locked\<close>, with the running \<^verbatim>\<open>primary_condition\<close>.\<close>

definition count_subject :: "condition \<Rightarrow> system_record \<Rightarrow> system_record" where
  "count_subject c next =
     (case c of
        Cond_Unknown \<Rightarrow> next\<lparr>sy_unknown_subjects := sy_unknown_subjects next + 1\<rparr>
      | Cond_Nominal \<Rightarrow> next\<lparr>sy_nominal_subjects := sy_nominal_subjects next + 1\<rparr>
      | Cond_Degraded \<Rightarrow> next\<lparr>sy_degraded_subjects := sy_degraded_subjects next + 1\<rparr>
      | Cond_Faulted \<Rightarrow> next\<lparr>sy_faulted_subjects := sy_faulted_subjects next + 1\<rparr>)"

definition merge_freshness :: "freshness \<Rightarrow> system_record \<Rightarrow> system_record" where
  "merge_freshness f next =
     (if f = Fresh_Stale
      then next\<lparr>sy_stale_subjects := sy_stale_subjects next + 1, sy_freshness := Fresh_Stale\<rparr>
      else if f = Fresh_Unknown \<and> sy_freshness next \<noteq> Fresh_Stale
      then next\<lparr>sy_freshness := Fresh_Unknown\<rparr>
      else next)"

definition roll_up_subject ::
  "subject_record \<Rightarrow> condition \<times> system_record \<Rightarrow> condition \<times> system_record" where
  "roll_up_subject subject acc =
     (case acc of (primary, next) \<Rightarrow>
        let next = merge_freshness (sb_freshness subject) (count_subject (sb_condition subject) next);
            next = next\<lparr>sy_readiness := worse_readiness (sy_readiness next) (sb_readiness subject),
                        sy_safety := worse_safety (sy_safety next) (sb_safety subject)\<rparr> in
        if sb_primary_evidence subject \<noteq> None \<and>
           condition_rank (sb_condition subject) > condition_rank primary
        then (sb_condition subject, next\<lparr>sy_primary_evidence := sb_primary_evidence subject\<rparr>)
        else (primary, next))"

definition system_condition :: "system_record \<Rightarrow> condition" where
  "system_condition next =
     (if sy_faulted_subjects next > 0 then Cond_Faulted
      else if sy_degraded_subjects next > 0 then Cond_Degraded
      else if sy_unknown_subjects next > 0 then Cond_Unknown
      else Cond_Nominal)"

definition recompute_system_locked :: "tick \<Rightarrow> 'w health \<Rightarrow> 'w health" where
  "recompute_system_locked now s =
     (let start = default_system\<lparr>sy_readiness := Rdy_Ready, sy_safety := Safe_Acceptable,
                                  sy_freshness := Fresh_Current\<rparr>;
          next = snd (fold roll_up_subject (hs_subjects s) (Cond_Unknown, start)) in
      s\<lparr>hs_system := next\<lparr>sy_condition := system_condition next,
          sy_assessment_generation := sy_assessment_generation (hs_system s) + 1,
          sy_assessed_at := now,
          sy_isr_reports_admitted := hs_isr_admitted s,
          sy_isr_reports_dropped := hs_isr_dropped s\<rparr>\<rparr>)"

text \<open>The variables captured by the lambda \<^verbatim>\<open>merge\<close> of \<^verbatim>\<open>recompute_subject_locked\<close>.\<close>

record merge_state =
  mg_aggregate :: assessment
  mg_has_evidence :: bool
  mg_required_unknown :: bool
  mg_primary :: "evidence_ref option"

definition initial_merge :: merge_state where
  "initial_merge =
     \<lparr>mg_aggregate = default_assessment\<lparr>as_freshness := Fresh_Unknown\<rparr>,
      mg_has_evidence = False, mg_required_unknown = False, mg_primary = None\<rparr>"

definition effective_assessment :: "tick \<Rightarrow> evidence_state \<Rightarrow> assessment" where
  "effective_assessment now ev =
     (let a = es_assessment ev in
      if expired now (es_observed_at ev) (es_stale_after ev)
      then let a = a\<lparr>as_freshness := Fresh_Stale\<rparr> in
           if es_required ev \<and> as_condition a \<noteq> Cond_Faulted
           then a\<lparr>as_condition := Cond_Degraded\<rparr> else a
      else a)"

definition merge_assessment :: "assessment \<Rightarrow> assessment \<Rightarrow> assessment" where
  "merge_assessment agg a =
     (let old = as_condition agg;
          agg = agg\<lparr>as_condition := worse_condition (as_condition agg) (as_condition a)\<rparr>;
          agg = (if as_liveness a \<noteq> Live_Unknown
                 then agg\<lparr>as_liveness := worse_liveness (as_liveness agg) (as_liveness a)\<rparr> else agg);
          agg = (if as_readiness a \<noteq> Rdy_Unknown
                 then agg\<lparr>as_readiness := (if as_readiness agg = Rdy_Unknown then as_readiness a
                        else worse_readiness (as_readiness agg) (as_readiness a))\<rparr> else agg);
          agg = (if as_safety a \<noteq> Safe_Unknown
                 then agg\<lparr>as_safety := worse_safety (as_safety agg) (as_safety a)\<rparr> else agg);
          agg = agg\<lparr>as_freshness := (if freshness_rank (as_freshness a) > freshness_rank (as_freshness agg)
                        then as_freshness a else as_freshness agg)\<rparr>;
          agg = agg\<lparr>as_recovering := as_recovering agg \<or> as_recovering a\<rparr> in
      if as_last_error a \<noteq> None \<and> (as_last_error agg = None \<or> as_condition agg \<noteq> old)
      then agg\<lparr>as_last_error := as_last_error a\<rparr> else agg)"

definition merge ::
  "tick \<Rightarrow> local_id \<Rightarrow> local_id \<Rightarrow> evidence_state \<Rightarrow> merge_state \<Rightarrow> merge_state" where
  "merge now subject monitor ev m =
     (if \<not> es_present ev
      then (if es_required ev then m\<lparr>mg_required_unknown := True\<rparr> else m)
      else
        let m = m\<lparr>mg_has_evidence := True\<rparr> in
        if es_availability ev \<noteq> Avl_Available \<and> es_required ev
        then m\<lparr>mg_required_unknown := True\<rparr>
        else
          let a = effective_assessment now ev in
          if \<not> es_required ev \<and> as_condition a \<noteq> Cond_Nominal then m
          else
            let old = as_condition (mg_aggregate m);
                agg = merge_assessment (mg_aggregate m) a;
                m = m\<lparr>mg_aggregate := agg\<rparr> in
            if mg_primary m = None \<or> as_condition agg \<noteq> old
            then m\<lparr>mg_primary := Some \<lparr>er_quality = es_quality ev, er_subject = subject,
                     er_monitor = monitor, er_source_kind = es_source_kind ev,
                     er_source_id = es_source_id ev\<rparr>\<rparr>
            else m)"

definition sources_of :: "subject_state \<Rightarrow> evidence_state list" where
  "sources_of ss =
     [ss_reported ss, ss_assessment ss, ss_lifecycle ss, ss_execution ss, ss_events ss,
      ss_metrics ss, ss_logging ss, ss_remote ss, ss_hardware ss]"

definition monitor_evidence :: "monitor_record \<Rightarrow> evidence_state" where
  "monitor_evidence m =
     default_evidence\<lparr>es_assessment := ob_assessment (mr_observation m),
       es_quality := ob_quality (mr_observation m),
       es_availability := ob_availability (mr_observation m),
       es_observed_at := ob_observed_at (mr_observation m),
       es_stale_after := ob_stale_after (mr_observation m),
       es_required := ob_required (mr_observation m),
       es_present := mr_has_observation m\<rparr>"

definition monitor_is_stale :: "tick \<Rightarrow> monitor_record \<Rightarrow> bool" where
  "monitor_is_stale now m \<longleftrightarrow>
     mr_has_observation m \<and>
     expired now (ob_observed_at (mr_observation m)) (ob_stale_after (mr_observation m))"

fun merge_monitors ::
  "tick \<Rightarrow> local_id \<Rightarrow> monitor_record list \<Rightarrow> merge_state \<Rightarrow> monitor_record list \<times> merge_state" where
  "merge_monitors now subject [] acc = ([], acc)"
| "merge_monitors now subject (m # ms) acc =
     (if mr_subject m \<noteq> subject
      then (case merge_monitors now subject ms acc of (ms', acc') \<Rightarrow> (m # ms', acc'))
      else
        let is_stale = monitor_is_stale now m;
            m' = (if is_stale \<and> \<not> mr_stale m
                  then m\<lparr>mr_stale_transitions := mr_stale_transitions m + 1\<rparr> else m)\<lparr>mr_stale := is_stale\<rparr> in
        case merge_monitors now subject ms (merge now subject (mr_monitor m) (monitor_evidence m) acc) of
          (ms', acc') \<Rightarrow> (m' # ms', acc'))"

definition assessment_of_record :: "subject_record \<Rightarrow> assessment" where
  "assessment_of_record rec =
     default_assessment\<lparr>as_condition := sb_condition rec, as_liveness := sb_liveness rec,
       as_readiness := sb_readiness rec, as_safety := sb_safety rec,
       as_freshness := sb_freshness rec, as_last_error := sb_last_error rec,
       as_recovering := sb_recovering rec\<rparr>"

definition final_condition :: "merge_state \<Rightarrow> condition" where
  "final_condition m =
     (if \<not> mg_has_evidence m \<or>
         (mg_required_unknown m \<and> as_condition (mg_aggregate m) = Cond_Nominal)
      then Cond_Unknown else as_condition (mg_aggregate m))"

definition publish_assessment :: "tick \<Rightarrow> merge_state \<Rightarrow> subject_record \<Rightarrow> subject_record" where
  "publish_assessment now m rec =
     rec\<lparr>sb_condition := final_condition m,
         sb_liveness := as_liveness (mg_aggregate m),
         sb_readiness := as_readiness (mg_aggregate m),
         sb_safety := as_safety (mg_aggregate m),
         sb_freshness := as_freshness (mg_aggregate m),
         sb_last_error := as_last_error (mg_aggregate m),
         sb_primary_evidence := mg_primary m,
         sb_recovering := as_recovering (mg_aggregate m),
         sb_assessed_at := now,
         sb_assessment_generation := sb_assessment_generation rec + 1\<rparr>"

definition recompute_subject_locked :: "nat \<Rightarrow> tick \<Rightarrow> 'w health \<Rightarrow> 'w health" where
  "recompute_subject_locked i now s =
     (let rec = hs_subjects s ! i;
          prev = sb_condition rec;
          m = fold (merge now (sb_subject rec) invalid_value) (sources_of (hs_subject_state s ! i))
                initial_merge;
          (mons, m) = merge_monitors now (sb_subject rec) (hs_monitors s) m;
          rec' = publish_assessment now m rec;
          changed = assessment_of_record rec' \<noteq> assessment_of_record rec;
          rec' = (if changed \<and> prev \<noteq> sb_condition rec'
                  then rec'\<lparr>sb_transition_count := sb_transition_count rec' + 1,
                            sb_last_transition := sb_assessed_at rec'\<rparr> else rec');
          s = s\<lparr>hs_monitors := mons, hs_subjects := (hs_subjects s)[i := rec']\<rparr> in
      if changed then append_history rec' prev (mg_primary m) s else s)"

section \<open>Transactions on the storage\<close>

definition now_ticks :: "'w health_config \<Rightarrow> 'w health \<Rightarrow> tick \<times> 'w health" where
  "now_ticks cfg s =
     (case hc_now_ticks cfg (hs_world s) of (t, w) \<Rightarrow> (t, s\<lparr>hs_world := w\<rparr>))"

definition with_storage ::
  "'w health_config \<Rightarrow> ('w health \<Rightarrow> 'a \<times> 'w health) \<Rightarrow> health_operation \<Rightarrow> 'w health \<Rightarrow>
   (health_error + 'a) \<times> 'w health" where
  "with_storage cfg body op s =
     (case hc_lock cfg (hs_world s) of (locked, w) \<Rightarrow>
        let s = s\<lparr>hs_world := w\<rparr> in
        case locked of
          Some e \<Rightarrow> (Inl (make_error e HR_Busy op invalid_value invalid_value 0 0), s)
        | None \<Rightarrow> (case body s of (x, s) \<Rightarrow> (Inr x, s)))"

text \<open>The pointers to members of \<^verbatim>\<open>SubjectState\<close> that select an evidence slot.\<close>

datatype evidence_slot =
    Slot_Reported | Slot_Assessment | Slot_Lifecycle | Slot_Execution | Slot_Events
  | Slot_Metrics | Slot_Logging | Slot_Remote | Slot_Hardware

fun get_slot :: "evidence_slot \<Rightarrow> subject_state \<Rightarrow> evidence_state" where
  "get_slot Slot_Reported ss = ss_reported ss"
| "get_slot Slot_Assessment ss = ss_assessment ss"
| "get_slot Slot_Lifecycle ss = ss_lifecycle ss"
| "get_slot Slot_Execution ss = ss_execution ss"
| "get_slot Slot_Events ss = ss_events ss"
| "get_slot Slot_Metrics ss = ss_metrics ss"
| "get_slot Slot_Logging ss = ss_logging ss"
| "get_slot Slot_Remote ss = ss_remote ss"
| "get_slot Slot_Hardware ss = ss_hardware ss"

fun set_slot :: "evidence_slot \<Rightarrow> evidence_state \<Rightarrow> subject_state \<Rightarrow> subject_state" where
  "set_slot Slot_Reported e ss = ss\<lparr>ss_reported := e\<rparr>"
| "set_slot Slot_Assessment e ss = ss\<lparr>ss_assessment := e\<rparr>"
| "set_slot Slot_Lifecycle e ss = ss\<lparr>ss_lifecycle := e\<rparr>"
| "set_slot Slot_Execution e ss = ss\<lparr>ss_execution := e\<rparr>"
| "set_slot Slot_Events e ss = ss\<lparr>ss_events := e\<rparr>"
| "set_slot Slot_Metrics e ss = ss\<lparr>ss_metrics := e\<rparr>"
| "set_slot Slot_Logging e ss = ss\<lparr>ss_logging := e\<rparr>"
| "set_slot Slot_Remote e ss = ss\<lparr>ss_remote := e\<rparr>"
| "set_slot Slot_Hardware e ss = ss\<lparr>ss_hardware := e\<rparr>"

definition put_source :: "nat \<Rightarrow> evidence_slot \<Rightarrow> evidence_state \<Rightarrow> 'w health \<Rightarrow> 'w health" where
  "put_source i slot e s =
     s\<lparr>hs_subject_state := (hs_subject_state s)[i := set_slot slot e (hs_subject_state s ! i)]\<rparr>"

definition recompute :: "nat \<Rightarrow> tick \<Rightarrow> 'w health \<Rightarrow> 'w health" where
  "recompute i now s = recompute_system_locked now (recompute_subject_locked i now s)"

definition count_report :: "bool \<Rightarrow> subject_record \<Rightarrow> subject_record" where
  "count_report repeated rec =
     (let rec = rec\<lparr>sb_report_count := sb_report_count rec + 1\<rparr> in
      if repeated then rec\<lparr>sb_repeated_count := sb_repeated_count rec + 1\<rparr> else rec)"

definition report_locked ::
  "'w health_config \<Rightarrow> nat \<Rightarrow> assessment \<Rightarrow> evidence_quality \<Rightarrow> tick \<Rightarrow> 'w health \<Rightarrow>
   receipt \<times> 'w health" where
  "report_locked cfg i a quality now s =
     (let source = ss_reported (hs_subject_state s ! i);
          repeated = (es_present source \<and> es_assessment source = a);
          s = put_source i Slot_Reported
                \<lparr>es_assessment = a, es_quality = quality, es_availability = Avl_Available,
                 es_observed_at = now, es_stale_after = default_stale_ticks cfg,
                 es_source_kind = Src_SelfReport, es_source_id = 0, es_required = True,
                 es_present = True\<rparr> s;
          transitions = sb_transition_count (hs_subjects s ! i);
          s = s\<lparr>hs_subjects := (hs_subjects s)[i := count_report repeated (hs_subjects s ! i)]\<rparr>;
          s = recompute i now s;
          rec = hs_subjects s ! i in
      (\<lparr>rc_subject = of_nat i, rc_generation = sb_assessment_generation rec,
        rc_transitioned = (transitions \<noteq> sb_transition_count rec), rc_repeated = repeated\<rparr>, s))"

definition report ::
  "'w health_config \<Rightarrow> nat \<Rightarrow> assessment \<Rightarrow> evidence_quality \<Rightarrow> 'w health \<Rightarrow>
   (health_error + receipt) \<times> 'w health" where
  "report cfg i a quality s =
     (case now_ticks cfg s of (now, s) \<Rightarrow>
      case with_storage cfg (report_locked cfg i a quality now) HOp_Report s of
        (Inl e, s) \<Rightarrow> (Inl e, s)
      | (Inr r, s) \<Rightarrow> (Inr r, wake_supervisor s))"

definition progress ::
  "'w health_config \<Rightarrow> nat \<Rightarrow> 'w health \<Rightarrow> (health_error + progress_receipt) \<times> 'w health" where
  "progress cfg i s =
     (case now_ticks cfg s of (now, s) \<Rightarrow>
      let generation = ps_generation (hs_progress s ! i) + 1 in
      (Inr \<lparr>pr_subject = of_nat i, pr_generation = generation, pr_observed_at = now\<rparr>,
       s\<lparr>hs_progress := (hs_progress s)[i := \<lparr>ps_generation = generation, ps_observed_at = now\<rparr>]\<rparr>))"

fun adapter_slot :: "source_kind \<Rightarrow> evidence_slot" where
  "adapter_slot Src_Metrics = Slot_Metrics"
| "adapter_slot Src_Logging = Slot_Logging"
| "adapter_slot Src_Remote = Slot_Remote"
| "adapter_slot Src_Hardware = Slot_Hardware"
| "adapter_slot _ = Slot_Events"

definition commit_adapter ::
  "'w health_config \<Rightarrow> nat \<Rightarrow> assessment \<Rightarrow> source_kind \<Rightarrow> u32 \<Rightarrow> 'w health \<Rightarrow>
   (health_error + unit) \<times> 'w health" where
  "commit_adapter cfg i a kind source_id s =
     (case now_ticks cfg s of (now, s) \<Rightarrow>
      with_storage cfg (\<lambda>s. ((), recompute i now (put_source i (adapter_slot kind)
          \<lparr>es_assessment = a, es_quality = Ev_Direct, es_availability = Avl_Available,
           es_observed_at = now, es_stale_after = default_stale_ticks cfg,
           es_source_kind = kind, es_source_id = source_id, es_required = True,
           es_present = True\<rparr> s))) HOp_Report s)"

text \<open>
  \<^verbatim>\<open>MessageQueue::try_send_isr\<close> and \<^verbatim>\<open>try_receive\<close> without waiting, on the ingress queue: a bounded FIFO.
\<close>

definition try_send_isr :: "'w health_config \<Rightarrow> isr_report \<Rightarrow> 'w health \<Rightarrow> 'w health option" where
  "try_send_isr cfg r s =
     (if length (hs_ingress s) < hc_isr_ingress_depth cfg
      then Some (s\<lparr>hs_ingress := hs_ingress s @ [r]\<rparr>) else None)"

definition try_receive :: "'w health \<Rightarrow> (isr_report \<times> 'w health) option" where
  "try_receive s =
     (case hs_ingress s of [] \<Rightarrow> None | r # rs \<Rightarrow> Some (r, s\<lparr>hs_ingress := rs\<rparr>))"

definition report_isr ::
  "'w health_config \<Rightarrow> nat \<Rightarrow> compact_observation \<Rightarrow> 'w health \<Rightarrow> (health_error + unit) \<times> 'w health" where
  "report_isr cfg i obs s =
     (case now_ticks cfg s of (now, s) \<Rightarrow>
      case try_send_isr cfg \<lparr>ir_subject = of_nat i, ir_observation = obs, ir_observed_at = now\<rparr> s of
        None \<Rightarrow> (Inl (make_error St_NoSpace HR_IngressFull HOp_ReportIsr (of_nat i) invalid_value 0 0),
                 s\<lparr>hs_isr_dropped := hs_isr_dropped s + 1\<rparr>)
      | Some s \<Rightarrow> (Inr (), wake_supervisor (s\<lparr>hs_isr_admitted := hs_isr_admitted s + 1\<rparr>)))"

definition record_observation :: "observation \<Rightarrow> monitor_record \<Rightarrow> monitor_record" where
  "record_observation obs rec =
     (let prior = as_condition (ob_assessment (mr_observation rec));
          rec = rec\<lparr>mr_observation := obs, mr_observations := mr_observations rec + 1,
                    mr_has_observation := True\<rparr>;
          rec = (if ob_availability obs \<noteq> Avl_Available
                 then rec\<lparr>mr_failures := mr_failures rec + 1\<rparr> else rec) in
      if ob_explicit_recovery obs \<and> prior \<noteq> Cond_Nominal \<and>
         as_condition (ob_assessment obs) = Cond_Nominal
      then rec\<lparr>mr_recoveries := mr_recoveries rec + 1\<rparr> else rec)"

definition commit_monitor ::
  "'w health_config \<Rightarrow> nat \<Rightarrow> observation \<Rightarrow> 'w health \<Rightarrow> (health_error + unit) \<times> 'w health" where
  "commit_monitor cfg k obs s =
     (let mon = hc_monitors cfg ! k;
          (obs, s) = (if ob_observed_at obs = 0
                      then (case now_ticks cfg s of (now, s) \<Rightarrow> (obs\<lparr>ob_observed_at := now\<rparr>, s))
                      else (obs, s));
          obs = (if ob_stale_after obs = 0
                 then obs\<lparr>ob_stale_after := stale_ticks cfg (cd_stale_after_ns (hn_descriptor mon))\<rparr>
                 else obs);
          obs = obs\<lparr>ob_required := cd_required (hn_descriptor mon)\<rparr> in
      with_storage cfg (\<lambda>s. ((),
          recompute (local_id_index (hn_owner mon)) (ob_observed_at obs)
            (s\<lparr>hs_monitors := (hs_monitors s)[k := record_observation obs (hs_monitors s ! k)]\<rparr>)))
        HOp_Check s)"

section \<open>Frame facts\<close>

lemma now_ticks_eq:
  "now_ticks cfg s = (fst (hc_now_ticks cfg (hs_world s)),
                      s\<lparr>hs_world := snd (hc_now_ticks cfg (hs_world s))\<rparr>)"
  by (simp add: now_ticks_def split: prod.splits)

lemma append_history_ingress: "hs_ingress (append_history rec prev ev s) = hs_ingress s"
  by (simp add: append_history_def Let_def)

lemma recompute_subject_ingress: "hs_ingress (recompute_subject_locked i now s) = hs_ingress s"
  by (simp add: recompute_subject_locked_def append_history_ingress Let_def split: prod.splits)

lemma recompute_ingress: "hs_ingress (recompute i now s) = hs_ingress s"
  by (simp add: recompute_def recompute_system_locked_def recompute_subject_ingress Let_def)

lemma with_storage_keeps:
  assumes "\<And>s. f (snd (body s)) = f s" and "\<And>s w. f (s\<lparr>hs_world := w\<rparr>) = f s"
  shows "f (snd (with_storage cfg body op s)) = f s"
  using assms by (simp add: with_storage_def Let_def split: prod.splits option.splits) (metis snd_conv)

lemma wake_supervisor_ingress [simp]: "hs_ingress (wake_supervisor s) = hs_ingress s"
  by (simp add: wake_supervisor_def split: option.splits)

lemma report_locked_ingress: "hs_ingress (snd (report_locked cfg i a q now s)) = hs_ingress s"
  by (simp add: report_locked_def recompute_ingress put_source_def Let_def)

lemma report_ingress: "hs_ingress (snd (report cfg i a q s)) = hs_ingress s"
proof -
  obtain now s1 where n: "now_ticks cfg s = (now, s1)" by fastforce
  then have "hs_ingress s1 = hs_ingress s" by (auto simp: now_ticks_eq)
  moreover have "hs_ingress (snd (with_storage cfg (report_locked cfg i a q now) HOp_Report s1))
      = hs_ingress s1"
    by (rule with_storage_keeps) (simp_all add: report_locked_ingress)
  ultimately show ?thesis
    using n by (auto simp: report_def split: prod.splits sum.splits)
qed

section \<open>Draining the interrupt reports\<close>

definition isr_assessment :: "'w health_config \<Rightarrow> isr_report \<Rightarrow> assessment" where
  "isr_assessment cfg r =
     (let compact = ir_observation r;
          a = default_assessment\<lparr>as_condition := co_condition compact,
                as_liveness := co_liveness compact, as_readiness := co_readiness compact,
                as_safety := co_safety compact, as_freshness := Fresh_Current,
                as_detail := co_detail compact, as_recovering := co_recovering compact\<rparr> in
      if co_status compact \<noteq> St_Ok
      then a\<lparr>as_last_error := Some (make_error (co_status compact) HR_SourceFailed HOp_ReportIsr
               (ir_subject r) invalid_value (to_native_errno (hc_errno cfg) (co_status compact))
               (co_detail compact))\<rparr>
      else a)"

definition deliver_isr_report :: "'w health_config \<Rightarrow> isr_report \<Rightarrow> 'w health \<Rightarrow> 'w health" where
  "deliver_isr_report cfg r s =
     snd (fold (\<lambda>i (matched, s).
            if \<not> matched \<and> of_nat i = ir_subject r
            then (True, snd (report cfg i (isr_assessment cfg r) Ev_Reported s))
            else (matched, s)) [0..<length (hc_components cfg)] (False, s))"

lemma deliver_isr_report_ingress: "hs_ingress (deliver_isr_report cfg r s) = hs_ingress s"
proof -
  have "hs_ingress (snd (fold (\<lambda>i (matched, s).
            if \<not> matched \<and> of_nat i = ir_subject r
            then (True, snd (report cfg i (isr_assessment cfg r) Ev_Reported s))
            else (matched, s)) xs (b, s))) = hs_ingress s" for xs b
    by (induction xs arbitrary: b s) (simp_all add: report_ingress)
  then show ?thesis by (simp add: deliver_isr_report_def)
qed

function drain_isr :: "'w health_config \<Rightarrow> nat \<Rightarrow> 'w health \<Rightarrow> nat \<times> 'w health" where
  "drain_isr cfg drained s =
     (case try_receive s of
        None \<Rightarrow> (drained, s)
      | Some (r, s) \<Rightarrow> drain_isr cfg (drained + 1) (deliver_isr_report cfg r s))"
  by pat_completeness auto
termination
  by (relation "measure (\<lambda>(cfg, n, s). length (hs_ingress s))")
     (auto simp: try_receive_def deliver_isr_report_ingress split: list.splits)

declare drain_isr.simps [simp del]

section \<open>Queries\<close>

definition subject_record_of ::
  "'w health_config \<Rightarrow> nat \<Rightarrow> 'w health \<Rightarrow> (health_error + subject_record) \<times> 'w health" where
  "subject_record_of cfg i s = with_storage cfg (\<lambda>s. (hs_subjects s ! i, s)) HOp_Query s"

text \<open>\<^verbatim>\<open>subject_records\<close> and \<^verbatim>\<open>monitor_records\<close> ignore a failed lock and return what they had: defaults.\<close>

definition default_subject_record :: subject_record where
  "default_subject_record = (initial_subject 0)\<lparr>sb_subject := invalid_value\<rparr>"

definition default_monitor_record :: monitor_record where
  "default_monitor_record =
     \<lparr>mr_descriptor = \<lparr>cd_kind = Mon_Check, cd_period_ns = 0, cd_stale_after_ns = 0,
        cd_stack_margin_bytes = 0, cd_required = False\<rparr>,
      mr_monitor = invalid_value, mr_subject = invalid_value, mr_observation = default_observation,
      mr_observations = 0, mr_failures = 0, mr_recoveries = 0, mr_stale_transitions = 0,
      mr_has_observation = False, mr_stale = False\<rparr>"

definition subject_records ::
  "'w health_config \<Rightarrow> 'w health \<Rightarrow> subject_record list \<times> 'w health" where
  "subject_records cfg s =
     (case with_storage cfg (\<lambda>s. (hs_subjects s, s)) HOp_Query s of
        (Inl _, s) \<Rightarrow> (replicate (length (hc_components cfg)) default_subject_record, s)
      | (Inr copy, s) \<Rightarrow> (copy, s))"

definition monitor_records ::
  "'w health_config \<Rightarrow> nat \<Rightarrow> 'w health \<Rightarrow> monitor_record list \<times> 'w health" where
  "monitor_records cfg i s =
     (case with_storage cfg (\<lambda>s. (filter (\<lambda>m. mr_subject m = of_nat i) (hs_monitors s), s))
             HOp_Query s of
        (Inl _, s) \<Rightarrow>
          (replicate (length (filter (\<lambda>m. hn_owner m = of_nat i) (hc_monitors cfg)))
             default_monitor_record, s)
      | (Inr copy, s) \<Rightarrow> (copy, s))"

definition system_record_of ::
  "'w health_config \<Rightarrow> 'w health \<Rightarrow> (health_error + system_record) \<times> 'w health" where
  "system_record_of cfg s = with_storage cfg (\<lambda>s. (hs_system s, s)) HOp_Query s"

definition history_loop ::
  "transition_record list \<Rightarrow> u64 \<Rightarrow> u64 \<Rightarrow> nat \<Rightarrow> transition_record list \<Rightarrow>
   u64 \<times> nat \<times> transition_record list" where
  "history_loop = ring_read (\<lambda>entry sequence. tr_sequence entry = sequence)"

definition read_history_locked ::
  "u64 \<Rightarrow> transition_record list \<Rightarrow> 'w health \<Rightarrow> history_page \<times> transition_record list" where
  "read_history_locked cursor destination s =
     (let newest = hs_next_history_sequence s;
          depth = (of_nat (length (hs_history s)) :: u64);
          oldest = (if newest > depth then newest - depth else 1);
          sequence = (if cursor = 0 then oldest else cursor);
          sequence = (if sequence < oldest then oldest else sequence);
          (sequence, written, destination) =
            history_loop (hs_history s) newest sequence 0 destination in
      (\<lparr>hp_next = sequence, hp_written = written, hp_available = unat (newest - oldest),
        hp_overwritten = hs_history_overwritten s\<rparr>, destination))"

definition read_history ::
  "'w health_config \<Rightarrow> u64 \<Rightarrow> transition_record list \<Rightarrow> 'w health \<Rightarrow>
   (health_error + history_page \<times> transition_record list) \<times> 'w health" where
  "read_history cfg cursor destination s =
     with_storage cfg (\<lambda>s. (read_history_locked cursor destination s, s)) HOp_HistoryRead s"

end
