(* ===== verification/Health_Runtime.thy ===== *)
theory Health_Runtime
  imports Health_Facility
begin

text \<open>
  \<^verbatim>\<open>health/runtime.hpp\<close>, the refresh cycle that gathers evidence from the lifecycle engine, the execution
  records, the component contracts, the monitors and the remote service; the assessments of
  \<^verbatim>\<open>health/api.hpp\<close> and the adapters of \<^verbatim>\<open>health/adapters.hpp\<close>.
\<close>

section \<open>Sources\<close>

definition stamp_error :: "health_operation \<Rightarrow> local_id \<Rightarrow> assessment \<Rightarrow> assessment" where
  "stamp_error op subject a =
     (case as_last_error a of
        None \<Rightarrow> a
      | Some e \<Rightarrow> a\<lparr>as_last_error := Some (e\<lparr>he_operation := op, he_subject := subject\<rparr>)\<rparr>)"

definition commit_source ::
  "'w health_config \<Rightarrow> nat \<Rightarrow> evidence_slot \<Rightarrow> assessment \<Rightarrow> evidence_quality \<Rightarrow>
   source_availability \<Rightarrow> bool \<Rightarrow> health_operation \<Rightarrow> source_kind \<Rightarrow> 'w health \<Rightarrow> 'w health" where
  "commit_source cfg i slot a quality availability required op kind s =
     (case now_ticks cfg s of (observed_at, s) \<Rightarrow>
      snd (with_storage cfg (\<lambda>s. ((), recompute i observed_at (put_source i slot
          \<lparr>es_assessment = stamp_error op (of_nat i) a, es_quality = quality,
           es_availability = availability, es_observed_at = observed_at,
           es_stale_after = default_stale_ticks cfg, es_source_kind = kind, es_source_id = 0,
           es_required = required, es_present = True\<rparr> s))) op s))"

definition err_fields :: "solar_error \<Rightarrow> source_error" where
  "err_fields e = Err_Fields (err_status e) (Some (err_native e))"

fun lifecycle_assessment :: "errno_env \<Rightarrow> component_state \<Rightarrow> status \<Rightarrow> assessment" where
  "lifecycle_assessment env Comp_Running st =
     default_assessment\<lparr>as_condition := Cond_Nominal, as_readiness := Rdy_Ready\<rparr>"
| "lifecycle_assessment env Comp_Failed st =
     default_assessment\<lparr>as_condition := Cond_Faulted, as_readiness := Rdy_NotReady,
       as_safety := Safe_AtRisk,
       as_last_error := Some (normalize_error env (Err_Status st) HOp_Refresh invalid_value invalid_value)\<rparr>"
| "lifecycle_assessment env Comp_Stopping st =
     default_assessment\<lparr>as_condition := Cond_Nominal, as_readiness := Rdy_NotReady\<rparr>"
| "lifecycle_assessment env Comp_Stopped st =
     default_assessment\<lparr>as_condition := Cond_Nominal, as_readiness := Rdy_NotReady\<rparr>"
| "lifecycle_assessment env Comp_Deinitializing st =
     default_assessment\<lparr>as_condition := Cond_Nominal, as_readiness := Rdy_NotReady\<rparr>"
| "lifecycle_assessment env Comp_Deinitialized st =
     default_assessment\<lparr>as_condition := Cond_Nominal, as_readiness := Rdy_NotReady\<rparr>"
| "lifecycle_assessment env _ st =
     default_assessment\<lparr>as_condition := Cond_Unknown, as_readiness := Rdy_NotReady\<rparr>"

definition refresh_lifecycle :: "'w health_config \<Rightarrow> nat \<Rightarrow> 'w health \<Rightarrow> 'w health" where
  "refresh_lifecycle cfg i s =
     (case hm_lifecycle (hc_components cfg ! i) (hs_world s) of
        Inl e \<Rightarrow>
          commit_source cfg i Slot_Lifecycle
            (default_assessment\<lparr>as_last_error :=
               Some (normalize_error (hc_errno cfg) (err_fields e) HOp_Refresh invalid_value invalid_value)\<rparr>)
            Ev_Direct Avl_Unavailable True HOp_Refresh Src_Lifecycle s
      | Inr rec \<Rightarrow>
          commit_source cfg i Slot_Lifecycle
            (lifecycle_assessment (hc_errno cfg) (cr_state rec) (cr_last_status rec))
            Ev_Direct Avl_Available True HOp_Refresh Src_Lifecycle s)"

definition service_assessment :: "errno_env \<Rightarrow> service_record \<Rightarrow> assessment" where
  "service_assessment env source =
     (if sv_timed_out source \<or> sv_containment source = Ctn_Uncontained \<or>
         (sv_exited source \<and> \<not> sv_exited_after_stop source)
      then default_assessment\<lparr>as_condition := Cond_Faulted, as_liveness := Live_Exited,
             as_readiness := Rdy_NotReady,
             as_last_error := Some (normalize_error env
               (Err_Status (if sv_run_status source = St_Ok then St_UnexpectedExit
                            else sv_run_status source)) HOp_Refresh invalid_value invalid_value)\<rparr>
      else if sv_running source
      then default_assessment\<lparr>as_condition := Cond_Nominal, as_liveness := Live_Live,
             as_readiness := Rdy_Ready\<rparr>
      else if sv_exited_after_stop source
      then default_assessment\<lparr>as_condition := Cond_Nominal, as_liveness := Live_Exited,
             as_readiness := Rdy_NotReady\<rparr>
      else default_assessment)"

definition executor_assessment :: "errno_env \<Rightarrow> executor_record \<Rightarrow> assessment" where
  "executor_assessment env source =
     (if ex_timed_out source \<or> ex_unexpected_exit source \<or> ex_containment source = Ctn_Uncontained
      then default_assessment\<lparr>as_condition := Cond_Faulted,
             as_liveness := (if ex_unexpected_exit source then Live_Exited else Live_Stalled),
             as_readiness := Rdy_NotReady,
             as_last_error := Some (normalize_error env
               (Err_Status (if ex_last_status source = St_Ok then St_UnexpectedExit
                            else ex_last_status source)) HOp_Refresh invalid_value invalid_value)\<rparr>
      else if ex_started source \<and> \<not> ex_stopped source
      then default_assessment\<lparr>as_condition := Cond_Nominal, as_liveness := Live_Live,
             as_readiness := (if ex_accepting source then Rdy_Ready else Rdy_NotReady)\<rparr>
      else if ex_stopped source
      then default_assessment\<lparr>as_condition := Cond_Nominal, as_liveness := Live_Exited,
             as_readiness := Rdy_NotReady\<rparr>
      else default_assessment)"

definition refresh_execution :: "'w health_config \<Rightarrow> nat \<Rightarrow> 'w health \<Rightarrow> 'w health" where
  "refresh_execution cfg i s =
     (case hm_category (hc_components cfg ! i) of
        Observe_None \<Rightarrow> s
      | Observe_Service copy \<Rightarrow>
          commit_source cfg i Slot_Execution (service_assessment (hc_errno cfg) (copy (hs_world s)))
            Ev_Direct Avl_Available True HOp_Refresh Src_Execution s
      | Observe_Executor copy \<Rightarrow>
          commit_source cfg i Slot_Execution (executor_assessment (hc_errno cfg) (copy (hs_world s)))
            Ev_Direct Avl_Available True HOp_Refresh Src_Execution s)"

definition assess_link :: "u16 \<times> link_record \<Rightarrow> assessment \<Rightarrow> assessment" where
  "assess_link entry a =
     (case entry of (index, link) \<Rightarrow>
        let dropped = sum_list (map ln_dropped (lk_lanes link)) in
        if lk_session link = Ses_Faulted
        then a\<lparr>as_condition := Cond_Faulted, as_readiness := Rdy_NotReady, as_detail := ucast index\<rparr>
        else if as_condition a \<noteq> Cond_Faulted \<and>
                (lk_protocol_errors link > 0 \<or> lk_rejected_frames link > 0 \<or> dropped > 0)
        then a\<lparr>as_condition := Cond_Degraded,
               as_detail := lk_protocol_errors link + lk_rejected_frames link + dropped\<rparr>
        else a)"

definition remote_assessment :: "remote_service_record \<Rightarrow> (u16 \<times> link_record) list \<Rightarrow> assessment" where
  "remote_assessment service links =
     (let a = default_assessment\<lparr>
                as_condition := (if rs_ready service then Cond_Nominal else Cond_Unknown),
                as_readiness := (if rs_accepting service then Rdy_Ready else Rdy_NotReady)\<rparr>;
          a = (if rs_dropped_events service > 0
               then a\<lparr>as_condition := Cond_Degraded, as_detail := rs_dropped_events service\<rparr> else a) in
      fold assess_link links a)"

definition refresh_remote :: "'w health_config \<Rightarrow> 'w health \<Rightarrow> 'w health" where
  "refresh_remote cfg s =
     (case hc_remote cfg of
        None \<Rightarrow> s
      | Some r \<Rightarrow>
          commit_source cfg (hr_component r) Slot_Remote
            (remote_assessment (hr_record r (hs_world s)) (hr_links r (hs_world s)))
            Ev_Direct Avl_Available True HOp_Refresh Src_Remote s)"

section \<open>Component contracts\<close>

definition assess_component ::
  "'w health_config \<Rightarrow> nat \<Rightarrow> 'w health \<Rightarrow> (health_error + receipt) \<times> 'w health" where
  "assess_component cfg i s =
     (case hm_contract (hc_components cfg ! i) of
        No_Assess \<Rightarrow>
          (Inl (make_error St_NotSupported HR_Unsupported HOp_Assess (of_nat i) invalid_value 0 0), s)
      | Assess assess _ \<Rightarrow>
          (case assess (hs_world s) of
             (Inl err, w) \<Rightarrow>
               let e = normalize_error (hc_errno cfg) err HOp_Assess (of_nat i) invalid_value in
               (Inl e, commit_source cfg i Slot_Assessment (default_assessment\<lparr>as_last_error := Some e\<rparr>)
                         Ev_Reported Avl_Unavailable True HOp_Assess Src_ComponentAssessment
                         (s\<lparr>hs_world := w\<rparr>))
           | (Inr a, w) \<Rightarrow>
               (case subject_record_of cfg i (s\<lparr>hs_world := w\<rparr>) of (prior, s) \<Rightarrow>
                let s = commit_source cfg i Slot_Assessment a Ev_Reported Avl_Available True
                          HOp_Assess Src_ComponentAssessment s in
                case subject_record_of cfg i s of
                  (Inl e, s) \<Rightarrow> (Inl e, s)
                | (Inr after, s) \<Rightarrow>
                    (Inr \<lparr>rc_subject = of_nat i, rc_generation = sb_assessment_generation after,
                          rc_transitioned = (case prior of Inl _ \<Rightarrow> False
                            | Inr rec \<Rightarrow> sb_transition_count rec \<noteq> sb_transition_count after),
                          rc_repeated = False\<rparr>, s))))"

definition refresh_assessment :: "'w health_config \<Rightarrow> nat \<Rightarrow> tick \<Rightarrow> 'w health \<Rightarrow> 'w health" where
  "refresh_assessment cfg i now s =
     (case hm_contract (hc_components cfg ! i) of
        No_Assess \<Rightarrow> s
      | Assess _ period_ns \<Rightarrow>
          let period = (case period_ns of None \<Rightarrow> 0 | Some ns \<Rightarrow> to_ticks_ceil cfg ns) in
          (case with_storage cfg (\<lambda>s. (es_observed_at (ss_assessment (hs_subject_state s ! i)), s))
                  HOp_Query s of (r, s) \<Rightarrow>
           let last = (case r of Inl _ \<Rightarrow> 0 | Inr t \<Rightarrow> t) in
           if period = 0 \<or> last = 0 \<or> now - last \<ge> period
           then snd (assess_component cfg i s) else s))"

section \<open>Monitors\<close>

definition run_check ::
  "'w health_config \<Rightarrow> nat \<Rightarrow> 'w health \<Rightarrow> (health_error + unit) \<times> 'w health" where
  "run_check cfg k s =
     (case hn_check (hc_monitors cfg ! k) (hs_world s) of
        (Inl err, w) \<Rightarrow>
          let e = normalize_error (hc_errno cfg) err HOp_Check (hn_owner (hc_monitors cfg ! k)) (of_nat k);
              unavailable = default_observation\<lparr>
                ob_assessment := default_assessment\<lparr>as_last_error := Some e\<rparr>,
                ob_quality := Ev_Direct, ob_availability := Avl_Unavailable,
                ob_required := local_id_valid (of_nat k)\<rparr> in
          (Inl e, snd (commit_monitor cfg k unavailable (s\<lparr>hs_world := w\<rparr>)))
      | (Inr obs, w) \<Rightarrow> commit_monitor cfg k obs (s\<lparr>hs_world := w\<rparr>))"

definition progress_assessment ::
  "tick \<Rightarrow> tick \<Rightarrow> tick \<Rightarrow> progress_state \<Rightarrow> tick \<Rightarrow> assessment" where
  "progress_assessment period grace first_refresh cell now =
     (if ps_generation cell = 0
      then (if first_refresh > 0 \<and> now - first_refresh > period + grace
            then default_assessment\<lparr>as_condition := Cond_Faulted, as_liveness := Live_Stalled\<rparr>
            else default_assessment)
      else if now - ps_observed_at cell > period * 2
      then default_assessment\<lparr>as_condition := Cond_Faulted, as_liveness := Live_Stalled\<rparr>
      else if now - ps_observed_at cell > period
      then default_assessment\<lparr>as_condition := Cond_Degraded, as_liveness := Live_Late\<rparr>
      else default_assessment\<lparr>as_condition := Cond_Nominal, as_liveness := Live_Live\<rparr>)"

definition refresh_progress :: "'w health_config \<Rightarrow> nat \<Rightarrow> tick \<Rightarrow> 'w health \<Rightarrow> 'w health" where
  "refresh_progress cfg k now s =
     (let mon = hc_monitors cfg ! k;
          period = to_ticks_ceil cfg (cd_period_ns (hn_descriptor mon));
          cell = hs_progress s ! local_id_index (hn_owner mon);
          grace = ms_to_ticks_ceil cfg (hc_progress_grace_ms cfg) in
      snd (commit_monitor cfg k
        \<lparr>ob_assessment = progress_assessment period grace (hs_first_refresh s) cell now,
         ob_quality = Ev_Inferred, ob_availability = Avl_Available, ob_observed_at = now,
         ob_stale_after = period * 2, ob_required = True, ob_explicit_recovery = False\<rparr> s))"

definition stack_observation ::
  "'w health_config \<Rightarrow> nat \<Rightarrow> nat option \<Rightarrow> nat \<Rightarrow> tick \<Rightarrow> 'w \<Rightarrow> observation" where
  "stack_observation cfg margin thread stack_bytes now w =
     (let obs = default_observation\<lparr>ob_quality := Ev_Direct, ob_observed_at := now, ob_required := False\<rparr> in
      case thread of
        None \<Rightarrow> obs\<lparr>ob_availability := Avl_Unavailable,
                    ob_assessment := default_assessment\<lparr>as_freshness := Fresh_Unknown\<rparr>\<rparr>
      | Some t \<Rightarrow>
          (case hc_stack_usage cfg t stack_bytes w of
             Inr unused \<Rightarrow>
               obs\<lparr>ob_availability := Avl_Available,
                   ob_assessment := default_assessment\<lparr>as_freshness := Fresh_Current,
                     as_detail := of_nat unused,
                     as_condition := (if unused < margin then Cond_Degraded else Cond_Nominal),
                     as_safety := (if unused < margin then Safe_AtRisk else Safe_Acceptable)\<rparr>\<rparr>
           | Inl e \<Rightarrow>
               obs\<lparr>ob_availability := (if err_status e = St_NotSupported then Avl_Unsupported
                                        else Avl_Unavailable),
                   ob_assessment := default_assessment\<lparr>as_last_error :=
                     Some (normalize_error (hc_errno cfg) (err_fields e) HOp_Check
                             invalid_value invalid_value)\<rparr>\<rparr>))"

definition refresh_stack :: "'w health_config \<Rightarrow> nat \<Rightarrow> tick \<Rightarrow> 'w health \<Rightarrow> 'w health" where
  "refresh_stack cfg k now s =
     (let mon = hc_monitors cfg ! k;
          margin = cd_stack_margin_bytes (hn_descriptor mon);
          (thread, stack_bytes) =
            (case hm_category (hc_components cfg ! local_id_index (hn_owner mon)) of
               Observe_None \<Rightarrow> (None, 0)
             | Observe_Service copy \<Rightarrow>
                 (sv_thread (copy (hs_world s)), sv_stack_bytes (copy (hs_world s)))
             | Observe_Executor copy \<Rightarrow>
                 (ex_thread (copy (hs_world s)), ex_stack_bytes (copy (hs_world s)))) in
      snd (commit_monitor cfg k (stack_observation cfg margin thread stack_bytes now (hs_world s)) s))"

definition refresh_monitor :: "'w health_config \<Rightarrow> nat \<Rightarrow> tick \<Rightarrow> 'w health \<Rightarrow> 'w health" where
  "refresh_monitor cfg k now s =
     (let descriptor = hn_descriptor (hc_monitors cfg ! k) in
      case with_storage cfg (\<lambda>s. (hs_monitors s ! k, s)) HOp_Query s of (r, s) \<Rightarrow>
      let current = (case r of Inl _ \<Rightarrow> default_monitor_record | Inr m \<Rightarrow> m);
          period = (if cd_period_ns descriptor > 0
                    then to_ticks_ceil cfg (cd_period_ns descriptor) else 0) in
      if mr_has_observation current \<and> period > 0 \<and>
         now - ob_observed_at (mr_observation current) < period
      then s
      else case cd_kind descriptor of
             Mon_Progress \<Rightarrow> refresh_progress cfg k now s
           | Mon_StackMargin \<Rightarrow> refresh_stack cfg k now s
           | Mon_Execution \<Rightarrow>
               refresh_execution cfg (local_id_index (hn_owner (hc_monitors cfg ! k))) s
           | Mon_Signal \<Rightarrow> s
           | Mon_Check \<Rightarrow> snd (run_check cfg k s))"

section \<open>The refresh cycle\<close>

definition refresh_component :: "'w health_config \<Rightarrow> tick \<Rightarrow> nat \<Rightarrow> 'w health \<Rightarrow> 'w health" where
  "refresh_component cfg now i s =
     refresh_assessment cfg i now (refresh_execution cfg i (refresh_lifecycle cfg i s))"

definition recompute_all :: "tick \<Rightarrow> 'w health \<Rightarrow> 'w health" where
  "recompute_all now s =
     recompute_system_locked now
       (fold (\<lambda>i s. recompute_subject_locked i now s) [0..<length (hs_subjects s)] s)"

definition note_first_refresh :: "tick \<Rightarrow> 'w health \<Rightarrow> 'w health" where
  "note_first_refresh now s =
     (if hs_first_refresh s = 0 then s\<lparr>hs_first_refresh := now\<rparr> else s)"

definition refresh_sources :: "'w health_config \<Rightarrow> tick \<Rightarrow> 'w health \<Rightarrow> 'w health" where
  "refresh_sources cfg now s =
     (let s = fold (refresh_component cfg now) [0..<length (hc_components cfg)] s;
          s = fold (\<lambda>k. refresh_monitor cfg k now) [0..<length (hc_monitors cfg)] s in
      refresh_remote cfg s)"

definition refresh :: "'w health_config \<Rightarrow> 'w health \<Rightarrow> (health_error + unit) \<times> 'w health" where
  "refresh cfg s =
     (let s = snd (drain_isr cfg 0 s) in
      case now_ticks cfg s of (now, s) \<Rightarrow>
      case with_storage cfg (\<lambda>s. ((), note_first_refresh now s)) HOp_Refresh s of
        (Inl e, s) \<Rightarrow> (Inl e, s)
      | (Inr _, s) \<Rightarrow>
          with_storage cfg (\<lambda>s. ((), recompute_all now s)) HOp_Refresh (refresh_sources cfg now s))"

section \<open>Assessments and adapters\<close>

definition nominal :: assessment where
  "nominal =
     default_assessment\<lparr>as_condition := Cond_Nominal, as_readiness := Rdy_Ready,
       as_safety := Safe_Acceptable\<rparr>"

definition degraded :: "health_error option \<Rightarrow> assessment" where
  "degraded err = default_assessment\<lparr>as_condition := Cond_Degraded, as_last_error := err\<rparr>"

definition faulted :: "health_error option \<Rightarrow> safety \<Rightarrow> assessment" where
  "faulted err safety =
     default_assessment\<lparr>as_condition := Cond_Faulted, as_readiness := Rdy_NotReady,
       as_safety := safety, as_last_error := err\<rparr>"

definition recovering :: "health_error \<Rightarrow> assessment" where
  "recovering err =
     default_assessment\<lparr>as_condition := Cond_Degraded, as_readiness := Rdy_NotReady,
       as_safety := Safe_AtRisk, as_last_error := Some err, as_recovering := True\<rparr>"

text \<open>The fields of the event, metric and log records that the adapters read.\<close>

record event_evidence =
  ee_event :: local_id
  ee_last_status :: status
  ee_ingress_rejected :: u64
  ee_known_lost :: u64
  ee_processor_failures :: u64
  ee_overflow_latched :: bool

record metric_evidence =
  me_metric :: local_id
  me_last_status :: status
  me_overflows :: u64
  me_saturations :: u64
  me_invalid_numeric :: u64
  me_initialized :: bool
  me_degraded :: bool

record log_evidence =
  le_dropped :: u64
  le_truncated :: u64
  le_sink_failures :: u64
  le_last_status :: status
  le_ready :: bool
  le_panic :: bool
  le_preceding_loss :: bool

definition report_error :: "errno_env \<Rightarrow> status \<Rightarrow> health_error" where
  "report_error env st = normalize_error env (Err_Status st) HOp_Report invalid_value invalid_value"

definition event_assessment :: "errno_env \<Rightarrow> event_evidence \<Rightarrow> assessment" where
  "event_assessment env r =
     (if ee_last_status r \<noteq> St_Ok \<and> ee_last_status r \<noteq> St_NotReady
      then faulted (Some (report_error env (ee_last_status r))) Safe_AtRisk
      else if ee_overflow_latched r \<or> ee_known_lost r > 0 \<or> ee_processor_failures r > 0 \<or>
              ee_ingress_rejected r > 0
      then (degraded None)\<lparr>as_detail := ucast (ee_known_lost r + ee_ingress_rejected r)\<rparr>
      else nominal)"

definition event_adapter ::
  "'w health_config \<Rightarrow> nat \<Rightarrow> event_evidence \<Rightarrow> 'w health \<Rightarrow> (health_error + unit) \<times> 'w health" where
  "event_adapter cfg i r s =
     commit_adapter cfg i (event_assessment (hc_errno cfg) r) Src_Events (ucast (ee_event r)) s"

definition metric_assessment :: "errno_env \<Rightarrow> metric_evidence \<Rightarrow> assessment" where
  "metric_assessment env r =
     (if me_last_status r \<noteq> St_Ok \<and> me_last_status r \<noteq> St_NotReady
      then faulted (Some (report_error env (me_last_status r))) Safe_AtRisk
      else if me_degraded r \<or> me_overflows r > 0 \<or> me_saturations r > 0 \<or> me_invalid_numeric r > 0
      then (degraded None)\<lparr>as_detail :=
             ucast (me_overflows r + me_saturations r + me_invalid_numeric r)\<rparr>
      else if me_initialized r then nominal else default_assessment)"

definition metric_adapter ::
  "'w health_config \<Rightarrow> nat \<Rightarrow> metric_evidence \<Rightarrow> 'w health \<Rightarrow> (health_error + unit) \<times> 'w health" where
  "metric_adapter cfg i r s =
     commit_adapter cfg i (metric_assessment (hc_errno cfg) r) Src_Metrics (ucast (me_metric r)) s"

definition log_assessment :: "errno_env \<Rightarrow> log_evidence \<Rightarrow> assessment" where
  "log_assessment env r =
     (if le_panic r \<or> (le_last_status r \<noteq> St_Ok \<and> le_last_status r \<noteq> St_NotReady)
      then faulted (Some (report_error env
             (if le_last_status r = St_Ok then St_Error else le_last_status r))) Safe_AtRisk
      else if le_dropped r > 0 \<or> le_truncated r > 0 \<or> le_sink_failures r > 0 \<or> le_preceding_loss r
      then (degraded None)\<lparr>as_detail := ucast (le_dropped r + le_sink_failures r)\<rparr>
      else if le_ready r then nominal else default_assessment)"

definition log_adapter ::
  "'w health_config \<Rightarrow> nat \<Rightarrow> log_evidence \<Rightarrow> 'w health \<Rightarrow> (health_error + unit) \<times> 'w health" where
  "log_adapter cfg i r s = commit_adapter cfg i (log_assessment (hc_errno cfg) r) Src_Logging 0 s"

definition hardware_adapter ::
  "'w health_config \<Rightarrow> nat \<Rightarrow> ('w \<Rightarrow> bool) \<Rightarrow> 'w health \<Rightarrow> (health_error + unit) \<times> 'w health" where
  "hardware_adapter cfg i ready s =
     commit_adapter cfg i
       (if ready (hs_world s) then nominal
        else faulted (Some (report_error (hc_errno cfg) St_NotReady)) Safe_AtRisk)
       Src_Hardware 0 s"

section \<open>Front ends\<close>

datatype frontend_failure = Front_NotReady | Front_Disabled | Front_NotRegistered

fun frontend_error :: "frontend_failure \<Rightarrow> health_operation \<Rightarrow> health_error" where
  "frontend_error Front_NotReady op =
     make_error St_NotReady HR_NotReady op invalid_value invalid_value 0 0"
| "frontend_error Front_Disabled op =
     make_error St_NotSupported HR_Disabled op invalid_value invalid_value 0 0"
| "frontend_error Front_NotRegistered op =
     make_error St_NotFound HR_NotRegistered op invalid_value invalid_value 0 0"

definition has_monitor_kind :: "'w health_config \<Rightarrow> nat \<Rightarrow> monitor_kind \<Rightarrow> bool" where
  "has_monitor_kind cfg i kind \<longleftrightarrow>
     (\<exists>m \<in> set (hc_monitors cfg). hn_owner m = of_nat i \<and> cd_kind (hn_descriptor m) = kind)"

definition progress_frontend ::
  "'w health_config \<Rightarrow> nat \<Rightarrow> 'w health \<Rightarrow> (health_error + progress_receipt) \<times> 'w health" where
  "progress_frontend cfg i s =
     (if \<not> has_monitor_kind cfg i Mon_Progress
      then (Inl (make_error St_NotFound HR_NotRegistered HOp_Progress (of_nat i) invalid_value 0 0), s)
      else progress cfg i s)"

end
