(* ===== verification/Supervisor_Service.thy ===== *)
theory Supervisor_Service
  imports Health_Runtime
begin

text \<open>
  The supervisor: \<^verbatim>\<open>supervisor/types.hpp\<close>, the rules and actions of \<^verbatim>\<open>supervisor/policy.hpp\<close>, the cycle
  and the service of \<^verbatim>\<open>supervisor/service.hpp\<close> and the queries of \<^verbatim>\<open>supervisor/api.hpp\<close>.

  The supervisor drives the health facility, so its operations act on its own storage and on the
  health storage, whose world also answers for the recovery hooks, safe states, stop requests and
  the watchdog provider. Acquisitions of the record mutex whose result the code ignores do not
  change the storage and are left out; the ones it tests are calls into the world. \<^verbatim>\<open>kernel::panic\<close>
  does not return: after it the rest of the cycle is not executed and the cycle has no result.
\<close>

section \<open>Data\<close>

datatype service_state = Sup_Stopped | Sup_Starting | Sup_Running | Sup_Stopping | Sup_Faulted

datatype cycle_phase =
    Ph_Idle | Ph_RefreshHealth | Ph_EvaluatePolicy | Ph_ExecuteResponses | Ph_EvaluateWatchdog
  | Ph_Complete

datatype trigger = Trg_Fault | Trg_Degraded | Trg_Stall | Trg_RecoveryFailure

datatype action_kind =
    Act_Observe | Act_Warn | Act_Latch | Act_TryRecover | Act_EnterSafeState | Act_RequestStop
  | Act_RequestSystemStop | Act_RequestReboot | Act_StopFeedingWatchdog | Act_Panic

datatype response_outcome =
    Out_Succeeded | Out_Failed | Out_Deferred | Out_Unsupported | Out_Requested | Out_Suppressed

datatype sup_operation =
    SOp_Start | SOp_Cycle | SOp_Response | SOp_Recover | SOp_SafeState | SOp_Stop | SOp_Watchdog
  | SOp_Query

datatype sup_reason =
    SR_Disabled | SR_NotReady | SR_Unsupported | SR_HealthRefreshFailed | SR_ResponseFailed
  | SR_RecoveryFailed | SR_SafeStateFailed | SR_WatchdogFailed | SR_BudgetExhausted
  | SR_InternalInvariant

record sup_error =
  ue_status :: status
  ue_reason :: sup_reason
  ue_operation :: sup_operation
  ue_subject :: local_id
  ue_detail :: u32

record state_record =
  ut_state :: service_state
  ut_last_phase :: cycle_phase
  ut_started_at :: tick
  ut_last_cycle_started :: tick
  ut_last_cycle_completed :: tick
  ut_last_cycle_duration :: tick
  ut_maximum_cycle_duration :: tick
  ut_cycle_generation :: u64
  ut_health_generation :: u64
  ut_cycles :: u32
  ut_overruns :: u32
  ut_refresh_failures :: u32
  ut_deferred_responses :: u32
  ut_cycle_complete :: bool
  ut_system_stop_requested :: bool
  ut_reboot_requested :: bool
  ut_panic_requested :: bool

definition default_state_record :: state_record where
  "default_state_record =
     \<lparr>ut_state = Sup_Stopped, ut_last_phase = Ph_Idle, ut_started_at = 0, ut_last_cycle_started = 0,
      ut_last_cycle_completed = 0, ut_last_cycle_duration = 0, ut_maximum_cycle_duration = 0,
      ut_cycle_generation = 0, ut_health_generation = 0, ut_cycles = 0, ut_overruns = 0,
      ut_refresh_failures = 0, ut_deferred_responses = 0, ut_cycle_complete = False,
      ut_system_stop_requested = False, ut_reboot_requested = False, ut_panic_requested = False\<rparr>"

record response_record =
  rr_sequence :: u64
  rr_subject :: local_id
  rr_trigger :: trigger
  rr_action :: action_kind
  rr_outcome :: response_outcome
  rr_status :: status
  rr_attempted_at :: tick
  rr_attempt :: u32
  rr_health_generation :: u64

definition default_response :: response_record where
  "default_response =
     \<lparr>rr_sequence = 0, rr_subject = invalid_value, rr_trigger = Trg_Fault, rr_action = Act_Observe,
      rr_outcome = Out_Succeeded, rr_status = St_Ok, rr_attempted_at = 0, rr_attempt = 0,
      rr_health_generation = 0\<rparr>"

record sup_subject =
  us_subject :: local_id
  us_last_trigger :: trigger
  us_last_action :: action_kind
  us_last_outcome :: response_outcome
  us_last_response_at :: tick
  us_attempts :: u32
  us_active :: bool
  us_latched :: bool

definition default_sup_subject :: sup_subject where
  "default_sup_subject =
     \<lparr>us_subject = invalid_value, us_last_trigger = Trg_Fault, us_last_action = Act_Observe,
      us_last_outcome = Out_Succeeded, us_last_response_at = 0, us_attempts = 0, us_active = False,
      us_latched = False\<rparr>"

record watchdog_record =
  wd_configured :: bool
  wd_enabled :: bool
  wd_feed_permitted :: bool
  wd_deliberately_withheld :: bool
  wd_last_feed_at :: tick
  wd_feeds :: u32
  wd_withheld :: u32
  wd_failures :: u32
  wd_last_status :: status

definition default_watchdog :: "bool \<Rightarrow> watchdog_record" where
  "default_watchdog configured =
     \<lparr>wd_configured = configured, wd_enabled = False, wd_feed_permitted = False,
      wd_deliberately_withheld = False, wd_last_feed_at = 0, wd_feeds = 0, wd_withheld = 0,
      wd_failures = 0, wd_last_status = St_Ok\<rparr>"

record response_page =
  rp_next :: u64
  rp_written :: nat
  rp_overwritten :: u64

text \<open>The actions and rules of a policy. Targets are component indices or names of safe states.\<close>

datatype response_action =
    Observe | Warn | Latch | TryRecover nat | EnterSafeState nat | RequestStop nat
  | RequestSystemStop | RequestReboot | StopFeedingWatchdog | Panic

fun action_kind_of :: "response_action \<Rightarrow> action_kind" where
  "action_kind_of Observe = Act_Observe"
| "action_kind_of Warn = Act_Warn"
| "action_kind_of Latch = Act_Latch"
| "action_kind_of (TryRecover c) = Act_TryRecover"
| "action_kind_of (EnterSafeState t) = Act_EnterSafeState"
| "action_kind_of (RequestStop c) = Act_RequestStop"
| "action_kind_of RequestSystemStop = Act_RequestSystemStop"
| "action_kind_of RequestReboot = Act_RequestReboot"
| "action_kind_of StopFeedingWatchdog = Act_StopFeedingWatchdog"
| "action_kind_of Panic = Act_Panic"

fun is_try_recover :: "response_action \<Rightarrow> bool" where
  "is_try_recover (TryRecover c) = True"
| "is_try_recover _ = False"

record response_rule =
  ru_subject :: nat
  ru_trigger :: trigger
  ru_responses :: "response_action list"

record rule_state =
  rl_next_attempt :: tick
  rl_attempts :: u32
  rl_active :: bool
  rl_latched :: bool

definition default_rule_state :: rule_state where
  "default_rule_state = \<lparr>rl_next_attempt = 0, rl_attempts = 0, rl_active = False, rl_latched = False\<rparr>"

record sup_storage =
  su_state :: state_record
  su_watchdog :: watchdog_record
  su_rules :: "rule_state list"
  su_history :: "response_record list"
  su_next_sequence :: u64
  su_overwritten :: u64
  su_stop_requested :: bool
  su_reboot_requested :: bool
  su_panic_requested :: bool
  su_subject_records :: "sup_subject list"

type_synonym void_result = "solar_error + unit"

record 'w watchdog_provider =
  wp_start :: "('w \<Rightarrow> void_result \<times> 'w) option"
  wp_stop :: "('w \<Rightarrow> void_result \<times> 'w) option"
  wp_feed :: "'w \<Rightarrow> void_result \<times> 'w"

record 'w sup_config =
  sc_health :: "'w health_config"
  sc_self :: nat
  sc_rules :: "response_rule list"
  sc_recover :: "nat \<Rightarrow> 'w \<Rightarrow> void_result \<times> 'w"
  sc_enter_safe_state :: "nat \<Rightarrow> 'w \<Rightarrow> void_result \<times> 'w"
  sc_request_stop :: "nat \<Rightarrow> 'w \<Rightarrow> void_result \<times> 'w"
  sc_watchdog :: "'w watchdog_provider option"
  sc_cycle_lock :: "'w \<Rightarrow> status option \<times> 'w"
  sc_query_lock :: "'w \<Rightarrow> status option \<times> 'w"
  sc_stop_requested :: "'w \<Rightarrow> bool \<times> 'w"
  sc_wake_take :: "tick \<Rightarrow> 'w \<Rightarrow> void_result \<times> 'w"
  sc_wake_give :: "'w \<Rightarrow> 'w"
  sc_wake_reset :: "'w \<Rightarrow> 'w"
  sc_history_depth :: nat
  sc_recovery_attempts :: u32
  sc_recovery_cooldown_ms :: int
  sc_max_responses_per_cycle :: u32
  sc_period_ms :: int
  sc_cycle_grace_ms :: int

section \<open>Rules and actions\<close>

definition rule_index :: "response_rule \<Rightarrow> response_rule list \<Rightarrow> nat" where
  "rule_index rule rules = length (takeWhile (\<lambda>r. r \<noteq> rule) rules)"

definition triggered :: "response_rule \<Rightarrow> subject_record \<Rightarrow> bool \<Rightarrow> bool" where
  "triggered rule rec recovery_failed =
     (case ru_trigger rule of
        Trg_Fault \<Rightarrow> sb_condition rec = Cond_Faulted
      | Trg_Degraded \<Rightarrow> sb_condition rec = Cond_Degraded
      | Trg_Stall \<Rightarrow> sb_liveness rec = Live_Stalled
      | Trg_RecoveryFailure \<Rightarrow> recovery_failed)"

definition append_response ::
  "response_record \<Rightarrow> sup_subject \<Rightarrow> sup_storage \<Rightarrow> sup_subject \<times> sup_storage" where
  "append_response rec subj su =
     (let seq = su_next_sequence su;
          rec = rec\<lparr>rr_sequence := seq\<rparr>;
          depth = (of_nat (length (su_history su)) :: u64);
          su = su\<lparr>su_next_sequence := seq + 1\<rparr>;
          su = (if seq > depth then su\<lparr>su_overwritten := su_overwritten su + 1\<rparr> else su);
          su = su\<lparr>su_history := (su_history su)[unat ((seq - 1) mod depth) := rec]\<rparr>;
          subj = subj\<lparr>us_subject := rr_subject rec, us_last_trigger := rr_trigger rec,
                      us_last_action := rr_action rec, us_last_outcome := rr_outcome rec,
                      us_last_response_at := rr_attempted_at rec, us_attempts := rr_attempt rec,
                      us_active := True\<rparr>;
          subj = (if rr_action rec = Act_Latch \<and> rr_outcome rec = Out_Succeeded
                  then subj\<lparr>us_latched := True\<rparr> else subj) in
      (subj, su))"

record action_result =
  ar_outcome :: response_outcome
  ar_status :: status
  ar_recovery_failed :: bool
  ar_panic :: bool

definition default_action_result :: action_result where
  "default_action_result =
     \<lparr>ar_outcome = Out_Succeeded, ar_status = St_Ok, ar_recovery_failed = False, ar_panic = False\<rparr>"

definition call_health_world ::
  "('w \<Rightarrow> 'a \<times> 'w) \<Rightarrow> 'w health \<Rightarrow> 'a \<times> 'w health" where
  "call_health_world f h = (case f (hs_world h) of (r, w) \<Rightarrow> (r, h\<lparr>hs_world := w\<rparr>))"

definition void_status :: "void_result \<Rightarrow> status" where
  "void_status r = (case r of Inl e \<Rightarrow> err_status e | Inr _ \<Rightarrow> St_Ok)"

fun execute_action ::
  "'w sup_config \<Rightarrow> response_action \<Rightarrow> sup_storage \<times> 'w health \<Rightarrow>
   action_result \<times> sup_storage \<times> 'w health" where
  "execute_action cfg Observe (su, h) = (default_action_result, su, h)"
| "execute_action cfg Warn (su, h) = (default_action_result, su, h)"
| "execute_action cfg Latch (su, h) = (default_action_result, su, h)"
| "execute_action cfg (TryRecover c) (su, h) =
     (case call_health_world (sc_recover cfg c) h of (r, h) \<Rightarrow>
      (if is_ok r then default_action_result
       else default_action_result\<lparr>ar_outcome := Out_Failed, ar_status := void_status r,
              ar_recovery_failed := True\<rparr>, su, h))"
| "execute_action cfg (EnterSafeState t) (su, h) =
     (case call_health_world (sc_enter_safe_state cfg t) h of (r, h) \<Rightarrow>
      (if is_ok r then default_action_result
       else default_action_result\<lparr>ar_outcome := Out_Failed, ar_status := void_status r\<rparr>, su, h))"
| "execute_action cfg (RequestStop c) (su, h) =
     (case call_health_world (sc_request_stop cfg c) h of (r, h) \<Rightarrow>
      (default_action_result\<lparr>
         ar_outcome := (if is_ok r \<or> void_status r = St_Already then Out_Requested else Out_Failed),
         ar_status := void_status r\<rparr>, su, h))"
| "execute_action cfg RequestSystemStop (su, h) =
     (default_action_result\<lparr>ar_outcome := Out_Requested\<rparr>,
      su\<lparr>su_stop_requested := True,
         su_state := (su_state su)\<lparr>ut_system_stop_requested := True\<rparr>\<rparr>, h)"
| "execute_action cfg RequestReboot (su, h) =
     (default_action_result\<lparr>ar_outcome := Out_Requested\<rparr>,
      su\<lparr>su_reboot_requested := True,
         su_state := (su_state su)\<lparr>ut_reboot_requested := True\<rparr>\<rparr>, h)"
| "execute_action cfg StopFeedingWatchdog (su, h) =
     (default_action_result,
      su\<lparr>su_watchdog := (su_watchdog su)\<lparr>wd_deliberately_withheld := True,
                                          wd_feed_permitted := False\<rparr>\<rparr>, h)"
| "execute_action cfg Panic (su, h) =
     (default_action_result\<lparr>ar_outcome := Out_Requested, ar_panic := True\<rparr>,
      su\<lparr>su_panic_requested := True,
         su_state := (su_state su)\<lparr>ut_panic_requested := True\<rparr>\<rparr>, h)"

text \<open>
  The variables of a running cycle: both storages, the budget, the recovery failures, the pending
  subject records, and the status of a panic once one was raised.
\<close>

record 'w cycle_run =
  cy_sup :: sup_storage
  cy_health :: "'w health"
  cy_responses :: u32
  cy_recovery_failures :: "bool list"
  cy_subjects :: "sup_subject list"
  cy_panic :: "status option"

definition perform_response ::
  "'w sup_config \<Rightarrow> tick \<Rightarrow> u64 \<Rightarrow> response_rule \<Rightarrow> response_action \<Rightarrow> 'w cycle_run \<Rightarrow> 'w cycle_run" where
  "perform_response cfg now generation rule action run =
     (if cy_panic run \<noteq> None then run
      else if cy_responses run \<ge> sc_max_responses_per_cycle cfg
      then run\<lparr>cy_sup := (cy_sup run)\<lparr>su_state := (su_state (cy_sup run))\<lparr>ut_deferred_responses :=
                 ut_deferred_responses (su_state (cy_sup run)) + 1\<rparr>\<rparr>\<rparr>
      else
        let i = rule_index rule (sc_rules cfg);
            run = run\<lparr>cy_responses := cy_responses run + 1\<rparr>;
            (result, su, h) = execute_action cfg action (cy_sup run, cy_health run);
            (subj, su) = append_response
              \<lparr>rr_sequence = 0, rr_subject = of_nat (ru_subject rule), rr_trigger = ru_trigger rule,
               rr_action = action_kind_of action, rr_outcome = ar_outcome result,
               rr_status = ar_status result, rr_attempted_at = now,
               rr_attempt = rl_attempts (su_rules su ! i), rr_health_generation = generation\<rparr>
              (cy_subjects run ! i) su;
            run = run\<lparr>cy_sup := su, cy_health := h, cy_subjects := (cy_subjects run)[i := subj]\<rparr>;
            run = (if ar_recovery_failed result
                   then run\<lparr>cy_recovery_failures :=
                          (cy_recovery_failures run)[ru_subject rule := True]\<rparr> else run) in
        if ar_panic result
        then run\<lparr>cy_panic := Some (if ar_status result = St_Ok then St_Error else ar_status result)\<rparr>
        else run)"

definition set_rule :: "nat \<Rightarrow> rule_state \<Rightarrow> 'w cycle_run \<Rightarrow> 'w cycle_run" where
  "set_rule i rs run = run\<lparr>cy_sup := (cy_sup run)\<lparr>su_rules := (su_rules (cy_sup run))[i := rs]\<rparr>\<rparr>"

definition evaluate_rule ::
  "'w sup_config \<Rightarrow> tick \<Rightarrow> u64 \<Rightarrow> bool \<Rightarrow> response_rule \<Rightarrow> 'w cycle_run \<Rightarrow> 'w cycle_run" where
  "evaluate_rule cfg now generation recovery_failed rule run =
     (if cy_panic run \<noteq> None then run
      else
        case subject_record_of (sc_health cfg) (ru_subject rule) (cy_health run) of
          (Inl _, h) \<Rightarrow> run\<lparr>cy_health := h\<rparr>
        | (Inr rec, h) \<Rightarrow>
            let run = run\<lparr>cy_health := h\<rparr>;
                i = rule_index rule (sc_rules cfg);
                rs = su_rules (cy_sup run) ! i in
            if \<not> triggered rule rec recovery_failed
            then (set_rule i (rs\<lparr>rl_active := False, rl_attempts := 0, rl_next_attempt := 0\<rparr>) run)
                   \<lparr>cy_subjects := (cy_subjects run)[i := (cy_subjects run ! i)\<lparr>us_active := False\<rparr>]\<rparr>
            else if rl_active rs \<and>
                    (\<not> list_ex is_try_recover (ru_responses rule) \<or>
                     rl_attempts rs \<ge> sc_recovery_attempts cfg \<or> now < rl_next_attempt rs)
            then run
            else
              fold (perform_response cfg now generation rule) (ru_responses rule)
                (set_rule i (rs\<lparr>rl_active := True, rl_attempts := rl_attempts rs + 1,
                   rl_next_attempt := now + ms_to_ticks_ceil (sc_health cfg)
                     (sc_recovery_cooldown_ms cfg)\<rparr>) run))"

section \<open>The cycle\<close>

datatype cycle_result = Cycle_Returned "sup_error + unit" | Cycle_Panicked status

definition sup_fail :: "status \<Rightarrow> sup_reason \<Rightarrow> sup_operation \<Rightarrow> sup_error" where
  "sup_fail st reason op =
     \<lparr>ue_status = st, ue_reason = reason, ue_operation = op, ue_subject = invalid_value, ue_detail = 0\<rparr>"

definition begin_cycle :: "tick \<Rightarrow> sup_storage \<Rightarrow> sup_storage" where
  "begin_cycle started su =
     su\<lparr>su_state := (su_state su)\<lparr>ut_last_phase := Ph_RefreshHealth,
          ut_last_cycle_started := started, ut_cycle_complete := False\<rparr>,
        su_watchdog := (su_watchdog su)\<lparr>wd_feed_permitted := False,
          wd_deliberately_withheld := False\<rparr>\<rparr>"

definition refresh_failed :: "sup_storage \<Rightarrow> sup_storage" where
  "refresh_failed su =
     su\<lparr>su_state := (su_state su)\<lparr>ut_refresh_failures := ut_refresh_failures (su_state su) + 1,
          ut_state := Sup_Faulted\<rparr>\<rparr>"

definition run_rules ::
  "'w sup_config \<Rightarrow> tick \<Rightarrow> u64 \<Rightarrow> sup_storage \<Rightarrow> 'w health \<Rightarrow> 'w cycle_run" where
  "run_rules cfg now generation su h =
     (let start = \<lparr>cy_sup = su, cy_health = h, cy_responses = 0,
            cy_recovery_failures = replicate (length (hc_components (sc_health cfg))) False,
            cy_subjects = su_subject_records su, cy_panic = None\<rparr>;
          run = fold (evaluate_rule cfg now generation False)
                  (filter (\<lambda>r. ru_trigger r \<noteq> Trg_RecoveryFailure) (sc_rules cfg)) start in
      fold (\<lambda>r run. evaluate_rule cfg now generation (cy_recovery_failures run ! ru_subject r) r run)
        (filter (\<lambda>r. ru_trigger r = Trg_RecoveryFailure) (sc_rules cfg)) run)"

definition gate_watchdog :: "system_record option \<Rightarrow> sup_storage \<Rightarrow> sup_storage" where
  "gate_watchdog health_state su =
     su\<lparr>su_state := (su_state su)\<lparr>ut_last_phase := Ph_EvaluateWatchdog\<rparr>,
        su_watchdog := (su_watchdog su)\<lparr>wd_feed_permitted :=
          (\<not> wd_deliberately_withheld (su_watchdog su) \<and>
           (case health_state of None \<Rightarrow> False
            | Some sys \<Rightarrow> sy_condition sys \<noteq> Cond_Faulted \<and> sy_safety sys \<noteq> Safe_Unsafe \<and>
                          sy_freshness sys \<noteq> Fresh_Stale))\<rparr>\<rparr>"

definition drive_watchdog ::
  "'w sup_config \<Rightarrow> tick \<Rightarrow> sup_storage \<times> 'w health \<Rightarrow> sup_storage \<times> 'w health" where
  "drive_watchdog cfg now s =
     (case s of (su, h) \<Rightarrow>
      case sc_watchdog cfg of
        None \<Rightarrow> (su, h)
      | Some provider \<Rightarrow>
          let wd = su_watchdog su in
          if wd_feed_permitted wd
          then
            (case call_health_world (wp_feed provider) h of (r, h) \<Rightarrow>
             let wd = wd\<lparr>wd_last_status := void_status r\<rparr> in
             (su\<lparr>su_watchdog := (if is_ok r
                then wd\<lparr>wd_feeds := wd_feeds wd + 1, wd_last_feed_at := now\<rparr>
                else wd\<lparr>wd_failures := wd_failures wd + 1\<rparr>)\<rparr>, h))
          else (su\<lparr>su_watchdog := wd\<lparr>wd_withheld := wd_withheld wd + 1\<rparr>\<rparr>, h))"

definition complete_cycle ::
  "'w sup_config \<Rightarrow> tick \<Rightarrow> tick \<Rightarrow> sup_subject list \<Rightarrow> sup_storage \<Rightarrow> sup_storage" where
  "complete_cycle cfg started completed subjects su =
     (let duration = completed - started;
          deadline = ms_to_ticks_ceil (sc_health cfg) (sc_period_ms cfg + sc_cycle_grace_ms cfg);
          st = su_state su in
      su\<lparr>su_state := st\<lparr>ut_last_phase := Ph_Complete, ut_last_cycle_completed := completed,
            ut_last_cycle_duration := duration,
            ut_maximum_cycle_duration := max (ut_maximum_cycle_duration st) duration,
            ut_cycle_complete := True, ut_state := Sup_Running, ut_cycles := ut_cycles st + 1,
            ut_cycle_generation := ut_cycle_generation st + 1,
            ut_overruns := (if duration > deadline then ut_overruns st + 1 else ut_overruns st)\<rparr>,
         su_subject_records := subjects\<rparr>)"

definition cycle ::
  "'w sup_config \<Rightarrow> tick \<Rightarrow> sup_storage \<times> 'w health \<Rightarrow> cycle_result \<times> sup_storage \<times> 'w health" where
  "cycle cfg now s =
     (case s of (su, h) \<Rightarrow>
      case call_health_world (sc_cycle_lock cfg) h of
        (Some e, h) \<Rightarrow> (Cycle_Returned (Inl (sup_fail e SR_NotReady SOp_Cycle)), su, h)
      | (None, h) \<Rightarrow>
          let su = begin_cycle now su in
          (case refresh (sc_health cfg) h of
             (Inl e, h) \<Rightarrow>
               (Cycle_Returned (Inl (sup_fail (he_status e) SR_HealthRefreshFailed SOp_Cycle)),
                refresh_failed su, h)
           | (Inr _, h) \<Rightarrow>
               (case system_record_of (sc_health cfg) h of (r, h) \<Rightarrow>
                let health_state = (case r of Inl _ \<Rightarrow> None | Inr sys \<Rightarrow> Some sys);
                    generation = (case health_state of None \<Rightarrow> 0
                                  | Some sys \<Rightarrow> sy_assessment_generation sys);
                    su = su\<lparr>su_state := (su_state su)\<lparr>ut_last_phase := Ph_EvaluatePolicy,
                              ut_health_generation := generation\<rparr>\<rparr>;
                    run = run_rules cfg now generation su h in
                case cy_panic run of
                  Some st \<Rightarrow> (Cycle_Panicked st, cy_sup run, cy_health run)
                | None \<Rightarrow>
                    (case drive_watchdog cfg now
                            (gate_watchdog health_state (cy_sup run), cy_health run) of (su, h) \<Rightarrow>
                     case now_ticks (sc_health cfg) h of (t, h) \<Rightarrow>
                     let su = complete_cycle cfg now (max t now) (cy_subjects run) su;
                         h = snd (progress (sc_health cfg) (sc_self cfg) h) in
                     (Cycle_Returned (Inr ()), su, h)))))"

section \<open>The service\<close>

text \<open>\<^verbatim>\<open>Service::bind\<close> registers \<^verbatim>\<open>notify_health\<close>, which gives the wake semaphore, as the waker of the health facility.\<close>

definition sup_bind :: "'w sup_config \<Rightarrow> 'w health \<Rightarrow> 'w health" where
  "sup_bind cfg h = set_supervisor_waker (Some (sc_wake_give cfg)) h"

definition give_wake :: "'w sup_config \<Rightarrow> 'w health \<Rightarrow> 'w health" where
  "give_wake cfg h = h\<lparr>hs_world := sc_wake_give cfg (hs_world h)\<rparr>"

definition initial_supervisor :: "'w sup_config \<Rightarrow> sup_storage" where
  "initial_supervisor cfg =
     \<lparr>su_state = default_state_record,
      su_watchdog = default_watchdog (sc_watchdog cfg \<noteq> None),
      su_rules = replicate (length (sc_rules cfg)) default_rule_state,
      su_history = replicate (sc_history_depth cfg) default_response,
      su_next_sequence = 1, su_overwritten = 0, su_stop_requested = False,
      su_reboot_requested = False, su_panic_requested = False,
      su_subject_records = replicate (length (sc_rules cfg)) default_sup_subject\<rparr>"

definition sup_init ::
  "'w sup_config \<Rightarrow> sup_storage \<times> 'w health \<Rightarrow> void_result \<times> sup_storage \<times> 'w health" where
  "sup_init cfg s =
     (case s of (su, h) \<Rightarrow>
      (Inr (), initial_supervisor cfg, h\<lparr>hs_world := sc_wake_reset cfg (hs_world h)\<rparr>))"

definition call_optional ::
  "('w \<Rightarrow> void_result \<times> 'w) option \<Rightarrow> 'w health \<Rightarrow> void_result \<times> 'w health" where
  "call_optional f h = (case f of None \<Rightarrow> (Inr (), h) | Some g \<Rightarrow> call_health_world g h)"

definition sup_start ::
  "'w sup_config \<Rightarrow> sup_storage \<times> 'w health \<Rightarrow> void_result \<times> sup_storage \<times> 'w health" where
  "sup_start cfg s =
     (case s of (su, h) \<Rightarrow>
      case (case sc_watchdog cfg of None \<Rightarrow> (Inr (), h) | Some p \<Rightarrow> call_optional (wp_start p) h) of
        (Inl e, h) \<Rightarrow> (Inl e, su, h)
      | (Inr _, h) \<Rightarrow>
          (case now_ticks (sc_health cfg) h of (t, h) \<Rightarrow>
           (Inr (),
            su\<lparr>su_state := (su_state su)\<lparr>ut_state := Sup_Starting, ut_started_at := t\<rparr>,
               su_watchdog := (su_watchdog su)\<lparr>wd_enabled := (sc_watchdog cfg \<noteq> None)\<rparr>\<rparr>, h)))"

definition sup_stop ::
  "'w sup_config \<Rightarrow> sup_storage \<times> 'w health \<Rightarrow> void_result \<times> sup_storage \<times> 'w health" where
  "sup_stop cfg s =
     (case s of (su, h) \<Rightarrow>
      let su = su\<lparr>su_state := (su_state su)\<lparr>ut_state := Sup_Stopping\<rparr>,
                  su_watchdog := (su_watchdog su)\<lparr>wd_feed_permitted := False\<rparr>\<rparr>;
          h = give_wake cfg h in
      case (case sc_watchdog cfg of None \<Rightarrow> (Inr (), h) | Some p \<Rightarrow> call_optional (wp_stop p) h) of
        (r, h) \<Rightarrow> (r, su, h))"

definition sup_deinit :: "sup_storage \<Rightarrow> void_result \<times> sup_storage" where
  "sup_deinit su =
     (Inr (), su\<lparr>su_state := (su_state su)\<lparr>ut_state := Sup_Stopped\<rparr>,
                 su_watchdog := (su_watchdog su)\<lparr>wd_enabled := False\<rparr>\<rparr>)"

text \<open>
  \<^verbatim>\<open>Service::run\<close> for at most \<open>fuel\<close> iterations: the loop runs until a stop is requested. \<open>bound\<close> tells
  whether \<^verbatim>\<open>bind\<close> has set the cycle callback. \<open>None\<close> is a run that has not ended yet, or that ended in a panic.
\<close>

fun sup_run ::
  "nat \<Rightarrow> bool \<Rightarrow> 'w sup_config \<Rightarrow> sup_storage \<times> 'w health \<Rightarrow>
   (void_result \<times> sup_storage \<times> 'w health) option" where
  "sup_run 0 bound cfg s = None"
| "sup_run (Suc fuel) bound cfg (su, h) =
     (case call_health_world (sc_stop_requested cfg) h of
        (True, h) \<Rightarrow> Some (Inr (), su, h)
      | (False, h) \<Rightarrow>
          if \<not> bound then Some (Inl \<lparr>err_status = St_NotReady, err_native = 0\<rparr>, su, h)
          else
          (case now_ticks (sc_health cfg) h of (now, h) \<Rightarrow>
           case cycle cfg now (su, h) of
             (Cycle_Panicked st, su, h) \<Rightarrow> None
           | (Cycle_Returned (Inl e), su, h) \<Rightarrow>
               Some (Inl \<lparr>err_status = ue_status e, err_native = 0\<rparr>, su, h)
           | (Cycle_Returned (Inr _), su, h) \<Rightarrow>
               (case call_health_world
                       (sc_wake_take cfg (ms_to_ticks_ceil (sc_health cfg) (sc_period_ms cfg))) h of
                  (wake, h) \<Rightarrow>
                  if \<not> is_ok wake \<and> void_status wake \<noteq> St_Timeout
                  then Some (wake, su, h) else sup_run fuel bound cfg (su, h))))"

section \<open>Queries\<close>

definition query_guard ::
  "'w sup_config \<Rightarrow> 'a \<Rightarrow> 'w health \<Rightarrow> (sup_error + 'a) \<times> 'w health" where
  "query_guard cfg x h =
     (case call_health_world (sc_query_lock cfg) h of
        (Some e, h) \<Rightarrow> (Inl (sup_fail e SR_NotReady SOp_Query), h)
      | (None, h) \<Rightarrow> (Inr x, h))"

definition copy_state ::
  "'w sup_config \<Rightarrow> sup_storage \<Rightarrow> 'w health \<Rightarrow> (sup_error + state_record) \<times> 'w health" where
  "copy_state cfg su h = query_guard cfg (su_state su) h"

definition copy_watchdog ::
  "'w sup_config \<Rightarrow> sup_storage \<Rightarrow> 'w health \<Rightarrow> (sup_error + watchdog_record) \<times> 'w health" where
  "copy_watchdog cfg su h = query_guard cfg (su_watchdog su) h"

definition merge_candidate :: "sup_subject \<Rightarrow> sup_subject \<Rightarrow> sup_subject" where
  "merge_candidate candidate result =
     (let result = (if us_last_response_at candidate \<ge> us_last_response_at result
                    then candidate else result) in
      result\<lparr>us_latched := us_latched result \<or> us_latched candidate,
             us_active := us_active result \<or> us_active candidate\<rparr>)"

definition copy_subject ::
  "'w sup_config \<Rightarrow> nat \<Rightarrow> sup_storage \<Rightarrow> 'w health \<Rightarrow> (sup_error + sup_subject) \<times> 'w health" where
  "copy_subject cfg component su h =
     query_guard cfg
       (fold (\<lambda>rule. merge_candidate (su_subject_records su ! rule_index rule (sc_rules cfg)))
          (filter (\<lambda>rule. ru_subject rule = component) (sc_rules cfg)) default_sup_subject) h"

definition read_responses ::
  "u64 \<Rightarrow> response_record list \<Rightarrow> sup_storage \<Rightarrow> response_page \<times> response_record list" where
  "read_responses cursor destination su =
     (let next_seq = su_next_sequence su;
          depth = (of_nat (length (su_history su)) :: u64);
          oldest = (if next_seq > depth then next_seq - depth else 1);
          (sequence, written, destination) =
            ring_read (\<lambda>_ _. True) (su_history su) next_seq (max cursor oldest) 0 destination in
      (\<lparr>rp_next = sequence, rp_written = written, rp_overwritten = su_overwritten su\<rparr>, destination))"

definition copy_responses ::
  "'w sup_config \<Rightarrow> u64 \<Rightarrow> response_record list \<Rightarrow> sup_storage \<Rightarrow> 'w health \<Rightarrow>
   (sup_error + response_page \<times> response_record list) \<times> 'w health" where
  "copy_responses cfg cursor destination su h =
     query_guard cfg (read_responses cursor destination su) h"

end
