(* ===== verification/Health_Assessment.thy ===== *)
theory Health_Assessment
  imports Health_Runtime
begin

text \<open>
  What the two recomputations of the health facility compute. \<open>subject_verdict\<close> and
  \<open>system_verdict\<close> are declarative readings of an assessment: which evidence decides the condition of a
  subject, and how the subjects decide the condition of the system. The lemmas
  relate the loops of \<^verbatim>\<open>recompute_subject_locked\<close> and \<^verbatim>\<open>recompute_system_locked\<close> to them.
\<close>

section \<open>The severity order\<close>

lemma condition_rank_inj: "condition_rank a = condition_rank b \<longleftrightarrow> a = b"
  by (cases a; cases b) simp_all

lemma safety_rank_inj: "safety_rank a = safety_rank b \<longleftrightarrow> a = b"
  by (cases a; cases b) simp_all

lemma rank_worse_condition [simp]:
  "condition_rank (worse_condition a b) = max (condition_rank a) (condition_rank b)"
  by (simp add: worse_condition_def)

lemma worse_condition_eq_Faulted [simp]:
  "worse_condition a b = Cond_Faulted \<longleftrightarrow> a = Cond_Faulted \<or> b = Cond_Faulted"
  by (cases a; cases b) (simp_all add: worse_condition_def)

section \<open>Subjects\<close>

text \<open>The evidence that \<^verbatim>\<open>recompute_subject_locked\<close> merges, in its order.\<close>

definition subject_evidence :: "nat \<Rightarrow> 'w health \<Rightarrow> evidence_state list" where
  "subject_evidence i s =
     sources_of (hs_subject_state s ! i) @
     map monitor_evidence (filter (\<lambda>m. mr_subject m = sb_subject (hs_subjects s ! i)) (hs_monitors s))"

definition effective_condition :: "tick \<Rightarrow> evidence_state \<Rightarrow> condition" where
  "effective_condition now ev = as_condition (effective_assessment now ev)"

text \<open>Evidence that takes part in the merge: optional evidence counts only when it is nominal.\<close>

definition contributes :: "tick \<Rightarrow> evidence_state \<Rightarrow> bool" where
  "contributes now ev \<longleftrightarrow> es_present ev \<and>
     (if es_required ev then es_availability ev = Avl_Available
      else effective_condition now ev = Cond_Nominal)"

definition evidence_missing :: "evidence_state \<Rightarrow> bool" where
  "evidence_missing ev \<longleftrightarrow>
     es_required ev \<and> (\<not> es_present ev \<or> es_availability ev \<noteq> Avl_Available)"

definition required_says :: "tick \<Rightarrow> evidence_state list \<Rightarrow> condition \<Rightarrow> bool" where
  "required_says now evs c \<longleftrightarrow>
     (\<exists>ev\<in>set evs. es_required ev \<and> es_present ev \<and> es_availability ev = Avl_Available \<and>
        effective_condition now ev = c)"

definition subject_verdict :: "tick \<Rightarrow> evidence_state list \<Rightarrow> condition" where
  "subject_verdict now evs =
     (if required_says now evs Cond_Faulted then Cond_Faulted
      else if required_says now evs Cond_Degraded then Cond_Degraded
      else if (\<exists>ev\<in>set evs. contributes now ev \<and> effective_condition now ev = Cond_Nominal) \<and>
              (\<forall>ev\<in>set evs. \<not> evidence_missing ev) then Cond_Nominal
      else Cond_Unknown)"

subsection \<open>One merge step\<close>

lemma merge_assessment_condition [simp]:
  "as_condition (merge_assessment agg a) = worse_condition (as_condition agg) (as_condition a)"
  by (simp add: merge_assessment_def Let_def)

lemma merge_condition:
  "as_condition (mg_aggregate (merge now subj mon ev m)) =
     (if contributes now ev
      then worse_condition (as_condition (mg_aggregate m)) (effective_condition now ev)
      else as_condition (mg_aggregate m))"
  by (simp add: merge_def contributes_def effective_condition_def Let_def)

lemma merge_flags:
  "mg_has_evidence (merge now subj mon ev m) \<longleftrightarrow> mg_has_evidence m \<or> es_present ev"
  "mg_required_unknown (merge now subj mon ev m) \<longleftrightarrow> mg_required_unknown m \<or> evidence_missing ev"
  by (auto simp: merge_def evidence_missing_def Let_def)

text \<open>The part of the merge state that decides the condition, as a fold over evidence only.\<close>

definition merge_core :: "merge_state \<Rightarrow> condition \<times> bool \<times> bool" where
  "merge_core m = (as_condition (mg_aggregate m), mg_has_evidence m, mg_required_unknown m)"

definition core_step ::
  "tick \<Rightarrow> evidence_state \<Rightarrow> condition \<times> bool \<times> bool \<Rightarrow> condition \<times> bool \<times> bool" where
  "core_step now ev c =
     (case c of (cond, has, req) \<Rightarrow>
        (if contributes now ev then worse_condition cond (effective_condition now ev) else cond,
         has \<or> es_present ev, req \<or> evidence_missing ev))"

lemma merge_core_step: "merge_core (merge now subj mon ev m) = core_step now ev (merge_core m)"
  by (simp add: merge_core_def core_step_def merge_condition merge_flags)

lemma merge_core_fold:
  "merge_core (fold (merge now subj mon) evs m) = fold (core_step now) evs (merge_core m)"
  by (induction evs arbitrary: m) (simp_all add: merge_core_step)

lemma merge_core_monitors:
  "merge_core (snd (merge_monitors now subj mons m)) =
     fold (core_step now) (map monitor_evidence (filter (\<lambda>m. mr_subject m = subj) mons)) (merge_core m)"
  by (induction now subj mons m rule: merge_monitors.induct)
     (auto simp: merge_core_step Let_def split: prod.splits)

lemma fold_core_step:
  "fold (core_step now) evs (cond, has, req) =
     (fold (\<lambda>ev c. if contributes now ev then worse_condition c (effective_condition now ev) else c)
        evs cond,
      has \<or> (\<exists>ev\<in>set evs. es_present ev), req \<or> (\<exists>ev\<in>set evs. evidence_missing ev))"
  by (induction evs arbitrary: cond has req) (auto simp: core_step_def)

lemma rank_fold_worse:
  "k \<le> condition_rank (fold (\<lambda>ev c. if P ev then worse_condition c (f ev) else c) evs c0) \<longleftrightarrow>
     k \<le> condition_rank c0 \<or> (\<exists>ev\<in>set evs. P ev \<and> k \<le> condition_rank (f ev))"
  by (induction evs arbitrary: c0) (auto simp: le_max_iff_disj)

lemma rank_ge_3: "3 \<le> condition_rank c \<longleftrightarrow> c = Cond_Faulted"
  by (cases c) simp_all

lemma rank_ge_2: "2 \<le> condition_rank c \<longleftrightarrow> c = Cond_Faulted \<or> c = Cond_Degraded"
  by (cases c) simp_all

lemma rank_ge_1:
  "1 \<le> condition_rank c \<longleftrightarrow> c = Cond_Faulted \<or> c = Cond_Degraded \<or> c = Cond_Nominal"
  by (cases c) simp_all

lemma condition_by_rank:
  "c = (if 3 \<le> condition_rank c then Cond_Faulted
        else if 2 \<le> condition_rank c then Cond_Degraded
        else if 1 \<le> condition_rank c then Cond_Nominal else Cond_Unknown)"
  by (cases c) simp_all

lemma required_says_iff:
  assumes "c \<noteq> Cond_Nominal"
  shows "required_says now evs c \<longleftrightarrow>
    (\<exists>ev\<in>set evs. contributes now ev \<and> effective_condition now ev = c)"
  using assms by (auto simp: required_says_def contributes_def)

text \<open>The verdict is what the three accumulators give.\<close>

lemma verdict_of_fold:
  assumes c: "c = fold (\<lambda>ev c. if contributes now ev
                 then worse_condition c (effective_condition now ev) else c) evs Cond_Unknown"
  shows "(if \<not> (\<exists>ev\<in>set evs. es_present ev) \<or>
             ((\<exists>ev\<in>set evs. evidence_missing ev) \<and> c = Cond_Nominal)
          then Cond_Unknown else c) = subject_verdict now evs"
proof -
  define says where "says x \<longleftrightarrow> (\<exists>ev\<in>set evs. contributes now ev \<and> effective_condition now ev = x)" for x
  have ge: "k \<le> condition_rank c \<longleftrightarrow>
      (\<exists>ev\<in>set evs. contributes now ev \<and> k \<le> condition_rank (effective_condition now ev))" if "k > 0" for k
    using that by (simp add: c rank_fold_worse)
  have g3: "3 \<le> condition_rank c \<longleftrightarrow> says Cond_Faulted"
    using ge [of 3] by (simp add: rank_ge_3 says_def)
  have g2: "2 \<le> condition_rank c \<longleftrightarrow> says Cond_Faulted \<or> says Cond_Degraded"
    using ge [of 2] by (auto simp: rank_ge_2 says_def)
  have g1: "1 \<le> condition_rank c \<longleftrightarrow> says Cond_Faulted \<or> says Cond_Degraded \<or> says Cond_Nominal"
    using ge [of 1] unfolding rank_ge_1 says_def by auto
  have cond: "c = (if says Cond_Faulted then Cond_Faulted else if says Cond_Degraded then Cond_Degraded
      else if says Cond_Nominal then Cond_Nominal else Cond_Unknown)"
    using condition_by_rank [of c] unfolding g1 g2 g3 by (auto split: if_splits)
  have present: "(\<exists>ev\<in>set evs. es_present ev)" if "says x" for x
    using that by (auto simp: says_def contributes_def)
  have says: "required_says now evs Cond_Faulted \<longleftrightarrow> says Cond_Faulted"
      "required_says now evs Cond_Degraded \<longleftrightarrow> says Cond_Degraded"
    unfolding says_def by (rule required_says_iff; simp)+
  have verdict: "subject_verdict now evs = (if says Cond_Faulted then Cond_Faulted
      else if says Cond_Degraded then Cond_Degraded
      else if says Cond_Nominal \<and> (\<forall>ev\<in>set evs. \<not> evidence_missing ev) then Cond_Nominal
      else Cond_Unknown)"
    unfolding subject_verdict_def says by (simp only: says_def)
  show ?thesis
  proof (cases "c = Cond_Unknown")
    case True
    then have "\<not> says Cond_Faulted" "\<not> says Cond_Degraded" "\<not> says Cond_Nominal"
      using cond by (auto split: if_splits)
    with True verdict show ?thesis by simp
  next
    case False
    then have "\<exists>ev\<in>set evs. es_present ev" using cond present by (auto split: if_splits)
    with False cond verdict show ?thesis by (auto split: if_splits)
  qed
qed

lemma subject_merge_verdict:
  fixes s :: "'w health" and i :: nat
  defines "r \<equiv> hs_subjects s ! i"
  shows "final_condition (snd (merge_monitors now (sb_subject r) (hs_monitors s)
           (fold (merge now (sb_subject r) invalid_value) (sources_of (hs_subject_state s ! i)) initial_merge)))
         = subject_verdict now (subject_evidence i s)"
proof -
  define m where "m = snd (merge_monitors now (sb_subject r) (hs_monitors s)
           (fold (merge now (sb_subject r) invalid_value) (sources_of (hs_subject_state s ! i)) initial_merge))"
  have init: "merge_core initial_merge = (Cond_Unknown, False, False)"
    by (simp add: merge_core_def initial_merge_def default_assessment_def)
  have "merge_core m = fold (core_step now) (subject_evidence i s) (Cond_Unknown, False, False)"
    by (simp add: m_def merge_core_monitors merge_core_fold subject_evidence_def r_def init)
  then have core:
      "as_condition (mg_aggregate m) = fold (\<lambda>ev c. if contributes now ev
         then worse_condition c (effective_condition now ev) else c) (subject_evidence i s) Cond_Unknown"
      "mg_has_evidence m \<longleftrightarrow> (\<exists>ev\<in>set (subject_evidence i s). es_present ev)"
      "mg_required_unknown m \<longleftrightarrow> (\<exists>ev\<in>set (subject_evidence i s). evidence_missing ev)"
    unfolding fold_core_step merge_core_def by blast+
  have "final_condition m = subject_verdict now (subject_evidence i s)"
    unfolding final_condition_def core(2,3) by (rule verdict_of_fold [OF core(1)])
  then show ?thesis by (simp add: m_def)
qed

section \<open>The system\<close>

text \<open>
  \<open>system_verdict subs sys\<close>: the record \<open>sys\<close> summarises the subject records \<open>subs\<close>.
\<close>

definition worst_of :: "'a list \<Rightarrow> 'a \<Rightarrow> 'a set \<Rightarrow> 'a" where
  "worst_of order least xs = (case filter (\<lambda>x. x \<in> xs) order of [] \<Rightarrow> least | x # _ \<Rightarrow> x)"

definition count_condition :: "condition \<Rightarrow> subject_record list \<Rightarrow> nat" where
  "count_condition c subs = length (filter (\<lambda>r. sb_condition r = c) subs)"

definition system_verdict :: "subject_record list \<Rightarrow> system_record \<Rightarrow> bool" where
  "system_verdict subs sys \<longleftrightarrow>
     sy_condition sys = worst_of [Cond_Faulted, Cond_Degraded, Cond_Unknown] Cond_Nominal
       (sb_condition ` set subs) \<and>
     sy_readiness sys = worst_of [Rdy_NotReady, Rdy_Unknown] Rdy_Ready (sb_readiness ` set subs) \<and>
     sy_safety sys = worst_of [Safe_Unsafe, Safe_AtRisk] Safe_Acceptable (sb_safety ` set subs) \<and>
     sy_freshness sys = worst_of [Fresh_Stale, Fresh_Unknown] Fresh_Current (sb_freshness ` set subs) \<and>
     unat (sy_faulted_subjects sys) = count_condition Cond_Faulted subs \<and>
     unat (sy_degraded_subjects sys) = count_condition Cond_Degraded subs \<and>
     unat (sy_nominal_subjects sys) = count_condition Cond_Nominal subs \<and>
     unat (sy_unknown_subjects sys) = count_condition Cond_Unknown subs \<and>
     unat (sy_stale_subjects sys) = length (filter (\<lambda>r. sb_freshness r = Fresh_Stale) subs)"

text \<open>The invariant of the loop over the subjects: what the record holds after a prefix.\<close>

definition rolled_up :: "subject_record list \<Rightarrow> system_record \<Rightarrow> bool" where
  "rolled_up subs sys \<longleftrightarrow>
     sy_readiness sys = worst_of [Rdy_NotReady, Rdy_Unknown] Rdy_Ready (sb_readiness ` set subs) \<and>
     sy_safety sys = worst_of [Safe_Unsafe, Safe_AtRisk] Safe_Acceptable (sb_safety ` set subs) \<and>
     sy_freshness sys = worst_of [Fresh_Stale, Fresh_Unknown] Fresh_Current (sb_freshness ` set subs) \<and>
     sy_faulted_subjects sys = of_nat (count_condition Cond_Faulted subs) \<and>
     sy_degraded_subjects sys = of_nat (count_condition Cond_Degraded subs) \<and>
     sy_nominal_subjects sys = of_nat (count_condition Cond_Nominal subs) \<and>
     sy_unknown_subjects sys = of_nat (count_condition Cond_Unknown subs) \<and>
     sy_stale_subjects sys = of_nat (length (filter (\<lambda>r. sb_freshness r = Fresh_Stale) subs))"

lemma count_condition_append [simp]:
  "count_condition c (xs @ ys) = count_condition c xs + count_condition c ys"
  by (simp add: count_condition_def)

lemma rolled_up_counts:
  assumes "rolled_up subs sys"
  shows "sy_faulted_subjects (count_subject (sb_condition r) sys) = of_nat (count_condition Cond_Faulted (subs @ [r]))"
    and "sy_degraded_subjects (count_subject (sb_condition r) sys) = of_nat (count_condition Cond_Degraded (subs @ [r]))"
    and "sy_nominal_subjects (count_subject (sb_condition r) sys) = of_nat (count_condition Cond_Nominal (subs @ [r]))"
    and "sy_unknown_subjects (count_subject (sb_condition r) sys) = of_nat (count_condition Cond_Unknown (subs @ [r]))"
  using assms by (cases "sb_condition r"; simp add: rolled_up_def count_subject_def count_condition_def)+

lemma count_subject_other [simp]:
  "sy_readiness (count_subject c sys) = sy_readiness sys"
  "sy_safety (count_subject c sys) = sy_safety sys"
  "sy_freshness (count_subject c sys) = sy_freshness sys"
  "sy_stale_subjects (count_subject c sys) = sy_stale_subjects sys"
  by (cases c; simp add: count_subject_def)+

lemma merge_freshness_other [simp]:
  "sy_readiness (merge_freshness f sys) = sy_readiness sys"
  "sy_safety (merge_freshness f sys) = sy_safety sys"
  "sy_faulted_subjects (merge_freshness f sys) = sy_faulted_subjects sys"
  "sy_degraded_subjects (merge_freshness f sys) = sy_degraded_subjects sys"
  "sy_nominal_subjects (merge_freshness f sys) = sy_nominal_subjects sys"
  "sy_unknown_subjects (merge_freshness f sys) = sy_unknown_subjects sys"
  by (simp_all add: merge_freshness_def)

lemma worst_readiness_snoc:
  "worse_readiness (worst_of [Rdy_NotReady, Rdy_Unknown] Rdy_Ready A) x =
     worst_of [Rdy_NotReady, Rdy_Unknown] Rdy_Ready (insert x A)"
  by (cases x) (auto simp: worst_of_def worse_readiness_def)

lemma worst_safety_snoc:
  "worse_safety (worst_of [Safe_Unsafe, Safe_AtRisk] Safe_Acceptable A) x =
     worst_of [Safe_Unsafe, Safe_AtRisk] Safe_Acceptable (insert x A)"
  by (cases x) (auto simp: worst_of_def worse_safety_def)

lemma worst_freshness_snoc:
  assumes "sy_freshness sys = worst_of [Fresh_Stale, Fresh_Unknown] Fresh_Current A"
  shows "sy_freshness (merge_freshness x sys) =
     worst_of [Fresh_Stale, Fresh_Unknown] Fresh_Current (insert x A)"
  using assms by (cases x) (auto simp: worst_of_def merge_freshness_def)

lemma roll_up_subject_step:
  assumes "rolled_up subs sys"
  shows "rolled_up (subs @ [r]) (snd (roll_up_subject r (p, sys)))"
proof -
  define sys1 where "sys1 = merge_freshness (sb_freshness r) (count_subject (sb_condition r) sys)"
  have f: "sy_freshness sys1 =
      worst_of [Fresh_Stale, Fresh_Unknown] Fresh_Current (insert (sb_freshness r) (sb_freshness ` set subs))"
    unfolding sys1_def by (rule worst_freshness_snoc) (use assms in \<open>simp add: rolled_up_def\<close>)
  have st: "sy_stale_subjects sys1 =
      of_nat (length (filter (\<lambda>r. sb_freshness r = Fresh_Stale) (subs @ [r])))"
    using assms by (simp add: sys1_def rolled_up_def merge_freshness_def)
  have "rolled_up (subs @ [r])
      (sys1\<lparr>sy_readiness := worse_readiness (sy_readiness sys1) (sb_readiness r),
             sy_safety := worse_safety (sy_safety sys1) (sb_safety r)\<rparr>)"
    using assms f st rolled_up_counts [OF assms, of r]
    by (simp add: rolled_up_def sys1_def worst_readiness_snoc worst_safety_snoc)
  then show ?thesis
    by (simp add: roll_up_subject_def sys1_def [symmetric] Let_def rolled_up_def)
qed

lemma roll_up_fold:
  assumes "rolled_up subs0 sys"
  shows "rolled_up (subs0 @ subs) (snd (fold roll_up_subject subs (p, sys)))"
  using assms
proof (induction subs arbitrary: subs0 sys p)
  case Nil
  then show ?case by simp
next
  case (Cons r subs)
  obtain p' sys' where step: "roll_up_subject r (p, sys) = (p', sys')" by fastforce
  then have "rolled_up (subs0 @ [r]) sys'"
    using roll_up_subject_step [OF Cons.prems, of r p] by simp
  from Cons.IH [OF this, of p'] step show ?case by simp
qed

lemma system_condition_worst:
  assumes "rolled_up subs sys" and "length subs < 2 ^ 32"
  shows "system_condition sys =
    worst_of [Cond_Faulted, Cond_Degraded, Cond_Unknown] Cond_Nominal (sb_condition ` set subs)"
proof -
  have pos: "(0 :: u32) < of_nat (count_condition c subs) \<longleftrightarrow> c \<in> sb_condition ` set subs" for c
  proof -
    have "count_condition c subs < 2 ^ 32"
      using assms(2) le_less_trans [OF length_filter_le] by (auto simp: count_condition_def)
    then have "(0 :: u32) < of_nat (count_condition c subs) \<longleftrightarrow> 0 < count_condition c subs"
      by (simp add: word_less_nat_alt unat_of_nat)
    also have "\<dots> \<longleftrightarrow> c \<in> sb_condition ` set subs"
      by (auto simp: count_condition_def filter_empty_conv)
    finally show ?thesis .
  qed
  show ?thesis
    using assms(1) by (simp add: system_condition_def rolled_up_def pos worst_of_def)
qed

lemma recompute_system_verdict:
  assumes "length (hs_subjects s) < 2 ^ 32"
  shows "system_verdict (hs_subjects (recompute_system_locked now s))
           (hs_system (recompute_system_locked now s))"
proof -
  define start where "start = default_system\<lparr>sy_readiness := Rdy_Ready, sy_safety := Safe_Acceptable,
                                  sy_freshness := Fresh_Current\<rparr>"
  define sys where "sys = snd (fold roll_up_subject (hs_subjects s) (Cond_Unknown, start))"
  have "rolled_up [] start"
    by (simp add: rolled_up_def start_def default_system_def worst_of_def count_condition_def)
  from roll_up_fold [OF this] have r: "rolled_up (hs_subjects s) sys" by (simp add: sys_def)
  have small: "count_condition c (hs_subjects s) < 2 ^ 32" for c
    using assms le_less_trans [OF length_filter_le] by (auto simp: count_condition_def)
  have small': "length (filter (\<lambda>r. sb_freshness r = Fresh_Stale) (hs_subjects s)) < 2 ^ 32"
    using assms le_less_trans [OF length_filter_le] by auto
  show ?thesis
    using r system_condition_worst [OF r assms] small small'
    unfolding recompute_system_locked_def Let_def start_def [symmetric] sys_def [symmetric]
    by (simp add: system_verdict_def rolled_up_def unat_of_nat)
qed

end
