(* ===== verification/Health_History.thy ===== *)
theory Health_History
  imports Health_Assessment
begin

text \<open>
  The transition history. Abstractly it is a log that only grows; the facility keeps a ring of
  the configured depth. \<open>history_repr\<close> relates the two, \<open>append_history\<close> refines
  appending to the log, and a read from a cursor returns a slice of the log: the transitions
  from the cursor on that are still retained, in order, without gaps or repetitions. The
  sequence counter is 64 bits wide and the relation says nothing about the ring once it has wrapped.
\<close>

definition history_repr :: "transition_record list \<Rightarrow> 'w health \<Rightarrow> bool" where
  "history_repr log s \<longleftrightarrow>
     ring_repr tr_sequence log (hs_history s) (hs_next_history_sequence s) (hs_history_overwritten s)"

definition history_entry ::
  "transition_record list \<Rightarrow> subject_record \<Rightarrow> condition \<Rightarrow> evidence_ref option \<Rightarrow> transition_record" where
  "history_entry log rec prev ev =
     \<lparr>tr_sequence = of_nat (length log + 1), tr_subject = sb_subject rec, tr_previous = prev,
      tr_current = sb_condition rec, tr_occurred_at = sb_assessed_at rec, tr_evidence = ev\<rparr>"

lemma append_history_refines:
  assumes repr: "history_repr log s" and changed: "prev \<noteq> sb_condition rec"
  shows "history_repr (log @ [history_entry log rec prev ev]) (append_history rec prev ev s)"
proof -
  define e where "e = history_entry log rec prev ev"
  have "hs_next_history_sequence s = of_nat (length log + 1)"
    using repr by (simp add: history_repr_def ring_repr_def)
  then have e: "tr_sequence e = hs_next_history_sequence s"
    and e': "e = \<lparr>tr_sequence = hs_next_history_sequence s, tr_subject = sb_subject rec,
      tr_previous = prev, tr_current = sb_condition rec, tr_occurred_at = sb_assessed_at rec, tr_evidence = ev\<rparr>"
    by (simp_all add: e_def history_entry_def)
  show ?thesis
    using ring_repr_push [OF repr [unfolded history_repr_def] e] changed
    unfolding e_def [symmetric] by (simp add: history_repr_def append_history_def Let_def e' [symmetric] split: if_splits)
qed

section \<open>Reading\<close>

lemma read_history_slice:
  fixes s :: "'w health" and log dest :: "transition_record list" and cursor :: u64
  defines "d \<equiv> length (hs_history s)"
  defines "start \<equiv> read_start log d cursor"
  defines "cnt \<equiv> min (length log - start) (length dest)"
  assumes repr: "history_repr log s" and bound: "length log + 1 < 2 ^ 64"
  shows "read_history_locked cursor dest s =
    (\<lparr>hp_next = of_nat (start + cnt + 1), hp_written = cnt, hp_available = min (length log) d,
      hp_overwritten = of_nat (length log - d)\<rparr>,
     take cnt (drop start log) @ drop cnt dest)"
proof -
  note ring = repr [unfolded history_repr_def]
  have d: "d < 2 ^ 64" and next_seq: "hs_next_history_sequence s = of_nat (length log + 1)"
    and over: "hs_history_overwritten s = of_nat (length log - d)"
    using ring bound by (auto simp: ring_repr_def d_def)
  have loop: "history_loop (hs_history s) (of_nat (length log + 1)) (of_nat (start + 1)) 0 dest =
      (of_nat (start + cnt + 1), cnt, take cnt (drop start log) @ drop cnt dest)"
    unfolding history_loop_def start_def cnt_def d_def
    by (rule ring_page [OF ring [unfolded next_seq] bound])
  show ?thesis
    unfolding read_history_locked_def Let_def d_def [symmetric] next_seq
      oldest_sequence [OF bound d] read_start_sequence(1) [OF bound, unfolded Let_def, where d = d and cursor = cursor]
      start_def [symmetric] loop prod.case ring_repr_available [OF bound] over by (rule refl)
qed

section \<open>Replaying the log\<close>

definition replay :: "transition_record list \<Rightarrow> local_id \<Rightarrow> condition" where
  "replay log j = fold (\<lambda>t c. if tr_subject t = j then tr_current t else c) log Cond_Unknown"

definition chained :: "transition_record list \<Rightarrow> bool" where
  "chained log \<longleftrightarrow>
     (\<forall>k < length log. tr_previous (log ! k) = replay (take k log) (tr_subject (log ! k)) \<and>
        tr_previous (log ! k) \<noteq> tr_current (log ! k))"

definition transitions_of :: "local_id \<Rightarrow> transition_record list \<Rightarrow> nat" where
  "transitions_of j log = length (filter (\<lambda>t. tr_subject t = j) log)"

lemma replay_snoc:
  "replay (log @ [t]) j = (if tr_subject t = j then tr_current t else replay log j)"
  by (simp add: replay_def)

lemma chained_snoc:
  assumes "chained log" and "tr_previous t = replay log (tr_subject t)" and "tr_previous t \<noteq> tr_current t"
  shows "chained (log @ [t])"
  using assms by (auto simp: chained_def nth_append less_Suc_eq)

text \<open>
  The history of a health state: the log it represents, whose replay gives the present condition and
  the transition count of every subject.
\<close>

definition history_of :: "nat \<Rightarrow> transition_record list \<Rightarrow> 'w health \<Rightarrow> bool" where
  "history_of n log s \<longleftrightarrow>
     history_repr log s \<and> chained log \<and> length (hs_subjects s) = n \<and>
     (\<forall>i < n. sb_subject (hs_subjects s ! i) = of_nat i \<and>
        sb_condition (hs_subjects s ! i) = replay log (of_nat i) \<and>
        sb_transition_count (hs_subjects s ! i) = of_nat (transitions_of (of_nat i) log))"

end
