(* ===== verification/Health_Cycle.thy ===== *)
theory Health_Cycle
  imports Health_History
begin

text \<open>
  The health facility as a state machine. Every operation that changes the records does so in a transaction
  under the mutex: some evidence or a counter is stored, one or more subjects are recomputed, and the
  system record is recomputed last. The locale \<open>health_transaction\<close> states what an
  invariant has to satisfy to survive such transactions and proves once that every operation of
  \<^verbatim>\<open>facility.hpp\<close> and \<^verbatim>\<open>runtime.hpp\<close> keeps it; the history and the system summary are its instances.
\<close>

section \<open>One recomputation\<close>

definition subject_merge :: "nat \<Rightarrow> tick \<Rightarrow> 'w health \<Rightarrow> monitor_record list \<times> merge_state" where
  "subject_merge i now s =
     merge_monitors now (sb_subject (hs_subjects s ! i)) (hs_monitors s)
       (fold (merge now (sb_subject (hs_subjects s ! i)) invalid_value)
          (sources_of (hs_subject_state s ! i)) initial_merge)"

definition reassessed :: "nat \<Rightarrow> tick \<Rightarrow> 'w health \<Rightarrow> subject_record" where
  "reassessed i now s =
     (let rec = publish_assessment now (snd (subject_merge i now s)) (hs_subjects s ! i) in
      if sb_condition (hs_subjects s ! i) \<noteq> sb_condition rec
      then rec\<lparr>sb_transition_count := sb_transition_count rec + 1,
               sb_last_transition := sb_assessed_at rec\<rparr> else rec)"

lemma assessment_of_record_condition:
  "sb_condition r \<noteq> sb_condition r' \<Longrightarrow> assessment_of_record r \<noteq> assessment_of_record r'"
  by (auto simp: assessment_of_record_def default_assessment_def dest: arg_cong [where f = as_condition])

lemma append_history_same: "prev = sb_condition rec \<Longrightarrow> append_history rec prev ev s = s"
  by (simp add: append_history_def)

lemma recompute_subject_eq:
  fixes s :: "'w health" and i :: nat and now :: tick
  defines "s1 \<equiv> s\<lparr>hs_monitors := fst (subject_merge i now s),
                   hs_subjects := (hs_subjects s)[i := reassessed i now s]\<rparr>"
  shows "recompute_subject_locked i now s =
    append_history (reassessed i now s) (sb_condition (hs_subjects s ! i))
      (mg_primary (snd (subject_merge i now s))) s1"
proof -
  define prev where "prev = sb_condition (hs_subjects s ! i)"
  define m where "m = snd (subject_merge i now s)"
  define r where "r = publish_assessment now m (hs_subjects s ! i)"
  have cond: "sb_condition (reassessed i now s) = sb_condition r"
    by (simp add: reassessed_def r_def m_def Let_def)
  have changed: "assessment_of_record r \<noteq> assessment_of_record (hs_subjects s ! i)"
    if "prev \<noteq> sb_condition r"
    using that assessment_of_record_condition [of r "hs_subjects s ! i"] by (auto simp: prev_def)
  have rec: "(if assessment_of_record r \<noteq> assessment_of_record (hs_subjects s ! i) \<and> prev \<noteq> sb_condition r
      then r\<lparr>sb_transition_count := sb_transition_count r + 1, sb_last_transition := sb_assessed_at r\<rparr>
      else r) = reassessed i now s"
    using changed by (auto simp: reassessed_def r_def m_def prev_def Let_def)
  have "recompute_subject_locked i now s =
      (if assessment_of_record r \<noteq> assessment_of_record (hs_subjects s ! i)
       then append_history (reassessed i now s) prev (mg_primary m) s1 else s1)"
    unfolding recompute_subject_locked_def Let_def subject_merge_def [symmetric]
    by (simp add: case_prod_beta rec [symmetric] s1_def r_def m_def prev_def Let_def)
  moreover have "append_history (reassessed i now s) prev (mg_primary m) s1 = s1"
    if "assessment_of_record r = assessment_of_record (hs_subjects s ! i)"
    using that changed cond by (metis append_history_same)
  ultimately show ?thesis by (auto simp: prev_def m_def)
qed

lemma append_history_frame [simp]:
  "hs_subjects (append_history rec prev ev s) = hs_subjects s"
  "hs_subject_state (append_history rec prev ev s) = hs_subject_state s"
  "hs_monitors (append_history rec prev ev s) = hs_monitors s"
  "hs_system (append_history rec prev ev s) = hs_system s"
  "hs_progress (append_history rec prev ev s) = hs_progress s"
  "hs_world (append_history rec prev ev s) = hs_world s"
  "hs_first_refresh (append_history rec prev ev s) = hs_first_refresh s"
  "hs_isr_admitted (append_history rec prev ev s) = hs_isr_admitted s"
  "hs_isr_dropped (append_history rec prev ev s) = hs_isr_dropped s"
  "length (hs_history (append_history rec prev ev s)) = length (hs_history s)"
  by (simp_all add: append_history_def Let_def)

lemma recompute_subject_frame [simp]:
  "hs_subjects (recompute_subject_locked i now s) = (hs_subjects s)[i := reassessed i now s]"
  "hs_subject_state (recompute_subject_locked i now s) = hs_subject_state s"
  "hs_monitors (recompute_subject_locked i now s) = fst (subject_merge i now s)"
  "hs_system (recompute_subject_locked i now s) = hs_system s"
  "hs_progress (recompute_subject_locked i now s) = hs_progress s"
  "hs_world (recompute_subject_locked i now s) = hs_world s"
  "length (hs_history (recompute_subject_locked i now s)) = length (hs_history s)"
  by (simp_all add: recompute_subject_eq)

lemma recompute_system_frame [simp]:
  "hs_subjects (recompute_system_locked now s) = hs_subjects s"
  "hs_subject_state (recompute_system_locked now s) = hs_subject_state s"
  "hs_monitors (recompute_system_locked now s) = hs_monitors s"
  "hs_history (recompute_system_locked now s) = hs_history s"
  "hs_next_history_sequence (recompute_system_locked now s) = hs_next_history_sequence s"
  "hs_history_overwritten (recompute_system_locked now s) = hs_history_overwritten s"
  "hs_progress (recompute_system_locked now s) = hs_progress s"
  "hs_world (recompute_system_locked now s) = hs_world s"
  by (simp_all add: recompute_system_locked_def Let_def)

lemma reassessed_fields:
  "sb_subject (reassessed i now s) = sb_subject (hs_subjects s ! i)"
  "sb_condition (reassessed i now s) = subject_verdict now (subject_evidence i s)"
  "sb_transition_count (reassessed i now s) =
     (if sb_condition (hs_subjects s ! i) \<noteq> sb_condition (reassessed i now s)
      then sb_transition_count (hs_subjects s ! i) + 1 else sb_transition_count (hs_subjects s ! i))"
proof -
  have c: "final_condition (snd (subject_merge i now s)) = subject_verdict now (subject_evidence i s)"
    unfolding subject_merge_def by (rule subject_merge_verdict)
  show "sb_subject (reassessed i now s) = sb_subject (hs_subjects s ! i)"
    "sb_condition (reassessed i now s) = subject_verdict now (subject_evidence i s)"
    "sb_transition_count (reassessed i now s) =
     (if sb_condition (hs_subjects s ! i) \<noteq> sb_condition (reassessed i now s)
      then sb_transition_count (hs_subjects s ! i) + 1 else sb_transition_count (hs_subjects s ! i))"
    by (simp_all add: reassessed_def publish_assessment_def c Let_def)
qed

lemma history_repr_cong:
  assumes "hs_history s' = hs_history s" and "hs_next_history_sequence s' = hs_next_history_sequence s"
    and "hs_history_overwritten s' = hs_history_overwritten s"
  shows "history_repr log s' \<longleftrightarrow> history_repr log s"
  using assms by (simp add: history_repr_def)

lemma transitions_of_snoc:
  "transitions_of j (log @ [t]) = transitions_of j log + (if tr_subject t = j then 1 else 0)"
  by (simp add: transitions_of_def)

lemma recompute_subject_history:
  assumes h: "history_of n log s" and i: "i < n" and n: "n < 65535"
  shows "\<exists>log'. history_of n log' (recompute_subject_locked i now s)"
proof -
  define prev where "prev = sb_condition (hs_subjects s ! i)"
  define r where "r = reassessed i now s"
  define ev where "ev = mg_primary (snd (subject_merge i now s))"
  define s1 where "s1 = s\<lparr>hs_monitors := fst (subject_merge i now s), hs_subjects := (hs_subjects s)[i := r]\<rparr>"
  have eq: "recompute_subject_locked i now s = append_history r prev ev s1"
    unfolding prev_def r_def ev_def s1_def by (rule recompute_subject_eq)
  have repr: "history_repr log s1"
    using h by (simp add: history_of_def s1_def history_repr_def)
  have len: "length (hs_subjects s) = n" and old: "\<forall>j < n. sb_subject (hs_subjects s ! j) = of_nat j \<and>
        sb_condition (hs_subjects s ! j) = replay log (of_nat j) \<and>
        sb_transition_count (hs_subjects s ! j) = of_nat (transitions_of (of_nat j) log)"
    and ch: "chained log"
    using h by (auto simp: history_of_def)
  have r: "sb_subject r = of_nat i"
    "sb_transition_count r = (if prev \<noteq> sb_condition r then sb_transition_count (hs_subjects s ! i) + 1
       else sb_transition_count (hs_subjects s ! i))"
    using old i by (simp_all add: r_def prev_def reassessed_fields(1,3))
  show ?thesis
  proof (cases "prev = sb_condition r")
    case True
    have "history_of n log s1"
      using repr ch len old r True i by (auto simp: history_of_def s1_def nth_list_update prev_def)
    then show ?thesis using eq True by (auto simp: append_history_same)
  next
    case False
    define e where "e = history_entry log r prev ev"
    have e: "tr_subject e = of_nat i" "tr_previous e = prev" "tr_current e = sb_condition r"
      using r by (simp_all add: e_def history_entry_def)
    have "history_repr (log @ [e]) (append_history r prev ev s1)"
      unfolding e_def by (rule append_history_refines [OF repr False])
    moreover have "chained (log @ [e])"
      using ch False e old i by (intro chained_snoc) (auto simp: prev_def)
    moreover have "\<forall>j < n. sb_subject ((hs_subjects s)[i := r] ! j) = of_nat j \<and>
        sb_condition ((hs_subjects s)[i := r] ! j) = replay (log @ [e]) (of_nat j) \<and>
        sb_transition_count ((hs_subjects s)[i := r] ! j) = of_nat (transitions_of (of_nat j) (log @ [e]))"
      using old r False e len i n
      by (auto simp: nth_list_update replay_snoc transitions_of_snoc local_id_inj add.commute)
    ultimately have "history_of n (log @ [e]) (append_history r prev ev s1)"
      using len by (simp add: history_of_def s1_def)
    then show ?thesis unfolding eq by blast
  qed
qed

section \<open>Transactions\<close>

text \<open>The configurations the facility is built for: the checks of the catalogs and of Kconfig.\<close>

definition wf_health_config :: "'w health_config \<Rightarrow> bool" where
  "wf_health_config cfg \<longleftrightarrow>
     length (hc_components cfg) < 65535 \<and> 0 < hc_history_depth cfg \<and> hc_history_depth cfg < 2 ^ 64 \<and>
     (\<forall>m \<in> set (hc_monitors cfg). local_id_index (hn_owner m) < length (hc_components cfg)) \<and>
     (case hc_remote cfg of None \<Rightarrow> True | Some r \<Rightarrow> hr_component r < length (hc_components cfg))"

text \<open>What the records say, without the report counters, the evidence and the world.\<close>

definition subject_core :: "subject_record \<Rightarrow> subject_record" where
  "subject_core r = r\<lparr>sb_report_count := 0, sb_repeated_count := 0\<rparr>"

definition health_core ::
  "'w health \<Rightarrow> subject_record list \<times> transition_record list \<times> u64 \<times> u64 \<times> system_record" where
  "health_core s = (map subject_core (hs_subjects s), hs_history s, hs_next_history_sequence s,
     hs_history_overwritten s, hs_system s)"

lemma health_core_frame [simp]:
  "health_core (s\<lparr>hs_world := w\<rparr>) = health_core s"
  "health_core (s\<lparr>hs_subject_state := x1\<rparr>) = health_core s"
  "health_core (s\<lparr>hs_monitors := x2\<rparr>) = health_core s"
  "health_core (s\<lparr>hs_progress := x3\<rparr>) = health_core s"
  "health_core (s\<lparr>hs_ingress := x4\<rparr>) = health_core s"
  "health_core (s\<lparr>hs_first_refresh := x5\<rparr>) = health_core s"
  "health_core (s\<lparr>hs_isr_admitted := x6\<rparr>) = health_core s"
  "health_core (s\<lparr>hs_isr_dropped := x6\<rparr>) = health_core s"
  "health_core (s\<lparr>hs_supervisor_waker := x7\<rparr>) = health_core s"
  "health_core (put_source i slot e s) = health_core s"
  "health_core (wake_supervisor s) = health_core s"
  "health_core (note_first_refresh now s) = health_core s"
  by (simp_all add: health_core_def put_source_def wake_supervisor_def note_first_refresh_def
        split: option.splits)

lemma count_report_core: "subject_core (count_report b r) = subject_core r"
  by (simp add: subject_core_def count_report_def Let_def)

lemma health_core_count_report [simp]:
  "health_core (s\<lparr>hs_subjects := (hs_subjects s)[i := count_report b (hs_subjects s ! i)]\<rparr>) = health_core s"
proof (cases "i < length (hs_subjects s)")
  case True
  then show ?thesis
    by (simp add: health_core_def map_update count_report_core) (simp add: map_update [symmetric])
next
  case False
  then show ?thesis by (simp add: health_core_def list_update_beyond)
qed

locale health_transaction =
  fixes cfg :: "'w health_config"
    and during committed :: "'w health \<Rightarrow> bool"
  assumes wf: "during s \<Longrightarrow> wf_health_config cfg"
    and weaken: "committed s \<Longrightarrow> during s"
    and frame_during: "during s \<Longrightarrow> health_core s' = health_core s \<Longrightarrow> during s'"
    and frame_committed: "committed s \<Longrightarrow> health_core s' = health_core s \<Longrightarrow> committed s'"
    and size: "during s \<Longrightarrow> length (hs_subjects s) = length (hc_components cfg)"
    and step: "during s \<Longrightarrow> i < length (hc_components cfg) \<Longrightarrow>
      during (recompute_subject_locked i now s)"
    and seal: "during s \<Longrightarrow> committed (recompute_system_locked now s)"
begin

lemma recompute_committed:
  assumes "committed s" and "health_core s' = health_core s" and "i < length (hc_components cfg)"
  shows "committed (recompute i now s')"
  unfolding recompute_def using assms by (intro seal step) (auto intro: frame_during weaken)

lemma world_committed: "committed s \<Longrightarrow> committed (s\<lparr>hs_world := w\<rparr>)"
  by (erule frame_committed) simp

lemma now_ticks_committed: "committed s \<Longrightarrow> committed (snd (now_ticks cfg s))"
  by (simp add: now_ticks_eq world_committed)

lemma with_storage_committed:
  assumes "committed s" and "\<And>s. committed s \<Longrightarrow> committed (snd (body s))"
  shows "committed (snd (with_storage cfg body op s))"
proof -
  obtain l w where l: "hc_lock cfg (hs_world s) = (l, w)" by fastforce
  have "committed (snd (body (s\<lparr>hs_world := w\<rparr>)))" using assms world_committed by blast
  then show ?thesis
    using l world_committed [OF assms(1)]
    by (auto simp: with_storage_def Let_def split: prod.splits option.splits)
qed

lemma read_committed:
  "committed s \<Longrightarrow> committed (snd (with_storage cfg (\<lambda>s. (f s, s)) op s))"
  by (rule with_storage_committed) simp_all

lemma report_locked_committed:
  assumes "committed s" and "i < length (hc_components cfg)"
  shows "committed (snd (report_locked cfg i a q now s))"
proof -
  define s1 where "s1 = put_source i Slot_Reported
                \<lparr>es_assessment = a, es_quality = q, es_availability = Avl_Available,
                 es_observed_at = now, es_stale_after = default_stale_ticks cfg,
                 es_source_kind = Src_SelfReport, es_source_id = 0, es_required = True,
                 es_present = True\<rparr> s"
  have "committed (recompute i now
      (s1\<lparr>hs_subjects := (hs_subjects s1)[i := count_report b (hs_subjects s1 ! i)]\<rparr>))" for b
    using assms by (intro recompute_committed) (simp_all add: s1_def)
  then show ?thesis by (simp add: report_locked_def s1_def Let_def)
qed

lemma report_committed:
  assumes "committed s" and "i < length (hc_components cfg)"
  shows "committed (snd (report cfg i a q s))"
proof -
  obtain now s1 where n: "now_ticks cfg s = (now, s1)" by fastforce
  then have "committed s1" using now_ticks_committed [OF assms(1)] by simp
  then have "committed (snd (with_storage cfg (report_locked cfg i a q now) HOp_Report s1))"
    using assms(2) by (intro with_storage_committed report_locked_committed)
  moreover have "committed t \<Longrightarrow> committed (wake_supervisor t)" for t
    by (erule frame_committed) simp
  ultimately show ?thesis
    using n by (auto simp: report_def split: prod.splits sum.splits)
qed

lemma commit_put_committed:
  assumes "committed s" and "i < length (hc_components cfg)"
  shows "committed (snd (with_storage cfg (\<lambda>s. ((), recompute i now (put_source i slot e s))) op s))"
proof (rule with_storage_committed [OF assms(1)])
  show "committed (snd ((), recompute i now (put_source i slot e t)))" if "committed t" for t
    using recompute_committed [OF that _ assms(2)] by simp
qed

lemma commit_adapter_committed:
  assumes "committed s" and "i < length (hc_components cfg)"
  shows "committed (snd (commit_adapter cfg i a kind sid s))"
  unfolding commit_adapter_def now_ticks_eq prod.case
  using assms by (intro commit_put_committed world_committed)

lemma commit_source_committed:
  assumes "committed s" and "i < length (hc_components cfg)"
  shows "committed (commit_source cfg i slot a q av req op kind s)"
  unfolding commit_source_def now_ticks_eq prod.case
  using assms by (intro commit_put_committed world_committed)

lemma owner_index:
  assumes "committed s" and "k < length (hc_monitors cfg)"
  shows "local_id_index (hn_owner (hc_monitors cfg ! k)) < length (hc_components cfg)"
  using wf [OF weaken [OF assms(1)]] assms(2) by (simp add: wf_health_config_def)

lemma commit_monitor_committed:
  assumes "committed s" and "k < length (hc_monitors cfg)"
  shows "committed (snd (commit_monitor cfg k obs s))"
proof -
  have body: "committed (snd (with_storage cfg (\<lambda>s. ((),
          recompute (local_id_index (hn_owner (hc_monitors cfg ! k))) now
            (s\<lparr>hs_monitors := (hs_monitors s)[k := record_observation obs (hs_monitors s ! k)]\<rparr>)))
        HOp_Check s))" if "committed s" for obs now s
  proof (rule with_storage_committed [OF that])
    show "committed (snd ((), recompute (local_id_index (hn_owner (hc_monitors cfg ! k))) now
        (t\<lparr>hs_monitors := (hs_monitors t)[k := record_observation obs (hs_monitors t ! k)]\<rparr>)))"
      if "committed t" for t
      using recompute_committed [OF that _ owner_index [OF assms]] by simp
  qed
  show ?thesis
    using assms(1) by (auto simp: commit_monitor_def now_ticks_eq Let_def intro!: body world_committed)
qed

lemma deliver_isr_committed:
  assumes "committed s"
  shows "committed (deliver_isr_report cfg r s)"
proof -
  have "committed (snd (fold (\<lambda>i (matched, s).
            if \<not> matched \<and> of_nat i = ir_subject r
            then (True, snd (report cfg i (isr_assessment cfg r) Ev_Reported s))
            else (matched, s)) xs (b, s)))"
    if "\<forall>i\<in>set xs. i < length (hc_components cfg)" for xs b
    using that assms by (induction xs arbitrary: b s) (auto simp: report_committed)
  then show ?thesis by (simp add: deliver_isr_report_def)
qed

lemma drain_isr_committed: "committed s \<Longrightarrow> committed (snd (drain_isr cfg n s))"
proof (induction "length (hs_ingress s)" arbitrary: n s)
  case 0
  then show ?case by (subst drain_isr.simps) (simp add: try_receive_def)
next
  case (Suc m)
  then obtain r q where q: "hs_ingress s = r # q" by (metis length_Suc_conv)
  define t where "t = deliver_isr_report cfg r (s\<lparr>hs_ingress := q\<rparr>)"
  have "committed (s\<lparr>hs_ingress := q\<rparr>)" by (rule frame_committed [OF Suc.prems]) simp
  then have "committed t" unfolding t_def by (rule deliver_isr_committed)
  moreover have "m = length (hs_ingress t)" using Suc.hyps(2) q by (simp add: t_def deliver_isr_report_ingress)
  ultimately have "committed (snd (drain_isr cfg (n + 1) t))" by (intro Suc.hyps(1))
  then show ?case by (subst drain_isr.simps) (simp add: try_receive_def q t_def)
qed

lemma refresh_lifecycle_committed:
  assumes "committed s" and "i < length (hc_components cfg)"
  shows "committed (refresh_lifecycle cfg i s)"
  using assms by (auto simp: refresh_lifecycle_def commit_source_committed split: sum.splits)

lemma refresh_execution_committed:
  assumes "committed s" and "i < length (hc_components cfg)"
  shows "committed (refresh_execution cfg i s)"
  using assms by (auto simp: refresh_execution_def commit_source_committed split: health_category.splits)

lemma refresh_remote_committed:
  assumes "committed s"
  shows "committed (refresh_remote cfg s)"
  using assms wf [OF weaken [OF assms]]
  by (auto simp: refresh_remote_def wf_health_config_def intro!: commit_source_committed
        split: option.splits)

lemma subject_record_of_committed: "committed s \<Longrightarrow> committed (snd (subject_record_of cfg i s))"
  unfolding subject_record_of_def by (rule read_committed)

lemma assess_component_committed:
  assumes "committed s" and "i < length (hc_components cfg)"
  shows "committed (snd (assess_component cfg i s))"
proof (cases "hm_contract (hc_components cfg ! i)")
  case No_Assess
  then show ?thesis using assms by (simp add: assess_component_def)
next
  case (Assess assess period)
  obtain r w where r: "assess (hs_world s) = (r, w)" by fastforce
  show ?thesis
  proof (cases r)
    case (Inl e)
    then show ?thesis
      using assms r Assess by (simp add: assess_component_def Let_def commit_source_committed world_committed)
  next
    case (Inr a)
    obtain prior s1 where p: "subject_record_of cfg i (s\<lparr>hs_world := w\<rparr>) = (prior, s1)" by fastforce
    define s2 where "s2 = commit_source cfg i Slot_Assessment a Ev_Reported Avl_Available True
                          HOp_Assess Src_ComponentAssessment s1"
    have "committed s1"
      using subject_record_of_committed [OF world_committed [OF assms(1), of w], of i] p by simp
    then have "committed s2" unfolding s2_def by (rule commit_source_committed [OF _ assms(2)])
    then have "committed (snd (subject_record_of cfg i s2))" by (rule subject_record_of_committed)
    then show ?thesis
      using r Inr Assess p
      by (auto simp: assess_component_def Let_def s2_def [symmetric] split: prod.splits sum.splits)
  qed
qed

lemma refresh_assessment_committed:
  assumes "committed s" and "i < length (hc_components cfg)"
  shows "committed (refresh_assessment cfg i now s)"
proof -
  define body where "body = (\<lambda>s :: 'w health. (es_observed_at (ss_assessment (hs_subject_state s ! i)), s))"
  have "committed (snd (with_storage cfg body HOp_Query s))"
    unfolding body_def by (rule read_committed [OF assms(1)])
  then show ?thesis
    using assms assess_component_committed
    by (auto simp: refresh_assessment_def body_def [symmetric] Let_def
          split: health_contract.splits prod.splits)
qed

lemma run_check_committed:
  assumes "committed s" and "k < length (hc_monitors cfg)"
  shows "committed (snd (run_check cfg k s))"
  using assms
  by (auto simp: run_check_def Let_def commit_monitor_committed world_committed
        split: prod.splits sum.splits)

lemma refresh_monitor_committed:
  assumes "committed s" and "k < length (hc_monitors cfg)"
  shows "committed (refresh_monitor cfg k now s)"
proof -
  define body where "body = (\<lambda>s :: 'w health. (hs_monitors s ! k, s))"
  obtain r t where rt: "with_storage cfg body HOp_Query s = (r, t)" by fastforce
  have "committed (snd (with_storage cfg body HOp_Query s))"
    unfolding body_def by (rule read_committed [OF assms(1)])
  with rt have t: "committed t" by simp
  have "committed (refresh_progress cfg k now t)" "committed (refresh_stack cfg k now t)"
    using commit_monitor_committed [OF t assms(2)]
    by (simp_all add: refresh_progress_def refresh_stack_def Let_def split: prod.splits)
  moreover have "committed (refresh_execution cfg (local_id_index (hn_owner (hc_monitors cfg ! k))) t)"
    using t owner_index [OF assms] by (rule refresh_execution_committed)
  ultimately show ?thesis
    using t run_check_committed [OF t assms(2)]
    by (simp add: refresh_monitor_def body_def [symmetric] rt Let_def split: monitor_kind.splits)
qed

lemma fold_committed:
  assumes "committed s" and "\<And>x s. x \<in> set xs \<Longrightarrow> committed s \<Longrightarrow> committed (f x s)"
  shows "committed (fold f xs s)"
  using assms by (induction xs arbitrary: s) auto

lemma refresh_sources_committed:
  assumes "committed s"
  shows "committed (refresh_sources cfg now s)"
  unfolding refresh_sources_def refresh_component_def Let_def
  using assms
  by (intro refresh_remote_committed fold_committed refresh_monitor_committed
        refresh_assessment_committed refresh_execution_committed refresh_lifecycle_committed) auto

lemma recompute_all_committed:
  assumes "committed s"
  shows "committed (recompute_all now s)"
proof -
  have "during (fold (\<lambda>i s. recompute_subject_locked i now s) xs s)"
    if "\<forall>i\<in>set xs. i < length (hc_components cfg)" for xs
    using that weaken [OF assms] by (induction xs arbitrary: s) (auto simp: step)
  moreover have "length (hs_subjects s) = length (hc_components cfg)"
    by (rule size [OF weaken [OF assms]])
  ultimately show ?thesis by (auto simp: recompute_all_def intro!: seal)
qed

lemma refresh_committed:
  assumes "committed s"
  shows "committed (snd (refresh cfg s))"
proof -
  obtain now s1 where n: "now_ticks cfg (snd (drain_isr cfg 0 s)) = (now, s1)" by fastforce
  have s1: "committed s1"
    using now_ticks_committed [OF drain_isr_committed [OF assms, of 0]] n by simp
  have note_committed: "committed (note_first_refresh now t)" if "committed t" for t
    using that by (rule frame_committed) simp
  obtain r s2 where w: "with_storage cfg (\<lambda>s. ((), note_first_refresh now s)) HOp_Refresh s1 = (r, s2)"
    by fastforce
  have s2: "committed s2"
    using with_storage_committed [OF s1, of "\<lambda>s. ((), note_first_refresh now s)" HOp_Refresh]
    by (simp add: w note_committed)
  have "committed (snd (with_storage cfg (\<lambda>s. ((), recompute_all now s)) HOp_Refresh
      (refresh_sources cfg now s2)))"
    by (rule with_storage_committed [OF refresh_sources_committed [OF s2]]) (simp add: recompute_all_committed)
  then show ?thesis
    using s2 by (cases r) (simp_all add: refresh_def n w)
qed

end

section \<open>Reachable states\<close>

text \<open>
  One step is one call of the facility, or a step of the rest of the firmware. Every operation
  that may change the storage is here; the queries are covered by the world step.
\<close>

inductive health_step :: "'w health_config \<Rightarrow> 'w health \<Rightarrow> 'w health \<Rightarrow> bool" for cfg where
  step_world: "health_step cfg s (s\<lparr>hs_world := w\<rparr>)"
| step_waker: "health_step cfg s (set_supervisor_waker waker s)"
| step_report: "i < length (hc_components cfg) \<Longrightarrow> health_step cfg s (snd (report cfg i a q s))"
| step_progress: "i < length (hc_components cfg) \<Longrightarrow> health_step cfg s (snd (progress cfg i s))"
| step_adapter: "i < length (hc_components cfg) \<Longrightarrow>
    health_step cfg s (snd (commit_adapter cfg i a kind sid s))"
| step_report_isr: "i < length (hc_components cfg) \<Longrightarrow> health_step cfg s (snd (report_isr cfg i obs s))"
| step_observe: "k < length (hc_monitors cfg) \<Longrightarrow> health_step cfg s (snd (commit_monitor cfg k ob s))"
| step_assess: "i < length (hc_components cfg) \<Longrightarrow> health_step cfg s (snd (assess_component cfg i s))"
| step_check: "k < length (hc_monitors cfg) \<Longrightarrow> health_step cfg s (snd (run_check cfg k s))"
| step_drain: "health_step cfg s (snd (drain_isr cfg 0 s))"
| step_refresh: "health_step cfg s (snd (refresh cfg s))"

inductive health_reachable :: "'w health_config \<Rightarrow> 'w health \<Rightarrow> bool" for cfg where
  reach_init: "health_reachable cfg (initial_health cfg w)"
| reach_step: "health_reachable cfg s \<Longrightarrow> health_step cfg s s' \<Longrightarrow> health_reachable cfg s'"

context health_transaction
begin

lemma progress_committed: "committed s \<Longrightarrow> committed (snd (progress cfg i s))"
  by (erule frame_committed) (simp add: progress_def now_ticks_eq Let_def)

lemma report_isr_core: "health_core (snd (report_isr cfg i obs s)) = health_core s"
  by (simp add: report_isr_def now_ticks_eq try_send_isr_def)

lemma step_committed:
  assumes "health_step cfg s s'" and "committed s"
  shows "committed s'"
  using assms
proof (induction rule: health_step.induct)
  case (step_waker s waker)
  then show ?case by (auto simp: set_supervisor_waker_def elim: frame_committed)
next
  case (step_report_isr i s obs)
  then show ?case by (auto intro: frame_committed report_isr_core)
qed (simp_all add: world_committed report_committed progress_committed commit_adapter_committed
       commit_monitor_committed assess_component_committed run_check_committed drain_isr_committed
       refresh_committed)

lemma reachable_committed:
  assumes "health_reachable cfg s" and "\<And>w. committed (initial_health cfg w)"
  shows "committed s"
  using assms by (induction rule: health_reachable.induct) (auto intro: step_committed)

end

section \<open>The history and the system summary\<close>

definition history_invariant :: "'w health_config \<Rightarrow> 'w health \<Rightarrow> bool" where
  "history_invariant cfg s \<longleftrightarrow> wf_health_config cfg \<and>
     length (hs_history s) = hc_history_depth cfg \<and>
     (\<exists>log. history_of (length (hc_components cfg)) log s)"

definition summary_pending :: "'w health_config \<Rightarrow> 'w health \<Rightarrow> bool" where
  "summary_pending cfg s \<longleftrightarrow> wf_health_config cfg \<and> length (hs_subjects s) = length (hc_components cfg)"

definition summary_invariant :: "'w health_config \<Rightarrow> 'w health \<Rightarrow> bool" where
  "summary_invariant cfg s \<longleftrightarrow> summary_pending cfg s \<and>
     (hs_system s = default_system \<or> system_verdict (hs_subjects s) (hs_system s))"

lemma health_coreD:
  assumes "health_core s' = health_core s"
  shows "length (hs_subjects s') = length (hs_subjects s)"
    and "hs_history s' = hs_history s" and "hs_next_history_sequence s' = hs_next_history_sequence s"
    and "hs_history_overwritten s' = hs_history_overwritten s" and "hs_system s' = hs_system s"
    and "map subject_core (hs_subjects s') = map subject_core (hs_subjects s)"
  using assms by (auto simp: health_core_def dest: map_eq_imp_length_eq)

lemma subject_core_fields:
  assumes "map subject_core xs = map subject_core ys" and "f = f \<circ> subject_core"
  shows "map f xs = map f ys"
  using assms by (metis list.map_comp)

lemma core_comp:
  "sb_subject = sb_subject \<circ> subject_core" "sb_condition = sb_condition \<circ> subject_core"
  "sb_transition_count = sb_transition_count \<circ> subject_core"
  "sb_readiness = sb_readiness \<circ> subject_core" "sb_safety = sb_safety \<circ> subject_core"
  "sb_freshness = sb_freshness \<circ> subject_core"
  by (simp_all add: fun_eq_iff subject_core_def)

lemma map_eq_nth:
  assumes "map f xs = map f ys" and "i < length ys"
  shows "f (xs ! i) = f (ys ! i)"
  using assms by (metis map_eq_imp_length_eq nth_map)

lemma history_of_core:
  assumes "history_of n log s" and "health_core s' = health_core s"
  shows "history_of n log s'"
proof -
  note core = health_coreD [OF assms(2)]
  note fields = subject_core_fields [OF core(6)]
  show ?thesis
    using assms(1) core(1) history_repr_cong [OF core(2-4)]
      map_eq_nth [OF fields [OF core_comp(1)]] map_eq_nth [OF fields [OF core_comp(2)]]
      map_eq_nth [OF fields [OF core_comp(3)]]
    by (simp add: history_of_def)
qed

lemma length_filter_map_eq:
  assumes "map f xs = map f ys"
  shows "length (filter (\<lambda>x. P (f x)) xs) = length (filter (\<lambda>x. P (f x)) ys)"
proof -
  have "length (filter P (map f xs)) = length (filter P (map f ys))" using assms by simp
  then show ?thesis by (simp add: filter_map o_def)
qed

lemma system_verdict_core:
  assumes "map subject_core xs = map subject_core ys"
  shows "system_verdict xs sys \<longleftrightarrow> system_verdict ys sys"
proof -
  note fields = subject_core_fields [OF assms]
  have img: "f ` set xs = f ` set ys" if "f = f \<circ> subject_core" for f :: "subject_record \<Rightarrow> 'b"
    using fields [OF that] by (metis list.set_map)
  have "count_condition c xs = count_condition c ys" for c
    unfolding count_condition_def by (rule length_filter_map_eq [OF fields [OF core_comp(2)]])
  moreover have "length (filter (\<lambda>r. sb_freshness r = Fresh_Stale) xs) =
      length (filter (\<lambda>r. sb_freshness r = Fresh_Stale) ys)"
    by (rule length_filter_map_eq [OF fields [OF core_comp(6)]])
  ultimately show ?thesis
    using img [OF core_comp(2)] img [OF core_comp(4)] img [OF core_comp(5)] img [OF core_comp(6)]
    by (simp add: system_verdict_def)
qed

lemma history_of_recompute_system:
  "history_of n log (recompute_system_locked now s) \<longleftrightarrow> history_of n log s"
  by (simp add: history_of_def history_repr_def)

interpretation history: health_transaction cfg "history_invariant cfg" "history_invariant cfg" for cfg
proof unfold_locales
  show "history_invariant cfg s'" if "history_invariant cfg s" "health_core s' = health_core s" for s s'
    using that history_of_core [OF _ that(2)] health_coreD [OF that(2)]
    by (auto simp: history_invariant_def)
  show "history_invariant cfg (recompute_subject_locked i now s)"
    if "history_invariant cfg s" "i < length (hc_components cfg)" for s i now
    using that recompute_subject_history [of "length (hc_components cfg)" _ s i now]
    by (auto simp: history_invariant_def wf_health_config_def)
  show "history_invariant cfg (recompute_system_locked now s)" if "history_invariant cfg s" for s now
    using that by (simp add: history_invariant_def history_of_recompute_system)
qed (auto simp: history_invariant_def history_of_def)

interpretation summary: health_transaction cfg "summary_pending cfg" "summary_invariant cfg" for cfg
proof unfold_locales
  show "summary_invariant cfg s'" if "summary_invariant cfg s" "health_core s' = health_core s" for s s'
    using that health_coreD [OF that(2)] system_verdict_core [OF health_coreD(6) [OF that(2)]]
    by (auto simp: summary_invariant_def summary_pending_def)
  show "summary_invariant cfg (recompute_system_locked now s)" if "summary_pending cfg s" for s now
    using that recompute_system_verdict [of s now]
    by (simp add: summary_invariant_def summary_pending_def wf_health_config_def)
qed (auto simp: summary_invariant_def summary_pending_def dest: health_coreD)

lemma initial_history_invariant:
  assumes "wf_health_config cfg"
  shows "history_invariant cfg (initial_health cfg w)"
proof -
  have "history_of (length (hc_components cfg)) [] (initial_health cfg w)"
    using assms
    by (auto simp: history_of_def history_repr_def ring_repr_def chained_def replay_def transitions_of_def
          initial_health_def initial_subject_def wf_health_config_def)
  then show ?thesis
    using assms by (auto simp: history_invariant_def initial_health_def)
qed

lemma initial_summary_invariant:
  assumes "wf_health_config cfg"
  shows "summary_invariant cfg (initial_health cfg w)"
  using assms by (simp add: summary_invariant_def summary_pending_def initial_health_def)

section \<open>Evidence of a failed component\<close>

definition failed_evidence :: "nat \<Rightarrow> subject_state list \<Rightarrow> bool" where
  "failed_evidence i states \<longleftrightarrow> i < length states \<and>
     (let e = ss_lifecycle (states ! i) in
      es_present e \<and> es_required e \<and> es_availability e = Avl_Available \<and>
      as_condition (es_assessment e) = Cond_Faulted)"

lemma effective_condition_faulted:
  "as_condition (es_assessment e) = Cond_Faulted \<Longrightarrow> effective_condition now e = Cond_Faulted"
  by (simp add: effective_condition_def effective_assessment_def Let_def)

lemma failed_evidence_verdict:
  assumes "failed_evidence i (hs_subject_state s)"
  shows "subject_verdict now (subject_evidence i s) = Cond_Faulted"
proof -
  have "ss_lifecycle (hs_subject_state s ! i) \<in> set (subject_evidence i s)"
    by (simp add: subject_evidence_def sources_of_def)
  then have "required_says now (subject_evidence i s) Cond_Faulted"
    using assms unfolding required_says_def failed_evidence_def Let_def
    by (blast intro: effective_condition_faulted)
  then show ?thesis by (simp add: subject_verdict_def)
qed

lemma set_slot_lifecycle:
  "slot \<noteq> Slot_Lifecycle \<Longrightarrow> ss_lifecycle (set_slot slot e ss) = ss_lifecycle ss"
  by (cases slot) simp_all

lemma failed_evidence_update:
  assumes "failed_evidence i states" and "j \<noteq> i \<or> slot \<noteq> Slot_Lifecycle"
  shows "failed_evidence i (states[j := set_slot slot e (states ! j)])"
  using assms by (cases "j = i") (auto simp: failed_evidence_def nth_list_update set_slot_lifecycle Let_def)

lemma with_storage_result:
  "with_storage cfg body op s =
     (case fst (hc_lock cfg (hs_world s)) of
        Some e \<Rightarrow> (Inl (make_error e HR_Busy op invalid_value invalid_value 0 0),
                   s\<lparr>hs_world := snd (hc_lock cfg (hs_world s))\<rparr>)
      | None \<Rightarrow> map_prod Inr id (body (s\<lparr>hs_world := snd (hc_lock cfg (hs_world s))\<rparr>)))"
  by (simp add: with_storage_def Let_def map_prod_def split: prod.splits option.splits)

lemma recompute_subject_state [simp]: "hs_subject_state (recompute i now s) = hs_subject_state s"
  by (simp add: recompute_def)

lemma commit_source_state:
  "hs_subject_state (commit_source cfg j slot a q av req op kind s) = hs_subject_state s \<or>
   (\<exists>e. hs_subject_state (commit_source cfg j slot a q av req op kind s) =
      (hs_subject_state s)[j := set_slot slot e (hs_subject_state s ! j)])"
  by (auto simp: commit_source_def now_ticks_eq with_storage_result put_source_def split: option.splits)

lemma commit_monitor_state: "hs_subject_state (snd (commit_monitor cfg k obs s)) = hs_subject_state s"
  by (auto simp: commit_monitor_def now_ticks_eq with_storage_result Let_def split: option.splits)

lemma read_state: "hs_subject_state (snd (with_storage cfg (\<lambda>s. (f s, s)) op s)) = hs_subject_state s"
  by (simp add: with_storage_result split: option.splits)

lemma run_check_state: "hs_subject_state (snd (run_check cfg k s)) = hs_subject_state s"
  by (simp add: run_check_def Let_def commit_monitor_state split: prod.splits sum.splits)

lemma upt_split_at: "i < n \<Longrightarrow> [0..<n] = [0..<i] @ i # [Suc i..<n]"
  using upt_add_eq_append [of 0 i "n - i"] by (simp add: upt_conv_Cons)

lemma fold_preserves:
  assumes "P s" and "\<And>x s. x \<in> set xs \<Longrightarrow> P s \<Longrightarrow> P (f x s)"
  shows "P (fold f xs s)"
  using assms by (induction xs arbitrary: s) auto

text \<open>
  Properties of the stored evidence that survive every write except the one to the lifecycle slot of
  component \<open>i\<close>.
\<close>

locale evidence_frame =
  fixes i :: nat and Q :: "subject_state list \<Rightarrow> bool"
  assumes update: "Q states \<Longrightarrow> j \<noteq> i \<or> slot \<noteq> Slot_Lifecycle \<Longrightarrow>
    Q (states[j := set_slot slot e (states ! j)])"
begin

lemma commit_source_keeps:
  assumes "Q (hs_subject_state s)" and "j \<noteq> i \<or> slot \<noteq> Slot_Lifecycle"
  shows "Q (hs_subject_state (commit_source cfg j slot a q av req op kind s))"
  using commit_source_state [of cfg j slot a q av req op kind s] update [OF assms] assms(1) by auto

lemma refresh_execution_keeps:
  "Q (hs_subject_state s) \<Longrightarrow> Q (hs_subject_state (refresh_execution cfg j s))"
  by (auto simp: refresh_execution_def intro!: commit_source_keeps split: health_category.splits)

lemma refresh_lifecycle_keeps:
  "Q (hs_subject_state s) \<Longrightarrow> j \<noteq> i \<Longrightarrow> Q (hs_subject_state (refresh_lifecycle cfg j s))"
  by (auto simp: refresh_lifecycle_def intro!: commit_source_keeps split: sum.splits)

lemma refresh_remote_keeps:
  "Q (hs_subject_state s) \<Longrightarrow> Q (hs_subject_state (refresh_remote cfg s))"
  by (auto simp: refresh_remote_def intro!: commit_source_keeps split: option.splits)

lemma assess_component_keeps:
  assumes "Q (hs_subject_state s)"
  shows "Q (hs_subject_state (snd (assess_component cfg j s)))"
proof (cases "hm_contract (hc_components cfg ! j)")
  case No_Assess
  then show ?thesis using assms by (simp add: assess_component_def)
next
  case (Assess assess period)
  obtain r w where r: "assess (hs_world s) = (r, w)" by fastforce
  show ?thesis
  proof (cases r)
    case (Inl e)
    then show ?thesis
      using assms r Assess by (simp add: assess_component_def Let_def commit_source_keeps)
  next
    case (Inr a)
    obtain prior s1 where p: "subject_record_of cfg j (s\<lparr>hs_world := w\<rparr>) = (prior, s1)" by fastforce
    define s2 where "s2 = commit_source cfg j Slot_Assessment a Ev_Reported Avl_Available True
                          HOp_Assess Src_ComponentAssessment s1"
    have "hs_subject_state s1 = hs_subject_state s"
      using read_state [of cfg "\<lambda>s. hs_subjects s ! j" HOp_Query "s\<lparr>hs_world := w\<rparr>"] p
      by (simp add: subject_record_of_def)
    then have "Q (hs_subject_state s2)"
      using assms by (simp add: s2_def commit_source_keeps)
    moreover have "hs_subject_state (snd (subject_record_of cfg j s2)) = hs_subject_state s2"
      by (simp add: subject_record_of_def read_state)
    ultimately show ?thesis
      using r Inr Assess p
      by (auto simp: assess_component_def Let_def s2_def [symmetric] split: prod.splits sum.splits)
  qed
qed

lemma refresh_assessment_keeps:
  fixes s :: "'w health"
  assumes "Q (hs_subject_state s)"
  shows "Q (hs_subject_state (refresh_assessment cfg j now s))"
proof -
  define body where "body = (\<lambda>s :: 'w health. (es_observed_at (ss_assessment (hs_subject_state s ! j)), s))"
  obtain r t where rt: "with_storage cfg body HOp_Query s = (r, t)" by fastforce
  have "hs_subject_state t = hs_subject_state s"
    using read_state [of cfg "fst \<circ> body" HOp_Query s] rt by (simp add: body_def)
  then have t: "Q (hs_subject_state t)" using assms by simp
  show ?thesis
    using assms t assess_component_keeps [OF t]
    by (simp add: refresh_assessment_def body_def [symmetric] rt Let_def split: health_contract.splits)
qed

lemma refresh_monitor_keeps:
  fixes s :: "'w health"
  assumes "Q (hs_subject_state s)"
  shows "Q (hs_subject_state (refresh_monitor cfg k now s))"
proof -
  define body where "body = (\<lambda>s :: 'w health. (hs_monitors s ! k, s))"
  obtain r t where rt: "with_storage cfg body HOp_Query s = (r, t)" by fastforce
  have "hs_subject_state t = hs_subject_state s"
    using read_state [of cfg "\<lambda>s. hs_monitors s ! k" HOp_Query s] rt by (simp add: body_def)
  then have t: "Q (hs_subject_state t)" using assms by simp
  have "hs_subject_state (refresh_progress cfg k now t) = hs_subject_state t"
    "hs_subject_state (refresh_stack cfg k now t) = hs_subject_state t"
    by (simp_all add: refresh_progress_def refresh_stack_def Let_def commit_monitor_state split: prod.splits)
  then show ?thesis
    using t refresh_execution_keeps [OF t]
    by (simp add: refresh_monitor_def body_def [symmetric] rt Let_def run_check_state split: monitor_kind.splits)
qed

lemma report_keeps:
  assumes "Q (hs_subject_state s)"
  shows "Q (hs_subject_state (snd (report cfg j a q s)))"
proof -
  have wake: "hs_subject_state (wake_supervisor t) = hs_subject_state t" for t :: "'a health"
    by (simp add: wake_supervisor_def split: option.splits)
  have "Q ((hs_subject_state s)[j := (hs_subject_state s ! j)\<lparr>ss_reported := e\<rparr>])" for e
    using update [OF assms, of j Slot_Reported e] by simp
  then show ?thesis
    using assms
    by (auto simp: report_def now_ticks_eq with_storage_result report_locked_def put_source_def
          Let_def wake split: option.splits prod.splits sum.splits)
qed

lemma drain_isr_keeps: "Q (hs_subject_state s) \<Longrightarrow> Q (hs_subject_state (snd (drain_isr cfg n s)))"
proof (induction "length (hs_ingress s)" arbitrary: n s)
  case 0
  then show ?case by (subst drain_isr.simps) (simp add: try_receive_def)
next
  case (Suc m)
  then obtain r q where q: "hs_ingress s = r # q" by (metis length_Suc_conv)
  define t where "t = deliver_isr_report cfg r (s\<lparr>hs_ingress := q\<rparr>)"
  have "Q (hs_subject_state (snd (fold (\<lambda>i (matched, s).
            if \<not> matched \<and> of_nat i = ir_subject r
            then (True, snd (report cfg i (isr_assessment cfg r) Ev_Reported s))
            else (matched, s)) xs (b, u))))" if "Q (hs_subject_state u)" for xs b u
    using that by (induction xs arbitrary: b u) (auto simp: report_keeps)
  then have "Q (hs_subject_state t)" using Suc.prems by (simp add: t_def deliver_isr_report_def)
  moreover have "m = length (hs_ingress t)" using Suc.hyps(2) q by (simp add: t_def deliver_isr_report_ingress)
  ultimately have "Q (hs_subject_state (snd (drain_isr cfg (n + 1) t)))" by (intro Suc.hyps(1))
  then show ?case by (subst drain_isr.simps) (simp add: try_receive_def q t_def)
qed

lemma refresh_component_keeps:
  "Q (hs_subject_state s) \<Longrightarrow> j \<noteq> i \<Longrightarrow> Q (hs_subject_state (refresh_component cfg now j s))"
  unfolding refresh_component_def
  by (intro refresh_assessment_keeps refresh_execution_keeps refresh_lifecycle_keeps)

end

interpretation failed: evidence_frame i "failed_evidence i" for i
  by unfold_locales (rule failed_evidence_update)

interpretation sized: evidence_frame i "\<lambda>states. length states = n" for i n
  by unfold_locales simp

lemma refresh_lifecycle_failed:
  assumes unlocked: "\<And>w. fst (hc_lock cfg w) = None"
    and failed: "\<And>w. \<exists>rec. hm_lifecycle (hc_components cfg ! i) w = Inr rec \<and> cr_state rec = Comp_Failed"
    and i: "i < length (hs_subject_state s)"
  shows "failed_evidence i (hs_subject_state (refresh_lifecycle cfg i s))"
proof -
  obtain rec where rec: "hm_lifecycle (hc_components cfg ! i) (hs_world s) = Inr rec" "cr_state rec = Comp_Failed"
    using failed by blast
  then show ?thesis
    using i unlocked
    by (simp add: refresh_lifecycle_def commit_source_def now_ticks_eq with_storage_result put_source_def
          failed_evidence_def stamp_error_def)
qed

lemma refresh_sources_failed:
  assumes unlocked: "\<And>w. fst (hc_lock cfg w) = None"
    and failed: "\<And>w. \<exists>rec. hm_lifecycle (hc_components cfg ! i) w = Inr rec \<and> cr_state rec = Comp_Failed"
    and i: "i < length (hc_components cfg)" and len: "length (hs_subject_state s) = length (hc_components cfg)"
  shows "failed_evidence i (hs_subject_state (refresh_sources cfg now s))"
proof -
  define n where "n = length (hc_components cfg)"
  define s1 where "s1 = fold (refresh_component cfg now) [0..<i] s"
  have "length (hs_subject_state s1) = n"
    unfolding s1_def
    by (rule fold_preserves [where P = "\<lambda>s. length (hs_subject_state s) = n"])
       (use len in \<open>simp_all add: n_def sized.refresh_component_keeps [where i = i]\<close>)
  then have "failed_evidence i (hs_subject_state (refresh_lifecycle cfg i s1))"
    using i by (intro refresh_lifecycle_failed [OF unlocked failed]) (simp add: n_def)
  then have "failed_evidence i (hs_subject_state (refresh_component cfg now i s1))"
    unfolding refresh_component_def by (intro failed.refresh_assessment_keeps failed.refresh_execution_keeps)
  then have "failed_evidence i (hs_subject_state
      (fold (refresh_component cfg now) [Suc i..<n] (refresh_component cfg now i s1)))"
    by (rule fold_preserves [where P = "\<lambda>s. failed_evidence i (hs_subject_state s)"])
       (simp add: failed.refresh_component_keeps)
  moreover have "[0..<n] = [0..<i] @ i # [Suc i..<n]"
    using i by (intro upt_split_at) (simp add: n_def)
  ultimately have comps: "failed_evidence i (hs_subject_state (fold (refresh_component cfg now) [0..<n] s))"
    by (simp only: s1_def fold_append o_apply fold_Cons)
  show ?thesis
    unfolding refresh_sources_def Let_def n_def [symmetric]
    by (intro failed.refresh_remote_keeps fold_preserves [where P = "\<lambda>s. failed_evidence i (hs_subject_state s)"]
          failed.refresh_monitor_keeps comps)
qed

lemma recompute_all_condition:
  fixes s :: "'w health"
  assumes i: "i < length (hs_subjects s)" and e: "failed_evidence i (hs_subject_state s)"
  shows "sb_condition (hs_subjects (recompute_all now s) ! i) = Cond_Faulted"
proof -
  define n where "n = length (hs_subjects s)"
  define f where "f = (\<lambda>i (s :: 'w health). recompute_subject_locked i now s)"
  define P where "P = (\<lambda>s :: 'w health. failed_evidence i (hs_subject_state s) \<and> length (hs_subjects s) = n)"
  have "P s" using e by (simp add: P_def n_def)
  define s1 where "s1 = fold f [0..<i] s"
  have P1: "P s1" unfolding s1_def using \<open>P s\<close> by (rule fold_preserves) (simp add: P_def f_def)
  have "sb_condition (hs_subjects (f i s1) ! i) = Cond_Faulted"
    using P1 i failed_evidence_verdict [of i s1 now]
    by (simp add: P_def f_def n_def reassessed_fields)
  then have "sb_condition (hs_subjects (fold f [Suc i..<n] (f i s1)) ! i) = Cond_Faulted"
    by (rule fold_preserves [where P = "\<lambda>s. sb_condition (hs_subjects s ! i) = Cond_Faulted"])
       (simp add: f_def)
  moreover have "[0..<n] = [0..<i] @ i # [Suc i..<n]"
    using i by (intro upt_split_at) (simp add: n_def)
  ultimately show ?thesis
    by (simp add: recompute_all_def n_def [symmetric] f_def [symmetric] s1_def)
qed

end
