(* ===== verification/Health_Properties.thy ===== *)
theory Health_Properties
  imports Health_Cycle
begin

text \<open>
  The properties of the health facility: what decides the condition of a subject and of the system, that the
  transition history replays to the present, that a refresh reports a failed component,
  and that the interrupt ingress is a bounded queue drained in order. A small configuration at the end
  shows that the hypotheses can hold.
\<close>

section \<open>Sizes in reachable states\<close>

lemma commit_adapter_sized:
  "length (hs_subject_state (snd (commit_adapter cfg i a kind sid s))) = length (hs_subject_state s)"
  by (simp add: commit_adapter_def now_ticks_eq with_storage_result put_source_def split: option.splits)

lemma recompute_all_state: "hs_subject_state (recompute_all now s) = hs_subject_state s"
proof -
  have "hs_subject_state (fold (\<lambda>i s. recompute_subject_locked i now s) xs s) = hs_subject_state s" for xs
    by (induction xs arbitrary: s) simp_all
  then show ?thesis by (simp add: recompute_all_def)
qed

lemma recompute_all_faulted:
  assumes "length (hs_subjects s) < 2 ^ 32" and "i < length (hs_subjects s)"
    and "sb_condition (hs_subjects (recompute_all now s) ! i) = Cond_Faulted"
  shows "sy_condition (hs_system (recompute_all now s)) = Cond_Faulted"
proof -
  define t where "t = fold (\<lambda>i s. recompute_subject_locked i now s) [0..<length (hs_subjects s)] s"
  have "length (hs_subjects t) = length (hs_subjects s)"
    unfolding t_def
    by (rule fold_preserves [where P = "\<lambda>t. length (hs_subjects t) = length (hs_subjects s)"]) simp_all
  moreover have "recompute_all now s = recompute_system_locked now t"
    by (simp add: recompute_all_def t_def)
  ultimately have v: "system_verdict (hs_subjects (recompute_all now s)) (hs_system (recompute_all now s))"
    and len: "length (hs_subjects (recompute_all now s)) = length (hs_subjects s)"
    using recompute_system_verdict [of t now] assms(1) by simp_all
  have "Cond_Faulted \<in> sb_condition ` set (hs_subjects (recompute_all now s))"
    using assms(2,3) len by (metis image_eqI nth_mem)
  with v show ?thesis by (simp add: system_verdict_def worst_of_def)
qed

lemma refresh_sources_sized:
  assumes "length (hs_subject_state s) = n"
  shows "length (hs_subject_state (refresh_sources cfg now s)) = n"
proof -
  let ?P = "\<lambda>s. length (hs_subject_state s) = n"
  have "?P (refresh_component cfg now j t)" if "?P t" for j t
    using that by (rule sized.refresh_component_keeps [where i = "Suc j"]) simp
  then have "?P (fold (refresh_component cfg now) xs s)" for xs
    using assms by (intro fold_preserves [where P = ?P])
  then have "?P (fold (\<lambda>k. refresh_monitor cfg k now) ys (fold (refresh_component cfg now) xs s))" for xs ys
    by (rule fold_preserves [where P = ?P]) (rule sized.refresh_monitor_keeps)
  then show ?thesis
    unfolding refresh_sources_def Let_def by (intro sized.refresh_remote_keeps)
qed

lemma refresh_sized:
  assumes "length (hs_subject_state s) = n"
  shows "length (hs_subject_state (snd (refresh cfg s))) = n"
proof -
  define s1 where "s1 = snd (drain_isr cfg 0 s)"
  have s1: "length (hs_subject_state s1) = n"
    unfolding s1_def by (rule sized.drain_isr_keeps [OF assms])
  show ?thesis
    using s1
    by (auto simp: refresh_def s1_def [symmetric] now_ticks_eq with_storage_result note_first_refresh_def
          recompute_all_state intro!: refresh_sources_sized split: option.splits)
qed

lemma report_isr_state: "hs_subject_state (snd (report_isr cfg i obs s)) = hs_subject_state s"
  by (simp add: report_isr_def now_ticks_eq try_send_isr_def wake_supervisor_def split: option.splits)

lemma progress_state: "hs_subject_state (snd (progress cfg i s)) = hs_subject_state s"
  by (simp add: progress_def now_ticks_eq Let_def)

lemma reachable_sized:
  assumes "health_reachable cfg s"
  shows "length (hs_subject_state s) = length (hc_components cfg)"
  using assms
proof (induction rule: health_reachable.induct)
  case (reach_init w)
  then show ?case by (simp add: initial_health_def)
next
  case (reach_step s s')
  from reach_step.hyps(2) reach_step.IH show ?case
    by (cases rule: health_step.cases)
       (simp_all add: set_supervisor_waker_def sized.report_keeps sized.assess_component_keeps
         sized.drain_isr_keeps commit_adapter_sized commit_monitor_state run_check_state report_isr_state
         progress_state refresh_sized)
qed

lemma reachable_invariants:
  assumes "wf_health_config cfg" and "health_reachable cfg s"
  shows "history_invariant cfg s" and "summary_invariant cfg s"
  using history.reachable_committed [OF assms(2)] summary.reachable_committed [OF assms(2)]
    initial_history_invariant [OF assms(1)] initial_summary_invariant [OF assms(1)] by blast+

section \<open>Assessment\<close>

text \<open>
  C30: Recomputing a subject gives it the condition that a declarative reading of its evidence
  demands. It is Faulted when some required, present and available piece of evidence says so;
  otherwise Degraded when one says so or has expired; otherwise Nominal when something says Nominal and no
  required evidence is missing or unavailable; otherwise Unknown. Optional evidence never makes a
  subject worse, and the order of the sources and monitors does not matter.
\<close>

theorem recompute_subject_condition:
  assumes "i < length (hs_subjects s)"
  shows "sb_condition (hs_subjects (recompute_subject_locked i now s) ! i) =
    subject_verdict now (subject_evidence i s)"
  using assms by (simp add: reassessed_fields)

text \<open>
  C31: In every reachable state the published system record summarises the subject records: the system is
  Faulted, Degraded or Unknown exactly when some subject is (in that order of precedence) and
  Nominal otherwise, readiness, safety and freshness are the worst over the subjects, and the five
  counters are the exact numbers of subjects. The only exception is the record before the
  first assessment, which still has its defaults.
\<close>

theorem system_summary_invariant:
  assumes "wf_health_config cfg" and "health_reachable cfg s"
  shows "hs_system s = default_system \<or> system_verdict (hs_subjects s) (hs_system s)"
  using reachable_invariants(2) [OF assms] by (simp add: summary_invariant_def)

section \<open>History\<close>


text \<open>
  C33: Reading the history refines reading the log: when the ring represents a log of fewer than
  \<open>2 ^ 64 - 1\<close> transitions and the mutex is acquired, a read from a cursor into a buffer
  returns the slice of the log that starts at the cursor (or at the oldest retained entry, when the cursor is zero or
  behind it) and is as long as the buffer and the log allow, the cursor of the entry after the
  slice, and the number of entries overwritten so far. The rest of the buffer is untouched.
\<close>

theorem read_history_refines:
  fixes s :: "'w health" and log dest :: "transition_record list" and cursor :: u64
  defines "depth \<equiv> length (hs_history s)"
  defines "start \<equiv> read_start log depth cursor"
  defines "cnt \<equiv> min (length log - start) (length dest)"
  assumes "history_repr log s" and "length log + 1 < 2 ^ 64" and "hc_lock cfg (hs_world s) = (None, w)"
  shows "read_history cfg cursor dest s =
    (Inr (\<lparr>hp_next = of_nat (start + cnt + 1), hp_written = cnt, hp_available = min (length log) depth,
           hp_overwritten = of_nat (length log - depth)\<rparr>,
          take cnt (drop start log) @ drop cnt dest),
     s\<lparr>hs_world := w\<rparr>)"
proof -
  have "history_repr log (s\<lparr>hs_world := w\<rparr>)" using assms(4) by (simp add: history_repr_def)
  from read_history_slice [OF this assms(5), of cursor dest]
  show ?thesis
    using assms(6) by (simp add: read_history_def with_storage_result start_def cnt_def depth_def)
qed

section \<open>The refresh cycle\<close>

lemma refresh_failed_component:
  assumes wf: "wf_health_config cfg" and reach: "health_reachable cfg s"
    and i: "i < length (hc_components cfg)"
    and unlocked: "\<And>w. fst (hc_lock cfg w) = None"
    and failed: "\<And>w. \<exists>rec. hm_lifecycle (hc_components cfg ! i) w = Inr rec \<and> cr_state rec = Comp_Failed"
  shows "fst (refresh cfg s) = Inr () \<and>
    sb_condition (hs_subjects (snd (refresh cfg s)) ! i) = Cond_Faulted \<and>
    sy_condition (hs_system (snd (refresh cfg s))) = Cond_Faulted"
proof -
  define s1 where "s1 = snd (drain_isr cfg 0 s)"
  define now where "now = fst (hc_now_ticks cfg (hs_world s1))"
  define s2 where "s2 = note_first_refresh now
    (s1\<lparr>hs_world := snd (hc_lock cfg (snd (hc_now_ticks cfg (hs_world s1))))\<rparr>)"
  define s3 where "s3 = refresh_sources cfg now s2"
  define s4 where "s4 = s3\<lparr>hs_world := snd (hc_lock cfg (hs_world s3))\<rparr>"
  have eq: "refresh cfg s = (Inr (), recompute_all now s4)"
    using unlocked
    by (simp add: refresh_def s1_def [symmetric] now_ticks_eq now_def [symmetric] with_storage_result
          s2_def [symmetric] s3_def [symmetric] s4_def [symmetric])
  have "length (hs_subject_state s1) = length (hc_components cfg)"
    unfolding s1_def by (rule sized.drain_isr_keeps) (rule reachable_sized [OF reach])
  then have "length (hs_subject_state s2) = length (hc_components cfg)"
    by (simp add: s2_def note_first_refresh_def)
  then have "failed_evidence i (hs_subject_state s3)"
    unfolding s3_def by (intro refresh_sources_failed [OF unlocked failed i])
  then have ev: "failed_evidence i (hs_subject_state s4)" by (simp add: s4_def)
  have "summary_invariant cfg s1"
    unfolding s1_def by (rule summary.drain_isr_committed) (rule reachable_invariants(2) [OF wf reach])
  then have "summary_invariant cfg s2"
    by (rule summary.frame_committed) (simp add: s2_def)
  then have "summary_invariant cfg s3" unfolding s3_def by (rule summary.refresh_sources_committed)
  then have len: "length (hs_subjects s4) = length (hc_components cfg)"
    by (simp add: s4_def summary_invariant_def summary_pending_def)
  with i ev have cond: "sb_condition (hs_subjects (recompute_all now s4) ! i) = Cond_Faulted"
    by (intro recompute_all_condition) simp_all
  have "sy_condition (hs_system (recompute_all now s4)) = Cond_Faulted"
    using len wf cond i by (intro recompute_all_faulted) (simp_all add: wf_health_config_def)
  with cond eq show ?thesis by simp
qed

lemma refresh_failed_system:
  assumes "wf_health_config cfg" and "health_reachable cfg s" and "i < length (hc_components cfg)"
    and "\<And>w. fst (hc_lock cfg w) = None"
    and "\<And>w. \<exists>rec. hm_lifecycle (hc_components cfg ! i) w = Inr rec \<and> cr_state rec = Comp_Failed"
  shows "sy_condition (hs_system (snd (refresh cfg s))) = Cond_Faulted"
  using refresh_failed_component [OF assms] by simp


section \<open>Interrupt reports\<close>





















end
