(* ===== verification/Health_Examples.thy ===== *)
theory Health_Examples
  imports Health_Properties
begin

text \<open>
  A two-component system for the health facility: component 0 is held as Failed by the lifecycle
  engine, component 1 is running and has a progress monitor. The world is a tick counter
  that advances with every read of the clock, and the mutex is always free. The properties are
  applied to it.
\<close>

definition example_record :: "component_state \<Rightarrow> status \<Rightarrow> nat component_record" where
  "example_record st final_status =
     \<lparr>cr_category = Cat_Service, cr_state = st, cr_init = initial_hook True, cr_start = initial_hook True,
      cr_stop = initial_hook True, cr_deinit = initial_hook True, cr_last_operation = LOp_Start,
      cr_last_status = final_status, cr_first_failure = None, cr_transitions = 4, cr_attempts = 2,
      cr_init_succeeded = True, cr_start_succeeded = (st = Comp_Running),
      cr_execution_prepared = True, cr_execution_contained = False, cr_cleanup_blocked = False\<rparr>"

definition example_health :: "int health_config" where
  "example_health =
     \<lparr>hc_components =
        [\<lparr>hm_category = Observe_None, hm_contract = No_Assess,
          hm_lifecycle = (\<lambda>_. Inr (example_record Comp_Failed St_Timeout))\<rparr>,
         \<lparr>hm_category = Observe_None, hm_contract = No_Assess,
          hm_lifecycle = (\<lambda>_. Inr (example_record Comp_Running St_Ok))\<rparr>],
      hc_monitors =
        [\<lparr>hn_owner = 1, hn_descriptor = \<lparr>cd_kind = Mon_Progress, cd_period_ns = 1000000,
            cd_stale_after_ns = 2000000, cd_stack_margin_bytes = 0, cd_required = True\<rparr>,
          hn_check = (\<lambda>w. (Inl Err_Opaque, w))\<rparr>],
      hc_remote = None,
      hc_history_depth = 4,
      hc_isr_ingress_depth = 2,
      hc_default_stale_ms = 1000,
      hc_progress_grace_ms = 10,
      hc_errno = linux_errno,
      hc_ns_to_ticks_ceil = (\<lambda>ns. ns div 100000 + 1),
      hc_now_ticks = (\<lambda>w. (w, w + 1)),
      hc_lock = (\<lambda>w. (None, w)),
      hc_stack_usage = (\<lambda>_ _ _. Inr 128)\<rparr>"

lemma example_wf: "wf_health_config example_health"
  by (simp add: wf_health_config_def example_health_def local_id_index_def)

lemma example_size: "length (hc_components example_health) = 2"
  by (simp add: example_health_def)

theorem recompute_subject_condition_witness:
  "sb_condition (hs_subjects (recompute_subject_locked 1 7 (initial_health example_health 5)) ! 1) =
     subject_verdict 7 (subject_evidence 1 (initial_health example_health 5))"
  by (rule recompute_subject_condition) (simp add: initial_health_def example_size)

definition example_reported :: "int health" where
  "example_reported = snd (report example_health 1 nominal Ev_Reported (initial_health example_health 5))"

lemma example_reachable: "health_reachable example_health example_reported"
  unfolding example_reported_def
  by (rule reach_step [OF reach_init step_report]) (simp add: example_size)

theorem system_summary_invariant_witness:
  "hs_system example_reported = default_system \<or>
   system_verdict (hs_subjects example_reported) (hs_system example_reported)"
  by (rule system_summary_invariant [OF example_wf example_reachable])


text \<open>One transition, appended to the initial storage.\<close>

definition example_transition :: subject_record where
  "example_transition = (initial_subject 1)\<lparr>sb_condition := Cond_Nominal, sb_assessed_at := 9\<rparr>"

definition example_history :: "int health" where
  "example_history = append_history example_transition Cond_Unknown None (initial_health example_health 5)"

lemma example_history_repr:
  "history_repr [history_entry [] example_transition Cond_Unknown None] example_history"
proof -
  have "history_repr [] (initial_health example_health 5)"
    by (simp add: history_repr_def ring_repr_def initial_health_def example_health_def)
  from append_history_refines [OF this, of Cond_Unknown example_transition None]
  show ?thesis by (simp add: example_history_def example_transition_def)
qed

theorem read_history_refines_witness:
  "read_history example_health 0 [default_transition, default_transition] example_history =
     (Inr (\<lparr>hp_next = 2, hp_written = 1, hp_available = 1, hp_overwritten = 0\<rparr>,
           [history_entry [] example_transition Cond_Unknown None, default_transition]),
      example_history)"
proof -
  have lock: "hc_lock example_health (hs_world example_history) = (None, hs_world example_history)"
    by (simp add: example_health_def)
  have depth: "length (hs_history example_history) = 4"
    by (simp add: example_history_def initial_health_def example_health_def)
  show ?thesis
    using read_history_refines [OF example_history_repr _ lock, where cursor = 0
        and dest = "[default_transition, default_transition]"]
    by (simp add: read_start_def depth)
qed



end
