(* ===== verification/Supervisor_Properties.thy ===== *)
theory Supervisor_Properties
  imports Supervisor_Service Health_Examples
begin

text \<open>
  The properties of the supervisor: when it feeds the watchdog, how many responses a cycle executes
  and records, how often a recovery is attempted.
\<close>

section \<open>Frames of a response\<close>

text \<open>What a response leaves alone in the supervisor's storage.\<close>

definition feed_counts :: "sup_storage \<Rightarrow> u32 \<times> u32 \<times> u32" where
  "feed_counts su = (wd_feeds (su_watchdog su), wd_failures (su_watchdog su), wd_withheld (su_watchdog su))"

definition response_ring :: "sup_storage \<Rightarrow> response_record list \<times> u64 \<times> u64" where
  "response_ring su = (su_history su, su_next_sequence su, su_overwritten su)"

lemma execute_action_frame:
  assumes "execute_action cfg action (su, h) = (r, su', h')"
  shows "feed_counts su' = feed_counts su" and "response_ring su' = response_ring su"
    and "su_rules su' = su_rules su" and "su_subject_records su' = su_subject_records su"
  using assms
  by (cases action; auto simp: feed_counts_def response_ring_def split: prod.splits)+

lemma append_response_frame:
  assumes "append_response rec subj su = (subj', su')"
  shows "feed_counts su' = feed_counts su" and "su_rules su' = su_rules su"
    and "su_watchdog su' = su_watchdog su"
  using assms by (auto simp: append_response_def feed_counts_def Let_def)

lemma append_response_ring:
  assumes "append_response rec subj su = (subj', su')"
    and "ring_repr rr_sequence log (su_history su) (su_next_sequence su) (su_overwritten su)"
  shows "\<exists>e. ring_repr rr_sequence (log @ [e]) (su_history su') (su_next_sequence su') (su_overwritten su')"
proof -
  define e where "e = rec\<lparr>rr_sequence := su_next_sequence su\<rparr>"
  have "rr_sequence e = su_next_sequence su" by (simp add: e_def)
  from ring_repr_push [OF assms(2) this]
  have "ring_repr rr_sequence (log @ [e]) (su_history su') (su_next_sequence su') (su_overwritten su')"
    using assms(1) by (auto simp: append_response_def Let_def e_def [symmetric] split: if_splits)
  then show ?thesis by blast
qed

text \<open>
  The facts about a run that every response keeps: the feed counters, the rule states, and that the
  responses so far are at most the budget and are exactly the entries appended to the log.
\<close>

definition run_logged ::
  "'w sup_config \<Rightarrow> response_record list \<Rightarrow> 'w cycle_run \<Rightarrow> bool" where
  "run_logged cfg log run \<longleftrightarrow>
     cy_responses run \<le> sc_max_responses_per_cycle cfg \<and>
     (\<exists>entries. length entries = unat (cy_responses run) \<and>
        ring_repr rr_sequence (log @ entries) (su_history (cy_sup run)) (su_next_sequence (cy_sup run))
          (su_overwritten (cy_sup run)))"

lemma perform_response_cases:
  assumes "cy_panic run = None" and "cy_responses run < sc_max_responses_per_cycle cfg"
  obtains r su1 h1 subj su2 where
    "execute_action cfg action (cy_sup run, cy_health run) = (r, su1, h1)"
    and "\<exists>rec. append_response rec (cy_subjects run ! rule_index rule (sc_rules cfg)) su1 = (subj, su2)"
    and "cy_sup (perform_response cfg now gen rule action run) = su2"
    and "cy_responses (perform_response cfg now gen rule action run) = cy_responses run + 1"
proof -
  obtain r su1 h1 where x: "execute_action cfg action (cy_sup run, cy_health run) = (r, su1, h1)"
    by (metis prod_cases3)
  define rec where "rec = \<lparr>rr_sequence = 0, rr_subject = of_nat (ru_subject rule), rr_trigger = ru_trigger rule,
               rr_action = action_kind_of action, rr_outcome = ar_outcome r,
               rr_status = ar_status r, rr_attempted_at = now,
               rr_attempt = rl_attempts (su_rules su1 ! rule_index rule (sc_rules cfg)),
               rr_health_generation = gen\<rparr>"
  obtain subj su2 where a: "append_response rec (cy_subjects run ! rule_index rule (sc_rules cfg)) su1 = (subj, su2)"
    by fastforce
  then have "\<exists>rec. append_response rec (cy_subjects run ! rule_index rule (sc_rules cfg)) su1 = (subj, su2)"
    by blast
  then show thesis
    using that [OF x] assms x a
    by (simp add: perform_response_def Let_def rec_def not_le [symmetric])
qed

lemma perform_response_skip:
  assumes "cy_panic run \<noteq> None \<or> cy_responses run \<ge> sc_max_responses_per_cycle cfg"
  shows "feed_counts (cy_sup (perform_response cfg now gen rule action run)) = feed_counts (cy_sup run)"
    and "response_ring (cy_sup (perform_response cfg now gen rule action run)) = response_ring (cy_sup run)"
    and "su_rules (cy_sup (perform_response cfg now gen rule action run)) = su_rules (cy_sup run)"
    and "cy_responses (perform_response cfg now gen rule action run) = cy_responses run"
  using assms by (auto simp: perform_response_def feed_counts_def response_ring_def)

lemma run_logged_cong:
  assumes "response_ring (cy_sup run') = response_ring (cy_sup run)" and "cy_responses run' = cy_responses run"
  shows "run_logged cfg log run' \<longleftrightarrow> run_logged cfg log run"
  using assms by (simp add: run_logged_def response_ring_def)

lemma perform_response_frame:
  "feed_counts (cy_sup (perform_response cfg now gen rule action run)) = feed_counts (cy_sup run) \<and>
   su_rules (cy_sup (perform_response cfg now gen rule action run)) = su_rules (cy_sup run) \<and>
   (run_logged cfg log run \<longrightarrow> run_logged cfg log (perform_response cfg now gen rule action run))"
proof (cases "cy_panic run = None \<and> cy_responses run < sc_max_responses_per_cycle cfg")
  case False
  then have skip: "cy_panic run \<noteq> None \<or> cy_responses run \<ge> sc_max_responses_per_cycle cfg" by auto
  show ?thesis
    using perform_response_skip [OF skip, of now gen rule action] run_logged_cong by blast
next
  case True
  then obtain r su1 h1 subj su2 rec where
    x: "execute_action cfg action (cy_sup run, cy_health run) = (r, su1, h1)"
    and a: "append_response rec (cy_subjects run ! rule_index rule (sc_rules cfg)) su1 = (subj, su2)"
    and su: "cy_sup (perform_response cfg now gen rule action run) = su2"
    and cnt: "cy_responses (perform_response cfg now gen rule action run) = cy_responses run + 1"
    by (metis perform_response_cases)
  note fr = execute_action_frame [OF x] append_response_frame [OF a]
  have logged: "run_logged cfg log (perform_response cfg now gen rule action run)" if l: "run_logged cfg log run"
  proof -
    obtain entries where e: "length entries = unat (cy_responses run)"
      "ring_repr rr_sequence (log @ entries) (su_history su1) (su_next_sequence su1) (su_overwritten su1)"
      using l fr(2) by (auto simp: run_logged_def response_ring_def)
    obtain e' where "ring_repr rr_sequence ((log @ entries) @ [e']) (su_history su2) (su_next_sequence su2)
        (su_overwritten su2)"
      using append_response_ring [OF a e(2)] by blast
    moreover have u: "unat (cy_responses run + 1) = Suc (unat (cy_responses run))"
      using True by (auto intro: unat_Suc_below)
    moreover have "cy_responses run + 1 \<le> sc_max_responses_per_cycle cfg"
      using True u by (simp add: word_le_nat_alt word_less_nat_alt Suc_le_eq)
    ultimately show ?thesis
      using e(1) unfolding run_logged_def su cnt by (intro conjI exI [of _ "entries @ [e']"]) simp_all
  qed
  with fr su show ?thesis by simp
qed

lemma perform_responses_frame:
  "feed_counts (cy_sup (fold (perform_response cfg now gen rule) actions run)) = feed_counts (cy_sup run) \<and>
   su_rules (cy_sup (fold (perform_response cfg now gen rule) actions run)) = su_rules (cy_sup run) \<and>
   (run_logged cfg log run \<longrightarrow> run_logged cfg log (fold (perform_response cfg now gen rule) actions run))"
proof (induction actions arbitrary: run)
  case Nil
  then show ?case by simp
next
  case (Cons a actions)
  show ?case
    using Cons.IH [of "perform_response cfg now gen rule a run"] perform_response_frame [of cfg now gen rule a run log]
    by auto
qed

section \<open>Rules\<close>

text \<open>
  The state of a rule: an inactive rule has no attempts, and the attempts of an activation never
  exceed the configured number of recovery attempts (or one, when no retry is configured).
\<close>

definition rule_ok :: "'w sup_config \<Rightarrow> rule_state \<Rightarrow> bool" where
  "rule_ok cfg rs \<longleftrightarrow>
     (\<not> rl_active rs \<longrightarrow> rl_attempts rs = 0) \<and> rl_attempts rs \<le> max 1 (sc_recovery_attempts cfg)"

definition rules_ok :: "'w sup_config \<Rightarrow> sup_storage \<Rightarrow> bool" where
  "rules_ok cfg su \<longleftrightarrow> (\<forall>rs \<in> set (su_rules su). rule_ok cfg rs)"

lemma rule_ok_next:
  assumes "rule_ok cfg rs" and "\<not> rl_active rs \<or> rl_attempts rs < sc_recovery_attempts cfg"
  shows "rule_ok cfg (rs\<lparr>rl_active := True, rl_attempts := rl_attempts rs + 1, rl_next_attempt := t\<rparr>)"
proof (cases "rl_active rs")
  case False
  then show ?thesis using assms(1) by (simp add: rule_ok_def)
next
  case True
  then have lt: "rl_attempts rs < sc_recovery_attempts cfg" using assms(2) by simp
  have "unat (rl_attempts rs + 1) = Suc (unat (rl_attempts rs))" by (rule unat_Suc_below [OF lt])
  then have "rl_attempts rs + 1 \<le> sc_recovery_attempts cfg"
    using lt by (simp add: word_le_nat_alt word_less_nat_alt)
  then show ?thesis by (simp add: rule_ok_def le_max_iff_disj)
qed

lemma rules_ok_update:
  assumes "rules_ok cfg su" and "i < length (su_rules su) \<Longrightarrow> rule_ok cfg rs"
  shows "rules_ok cfg (su\<lparr>su_rules := (su_rules su)[i := rs]\<rparr>)"
proof (cases "i < length (su_rules su)")
  case True
  then show ?thesis
    using assms set_update_subset_insert [of "su_rules su" i rs] by (auto simp: rules_ok_def)
next
  case False
  then show ?thesis using assms(1) by (simp add: rules_ok_def list_update_beyond)
qed

lemma set_rule_frame [simp]:
  "feed_counts (cy_sup (set_rule i rs run)) = feed_counts (cy_sup run)"
  "response_ring (cy_sup (set_rule i rs run)) = response_ring (cy_sup run)"
  "cy_responses (set_rule i rs run) = cy_responses run"
  by (simp_all add: set_rule_def feed_counts_def response_ring_def)

lemma evaluate_rule_frame:
  "feed_counts (cy_sup (evaluate_rule cfg now gen failed rule run)) = feed_counts (cy_sup run) \<and>
   (run_logged cfg log run \<longrightarrow> run_logged cfg log (evaluate_rule cfg now gen failed rule run)) \<and>
   (rules_ok cfg (cy_sup run) \<longrightarrow> rules_ok cfg (cy_sup (evaluate_rule cfg now gen failed rule run)))"
proof (cases "cy_panic run = None")
  case False
  then show ?thesis by (simp add: evaluate_rule_def)
next
  case True
  obtain r h where q: "subject_record_of (sc_health cfg) (ru_subject rule) (cy_health run) = (r, h)" by fastforce
  define run1 where "run1 = run\<lparr>cy_health := h\<rparr>"
  have run1: "cy_sup run1 = cy_sup run" "cy_responses run1 = cy_responses run"
    "run_logged cfg log run1 \<longleftrightarrow> run_logged cfg log run"
    by (simp_all add: run1_def run_logged_def)
  show ?thesis
  proof (cases r)
    case (Inl e)
    then show ?thesis using True q run1 by (simp add: evaluate_rule_def run1_def [symmetric])
  next
    case (Inr rec)
    define i where "i = rule_index rule (sc_rules cfg)"
    define rs where "rs = su_rules (cy_sup run) ! i"
    define off where "off = rs\<lparr>rl_active := False, rl_attempts := 0, rl_next_attempt := 0\<rparr>"
    define on where "on = rs\<lparr>rl_active := True, rl_attempts := rl_attempts rs + 1,
        rl_next_attempt := now + ms_to_ticks_ceil (sc_health cfg) (sc_recovery_cooldown_ms cfg)\<rparr>"
    define held where "held \<longleftrightarrow> rl_active rs \<and>
        (\<not> list_ex is_try_recover (ru_responses rule) \<or> rl_attempts rs \<ge> sc_recovery_attempts cfg \<or>
         now < rl_next_attempt rs)"
    have eval: "evaluate_rule cfg now gen failed rule run =
        (if \<not> triggered rule rec failed
         then (set_rule i off run1)\<lparr>cy_subjects := (cy_subjects run1)[i := (cy_subjects run1 ! i)\<lparr>us_active := False\<rparr>]\<rparr>
         else if held then run1
         else fold (perform_response cfg now gen rule) (ru_responses rule) (set_rule i on run1))"
      unfolding evaluate_rule_def Let_def
      using True q Inr by (auto simp: run1_def i_def rs_def off_def on_def held_def)
    have rs: "rule_ok cfg rs" if "rules_ok cfg (cy_sup run)" "i < length (su_rules (cy_sup run))"
      using that by (simp add: rules_ok_def rs_def)
    have set_ok: "rules_ok cfg (cy_sup (set_rule i x run1))"
      if "rules_ok cfg (cy_sup run)" "rule_ok cfg rs \<Longrightarrow> rule_ok cfg x" for x
      unfolding set_rule_def using that rs run1(1) by (simp add: rules_ok_update)
    have logged_set: "run_logged cfg log (set_rule i x run1) \<longleftrightarrow> run_logged cfg log run" for x
      using run1 by (simp add: run_logged_cong [of "set_rule i x run1" run1])
    show ?thesis
    proof (cases "triggered rule rec failed")
      case False
      have "rule_ok cfg off" by (simp add: off_def rule_ok_def)
      then have "rules_ok cfg (cy_sup run) \<Longrightarrow> rules_ok cfg (cy_sup (set_rule i off run1))"
        by (intro set_ok)
      moreover have "run_logged cfg log (set_rule i off run1\<lparr>cy_subjects := subjects\<rparr>) \<longleftrightarrow>
          run_logged cfg log (set_rule i off run1)" for subjects
        by (simp add: run_logged_def)
      ultimately show ?thesis using False run1 logged_set by (simp add: eval)
    next
      case trig: True
      show ?thesis
      proof (cases held)
        case True
        then show ?thesis using trig run1 by (simp add: eval)
      next
        case False
        then have "\<not> rl_active rs \<or> rl_attempts rs < sc_recovery_attempts cfg" by (auto simp: held_def)
        then have "rules_ok cfg (cy_sup run) \<Longrightarrow> rules_ok cfg (cy_sup (set_rule i on run1))"
          by (intro set_ok) (auto simp: on_def intro: rule_ok_next)
        then show ?thesis
          using trig False run1 logged_set
            perform_responses_frame [of cfg now gen rule "ru_responses rule" "set_rule i on run1" log]
          by (simp add: eval rules_ok_def)
      qed
    qed
  qed
qed

lemma run_rules_frame:
  fixes log :: "response_record list"
  defines "ring su \<equiv> ring_repr rr_sequence log (su_history su) (su_next_sequence su) (su_overwritten su)"
  shows "feed_counts (cy_sup (run_rules cfg now gen su h)) = feed_counts su \<and>
    (ring su \<longrightarrow> run_logged cfg log (run_rules cfg now gen su h)) \<and>
    (rules_ok cfg su \<longrightarrow> rules_ok cfg (cy_sup (run_rules cfg now gen su h)))"
proof -
  define P where "P run \<longleftrightarrow> feed_counts (cy_sup run) = feed_counts su \<and> (ring su \<longrightarrow> run_logged cfg log run) \<and>
    (rules_ok cfg su \<longrightarrow> rules_ok cfg (cy_sup run))" for run :: "'a cycle_run"
  have step: "P (evaluate_rule cfg now gen failed rule run)" if "P run" for failed rule run
    using that evaluate_rule_frame [of cfg now gen failed rule run log] by (simp add: P_def)
  have start: "P \<lparr>cy_sup = su, cy_health = h, cy_responses = 0,
            cy_recovery_failures = replicate (length (hc_components (sc_health cfg))) False,
            cy_subjects = su_subject_records su, cy_panic = None\<rparr>"
    by (simp add: P_def run_logged_def ring_def)
  have first: "P (fold (evaluate_rule cfg now gen False) rules \<lparr>cy_sup = su, cy_health = h, cy_responses = 0,
            cy_recovery_failures = replicate (length (hc_components (sc_health cfg))) False,
            cy_subjects = su_subject_records su, cy_panic = None\<rparr>)" for rules
    by (rule fold_preserves [where P = P, OF start]) (rule step)
  have "P (run_rules cfg now gen su h)"
    unfolding run_rules_def Let_def by (rule fold_preserves [where P = P, OF first]) (rule step)
  then show ?thesis by (simp add: P_def)
qed



lemma stage_frame:
  "response_ring (gate_watchdog hs su) = response_ring su"
  "su_rules (gate_watchdog hs su) = su_rules su"
  "response_ring (complete_cycle cfg t0 t1 subjects su) = response_ring su"
  "su_rules (complete_cycle cfg t0 t1 subjects su) = su_rules su"
  "su_watchdog (complete_cycle cfg t0 t1 subjects su) = su_watchdog su"
  "response_ring (begin_cycle t0 su) = response_ring su"
  "su_rules (begin_cycle t0 su) = su_rules su"
  "feed_counts (begin_cycle t0 su) = feed_counts su"
  "response_ring (refresh_failed su) = response_ring su"
  "su_rules (refresh_failed su) = su_rules su"
  "feed_counts (refresh_failed su) = feed_counts su"
  by (simp_all add: gate_watchdog_def complete_cycle_def begin_cycle_def refresh_failed_def
        response_ring_def feed_counts_def Let_def)

lemma drive_watchdog_frame:
  "response_ring (fst (drive_watchdog cfg now s)) = response_ring (fst s)"
  "su_rules (fst (drive_watchdog cfg now s)) = su_rules (fst s)"
  by (auto simp: drive_watchdog_def response_ring_def Let_def split: prod.splits option.splits)

text \<open>
  The cycle as four outcomes: the cycle mutex is not acquired, the refresh fails, a rule panics, or
  the watchdog stage is reached with the health record read after the refresh.
\<close>

lemma cycle_cases:
  fixes h :: "'w health"
  assumes c: "cycle cfg now (su, h) = (res, su', h')"
  obtains (locked) w where "su' = su" "h' = h\<lparr>hs_world := w\<rparr>"
  | (unrefreshed) e where "su' = refresh_failed (begin_cycle now su)" "res = Cycle_Returned (Inl e)"
  | (ruled) w gen r h1 su1 run where
      "sc_cycle_lock cfg (hs_world h) = (None, w)"
      and "refresh (sc_health cfg) (h\<lparr>hs_world := w\<rparr>) = (Inr (), h1)"
      and "r = fst (system_record_of (sc_health cfg) h1)"
      and "su1 = (begin_cycle now su)\<lparr>su_state := (su_state (begin_cycle now su))
              \<lparr>ut_last_phase := Ph_EvaluatePolicy, ut_health_generation := gen\<rparr>\<rparr>"
      and "run = run_rules cfg now gen su1 (snd (system_record_of (sc_health cfg) h1))"
      and "su' = cy_sup run \<and> cy_panic run \<noteq> None \<or>
           (\<exists>subjects t0 t1. su' = complete_cycle cfg t0 t1 subjects
              (fst (drive_watchdog cfg now
                 (gate_watchdog (case r of Inl _ \<Rightarrow> None | Inr sys \<Rightarrow> Some sys) (cy_sup run), cy_health run))))"
proof -
  obtain l w where l: "sc_cycle_lock cfg (hs_world h) = (l, w)" by fastforce
  show thesis
  proof (cases l)
    case (Some e)
    then have "su' = su" "h' = h\<lparr>hs_world := w\<rparr>" using c l by (auto simp: cycle_def call_health_world_def)
    then show thesis by (rule locked)
  next
    case None
    obtain q h1 where q: "refresh (sc_health cfg) (h\<lparr>hs_world := w\<rparr>) = (q, h1)" by fastforce
    show thesis
    proof (cases q)
      case (Inl e)
      then have "su' = refresh_failed (begin_cycle now su)"
        "res = Cycle_Returned (Inl (sup_fail (he_status e) SR_HealthRefreshFailed SOp_Cycle))"
        using c l None q by (auto simp: cycle_def call_health_world_def)
      then show thesis by (rule unrefreshed)
    next
      case (Inr u)
      obtain r h2 where r: "system_record_of (sc_health cfg) h1 = (r, h2)" by fastforce
      define gen where "gen = (case (case r of Inl _ \<Rightarrow> None | Inr sys \<Rightarrow> Some sys) of None \<Rightarrow> 0
                                  | Some sys \<Rightarrow> sy_assessment_generation sys)"
      define su1 where "su1 = (begin_cycle now su)\<lparr>su_state := (su_state (begin_cycle now su))
              \<lparr>ut_last_phase := Ph_EvaluatePolicy, ut_health_generation := gen\<rparr>\<rparr>"
      define run where "run = run_rules cfg now gen su1 h2"
      have out: "su' = cy_sup run \<and> cy_panic run \<noteq> None \<or>
           (\<exists>subjects t0 t1. su' = complete_cycle cfg t0 t1 subjects
              (fst (drive_watchdog cfg now
                 (gate_watchdog (case r of Inl _ \<Rightarrow> None | Inr sys \<Rightarrow> Some sys) (cy_sup run), cy_health run))))"
        using c l None q Inr r
        by (auto simp: cycle_def call_health_world_def Let_def gen_def [symmetric] su1_def [symmetric]
              run_def [symmetric] split: option.splits prod.splits)
      show thesis
        by (rule ruled [of w h1 r su1 gen run]) (use l None q Inr r out in \<open>simp_all add: su1_def run_def\<close>)
    qed
  qed
qed

text \<open>
  A rule without a recovery action is executed once per activation: while it stays triggered, later cycles
  leave the run alone, also when its responses were deferred for want of budget.
\<close>

lemma active_rule_not_repeated:
  assumes "cy_panic run = None"
    and "subject_record_of (sc_health cfg) (ru_subject rule) (cy_health run) = (Inr rec, h)"
    and "triggered rule rec failed" and "\<not> list_ex is_try_recover (ru_responses rule)"
    and "rl_active (su_rules (cy_sup run) ! rule_index rule (sc_rules cfg))"
  shows "evaluate_rule cfg now gen failed rule run = run\<lparr>cy_health := h\<rparr>"
  using assms by (simp add: evaluate_rule_def Let_def)

section \<open>The properties\<close>




text \<open>
  C39: Recovery attempts are limited. Every cycle keeps the invariant of the rule states: an inactive
  rule has no attempts, and the attempts since a rule was activated never exceed the configured
  number of recovery attempts (or the single execution of a rule that is not retried). The invariant
  holds after \<^verbatim>\<open>init\<close>.
\<close>

theorem recovery_attempts_bounded:
  fixes h :: "'w health"
  assumes "rules_ok cfg su"
    and c: "cycle cfg now (su, h) = (res, su', h')"
  shows "rules_ok cfg su' \<and> rules_ok cfg (initial_supervisor cfg)"
proof
  show "rules_ok cfg (initial_supervisor cfg)"
    by (simp add: rules_ok_def initial_supervisor_def rule_ok_def default_rule_state_def)
  show "rules_ok cfg su'"
    using c
  proof (cases rule: cycle_cases)
    case (locked w)
    then show ?thesis using assms(1) by simp
  next
    case (unrefreshed e)
    then show ?thesis using assms(1) stage_frame(7,10) by (simp add: rules_ok_def)
  next
    case (ruled w gen r h1 su1 run)
    have "su_rules su1 = su_rules su" using ruled(4) stage_frame(7) by simp
    then have "rules_ok cfg (cy_sup run)"
      using run_rules_frame [of cfg now gen su1] assms(1) unfolding ruled(5) by (simp add: rules_ok_def)
    moreover have "su_rules su' = su_rules (cy_sup run)"
      using ruled(6) by (auto simp: stage_frame drive_watchdog_frame)
    ultimately show ?thesis by (simp add: rules_ok_def)
  qed
qed

section \<open>Reading the responses\<close>

lemma max_cursor_start:
  fixes cursor :: u64
  assumes "length log + 1 < 2 ^ 64"
  shows "max cursor (of_nat (length log - d + 1)) = of_nat (read_start log d cursor + 1)"
proof -
  have "max cursor x = (if (if cursor = 0 then x else cursor) < x then x
      else if cursor = 0 then x else cursor)" for x :: u64
    by (auto simp: max_def not_le)
  then show ?thesis using read_start_sequence(1) [OF assms, where d = d and cursor = cursor] by (simp only: Let_def)
qed

lemma read_responses_slice:
  fixes su :: sup_storage and log dest :: "response_record list" and cursor :: u64
  defines "d \<equiv> length (su_history su)"
  defines "start \<equiv> read_start log d cursor"
  defines "cnt \<equiv> min (length log - start) (length dest)"
  assumes ring: "ring_repr rr_sequence log (su_history su) (su_next_sequence su) (su_overwritten su)"
    and bound: "length log + 1 < 2 ^ 64"
  shows "read_responses cursor dest su =
    (\<lparr>rp_next = of_nat (start + cnt + 1), rp_written = cnt, rp_overwritten = of_nat (length log - d)\<rparr>,
     take cnt (drop start log) @ drop cnt dest)"
proof -
  have d: "d < 2 ^ 64" and next_seq: "su_next_sequence su = of_nat (length log + 1)"
    and over: "su_overwritten su = of_nat (length log - d)"
    using ring bound by (auto simp: ring_repr_def d_def)
  have loop: "ring_read (\<lambda>_ _. True) (su_history su) (of_nat (length log + 1)) (of_nat (start + 1)) 0 dest =
      (of_nat (start + cnt + 1), cnt, take cnt (drop start log) @ drop cnt dest)"
    unfolding start_def cnt_def d_def by (rule ring_page [OF ring [unfolded next_seq] bound]) simp
  show ?thesis
    unfolding read_responses_def Let_def d_def [symmetric] next_seq oldest_sequence [OF bound d]
      max_cursor_start [OF bound, where d = d and cursor = cursor] start_def [symmetric] loop prod.case over
    by (rule refl)
qed

section \<open>An example\<close>

text \<open>
  The example system of the health facility under a supervisor with a watchdog: a fault of component 0 is
  latched and recovery is tried, its degradation is only warned about.
\<close>

definition example_supervisor :: "int sup_config" where
  "example_supervisor =
     \<lparr>sc_health = example_health, sc_self = 1,
      sc_rules = [\<lparr>ru_subject = 0, ru_trigger = Trg_Fault, ru_responses = [Latch, TryRecover 0]\<rparr>,
                  \<lparr>ru_subject = 0, ru_trigger = Trg_Degraded, ru_responses = [Warn]\<rparr>],
      sc_recover = (\<lambda>_ w. (Inl \<lparr>err_status = St_Timeout, err_native = 0\<rparr>, w)),
      sc_enter_safe_state = (\<lambda>_ w. (Inr (), w)),
      sc_request_stop = (\<lambda>_ w. (Inr (), w)),
      sc_watchdog = Some \<lparr>wp_start = None, wp_stop = None, wp_feed = (\<lambda>w. (Inr (), w))\<rparr>,
      sc_cycle_lock = (\<lambda>w. (None, w)),
      sc_query_lock = (\<lambda>w. (None, w)),
      sc_stop_requested = (\<lambda>w. (w > 100, w)),
      sc_wake_take = (\<lambda>_ w. (Inr (), w + 5)),
      sc_wake_give = (\<lambda>w. w),
      sc_wake_reset = (\<lambda>w. w),
      sc_history_depth = 4,
      sc_recovery_attempts = 3,
      sc_recovery_cooldown_ms = 10,
      sc_max_responses_per_cycle = 2,
      sc_period_ms = 100,
      sc_cycle_grace_ms = 20\<rparr>"

abbreviation example_cycle :: "cycle_result \<times> sup_storage \<times> int health" where
  "example_cycle \<equiv> cycle example_supervisor 9 (initial_supervisor example_supervisor, example_reported)"

lemma example_cycle_eq: "example_cycle = (fst example_cycle, fst (snd example_cycle), snd (snd example_cycle))"
  by simp




theorem recovery_attempts_bounded_witness:
  "rules_ok example_supervisor (fst (snd example_cycle)) \<and>
   rules_ok example_supervisor (initial_supervisor example_supervisor)"
proof -
  have "rules_ok example_supervisor (initial_supervisor example_supervisor)"
    by (simp add: rules_ok_def initial_supervisor_def rule_ok_def default_rule_state_def)
  then show ?thesis by (rule recovery_attempts_bounded [OF _ example_cycle_eq])
qed



end
