(* ===== verification/Parameter_Record.thy ===== *)
theory Parameter_Record
  imports Wire_Field Byte_Checksum Execution_Types
begin

text \<open>
  The durable form of parameters: the record envelope of \<^verbatim>\<open>parameters/persistence.hpp\<close> with its
  FNV-1a checksum, the default scalar codec of \<^verbatim>\<open>parameters/codec.hpp\<close> and the key paths of
  \<^verbatim>\<open>parameters/settings.hpp\<close>. A function that fills an output span returns its result together with
  the span afterwards. Scalars are integers; their C++ type is the pair of its width in bytes and its
  signedness, and the casts of the codec are written out modulo the width.
\<close>

definition fail_status :: "status \<Rightarrow> solar_error" where
  "fail_status st = \<lparr>err_status = st, err_native = 0\<rparr>"

lemma err_status_fail_status [simp]: "err_status (fail_status st) = st"
  by (simp add: fail_status_def)

section \<open>The record envelope\<close>

type_synonym record_kind = u8

definition kind_parameter :: record_kind where
  "kind_parameter = 1"

definition kind_group :: record_kind where
  "kind_group = 2"

record persistence_key =
  pk_kind :: record_kind
  pk_stable_id :: u64

definition record_magic :: u32 where
  "record_magic = 0x534F4C50"

definition record_envelope_size :: nat where
  "record_envelope_size = 24"

definition write_little :: "byte list \<Rightarrow> nat \<Rightarrow> 'a::len word \<Rightarrow> byte list" where
  "write_little output off v =
     fold (\<lambda>i out. out[off + i := ucast (drop_bit (i * 8) v AND 0xFF)]) [0..<LENGTH('a) div 8] output"

definition read_little :: "byte list \<Rightarrow> nat \<Rightarrow> 'a::len word" where
  "read_little input off =
     fold (\<lambda>i acc. acc OR push_bit (i * 8) (ucast (input ! (off + i)))) [0..<LENGTH('a) div 8] 0"

definition fnv_step :: "u32 \<Rightarrow> byte \<Rightarrow> u32" where
  "fnv_step hash v = (hash XOR ucast v) * 16777619"

definition checksum :: "byte list \<Rightarrow> u32" where
  "checksum input = fold (\<lambda>v hash. fnv_step hash v) input 2166136261"

record decoded_record =
  dr_key :: persistence_key
  dr_version :: u16
  dr_payload :: "byte list"

definition encode_record ::
  "persistence_key \<Rightarrow> u16 \<Rightarrow> byte list \<Rightarrow> byte list \<Rightarrow> (solar_error + nat) \<times> byte list" where
  "encode_record key version payload output =
     (let total = record_envelope_size + length payload in
      if length output < total then (Inl (fail_status St_NoBuffer), output)
      else
        let out = write_little output 0 record_magic;
            out = out[4 := pk_kind key];
            out = out[5 := 0];
            out = write_little out 6 version;
            out = write_little out 8 (pk_stable_id key);
            out = write_little out 16 (of_nat (length payload) :: u32);
            out = write_little out 20 (checksum payload);
            out = fold (\<lambda>i o'. o'[record_envelope_size + i := payload ! i]) [0..<length payload] out in
        (Inr total, out))"

definition decode_record :: "byte list \<Rightarrow> solar_error + decoded_record" where
  "decode_record input =
     (if length input < record_envelope_size \<or> read_little input 0 \<noteq> record_magic then
        Inl (fail_status St_ProtocolError)
      else
        let payload_size = unat (read_little input 16 :: u32) in
        if payload_size > length input - record_envelope_size \<or>
           record_envelope_size + payload_size \<noteq> length input then
          Inl (fail_status St_MessageTooLarge)
        else
          let payload = take payload_size (drop record_envelope_size input) in
          if checksum payload \<noteq> read_little input 20 then Inl (fail_status St_ProtocolError)
          else Inr \<lparr>dr_key = \<lparr>pk_kind = input ! 4, pk_stable_id = read_little input 8\<rparr>,
                    dr_version = read_little input 6, dr_payload = payload\<rparr>)"

section \<open>The scalar codec\<close>

definition scalar_bits :: "nat \<Rightarrow> int \<Rightarrow> int" where
  "scalar_bits n v = v mod 2 ^ (8 * n)"

definition scalar_value :: "nat \<Rightarrow> bool \<Rightarrow> int \<Rightarrow> int" where
  "scalar_value n is_signed bits =
     (if is_signed \<and> bits \<ge> 2 ^ (8 * n - 1) then bits - 2 ^ (8 * n) else bits)"

definition scalar_encode :: "nat \<Rightarrow> int \<Rightarrow> byte list \<Rightarrow> (solar_error + nat) \<times> byte list" where
  "scalar_encode n v output =
     (if length output < n then (Inl (fail_status St_NoBuffer), output)
      else let bits = scalar_bits n v in
           (Inr n, fold (\<lambda>i out. out[i := word_of_int (bits div 2 ^ (i * 8) mod 256)]) [0..<n] output))"

definition scalar_decode :: "nat \<Rightarrow> bool \<Rightarrow> byte list \<Rightarrow> solar_error + int" where
  "scalar_decode n is_signed input =
     (if length input \<noteq> n then Inl (fail_status St_MessageTooLarge)
      else Inr (scalar_value n is_signed (fold (\<lambda>i acc. acc + uint (input ! i) * 2 ^ (i * 8)) [0..<n] 0)))"

section \<open>Settings paths\<close>

definition hexadecimal :: string where
  "hexadecimal = ''0123456789abcdef''"

definition key_name :: "string \<Rightarrow> persistence_key \<Rightarrow> string" where
  "key_name ns key =
     ns @ [CHR ''/'', if pk_kind key = kind_group then CHR ''g'' else CHR ''p'', CHR ''/''] @
     map (\<lambda>i. hexadecimal ! unat (drop_bit (60 - 4 * i) (pk_stable_id key) AND 0x0F)) [0..<16]"

section \<open>Lemmas on the envelope\<close>

lemma write_little_fields:
  "write_little xs off (v16 :: u16) = put_u16 xs off v16"
  "write_little xs off (v32 :: u32) = put_u32 xs off v32"
  "write_little xs off (v64 :: u64) = put_u64 xs off v64"
  by (simp_all add: write_little_def put_u16_le put_u32_le put_u64_le put_le_def)

lemma read_little_fields:
  "(read_little xs off :: u16) = get_u16 xs off"
  "(read_little xs off :: u32) = get_u32 xs off"
  "(read_little xs off :: u64) = get_u64 xs off"
  by (simp_all add: read_little_def get_u16_le get_u32_le get_u64_le get_le_def)

lemmas record_fields = write_little_fields read_little_fields put_u8_def [symmetric] get_u8_def [symmetric]

lemma fnv_prime_inverse: "(16777619 :: u32) * 899433627 = 1"
  by simp

lemma fnv_prime_inj:
  fixes a b :: u32
  assumes "a * 16777619 = b * 16777619"
  shows "a = b"
proof -
  from assms have "a * 16777619 * 899433627 = b * 16777619 * 899433627" by (rule arg_cong)
  then show ?thesis by (simp only: mult.assoc fnv_prime_inverse mult_1_right)
qed

interpretation fnv: byte_checksum fnv_step
proof
  fix a b :: u32 and v
  assume "fnv_step a v = fnv_step b v"
  then have "a XOR ucast v = b XOR ucast v" unfolding fnv_step_def by (rule fnv_prime_inj)
  then show "a = b" by (simp only: xor_cancel_right)
next
  fix a :: u32 and v w
  assume "fnv_step a v = fnv_step a w"
  then have "a XOR ucast v = a XOR ucast w" unfolding fnv_step_def by (rule fnv_prime_inj)
  then show "v = w" by (simp only: xor_cancel_left ucast_byte_inj)
qed

lemma checksum_changed_byte:
  assumes "i < length xs" and "v \<noteq> xs ! i"
  shows "checksum (xs[i := v]) \<noteq> checksum xs"
  unfolding checksum_def by (rule fnv.run_changed_byte [OF assms])

lemma fold_copy:
  assumes "off + length src \<le> length dst"
  shows "fold (\<lambda>i o'. o'[off + i := src ! i]) [0..<length src] dst =
    take off dst @ src @ drop (off + length src) dst"
proof -
  have *: "fold (\<lambda>i o'. o'[off + i := src ! i]) [0..<n] dst = take off dst @ take n src @ drop (off + n) dst"
    if "n \<le> length src" for n
    using that
  proof (induction n)
    case (Suc n)
    with assms have "drop (off + n) dst \<noteq> []" by simp
    with Suc assms show ?case
      by (simp add: list_update_append take_Suc_conv_app_nth min_def Cons_nth_drop_Suc [symmetric])
  qed simp
  show ?thesis using * [of "length src"] by simp
qed

definition record_header :: "persistence_key \<Rightarrow> u16 \<Rightarrow> byte list \<Rightarrow> byte list \<Rightarrow> byte list" where
  "record_header key version payload output =
     put_u32 (put_u32 (put_u64 (put_u16 (put_u8 (put_u8 (put_u32 output 0 record_magic)
       4 (pk_kind key)) 5 0) 6 version) 8 (pk_stable_id key)) 16 (of_nat (length payload)))
       20 (checksum payload)"

lemma encode_record_eq:
  assumes "record_envelope_size + length payload \<le> length output"
  shows "encode_record key version payload output =
    (Inr (record_envelope_size + length payload),
     take record_envelope_size (record_header key version payload output) @ payload @
     drop (record_envelope_size + length payload) (record_header key version payload output))"
proof -
  have "length (record_header key version payload output) = length output"
    by (simp add: record_header_def wire_simps)
  then have "fold (\<lambda>i o'. o'[record_envelope_size + i := payload ! i]) [0..<length payload]
      (record_header key version payload output) =
    take record_envelope_size (record_header key version payload output) @ payload @
     drop (record_envelope_size + length payload) (record_header key version payload output)"
    using assms by (intro fold_copy) simp
  then show ?thesis
    using assms by (simp add: encode_record_def Let_def record_fields record_header_def [symmetric])
qed

lemma encode_record_image:
  assumes "record_envelope_size + length payload \<le> length output"
    and "encode_record key version payload output = (r, out)"
  shows "r = Inr (record_envelope_size + length payload)"
    and "take (record_envelope_size + length payload) out =
      take record_envelope_size (record_header key version payload output) @ payload"
proof -
  have "length (take record_envelope_size (record_header key version payload output)) = record_envelope_size"
    using assms(1) by (simp add: record_header_def wire_simps)
  then show "r = Inr (record_envelope_size + length payload)"
    and "take (record_envelope_size + length payload) out =
      take record_envelope_size (record_header key version payload output) @ payload"
    using assms by (auto simp: encode_record_eq)
qed

lemma record_header_fields:
  fixes buf payload :: "byte list" and key version
  assumes "24 \<le> length buf"
  defines "h \<equiv> take 24 (record_header key version payload buf) @ payload"
  shows "get_u32 h 0 = record_magic" and "get_u8 h 4 = pk_kind key" and "get_u16 h 6 = version"
    and "get_u64 h 8 = pk_stable_id key" and "get_u32 h 16 = of_nat (length payload)"
    and "get_u32 h 20 = checksum payload"
  using assms(1) unfolding h_def
  by (simp_all add: wire_get_append wire_get_take record_header_def wire_simps min_def)

lemma decode_encoded_record:
  assumes "24 \<le> length output" and "length payload < 2 ^ 32"
  shows "decode_record (take 24 (record_header key version payload output) @ payload) =
    Inr \<lparr>dr_key = key, dr_version = version, dr_payload = payload\<rparr>"
proof -
  define h where "h = take 24 (record_header key version payload output) @ payload"
  note fields = record_header_fields [OF assms(1), of key version payload, folded h_def]
  have len: "length h = 24 + length payload"
    using assms(1) by (simp add: h_def record_header_def wire_simps min_def)
  have size: "unat (of_nat (length payload) :: u32) = length payload"
    using assms(2) by (simp add: unat_of_nat take_bit_nat_eq_self)
  have "drop 24 h = payload"
    using assms(1) by (simp add: h_def record_header_def wire_simps min_def)
  then have "decode_record h = Inr \<lparr>dr_key = key, dr_version = version, dr_payload = payload\<rparr>"
    by (simp add: decode_record_def record_envelope_size_def record_fields fields len size Let_def)
  then show ?thesis by (simp only: h_def)
qed

lemma decode_record_ok:
  "decode_record input = Inr d \<longleftrightarrow>
     24 \<le> length input \<and> get_u32 input 0 = record_magic \<and>
     24 + unat (get_u32 input 16) = length input \<and>
     checksum (drop 24 input) = get_u32 input 20 \<and>
     d = \<lparr>dr_key = \<lparr>pk_kind = get_u8 input 4, pk_stable_id = get_u64 input 8\<rparr>,
          dr_version = get_u16 input 6, dr_payload = drop 24 input\<rparr>"
  by (auto simp: decode_record_def record_envelope_size_def record_fields Let_def)

section \<open>Lemmas on the codec and the paths\<close>

definition scalar_range :: "nat \<Rightarrow> bool \<Rightarrow> int \<Rightarrow> bool" where
  "scalar_range n is_signed v \<longleftrightarrow>
     (if is_signed then - (2 ^ (8 * n - 1)) \<le> v \<and> v < 2 ^ (8 * n - 1) else 0 \<le> v \<and> v < 2 ^ (8 * n))"

lemma scalar_value_bits:
  assumes "0 < n" and "scalar_range n is_signed v"
  shows "scalar_value n is_signed (scalar_bits n v) = v"
proof -
  obtain m where m: "8 * n = Suc m" using assms(1) by (cases n) auto
  show ?thesis
  proof (cases "0 \<le> v")
    case True
    then have "v < 2 ^ (8 * n)" using assms m by (auto simp: scalar_range_def split: if_splits)
    with True assms m show ?thesis
      by (auto simp: scalar_value_def scalar_bits_def scalar_range_def split: if_splits)
  next
    case False
    then have s: "is_signed" "- (2 ^ m) \<le> v" using assms m by (auto simp: scalar_range_def split: if_splits)
    have "v mod 2 ^ Suc m = v + 2 ^ Suc m" using False s by (intro int_mod_pos_eq [of _ _ "- 1"]) auto
    with False s m show ?thesis by (simp add: scalar_value_def scalar_bits_def)
  qed
qed

lemma fold_update_all:
  assumes "n \<le> length xs"
  shows "fold (\<lambda>i out. out[i := f i]) [0..<n] xs = map f [0..<n] @ drop n xs"
  using assms
proof (induction n)
  case (Suc n)
  then have "drop n xs = xs ! n # drop (Suc n) xs" by (simp add: Cons_nth_drop_Suc)
  with Suc show ?case by (simp add: list_update_append)
qed simp

lemma sum_digits: "fold (\<lambda>i acc. acc + (b div 2 ^ (i * 8) mod 256) * 2 ^ (i * 8)) [0..<n] 0 = b mod 2 ^ (8 * n)"
  for b :: int
proof (induction n)
  case (Suc n)
  have "b mod 2 ^ (8 * Suc n) = b mod (2 ^ (8 * n) * 256)" by (simp add: power_add mult.commute)
  also have "\<dots> = 2 ^ (8 * n) * (b div 2 ^ (8 * n) mod 256) + b mod 2 ^ (8 * n)" by (simp add: zmod_zmult2_eq)
  finally show ?case using Suc by (simp add: mult.commute)
qed simp

lemma scalar_codec_roundtrip:
  assumes "0 < n" and "scalar_range n is_signed v" and "length output = n"
  shows "fst (scalar_encode n v output) = Inr n"
    and "length (snd (scalar_encode n v output)) = n"
    and "scalar_decode n is_signed (snd (scalar_encode n v output)) = Inr v"
proof -
  have bytes: "scalar_encode n v output =
      (Inr n, map (\<lambda>i. word_of_int (scalar_bits n v div 2 ^ (i * 8) mod 256)) [0..<n])"
    using assms(3) by (simp add: scalar_encode_def Let_def fold_update_all)
  show "fst (scalar_encode n v output) = Inr n" and "length (snd (scalar_encode n v output)) = n"
    by (simp_all add: bytes)
  have "fold (\<lambda>i acc. acc + uint (map (\<lambda>i. word_of_int (scalar_bits n v div 2 ^ (i * 8) mod 256) :: byte) [0..<n] ! i)
      * 2 ^ (i * 8)) [0..<n] 0 = fold (\<lambda>i acc. acc + (scalar_bits n v div 2 ^ (i * 8) mod 256) * 2 ^ (i * 8)) [0..<n] 0"
    by (intro fold_cong) (auto simp: uint_word_of_int)
  also have "\<dots> = scalar_bits n v" by (simp add: sum_digits scalar_bits_def)
  finally show "scalar_decode n is_signed (snd (scalar_encode n v output)) = Inr v"
    using scalar_value_bits [OF assms(1,2)] by (simp add: bytes scalar_decode_def)
qed

lemma unat_nibble: "unat (w AND 0x0F :: u64) < 16"
proof -
  have "w AND 0x0F = take_bit 4 w" by (simp add: take_bit_eq_mask mask_eq_exp_minus_1)
  moreover have "unat (take_bit 4 w) < 16" by (simp add: unsigned_take_bit_eq take_bit_nat_less_exp [of 4, simplified])
  ultimately show ?thesis by simp
qed

lemma hexadecimal_inj:
  assumes "i < 16" and "j < 16" and "hexadecimal ! i = hexadecimal ! j"
  shows "i = j"
  using assms by (intro distinct_map_nth_inj [of hexadecimal]) (simp_all add: hexadecimal_def)

lemma nibbles_inj:
  fixes v w :: u64
  assumes "\<And>i. i < 16 \<Longrightarrow> drop_bit (60 - 4 * i) v AND 0x0F = drop_bit (60 - 4 * i) w AND 0x0F"
  shows "v = w"
proof (rule bit_word_eqI)
  fix n
  assume n: "n < LENGTH(64)"
  define i where "i = 15 - n div 4"
  have i: "i < 16" by (simp add: i_def)
  have "n div 4 \<le> 15" using n by simp
  then have "60 - 4 * i = 4 * (n div 4)" by (simp add: i_def diff_mult_distrib2)
  then have shift: "60 - 4 * i + n mod 4 = n" by simp
  have low: "bit (0x0F :: u64) (n mod 4)"
  proof -
    have "(0x0F :: u64) = mask 4" by (simp add: mask_eq_exp_minus_1)
    then have "bit (0x0F :: u64) (n mod 4) = bit (mask 4 :: u64) (n mod 4)" by (rule arg_cong)
    then show ?thesis by (simp add: bit_mask_iff del: mask_numeral)
  qed
  show "bit v n = bit w n"
    using arg_cong [OF assms [OF i], of "\<lambda>x. bit x (n mod 4)"] low shift
    by (simp add: bit_and_iff bit_drop_bit_eq)
qed

lemma key_name_inj:
  assumes "pk_kind k \<in> {kind_parameter, kind_group}" and "pk_kind k' \<in> {kind_parameter, kind_group}"
    and "key_name ns k = key_name ns k'"
  shows "k = k'"
proof -
  have kind: "pk_kind k = pk_kind k'"
    using assms by (auto simp: key_name_def split: if_splits)
  have hex: "hexadecimal ! unat (drop_bit (60 - 4 * i) (pk_stable_id k) AND 0x0F) =
      hexadecimal ! unat (drop_bit (60 - 4 * i) (pk_stable_id k') AND 0x0F)" if "i < 16" for i
    using assms(3) that by (auto simp: key_name_def)
  have "pk_stable_id k = pk_stable_id k'"
  proof (rule nibbles_inj)
    fix i :: nat
    assume "i < 16"
    from hexadecimal_inj [OF unat_nibble unat_nibble hex [OF this]]
    show "drop_bit (60 - 4 * i) (pk_stable_id k) AND 0x0F = drop_bit (60 - 4 * i) (pk_stable_id k') AND 0x0F"
      by (rule unsigned_word_eqI)
  qed
  with kind show ?thesis by (cases k; cases k') simp
qed

section \<open>Properties of the durable form\<close>

text \<open>
  Encoding a parameter record into a large enough buffer succeeds and reports its size, and decoding
  that many bytes of the buffer gives back the key, the schema version and the payload.
\<close>

theorem record_roundtrip:
  assumes "record_envelope_size + length payload \<le> length output" and "length payload < 2 ^ 32"
  shows "\<exists>out. encode_record key version payload output =
      (Inr (record_envelope_size + length payload), out) \<and>
    decode_record (take (record_envelope_size + length payload) out) =
      Inr \<lparr>dr_key = key, dr_version = version, dr_payload = payload\<rparr>"
proof -
  obtain r out where e: "encode_record key version payload output = (r, out)" by fastforce
  with assms show ?thesis
    using encode_record_image [OF assms(1) e]
    by (simp add: record_envelope_size_def decode_encoded_record)
qed

theorem record_roundtrip_witness:
  "\<exists>out. encode_record \<lparr>pk_kind = 1, pk_stable_id = 7\<rparr> 3 [1, 2] (replicate 32 0) = (Inr 26, out) \<and>
    decode_record (take 26 out) =
      Inr \<lparr>dr_key = \<lparr>pk_kind = 1, pk_stable_id = 7\<rparr>, dr_version = 3, dr_payload = [1, 2]\<rparr>"
  using record_roundtrip [of "[1, 2]" "replicate 32 0" "\<lparr>pk_kind = 1, pk_stable_id = 7\<rparr>" 3]
  by (simp add: record_envelope_size_def)

text \<open>
  C25: a stored record in which one byte has another value is never taken for the same record: unless
  the byte is the reserved one or belongs to the version, the corrupted record does not decode, or it
  decodes under another key, which the loaders reject.
\<close>

theorem record_corruption_detected:
  assumes d: "decode_record input = Inr d" and i: "i < length input" and v: "v \<noteq> input ! i"
    and outside: "i \<notin> {5, 6, 7}"
  shows "case decode_record (input[i := v]) of Inl _ \<Rightarrow> True | Inr d' \<Rightarrow> dr_key d' \<noteq> dr_key d"
proof -
  note ok = d [unfolded decode_record_ok]
  consider "i < 4" | "i = 4" | "8 \<le> i" "i < 16" | "16 \<le> i" "i < 20" | "20 \<le> i" "i < 24" | "24 \<le> i"
    using outside by force
  then have "\<not> (decode_record (input[i := v]) = Inr d' \<and> dr_key d' = dr_key d)" for d'
  proof cases
    case 1
    then show ?thesis using ok i v f32.get_changed [of 0 i input v] by (auto simp: decode_record_ok)
  next
    case 2
    then show ?thesis using ok i v f8.get_changed [of 4 i input v] by (auto simp: decode_record_ok)
  next
    case 3
    then show ?thesis using ok i v f64.get_changed [of 8 i input v] by (auto simp: decode_record_ok)
  next
    case 4
    then have "get_u32 (input[i := v]) 16 \<noteq> get_u32 input 16"
      using ok i v f32.get_changed [of 16 i input v] by simp
    then have "unat (get_u32 (input[i := v]) 16) \<noteq> unat (get_u32 input 16)"
      using unsigned_word_eqI by blast
    then show ?thesis using ok by (auto simp: decode_record_ok)
  next
    case 5
    then have "drop 24 (input[i := v]) = drop 24 input" by simp
    with 5 show ?thesis using ok i v f32.get_changed [of 20 i input v] by (auto simp: decode_record_ok)
  next
    case 6
    then have "drop 24 (input[i := v]) = (drop 24 input)[i - 24 := v]" by (simp add: drop_update_swap)
    moreover have "checksum ((drop 24 input)[i - 24 := v]) \<noteq> checksum (drop 24 input)"
      using 6 i v by (intro checksum_changed_byte) auto
    ultimately show ?thesis using 6 ok by (auto simp: decode_record_ok wire_get_update)
  qed
  then show ?thesis by (auto split: sum.split)
qed

theorem record_corruption_detected_witness:
  "case decode_record ((take 25 (snd (encode_record \<lparr>pk_kind = 1, pk_stable_id = 7\<rparr> 3 [1] (replicate 32 0))))
      [24 := 2]) of Inl _ \<Rightarrow> True | Inr d' \<Rightarrow> dr_key d' \<noteq> \<lparr>pk_kind = 1, pk_stable_id = 7\<rparr>"
proof -
  define bytes where
    "bytes = take 25 (snd (encode_record \<lparr>pk_kind = 1, pk_stable_id = 7\<rparr> 3 [1] (replicate 32 0)))"
  have "bytes = take 24 (record_header \<lparr>pk_kind = 1, pk_stable_id = 7\<rparr> 3 [1] (replicate 32 0)) @ [1]"
    by (simp add: bytes_def encode_record_eq record_envelope_size_def record_header_def wire_simps min_def)
  then have "decode_record bytes =
      Inr \<lparr>dr_key = \<lparr>pk_kind = 1, pk_stable_id = 7\<rparr>, dr_version = 3, dr_payload = [1]\<rparr>"
    and "length bytes = 25" and "bytes ! 24 = 1"
    by (simp_all add: decode_encoded_record)
      (simp_all add: record_header_def wire_simps min_def nth_append)
  then show ?thesis
    using record_corruption_detected [of bytes _ 24 2] unfolding bytes_def [symmetric] by (simp split: sum.splits)
qed

end
