(* ===== verification/Parameter_Types.thy ===== *)
theory Parameter_Types
  imports Parameter_Record Lifecycle_Types
begin

text \<open>
  The data of the parameter facility: the enumerations and records of \<^verbatim>\<open>parameters/types.hpp\<close>, the
  validation, access, storage and persistence policies of \<^verbatim>\<open>parameters/policy.hpp\<close> with the traits the
  code derives from them, and the state of \<^verbatim>\<open>parameters/facility.hpp\<close>. A parameter type is its index in
  the parameter catalog, a persistence group its index in the list of groups, a store its index in the list
  of stores. The values of all parameters live in one type \<open>'v\<close> on which \<^verbatim>\<open>==\<close> is identity and \<^verbatim>\<open><\<close>
  the order of the type; \<open>pm_type\<close> tells which of them belong to the value type of a parameter.
\<close>

section \<open>Enumerations\<close>

datatype storage_kind = Sto_Mutex | Sto_Atomic | Sto_Immutable

datatype persistence_kind = Pk_Volatile | Pk_Immediate | Pk_Deferred | Pk_Manual | Pk_Transactional

datatype persistence_state =
    Ps_Volatile | Ps_Clean | Ps_Dirty | Ps_Scheduled | Ps_Writing | Ps_Failed | Ps_ResetPending
  | Ps_MigrationPending

datatype load_source = Ls_Default | Ls_Store | Ls_Migration

datatype load_outcome =
    Lo_NotAttempted | Lo_VolatileDefault | Lo_MissingDefault | Lo_Loaded | Lo_Migrated
  | Lo_DefaultAfterFailure | Lo_Failed

datatype update_origin =
    Uo_LocalSet | Uo_LocalTransaction | Uo_Reset | Uo_PrivilegedProvisioning | Uo_External
  | Uo_BootLoad | Uo_Migration

datatype param_operation =
    Po_Get | Po_TryGet | Po_GetIsr | Po_Set | Po_TrySet | Po_Reset | Po_Snapshot | Po_Transaction
  | Po_Save | Po_SaveAll | Po_Flush | Po_Query | Po_Initialize | Po_ActivateChanges | Po_Stop

datatype param_reason =
    Pr_None | Pr_NotReady | Pr_Disabled | Pr_NotRegistered | Pr_ReadOnly | Pr_PrivilegeRequired
  | Pr_ValidationRejected | Pr_WouldBlock | Pr_InvalidContext | Pr_PersistenceUnavailable
  | Pr_PersistenceFailed | Pr_CodecFailed | Pr_VersionMismatch | Pr_CorruptRecord
  | Pr_TransactionConflict | Pr_ChangeHandlerFailed | Pr_InternalInvariant

section \<open>Records\<close>

record param_error =
  pe_status :: status
  pe_reason :: param_reason
  pe_operation :: param_operation
  pe_parameter :: local_id
  pe_change :: local_id
  pe_stable_id :: "u64 option"
  pe_group_id :: "u64 option"
  pe_expected_version :: u16
  pe_observed_version :: u16
  pe_native_error :: int

definition param_error0 :: "status \<Rightarrow> param_reason \<Rightarrow> param_operation \<Rightarrow> param_error" where
  "param_error0 st reason op =
     \<lparr>pe_status = st, pe_reason = reason, pe_operation = op, pe_parameter = invalid_value,
      pe_change = invalid_value, pe_stable_id = None, pe_group_id = None, pe_expected_version = 0,
      pe_observed_version = 0, pe_native_error = 0\<rparr>"

record 'v normalized =
  nm_value :: 'v
  nm_adjusted :: bool

record 'v update =
  up_effective_value :: 'v
  up_revision :: u64
  up_persistence :: persistence_state
  up_change_failures :: nat
  up_changed :: bool
  up_adjusted :: bool
  up_changes_deferred :: bool

record 'v change =
  ch_old_value :: 'v
  ch_new_value :: 'v
  ch_revision :: u64
  ch_origin :: update_origin
  ch_adjusted :: bool
  ch_transaction :: bool
  ch_reset :: bool

record 'v parameter_record =
  pr_parameter :: local_id
  pr_value :: 'v
  pr_last_error :: param_error
  pr_revision :: u64
  pr_pending_revision :: u64
  pr_persisted_revision :: u64
  pr_reads :: u64
  pr_updates :: u64
  pr_unchanged :: u64
  pr_rejected :: u64
  pr_saves :: u64
  pr_save_failures :: u64
  pr_validation_adjustments :: u64
  pr_change_failures :: u64
  pr_current_version :: u16
  pr_stored_version :: u16
  pr_persistence :: persistence_state
  pr_load_source :: load_source
  pr_load_outcome :: load_outcome
  pr_last_origin :: update_origin
  pr_ready :: bool
  pr_writable :: bool
  pr_dirty :: bool
  pr_pending :: bool

record change_record =
  cr_change :: local_id
  cr_parameter :: local_id
  cr_observer :: local_id
  cr_last_status :: status
  cr_invocations :: u64
  cr_succeeded :: u64
  cr_failed :: u64
  cr_deferred :: u64
  cr_coalesced :: u64
  cr_last_revision :: u64
  cr_pending :: bool
  cr_invoking :: bool

record transaction_update =
  tu_changed :: nat
  tu_adjusted :: nat
  tu_change_failures :: nat
  tu_changes_deferred :: bool

record persistence_report =
  rp_visited :: nat
  rp_saved :: nat
  rp_clean :: nat
  rp_failed :: nat

section \<open>Policies\<close>

datatype range_behavior = Reject | Clamp

datatype 'v validation =
    AcceptAny
  | Range 'v 'v range_behavior
  | OneOf "'v list"
  | Custom "'v \<Rightarrow> status + 'v"

datatype access_policy = ReadWrite | ReadOnly | Privileged nat

datatype persistence_policy =
    Volatile
  | Immediate nat
  | Deferred nat int
  | Manual nat
  | Transactional nat

datatype load_failure_policy = UseDefaultAndReport | FailBoot

fun writable :: "access_policy \<Rightarrow> bool" where
  "writable ReadWrite = True"
| "writable ReadOnly = False"
| "writable (Privileged _) = True"

fun privileged :: "access_policy \<Rightarrow> bool" where
  "privileged ReadWrite = False"
| "privileged ReadOnly = False"
| "privileged (Privileged _) = True"

fun persistence_kind_of :: "persistence_policy \<Rightarrow> persistence_kind" where
  "persistence_kind_of Volatile = Pk_Volatile"
| "persistence_kind_of (Immediate _) = Pk_Immediate"
| "persistence_kind_of (Deferred _ _) = Pk_Deferred"
| "persistence_kind_of (Manual _) = Pk_Manual"
| "persistence_kind_of (Transactional _) = Pk_Transactional"

fun persistent :: "persistence_policy \<Rightarrow> bool" where
  "persistent Volatile = False"
| "persistent (Immediate _) = True"
| "persistent (Deferred _ _) = True"
| "persistent (Manual _) = True"
| "persistent (Transactional _) = True"

fun is_deferred :: "persistence_policy \<Rightarrow> bool" where
  "is_deferred Volatile = False"
| "is_deferred (Immediate _) = False"
| "is_deferred (Deferred _ _) = True"
| "is_deferred (Manual _) = False"
| "is_deferred (Transactional _) = False"

text \<open>The validation of a candidate value; \<open>fin\<close> is \<^verbatim>\<open>std::isfinite\<close> where the value type is a
  floating-point type and constantly true elsewhere.\<close>

fun normalize :: "('v \<Rightarrow> bool) \<Rightarrow> 'v::linorder validation \<Rightarrow> 'v \<Rightarrow> status + 'v normalized" where
  "normalize fin AcceptAny c = Inr \<lparr>nm_value = c, nm_adjusted = False\<rparr>"
| "normalize fin (Range lo hi b) c =
     (if \<not> fin c then Inl St_Invalid
      else if c < lo then
        (case b of Clamp \<Rightarrow> Inr \<lparr>nm_value = lo, nm_adjusted = True\<rparr> | Reject \<Rightarrow> Inl St_Invalid)
      else if c > hi then
        (case b of Clamp \<Rightarrow> Inr \<lparr>nm_value = hi, nm_adjusted = True\<rparr> | Reject \<Rightarrow> Inl St_Invalid)
      else Inr \<lparr>nm_value = c, nm_adjusted = False\<rparr>)"
| "normalize fin (OneOf vs) c =
     (if c \<in> set vs then Inr \<lparr>nm_value = c, nm_adjusted = False\<rparr> else Inl St_Invalid)"
| "normalize fin (Custom f) c =
     (case f c of
        Inl e \<Rightarrow> Inl e
      | Inr v \<Rightarrow> Inr \<lparr>nm_value = v, nm_adjusted = (v \<noteq> c)\<rparr>)"

section \<open>The configured system\<close>

text \<open>
  The codec of a parameter writes into an output span and reads an input span. A store is the adapter
  concept \<^verbatim>\<open>persistence::Adapter\<close>; its functions act on the world \<open>'w\<close>, the rest of the
  firmware. \<^verbatim>\<open>px_lock\<close> acquires a mutex of the facility, with or without waiting, and gives the error
  when it fails; \<open>px_after\<close>, \<open>px_expired\<close> and \<open>px_remaining\<close> are the Zephyr timepoints behind
  \<^verbatim>\<open>kernel::Deadline\<close>; \<open>px_schedule\<close>, \<open>px_cancel\<close>, \<open>px_quiescent\<close> and
  \<open>px_wait_quiescent\<close> are the operations of the execution runtime on the deferred registration.
\<close>

type_synonym timepoint = int

record 'v codec =
  co_encoded_size :: nat
  co_encode :: "'v \<Rightarrow> byte list \<Rightarrow> (solar_error + nat) \<times> byte list"
  co_decode :: "byte list \<Rightarrow> solar_error + 'v"

record 'v parameter =
  pm_default :: 'v
  pm_type :: "'v \<Rightarrow> bool"
  pm_finite :: "'v \<Rightarrow> bool"
  pm_version :: u16
  pm_stable_id :: "u64 option"
  pm_validation :: "'v validation"
  pm_access :: access_policy
  pm_storage :: storage_kind
  pm_persistence :: persistence_policy
  pm_load_failure :: load_failure_policy
  pm_codec :: "'v codec"
  pm_migrate :: "(u16 \<Rightarrow> byte list \<Rightarrow> solar_error + 'v) option"

record 'v param_group =
  gr_members :: "nat list"
  gr_store :: nat
  gr_stable_id :: u64
  gr_version :: u16
  gr_commit :: persistence_policy
  gr_migrate :: "(u16 \<Rightarrow> byte list \<Rightarrow> solar_error + 'v list) option"

record 'w store =
  st_initialize :: "'w \<Rightarrow> (solar_error + unit) \<times> 'w"
  st_load :: "persistence_key \<Rightarrow> byte list \<Rightarrow> 'w \<Rightarrow> (solar_error + nat) \<times> byte list \<times> 'w"
  st_save :: "persistence_key \<Rightarrow> byte list \<Rightarrow> 'w \<Rightarrow> (solar_error + unit) \<times> 'w"
  st_erase :: "persistence_key \<Rightarrow> 'w \<Rightarrow> (solar_error + unit) \<times> 'w"

record ('v, 'w) param_change =
  bc_observer :: nat
  bc_parameter :: nat
  bc_route :: nat
  bc_handler :: "'v change \<Rightarrow> 'w \<Rightarrow> (solar_error + unit) \<times> 'w"

datatype gate = Write_Gate | Persistence_Gate | Slot_Mutex nat

record ('v, 'w) param_config =
  px_parameters :: "'v parameter list"
  px_changes :: "('v, 'w) param_change list"
  px_groups :: "'v param_group list"
  px_stores :: "'w store list"
  px_max_record :: nat
  px_max_group_record :: nat
  px_migration :: bool
  px_stop_flush :: bool
  px_ticks_per_sec :: int
  px_lock :: "gate \<Rightarrow> bool \<Rightarrow> 'w \<Rightarrow> (solar_error + unit) \<times> 'w"
  px_in_isr :: "'w \<Rightarrow> bool"
  px_system_state :: "'w \<Rightarrow> system_state"
  px_after :: "int \<Rightarrow> 'w \<Rightarrow> timepoint"
  px_expired :: "timepoint \<Rightarrow> 'w \<Rightarrow> bool"
  px_remaining :: "timepoint \<Rightarrow> 'w \<Rightarrow> timepoint"
  px_schedule :: "int \<Rightarrow> 'w \<Rightarrow> (status + unit) \<times> 'w"
  px_cancel :: "'w \<Rightarrow> (status + unit) \<times> 'w"
  px_quiescent :: "'w \<Rightarrow> bool"
  px_wait_quiescent :: "'w \<Rightarrow> bool \<times> 'w"

abbreviation param :: "('v, 'w) param_config \<Rightarrow> nat \<Rightarrow> 'v parameter" where
  "param cfg p \<equiv> px_parameters cfg ! p"

abbreviation group :: "('v, 'w) param_config \<Rightarrow> nat \<Rightarrow> 'v param_group" where
  "group cfg g \<equiv> px_groups cfg ! g"

abbreviation store_at :: "('v, 'w) param_config \<Rightarrow> nat \<Rightarrow> 'w store" where
  "store_at cfg i \<equiv> px_stores cfg ! i"

definition normalize_param ::
  "('v::linorder, 'w) param_config \<Rightarrow> nat \<Rightarrow> 'v \<Rightarrow> status + 'v normalized" where
  "normalize_param cfg p = normalize (pm_finite (param cfg p)) (pm_validation (param cfg p))"

text \<open>\<^verbatim>\<open>EffectiveDeferred\<close> and \<^verbatim>\<open>Architecture::has_deferred\<close>.\<close>

fun effective_deferred :: "('v, 'w) param_config \<Rightarrow> persistence_policy \<Rightarrow> bool" where
  "effective_deferred cfg (Transactional g) = is_deferred (gr_commit (group cfg g))"
| "effective_deferred cfg policy = is_deferred policy"

definition has_deferred :: "('v, 'w) param_config \<Rightarrow> bool" where
  "has_deferred cfg \<longleftrightarrow>
     list_ex (\<lambda>p. is_deferred (pm_persistence p)) (px_parameters cfg) \<or>
     list_ex (\<lambda>g. is_deferred (gr_commit g)) (px_groups cfg)"

section \<open>The state\<close>

record 'v param_slot =
  sl_value :: 'v
  sl_record :: "'v parameter_record"
  sl_due :: "timepoint option"
  sl_erase_pending :: bool

record group_state =
  gs_revision :: u64
  gs_due :: "timepoint option"
  gs_dirty :: bool

record 'v change_state =
  cs_pending :: "'v change option"
  cs_record :: change_record

record ('v, 'w) params =
  fs_slots :: "'v param_slot list"
  fs_groups :: "group_state list"
  fs_changes :: "'v change_state list"
  fs_ready :: bool
  fs_mutation_open :: bool
  fs_activating_changes :: bool
  fs_persistence_active :: bool
  fs_schedule_persistence :: bool
  fs_world :: 'w

abbreviation slot :: "('v, 'w) params \<Rightarrow> nat \<Rightarrow> 'v param_slot" where
  "slot s p \<equiv> fs_slots s ! p"

abbreviation value_of :: "('v, 'w) params \<Rightarrow> nat \<Rightarrow> 'v" where
  "value_of s p \<equiv> sl_value (slot s p)"

section \<open>Validation is idempotent\<close>

text \<open>
  A value that validation has produced passes validation again, unchanged. For the built-in policies this
  needs the bounds of a range to be finite and in order; for a custom validator it is what
  its author promises.
\<close>

definition accepted :: "('v \<Rightarrow> bool) \<Rightarrow> 'v::linorder validation \<Rightarrow> 'v \<Rightarrow> bool" where
  "accepted fin pol v \<longleftrightarrow> normalize fin pol v = Inr \<lparr>nm_value = v, nm_adjusted = False\<rparr>"

fun validation_ok :: "('v \<Rightarrow> bool) \<Rightarrow> 'v::linorder validation \<Rightarrow> bool" where
  "validation_ok fin AcceptAny \<longleftrightarrow> True"
| "validation_ok fin (Range lo hi b) \<longleftrightarrow> lo \<le> hi \<and> fin lo \<and> fin hi"
| "validation_ok fin (OneOf vs) \<longleftrightarrow> True"
| "validation_ok fin (Custom f) \<longleftrightarrow> (\<forall>c v. f c = Inr v \<longrightarrow> f v = Inr v)"

lemma normalize_accepted:
  assumes "validation_ok fin pol" and "normalize fin pol c = Inr n"
  shows "accepted fin pol (nm_value n)"
  using assms
  by (cases pol; cases "case pol of Range lo hi b \<Rightarrow> b | _ \<Rightarrow> Reject")
    (auto simp: accepted_def split: if_splits sum.splits)

lemma normalize_unadjusted:
  assumes "normalize fin pol c = Inr n" and "\<not> nm_adjusted n"
  shows "nm_value n = c"
  using assms
  by (cases pol; cases "case pol of Range lo hi b \<Rightarrow> b | _ \<Rightarrow> Reject")
    (auto split: if_splits sum.splits)

lemma clamp_never_rejects:
  assumes "validation_ok fin (Range lo hi Clamp)" and "fin c"
  shows "normalize fin (Range lo hi Clamp) c =
    Inr \<lparr>nm_value = max lo (min hi c), nm_adjusted = (max lo (min hi c) \<noteq> c)\<rparr>"
  using assms by (auto simp: max_def min_def)

end
