(* ===== verification/Parameter_Facility.thy ===== *)
theory Parameter_Facility
  imports Parameter_Types
begin

text \<open>
  The storage classes of \<^verbatim>\<open>parameters/facility.hpp\<close>: the value cell and the record of a parameter
  (\<^verbatim>\<open>ParameterSlot\<close>), the dirty state of a persistence group (\<^verbatim>\<open>GroupState\<close>) and the pending change of a
  change hook (\<^verbatim>\<open>ChangeState\<close>). The spin locks inside them cannot fail and are left out; the mutex of
  a value cell can, and is acquired through \<^verbatim>\<open>px_lock\<close>.
\<close>

section \<open>State access\<close>

definition upd_slot ::
  "nat \<Rightarrow> ('v param_slot \<Rightarrow> 'v param_slot) \<Rightarrow> ('v, 'w) params \<Rightarrow> ('v, 'w) params" where
  "upd_slot p f s = s\<lparr>fs_slots := (fs_slots s)[p := f (slot s p)]\<rparr>"

definition upd_group ::
  "nat \<Rightarrow> (group_state \<Rightarrow> group_state) \<Rightarrow> ('v, 'w) params \<Rightarrow> ('v, 'w) params" where
  "upd_group g f s = s\<lparr>fs_groups := (fs_groups s)[g := f (fs_groups s ! g)]\<rparr>"

definition upd_change ::
  "nat \<Rightarrow> ('v change_state \<Rightarrow> 'v change_state) \<Rightarrow> ('v, 'w) params \<Rightarrow> ('v, 'w) params" where
  "upd_change c f s = s\<lparr>fs_changes := (fs_changes s)[c := f (fs_changes s ! c)]\<rparr>"

definition param_call :: "('w \<Rightarrow> 'a \<times> 'w) \<Rightarrow> ('v, 'w) params \<Rightarrow> 'a \<times> ('v, 'w) params" where
  "param_call f s = (case f (fs_world s) of (r, w) \<Rightarrow> (r, s\<lparr>fs_world := w\<rparr>))"

definition lock_gate ::
  "('v, 'w) param_config \<Rightarrow> gate \<Rightarrow> bool \<Rightarrow> ('v, 'w) params \<Rightarrow> (solar_error + unit) \<times> ('v, 'w) params" where
  "lock_gate cfg g no_wait s = param_call (px_lock cfg g no_wait) s"

section \<open>The value cell\<close>

definition cell_read ::
  "('v, 'w) param_config \<Rightarrow> nat \<Rightarrow> bool \<Rightarrow> ('v, 'w) params \<Rightarrow> (solar_error + 'v) \<times> ('v, 'w) params" where
  "cell_read cfg p no_wait s =
     (if pm_storage (param cfg p) = Sto_Atomic then (Inr (value_of s p), s)
      else case lock_gate cfg (Slot_Mutex p) no_wait s of (r, s) \<Rightarrow>
        (case r of Inl e \<Rightarrow> (Inl e, s) | Inr _ \<Rightarrow> (Inr (value_of s p), s)))"

definition cell_write ::
  "('v, 'w) param_config \<Rightarrow> nat \<Rightarrow> 'v \<Rightarrow> ('v, 'w) params \<Rightarrow> (solar_error + unit) \<times> ('v, 'w) params" where
  "cell_write cfg p v s =
     (if pm_storage (param cfg p) = Sto_Atomic then (Inr (), upd_slot p (\<lambda>sl. sl\<lparr>sl_value := v\<rparr>) s)
      else case lock_gate cfg (Slot_Mutex p) False s of (r, s) \<Rightarrow>
        (case r of Inl e \<Rightarrow> (Inl e, s) | Inr _ \<Rightarrow> (Inr (), upd_slot p (\<lambda>sl. sl\<lparr>sl_value := v\<rparr>) s)))"

section \<open>The slot\<close>

definition initial_parameter_record :: "'v parameter \<Rightarrow> local_id \<Rightarrow> 'v parameter_record" where
  "initial_parameter_record pm i =
     \<lparr>pr_parameter = i, pr_value = pm_default pm,
      pr_last_error = (param_error0 St_Ok Pr_None Po_Query)\<lparr>pe_parameter := i\<rparr>,
      pr_revision = 0, pr_pending_revision = 0, pr_persisted_revision = 0, pr_reads = 0,
      pr_updates = 0, pr_unchanged = 0, pr_rejected = 0, pr_saves = 0, pr_save_failures = 0,
      pr_validation_adjustments = 0, pr_change_failures = 0, pr_current_version = pm_version pm,
      pr_stored_version = 0,
      pr_persistence = (if persistent (pm_persistence pm) then Ps_Clean else Ps_Volatile),
      pr_load_source = Ls_Default,
      pr_load_outcome = (if persistent (pm_persistence pm) then Lo_NotAttempted else Lo_VolatileDefault),
      pr_last_origin = Uo_BootLoad, pr_ready = False, pr_writable = writable (pm_access pm),
      pr_dirty = False, pr_pending = False\<rparr>"

definition slot_initialize ::
  "('v, 'w) param_config \<Rightarrow> nat \<Rightarrow> ('v, 'w) params \<Rightarrow> ('v, 'w) params" where
  "slot_initialize cfg p s =
     (case cell_write cfg p (pm_default (param cfg p)) s of (_, s) \<Rightarrow>
        upd_slot p (\<lambda>sl. sl\<lparr>sl_record := initial_parameter_record (param cfg p) (of_nat p)\<rparr>) s)"

definition slot_mutate_record ::
  "nat \<Rightarrow> ('v parameter_record \<Rightarrow> 'v parameter_record) \<Rightarrow> ('v, 'w) params \<Rightarrow> ('v, 'w) params" where
  "slot_mutate_record p f s = upd_slot p (\<lambda>sl. sl\<lparr>sl_record := f (sl_record sl)\<rparr>) s"

definition slot_read ::
  "('v, 'w) param_config \<Rightarrow> nat \<Rightarrow> bool \<Rightarrow> ('v, 'w) params \<Rightarrow> (solar_error + 'v) \<times> ('v, 'w) params" where
  "slot_read cfg p no_wait s =
     (case cell_read cfg p no_wait s of (r, s) \<Rightarrow>
        (case r of
           Inl e \<Rightarrow> (Inl e, s)
         | Inr v \<Rightarrow> (Inr v, slot_mutate_record p (\<lambda>rec. rec\<lparr>pr_reads := pr_reads rec + 1\<rparr>) s)))"

definition copy_record :: "'v \<Rightarrow> 'v param_slot \<Rightarrow> 'v parameter_record" where
  "copy_record v sl = (sl_record sl)\<lparr>pr_value := v\<rparr>"

definition slot_mark_dirty :: "u64 \<Rightarrow> bool \<Rightarrow> timepoint option \<Rightarrow> 'v param_slot \<Rightarrow> 'v param_slot" where
  "slot_mark_dirty revision reset due sl =
     sl\<lparr>sl_record := (sl_record sl)\<lparr>pr_dirty := True, pr_pending := True, pr_pending_revision := revision,
          pr_persistence := (if reset then Ps_ResetPending
                             else if due \<noteq> None then Ps_Scheduled else Ps_Dirty)\<rparr>,
        sl_due := due, sl_erase_pending := reset\<rparr>"

record 'v persistence_work =
  pw_value :: 'v
  pw_revision :: u64
  pw_due :: "timepoint option"
  pw_dirty :: bool
  pw_erase :: bool

definition slot_persistence_work :: "'v \<Rightarrow> 'v param_slot \<Rightarrow> 'v persistence_work" where
  "slot_persistence_work v sl =
     \<lparr>pw_value = v, pw_revision = pr_pending_revision (sl_record sl), pw_due = sl_due sl,
      pw_dirty = pr_dirty (sl_record sl), pw_erase = sl_erase_pending sl\<rparr>"

definition slot_finish_persistence :: "u64 \<Rightarrow> status \<Rightarrow> 'v param_slot \<Rightarrow> 'v param_slot" where
  "slot_finish_persistence revision st sl =
     (if st = St_Ok then
        let rec = (sl_record sl)\<lparr>pr_saves := pr_saves (sl_record sl) + 1, pr_persisted_revision := revision\<rparr> in
        if pr_pending_revision rec = revision then
          sl\<lparr>sl_record := rec\<lparr>pr_dirty := False, pr_pending := False, pr_persistence := Ps_Clean\<rparr>,
             sl_due := None, sl_erase_pending := False\<rparr>
        else sl\<lparr>sl_record := rec\<rparr>
      else
        sl\<lparr>sl_record := (sl_record sl)\<lparr>pr_save_failures := pr_save_failures (sl_record sl) + 1,
             pr_persistence := Ps_Failed\<rparr>,
           sl_due := None\<rparr>)"

definition slot_mark_schedule_failure :: "status \<Rightarrow> 'v param_slot \<Rightarrow> 'v param_slot" where
  "slot_mark_schedule_failure st sl =
     sl\<lparr>sl_record := (sl_record sl)\<lparr>pr_persistence := Ps_Failed,
          pr_last_error := (param_error0 st Pr_PersistenceFailed Po_Save)
            \<lparr>pe_parameter := pr_parameter (sl_record sl)\<rparr>\<rparr>,
        sl_due := None\<rparr>"

definition slot_mark_persisted :: "u64 \<Rightarrow> 'v param_slot \<Rightarrow> 'v param_slot" where
  "slot_mark_persisted revision sl =
     sl\<lparr>sl_record := (sl_record sl)\<lparr>pr_saves := pr_saves (sl_record sl) + 1,
          pr_persisted_revision := revision, pr_pending_revision := revision,
          pr_persistence := Ps_Clean, pr_dirty := False, pr_pending := False\<rparr>,
        sl_due := None, sl_erase_pending := False\<rparr>"

definition slot_mark_persistence_failure ::
  "status \<Rightarrow> param_operation \<Rightarrow> 'v param_slot \<Rightarrow> 'v param_slot" where
  "slot_mark_persistence_failure st op sl =
     sl\<lparr>sl_record := (sl_record sl)\<lparr>pr_save_failures := pr_save_failures (sl_record sl) + 1,
          pr_persistence := Ps_Failed,
          pr_last_error := (param_error0 st Pr_PersistenceFailed op)
            \<lparr>pe_parameter := pr_parameter (sl_record sl)\<rparr>\<rparr>\<rparr>"

definition slot_next_due :: "'v param_slot \<Rightarrow> timepoint option" where
  "slot_next_due sl = (if pr_dirty (sl_record sl) then sl_due sl else None)"

definition mark_loaded ::
  "('v, 'w) param_config \<Rightarrow> nat \<Rightarrow> 'v \<Rightarrow> load_source \<Rightarrow> load_outcome \<Rightarrow> u16 \<Rightarrow> ('v, 'w) params \<Rightarrow>
   ('v, 'w) params" where
  "mark_loaded cfg p v source outcome stored_version s =
     (case cell_write cfg p v s of (_, s) \<Rightarrow>
        upd_slot p (\<lambda>sl. sl\<lparr>sl_record := (sl_record sl)\<lparr>pr_value := v, pr_stored_version := stored_version,
            pr_load_source := source, pr_load_outcome := outcome, pr_persistence := Ps_Clean,
            pr_dirty := False, pr_pending := False\<rparr>,
          sl_due := None, sl_erase_pending := False\<rparr>) s)"

section \<open>Group state\<close>

definition group_initialize :: "group_state \<Rightarrow> group_state" where
  "group_initialize gs = gs\<lparr>gs_revision := 0, gs_dirty := False, gs_due := None\<rparr>"

definition group_mark_dirty :: "timepoint option \<Rightarrow> group_state \<Rightarrow> group_state" where
  "group_mark_dirty due gs = gs\<lparr>gs_revision := gs_revision gs + 1, gs_dirty := True, gs_due := due\<rparr>"

definition group_finish :: "u64 \<Rightarrow> bool \<Rightarrow> group_state \<Rightarrow> bool \<times> group_state" where
  "group_finish revision success gs =
     (if success \<and> gs_revision gs = revision then (True, gs\<lparr>gs_dirty := False, gs_due := None\<rparr>)
      else if \<not> success then (False, gs\<lparr>gs_due := None\<rparr>)
      else (False, gs))"

section \<open>Change state\<close>

definition change_initialize :: "local_id \<Rightarrow> local_id \<Rightarrow> local_id \<Rightarrow> 'v change_state" where
  "change_initialize c p observer =
     \<lparr>cs_pending = None,
      cs_record = \<lparr>cr_change = c, cr_parameter = p, cr_observer = observer, cr_last_status = St_NotReady,
        cr_invocations = 0, cr_succeeded = 0, cr_failed = 0, cr_deferred = 0, cr_coalesced = 0,
        cr_last_revision = 0, cr_pending = False, cr_invoking = False\<rparr>\<rparr>"

definition change_defer :: "'v change \<Rightarrow> 'v change_state \<Rightarrow> 'v change_state" where
  "change_defer ch cs =
     (case cs_pending cs of
        Some pending \<Rightarrow>
          cs\<lparr>cs_pending := Some (pending\<lparr>ch_new_value := ch_new_value ch, ch_revision := ch_revision ch,
               ch_origin := ch_origin ch, ch_adjusted := (ch_adjusted pending \<or> ch_adjusted ch),
               ch_transaction := (ch_transaction pending \<or> ch_transaction ch),
               ch_reset := (ch_reset pending \<or> ch_reset ch)\<rparr>),
             cs_record := (cs_record cs)\<lparr>cr_coalesced := cr_coalesced (cs_record cs) + 1, cr_pending := True\<rparr>\<rparr>
      | None \<Rightarrow>
          cs\<lparr>cs_pending := Some ch,
             cs_record := (cs_record cs)\<lparr>cr_deferred := cr_deferred (cs_record cs) + 1, cr_pending := True\<rparr>\<rparr>)"

definition change_take_pending :: "'v change_state \<Rightarrow> 'v change option \<times> 'v change_state" where
  "change_take_pending cs =
     (cs_pending cs, cs\<lparr>cs_pending := None, cs_record := (cs_record cs)\<lparr>cr_pending := False\<rparr>\<rparr>)"

definition change_begin_invoke :: "'v change_state \<Rightarrow> 'v change_state" where
  "change_begin_invoke cs = cs\<lparr>cs_record := (cs_record cs)\<lparr>cr_invoking := True\<rparr>\<rparr>"

definition change_finish_invoke :: "u64 \<Rightarrow> status \<Rightarrow> 'v change_state \<Rightarrow> 'v change_state" where
  "change_finish_invoke revision st cs =
     (let rec = (cs_record cs)\<lparr>cr_invocations := cr_invocations (cs_record cs) + 1\<rparr>;
          rec = (if st = St_Ok then rec\<lparr>cr_succeeded := cr_succeeded rec + 1\<rparr>
                 else rec\<lparr>cr_failed := cr_failed rec + 1\<rparr>) in
      cs\<lparr>cs_record := rec\<lparr>cr_last_revision := revision, cr_last_status := st, cr_invoking := False\<rparr>\<rparr>)"

end
