(* ===== verification/Parameter_Load.thy ===== *)
theory Parameter_Load
  imports Parameter_Facility
begin

text \<open>
  The first half of \<^verbatim>\<open>parameters/runtime.hpp\<close>, in the build with persistence enabled: the durable images of
  parameters and groups, and their loading at boot. Loops over a type list are loops over
  catalog indices; \<open>run_ok\<close> is the loop that skips its body once a result has failed.
\<close>

fun run_ok :: "('a \<Rightarrow> 's \<Rightarrow> ('e + unit) \<times> 's) \<Rightarrow> 'a list \<Rightarrow> 's \<Rightarrow> ('e + unit) \<times> 's" where
  "run_ok f [] s = (Inr (), s)"
| "run_ok f (x # xs) s =
     (case f x s of (Inl e, s) \<Rightarrow> (Inl e, s) | (Inr _, s) \<Rightarrow> run_ok f xs s)"

definition make_param_error ::
  "('v, 'w) param_config \<Rightarrow> nat \<Rightarrow> param_operation \<Rightarrow> status \<Rightarrow> param_reason \<Rightarrow> param_error" where
  "make_param_error cfg p op st reason =
     (param_error0 st reason op)\<lparr>pe_parameter := of_nat p, pe_stable_id := pm_stable_id (param cfg p)\<rparr>"

definition block_reason :: "status \<Rightarrow> param_reason \<Rightarrow> param_reason" where
  "block_reason st other = (if st = St_WouldBlock then Pr_WouldBlock else other)"

section \<open>Durable images\<close>

definition stable_id_raw :: "'v parameter \<Rightarrow> u64" where
  "stable_id_raw pm = (case pm_stable_id pm of Some i \<Rightarrow> i | None \<Rightarrow> 0)"

definition param_key :: "('v, 'w) param_config \<Rightarrow> nat \<Rightarrow> persistence_key" where
  "param_key cfg p = \<lparr>pk_kind = kind_parameter, pk_stable_id = stable_id_raw (param cfg p)\<rparr>"

definition group_key :: "('v, 'w) param_config \<Rightarrow> nat \<Rightarrow> persistence_key" where
  "group_key cfg g = \<lparr>pk_kind = kind_group, pk_stable_id = gr_stable_id (group cfg g)\<rparr>"

definition encode_persistent_value ::
  "('v, 'w) param_config \<Rightarrow> nat \<Rightarrow> 'v \<Rightarrow> byte list \<Rightarrow> (solar_error + nat) \<times> byte list" where
  "encode_persistent_value cfg p v output =
     (let co = pm_codec (param cfg p) in
      case co_encode co v (replicate (co_encoded_size co) 0) of
        (Inl e, _) \<Rightarrow> (Inl (fail_status (err_status e)), output)
      | (Inr n, payload) \<Rightarrow>
          if n \<noteq> co_encoded_size co then (Inl (fail_status St_ProtocolError), output)
          else encode_record (param_key cfg p) (pm_version (param cfg p)) payload output)"

definition persist_value ::
  "('v, 'w) param_config \<Rightarrow> nat \<Rightarrow> nat \<Rightarrow> 'v \<Rightarrow> bool \<Rightarrow> ('v, 'w) params \<Rightarrow>
   (solar_error + unit) \<times> ('v, 'w) params" where
  "persist_value cfg p st v erase s =
     (if erase then param_call (st_erase (store_at cfg st) (param_key cfg p)) s
      else case encode_persistent_value cfg p v (replicate (px_max_record cfg) 0) of
             (Inl e, _) \<Rightarrow> (Inl e, s)
           | (Inr n, rec) \<Rightarrow> param_call (st_save (store_at cfg st) (param_key cfg p) (take n rec)) s)"

definition group_payload_size :: "('v, 'w) param_config \<Rightarrow> nat list \<Rightarrow> nat" where
  "group_payload_size cfg members = sum_list (map (\<lambda>p. co_encoded_size (pm_codec (param cfg p))) members)"

type_synonym ('v, 'w) provider = "nat \<Rightarrow> ('v, 'w) params \<Rightarrow> (solar_error + 'v) \<times> ('v, 'w) params"

fun encode_members ::
  "('v, 'w) param_config \<Rightarrow> ('v, 'w) provider \<Rightarrow> nat list \<Rightarrow> nat \<Rightarrow> byte list \<Rightarrow> ('v, 'w) params \<Rightarrow>
   (solar_error + nat) \<times> byte list \<times> ('v, 'w) params" where
  "encode_members cfg provider [] offset output s = (Inr offset, output, s)"
| "encode_members cfg provider (p # ps) offset output s =
     (case provider p s of
        (Inl e, s) \<Rightarrow> (Inl e, output, s)
      | (Inr v, s) \<Rightarrow>
          let size = co_encoded_size (pm_codec (param cfg p)) in
          case co_encode (pm_codec (param cfg p)) v (take size (drop offset output)) of (encoded, part) \<Rightarrow>
            let output = take offset output @ part @ drop (offset + size) output in
            (case encoded of
               Inl e \<Rightarrow> (Inl (fail_status (err_status e)), output, s)
             | Inr n \<Rightarrow>
                 if n \<noteq> size then (Inl (fail_status St_ProtocolError), output, s)
                 else encode_members cfg provider ps (offset + size) output s))"

definition encode_group_payload ::
  "('v, 'w) param_config \<Rightarrow> nat \<Rightarrow> byte list \<Rightarrow> ('v, 'w) provider \<Rightarrow> ('v, 'w) params \<Rightarrow>
   (solar_error + nat) \<times> byte list \<times> ('v, 'w) params" where
  "encode_group_payload cfg g output provider s =
     (if length output < group_payload_size cfg (gr_members (group cfg g)) then
        (Inl (fail_status St_NoBuffer), output, s)
      else encode_members cfg provider (gr_members (group cfg g)) 0 output s)"

definition save_group_record ::
  "('v, 'w) param_config \<Rightarrow> nat \<Rightarrow> byte list \<Rightarrow> ('v, 'w) params \<Rightarrow>
   (solar_error + unit) \<times> ('v, 'w) params" where
  "save_group_record cfg g payload s =
     (case encode_record (group_key cfg g) (gr_version (group cfg g)) payload
             (replicate (px_max_group_record cfg) 0) of
        (Inl e, _) \<Rightarrow> (Inl e, s)
      | (Inr n, rec) \<Rightarrow>
          param_call (st_save (store_at cfg (gr_store (group cfg g))) (group_key cfg g) (take n rec)) s)"

definition persist_group_image ::
  "('v, 'w) param_config \<Rightarrow> nat \<Rightarrow> ('v, 'w) provider \<Rightarrow> ('v, 'w) params \<Rightarrow>
   (solar_error + unit) \<times> ('v, 'w) params" where
  "persist_group_image cfg g provider s =
     (case encode_group_payload cfg g (replicate (px_max_group_record cfg) 0) provider s of
        (Inl e, _, s) \<Rightarrow> (Inl e, s)
      | (Inr n, payload, s) \<Rightarrow> save_group_record cfg g (take n payload) s)"

fun decode_group_values ::
  "('v, 'w) param_config \<Rightarrow> nat list \<Rightarrow> byte list \<Rightarrow> nat \<Rightarrow> solar_error + 'v list" where
  "decode_group_values cfg [] payload offset =
     (if offset = length payload then Inr [] else Inl (fail_status St_MessageTooLarge))"
| "decode_group_values cfg (p # ps) payload offset =
     (let size = co_encoded_size (pm_codec (param cfg p)) in
      if offset + size > length payload then Inl (fail_status St_MessageTooLarge)
      else case co_decode (pm_codec (param cfg p)) (take size (drop offset payload)) of
             Inl e \<Rightarrow> Inl e
           | Inr v \<Rightarrow>
               (case decode_group_values cfg ps payload (offset + size) of
                  Inl e \<Rightarrow> Inl e
                | Inr vs \<Rightarrow> Inr (v # vs)))"

fun normalize_group_values ::
  "('v::linorder, 'w) param_config \<Rightarrow> nat list \<Rightarrow> 'v list \<Rightarrow> solar_error + 'v list" where
  "normalize_group_values cfg (p # ps) (v # vs) =
     (case normalize_param cfg p v of
        Inl _ \<Rightarrow> Inl (fail_status St_Invalid)
      | Inr n \<Rightarrow>
          (case normalize_group_values cfg ps vs of
             Inl e \<Rightarrow> Inl e
           | Inr ns \<Rightarrow> Inr (nm_value n # ns)))"
| "normalize_group_values cfg _ _ = Inr []"

section \<open>Loading\<close>

definition record_load_failure ::
  "('v, 'w) param_config \<Rightarrow> nat \<Rightarrow> status \<Rightarrow> param_reason \<Rightarrow> u16 \<Rightarrow> ('v, 'w) params \<Rightarrow> ('v, 'w) params" where
  "record_load_failure cfg p st reason observed_version s =
     slot_mutate_record p (\<lambda>rec. rec\<lparr>pr_last_error :=
         (param_error0 st reason Po_Initialize)\<lparr>pe_parameter := of_nat p,
            pe_stable_id := Some (stable_id_raw (param cfg p)),
            pe_expected_version := pm_version (param cfg p), pe_observed_version := observed_version\<rparr>,
         pr_stored_version := observed_version, pr_load_source := Ls_Default,
         pr_load_outcome := Lo_DefaultAfterFailure\<rparr>) s"

definition load_failure ::
  "('v, 'w) param_config \<Rightarrow> nat \<Rightarrow> status \<Rightarrow> param_reason \<Rightarrow> u16 \<Rightarrow> ('v, 'w) params \<Rightarrow>
   (solar_error + unit) \<times> ('v, 'w) params" where
  "load_failure cfg p st reason observed_version s =
     (let s = record_load_failure cfg p st reason observed_version s in
      if pm_load_failure (param cfg p) = FailBoot then (Inl (fail_status st), s) else (Inr (), s))"

fun persistence_store :: "persistence_policy \<Rightarrow> nat option" where
  "persistence_store Volatile = None"
| "persistence_store (Immediate st) = Some st"
| "persistence_store (Deferred st _) = Some st"
| "persistence_store (Manual st) = Some st"
| "persistence_store (Transactional _) = None"

definition missing_default :: "'v parameter_record \<Rightarrow> 'v parameter_record" where
  "missing_default rec = rec\<lparr>pr_load_source := Ls_Default, pr_load_outcome := Lo_MissingDefault,
     pr_persistence := Ps_Clean\<rparr>"

definition decode_stored ::
  "('v, 'w) param_config \<Rightarrow> nat \<Rightarrow> decoded_record \<Rightarrow> (solar_error + 'v) \<times> load_source" where
  "decode_stored cfg p dec =
     (let pm = param cfg p in
      if dr_version dec = pm_version pm then (co_decode (pm_codec pm) (dr_payload dec), Ls_Store)
      else case (if px_migration cfg then pm_migrate pm else None) of
             Some migrate \<Rightarrow>
               if dr_version dec < pm_version pm
               then (migrate (dr_version dec) (dr_payload dec), Ls_Migration)
               else (Inl (fail_status St_ProtocolError), Ls_Store)
           | None \<Rightarrow> (Inl (fail_status St_ProtocolError), Ls_Store))"

definition install_stored ::
  "('v::linorder, 'w) param_config \<Rightarrow> nat \<Rightarrow> decoded_record \<Rightarrow> ('v, 'w) params \<Rightarrow>
   (solar_error + unit) \<times> ('v, 'w) params" where
  "install_stored cfg p dec s =
     (case decode_stored cfg p dec of
        (Inl e, _) \<Rightarrow>
          load_failure cfg p (err_status e)
            (if err_status e = St_ProtocolError then Pr_VersionMismatch else Pr_CodecFailed) (dr_version dec) s
      | (Inr v, source) \<Rightarrow>
          (case normalize_param cfg p v of
             Inl _ \<Rightarrow> load_failure cfg p St_Invalid Pr_ValidationRejected (dr_version dec) s
           | Inr n \<Rightarrow>
               let s = mark_loaded cfg p (nm_value n) source
                         (if source = Ls_Migration then Lo_Migrated else Lo_Loaded) (dr_version dec) s;
                   s = (if source = Ls_Migration then upd_slot p (slot_mark_dirty 0 False None) s else s) in
               (Inr (), s)))"

definition load_persistent_parameter ::
  "('v::linorder, 'w) param_config \<Rightarrow> nat \<Rightarrow> ('v, 'w) params \<Rightarrow> (solar_error + unit) \<times> ('v, 'w) params" where
  "load_persistent_parameter cfg p s =
     (case persistence_store (pm_persistence (param cfg p)) of
        None \<Rightarrow> (Inr (), s)
      | Some st \<Rightarrow>
          (case st_load (store_at cfg st) (param_key cfg p) (replicate (px_max_record cfg) 0) (fs_world s) of
             (loaded, buffer, w) \<Rightarrow>
               let s = s\<lparr>fs_world := w\<rparr> in
               case loaded of
                 Inl e \<Rightarrow>
                   if err_status e = St_NotFound then (Inr (), slot_mutate_record p missing_default s)
                   else load_failure cfg p (err_status e) Pr_PersistenceFailed 0 s
               | Inr n \<Rightarrow>
                   if n > length buffer then load_failure cfg p St_MessageTooLarge Pr_CorruptRecord 0 s
                   else (case decode_record (take n buffer) of
                           Inl e \<Rightarrow> load_failure cfg p (err_status e) Pr_CorruptRecord 0 s
                         | Inr dec \<Rightarrow>
                             if pk_kind (dr_key dec) \<noteq> kind_parameter \<or>
                                pk_stable_id (dr_key dec) \<noteq> pk_stable_id (param_key cfg p)
                             then load_failure cfg p St_ProtocolError Pr_CorruptRecord 0 s
                             else install_stored cfg p dec s)))"

definition group_load_failure ::
  "('v, 'w) param_config \<Rightarrow> nat \<Rightarrow> status \<Rightarrow> param_reason \<Rightarrow> u16 \<Rightarrow> ('v, 'w) params \<Rightarrow>
   (solar_error + unit) \<times> ('v, 'w) params" where
  "group_load_failure cfg g st reason observed_version s =
     (let members = gr_members (group cfg g);
          s = fold (\<lambda>p s. record_load_failure cfg p st reason observed_version s) members s in
      if list_ex (\<lambda>p. pm_load_failure (param cfg p) = FailBoot) members
      then (Inl (fail_status st), s) else (Inr (), s))"

definition decode_stored_group ::
  "('v, 'w) param_config \<Rightarrow> nat \<Rightarrow> decoded_record \<Rightarrow> (solar_error + 'v list) \<times> load_source" where
  "decode_stored_group cfg g dec =
     (let gr = group cfg g in
      if dr_version dec = gr_version gr
      then (decode_group_values cfg (gr_members gr) (dr_payload dec) 0, Ls_Store)
      else case (if px_migration cfg then gr_migrate gr else None) of
             Some migrate \<Rightarrow>
               if dr_version dec < gr_version gr
               then (case migrate (dr_version dec) (dr_payload dec) of
                       Inr vs \<Rightarrow> (Inr vs, Ls_Migration)
                     | Inl e \<Rightarrow> (Inl e, Ls_Store))
               else (Inl (fail_status St_ProtocolError), Ls_Store)
           | None \<Rightarrow> (Inl (fail_status St_ProtocolError), Ls_Store))"

definition install_stored_group ::
  "('v::linorder, 'w) param_config \<Rightarrow> nat \<Rightarrow> decoded_record \<Rightarrow> ('v, 'w) params \<Rightarrow>
   (solar_error + unit) \<times> ('v, 'w) params" where
  "install_stored_group cfg g dec s =
     (case decode_stored_group cfg g dec of
        (Inl e, _) \<Rightarrow>
          group_load_failure cfg g (err_status e)
            (if dr_version dec = gr_version (group cfg g) then Pr_CodecFailed else Pr_VersionMismatch)
            (dr_version dec) s
      | (Inr vs, source) \<Rightarrow>
          (case normalize_group_values cfg (gr_members (group cfg g)) vs of
             Inl _ \<Rightarrow> group_load_failure cfg g St_Invalid Pr_ValidationRejected (dr_version dec) s
           | Inr ns \<Rightarrow>
               let s = fold (\<lambda>(p, v) s. mark_loaded cfg p v source
                               (if source = Ls_Migration then Lo_Migrated else Lo_Loaded) (dr_version dec) s)
                         (zip (gr_members (group cfg g)) ns) s;
                   s = (if source = Ls_Migration then upd_group g (group_mark_dirty None) s else s) in
               (Inr (), s)))"

definition load_persistent_group ::
  "('v::linorder, 'w) param_config \<Rightarrow> nat \<Rightarrow> ('v, 'w) params \<Rightarrow> (solar_error + unit) \<times> ('v, 'w) params" where
  "load_persistent_group cfg g s =
     (case st_load (store_at cfg (gr_store (group cfg g))) (group_key cfg g)
             (replicate (px_max_group_record cfg) 0) (fs_world s) of
        (loaded, buffer, w) \<Rightarrow>
          let s = s\<lparr>fs_world := w\<rparr> in
          case loaded of
            Inl e \<Rightarrow>
              if err_status e = St_NotFound
              then (Inr (), fold (\<lambda>p s. slot_mutate_record p missing_default s) (gr_members (group cfg g)) s)
              else group_load_failure cfg g (err_status e) Pr_PersistenceFailed 0 s
          | Inr n \<Rightarrow>
              if n > length buffer then group_load_failure cfg g St_MessageTooLarge Pr_CorruptRecord 0 s
              else (case decode_record (take n buffer) of
                      Inl e \<Rightarrow> group_load_failure cfg g (err_status e) Pr_CorruptRecord 0 s
                    | Inr dec \<Rightarrow>
                        if pk_kind (dr_key dec) \<noteq> kind_group \<or>
                           pk_stable_id (dr_key dec) \<noteq> pk_stable_id (group_key cfg g)
                        then group_load_failure cfg g St_ProtocolError Pr_CorruptRecord 0 s
                        else install_stored_group cfg g dec s))"

definition initialize_persistence ::
  "('v::linorder, 'w) param_config \<Rightarrow> ('v, 'w) params \<Rightarrow> (solar_error + unit) \<times> ('v, 'w) params" where
  "initialize_persistence cfg s =
     (case run_ok (\<lambda>st. param_call (st_initialize st)) (px_stores cfg) s of
        (Inl e, s) \<Rightarrow> (Inl e, s)
      | (Inr _, s) \<Rightarrow>
          (case run_ok (load_persistent_parameter cfg) [0..<length (px_parameters cfg)] s of
             (Inl e, s) \<Rightarrow> (Inl e, s)
           | (Inr _, s) \<Rightarrow> run_ok (load_persistent_group cfg) [0..<length (px_groups cfg)] s))"

end
