(* ===== verification/Parameter_Store.thy ===== *)
theory Parameter_Store
  imports Parameter_Load
begin

text \<open>
  What the parameter facility relies on in a persistence store, as the locale \<open>kv_store\<close>: a store is read as
  a map from record keys to byte strings, and its operations act on that map. The adapter of
  \<^verbatim>\<open>parameters/settings.hpp\<close> provides it on top of the Zephyr settings functions, whose documented
  behaviour is the locale \<open>settings_backend\<close>.
\<close>

section \<open>The store interface\<close>

definition valid_key :: "persistence_key \<Rightarrow> bool" where
  "valid_key k \<longleftrightarrow> pk_kind k \<in> {kind_parameter, kind_group}"

type_synonym image = "persistence_key \<Rightarrow> byte list option"

locale kv_store =
  fixes st :: "'w store" and img :: "'w \<Rightarrow> image"
  assumes initialize_img: "st_initialize st w = (ri, w') \<Longrightarrow> img w' = img w"
    and load_img: "st_load st k buf w = (r, buf', w') \<Longrightarrow> img w' = img w"
    and load_length: "st_load st k buf w = (r, buf', w') \<Longrightarrow> length buf' = length buf"
    and load_found: "valid_key k \<Longrightarrow> img w k = Some bs \<Longrightarrow> length bs \<le> length buf \<Longrightarrow>
      st_load st k buf w = (r, buf', w') \<Longrightarrow> r = Inr (length bs) \<and> take (length bs) buf' = bs"
    and load_oversized: "valid_key k \<Longrightarrow> img w k = Some bs \<Longrightarrow> length bs > length buf \<Longrightarrow>
      st_load st k buf w = (r, buf', w') \<Longrightarrow> \<exists>e. r = Inl e \<and> err_status e \<noteq> St_NotFound"
    and load_missing: "valid_key k \<Longrightarrow> img w k = None \<Longrightarrow>
      st_load st k buf w = (r, buf', w') \<Longrightarrow> \<exists>e. r = Inl e \<and> err_status e = St_NotFound"
    and save_ok: "valid_key k \<Longrightarrow> bs \<noteq> [] \<Longrightarrow> st_save st k bs w = (Inr u, w') \<Longrightarrow>
      img w' = (img w)(k := Some bs)"
    and save_failed: "st_save st k bs w = (Inl e, w') \<Longrightarrow> img w' = img w \<and> err_status e \<noteq> St_Ok"
    and erase_ok: "valid_key k \<Longrightarrow> st_erase st k w = (Inr u, w') \<Longrightarrow> img w' = (img w)(k := None)"
    and erase_failed: "st_erase st k w = (Inl e, w') \<Longrightarrow> img w' = img w \<and> err_status e \<noteq> St_Ok"

section \<open>The settings adapter\<close>

text \<open>
  The Zephyr functions \<^verbatim>\<open>settings_subsys_init\<close>, \<^verbatim>\<open>settings_load_one\<close>, \<^verbatim>\<open>settings_save_one\<close>
  and \<^verbatim>\<open>settings_delete\<close> with the C library's error numbers.
\<close>

record 'w settings_api =
  za_errno :: errno_env
  za_initialize :: bool
  za_subsys_init :: "'w \<Rightarrow> int \<times> 'w"
  za_load_one :: "string \<Rightarrow> byte list \<Rightarrow> 'w \<Rightarrow> int \<times> byte list \<times> 'w"
  za_save_one :: "string \<Rightarrow> byte list \<Rightarrow> 'w \<Rightarrow> int \<times> 'w"
  za_delete :: "string \<Rightarrow> 'w \<Rightarrow> int \<times> 'w"

definition error_from_errno :: "errno_env \<Rightarrow> int \<Rightarrow> solar_error" where
  "error_from_errno env error = \<lparr>err_status = status_from_errno env error, err_native = error\<rparr>"

definition settings_initialize :: "'w settings_api \<Rightarrow> 'w \<Rightarrow> (solar_error + unit) \<times> 'w" where
  "settings_initialize za w =
     (if za_initialize za then
        (case za_subsys_init za w of (result, w) \<Rightarrow>
           (if result = 0 then Inr () else Inl (error_from_errno (za_errno za) result), w))
      else (Inr (), w))"

definition settings_load ::
  "string \<Rightarrow> 'w settings_api \<Rightarrow> persistence_key \<Rightarrow> byte list \<Rightarrow> 'w \<Rightarrow> (solar_error + nat) \<times> byte list \<times> 'w" where
  "settings_load ns za key output w =
     (case za_load_one za (key_name ns key) output w of (result, output, w) \<Rightarrow>
        (if result < 0 then Inl (error_from_errno (za_errno za) result)
         else if result = 0 then Inl (fail_status St_NotFound)
         else Inr (nat result), output, w))"

definition settings_save ::
  "string \<Rightarrow> 'w settings_api \<Rightarrow> persistence_key \<Rightarrow> byte list \<Rightarrow> 'w \<Rightarrow> (solar_error + unit) \<times> 'w" where
  "settings_save ns za key input w =
     (case za_save_one za (key_name ns key) input w of (result, w) \<Rightarrow>
        (if result = 0 then Inr () else Inl (error_from_errno (za_errno za) result), w))"

definition settings_erase ::
  "string \<Rightarrow> 'w settings_api \<Rightarrow> persistence_key \<Rightarrow> 'w \<Rightarrow> (solar_error + unit) \<times> 'w" where
  "settings_erase ns za key w =
     (case za_delete za (key_name ns key) w of (result, w) \<Rightarrow>
        (if result = 0 \<or> result = - enoent (za_errno za) then Inr ()
         else Inl (error_from_errno (za_errno za) result), w))"

definition settings_store :: "string \<Rightarrow> 'w settings_api \<Rightarrow> 'w store" where
  "settings_store ns za =
     \<lparr>st_initialize = settings_initialize za, st_load = settings_load ns za,
      st_save = settings_save ns za, st_erase = settings_erase ns za\<rparr>"

section \<open>The settings adapter is a store\<close>

text \<open>
  \<open>zmap w\<close> is the content of the settings storage: the value of each name, empty values being absent. A
  value that does not fit the buffer is an error of its own; a failed write or delete leaves the content
  as it was; deleting an absent name may report that it is absent.
\<close>

definition settings_image :: "string \<Rightarrow> ('w \<Rightarrow> string \<Rightarrow> byte list option) \<Rightarrow> 'w \<Rightarrow> image" where
  "settings_image ns zmap w k =
     (if valid_key k then case zmap w (key_name ns k) of Some bs \<Rightarrow> if bs = [] then None else Some bs | None \<Rightarrow> None
      else None)"

locale settings_backend =
  fixes za :: "'w settings_api" and zmap :: "'w \<Rightarrow> string \<Rightarrow> byte list option" and ns :: string
  assumes za_errno_ok: "errno_ok (za_errno za)"
    and za_init: "za_subsys_init za w = (r, w') \<Longrightarrow> zmap w' = zmap w"
    and za_load_frame: "za_load_one za n buf w = (r, buf', w') \<Longrightarrow>
      zmap w' = zmap w \<and> length buf' = length buf"
    and za_load_some: "zmap w n = Some bs \<Longrightarrow> length bs \<le> length buf \<Longrightarrow>
      za_load_one za n buf w = (r, buf', w') \<Longrightarrow> r = int (length bs) \<and> take (length bs) buf' = bs"
    and za_load_big: "zmap w n = Some bs \<Longrightarrow> length bs > length buf \<Longrightarrow>
      za_load_one za n buf w = (r, buf', w') \<Longrightarrow> r = - enomem (za_errno za)"
    and za_load_none: "zmap w n = None \<Longrightarrow> za_load_one za n buf w = (r, buf', w') \<Longrightarrow>
      r = 0 \<or> r = - enoent (za_errno za)"
    and za_save: "za_save_one za n bs w = (r, w') \<Longrightarrow>
      zmap w' = (if r = 0 then (zmap w)(n := Some bs) else zmap w)"
    and za_delete: "za_delete za n w = (r, w') \<Longrightarrow>
      zmap w' = (if r = 0 then (zmap w)(n := None) else zmap w) \<and>
      (r = - enoent (za_errno za) \<longrightarrow> zmap w n = None)"
begin

lemma status_of_enoent: "status_from_errno (za_errno za) (- enoent (za_errno za)) = St_NotFound"
  unfolding status_from_errno_abs
  by (rule status_from_errno_table [OF _ za_errno_ok]) (simp add: errno_table_def)

lemma status_of_enomem: "status_from_errno (za_errno za) (- enomem (za_errno za)) = St_NoMemory"
  unfolding status_from_errno_abs
  by (rule status_from_errno_table [OF _ za_errno_ok]) (simp add: errno_table_def)

lemma status_of_failure:
  assumes "r \<noteq> 0"
  shows "status_from_errno (za_errno za) r \<noteq> St_Ok"
proof -
  have "status_from_errno (za_errno za) r = status_from_errno (za_errno za) \<bar>r\<bar>"
    using status_from_errno_abs [of "za_errno za" r] by (simp add: abs_if)
  also have "\<dots> = (case map_of (errno_table (za_errno za)) \<bar>r\<bar> of None \<Rightarrow> St_Error | Some st \<Rightarrow> st)"
    using assms by (intro status_from_errno_map_of) simp
  also have "\<dots> \<noteq> St_Ok"
  proof
    assume "(case map_of (errno_table (za_errno za)) \<bar>r\<bar> of None \<Rightarrow> St_Error | Some st \<Rightarrow> st) = St_Ok"
    then have "map_of (errno_table (za_errno za)) \<bar>r\<bar> = Some St_Ok" by (simp split: option.splits)
    then have "(\<bar>r\<bar>, St_Ok) \<in> set (errno_table (za_errno za))" by (rule map_of_SomeD)
    then show False by (simp add: errno_table_def)
  qed
  finally show ?thesis .
qed

lemma errno_positive: "0 < enoent (za_errno za)" "0 < enomem (za_errno za)"
  using za_errno_ok by (simp_all add: errno_ok_def errno_values_def)

lemma image_update:
  assumes "valid_key k" and "zmap w' = (zmap w)(key_name ns k := v)" and "v \<noteq> Some []"
  shows "settings_image ns zmap w' = (settings_image ns zmap w)(k := v)"
proof
  fix k'
  have "key_name ns k' = key_name ns k \<Longrightarrow> valid_key k' \<Longrightarrow> k' = k"
    using assms(1) key_name_inj by (simp add: valid_key_def)
  then show "settings_image ns zmap w' k' = ((settings_image ns zmap w)(k := v)) k'"
    using assms by (auto simp: settings_image_def split: option.splits)
qed

lemma settings_kv_store: "kv_store (settings_store ns za) (settings_image ns zmap)"
proof
  fix w r w'
  assume "st_initialize (settings_store ns za) w = (r, w')"
  then show "settings_image ns zmap w' = settings_image ns zmap w"
    using za_init [of w] by (force simp: settings_store_def settings_initialize_def settings_image_def
        split: if_splits prod.splits)
next
  fix k buf w r buf' w'
  assume l: "st_load (settings_store ns za) k buf w = (r, buf', w')"
  then obtain n where n: "za_load_one za (key_name ns k) buf w = (n, buf', w')"
    and r: "r = (if n < 0 then Inl (error_from_errno (za_errno za) n)
      else if n = 0 then Inl (fail_status St_NotFound) else Inr (nat n))"
    by (auto simp: settings_store_def settings_load_def split: prod.splits)
  show "settings_image ns zmap w' = settings_image ns zmap w" and "length buf' = length buf"
    using za_load_frame [OF n] by (simp_all add: settings_image_def fun_eq_iff)
  { fix bs
    assume "valid_key k" and "settings_image ns zmap w k = Some bs" and "length bs \<le> length buf"
    then show "r = Inr (length bs) \<and> take (length bs) buf' = bs"
      using za_load_some [OF _ _ n] r by (auto simp: settings_image_def split: option.splits if_splits)
  next
    fix bs
    assume "valid_key k" and "settings_image ns zmap w k = Some bs" and "length buf < length bs"
    then show "\<exists>e. r = Inl e \<and> err_status e \<noteq> St_NotFound"
      using za_load_big [OF _ _ n] r errno_positive
      by (auto simp: settings_image_def error_from_errno_def status_of_enomem split: option.splits if_splits)
  next
    assume "valid_key k" and "settings_image ns zmap w k = None"
    then have "n = 0 \<or> n = - enoent (za_errno za)"
      using za_load_none [OF _ n] za_load_some [OF _ _ n]
      by (auto simp: settings_image_def split: option.splits if_splits)
    then show "\<exists>e. r = Inl e \<and> err_status e = St_NotFound"
      using r errno_positive by (auto simp: error_from_errno_def status_of_enoent) }
next
  fix k bs w u w'
  assume "valid_key k" and "bs \<noteq> []" and "st_save (settings_store ns za) k bs w = (Inr u, w')"
  then show "settings_image ns zmap w' = (settings_image ns zmap w)(k := Some bs)"
    using za_save by (intro image_update) (auto simp: settings_store_def settings_save_def
        split: prod.splits if_splits)
next
  fix k bs w e w'
  assume "st_save (settings_store ns za) k bs w = (Inl e, w')"
  then have "zmap w' = zmap w \<and> err_status e \<noteq> St_Ok"
    using za_save status_of_failure
    by (auto simp: settings_store_def settings_save_def error_from_errno_def split: prod.splits if_splits)
  then show "settings_image ns zmap w' = settings_image ns zmap w \<and> err_status e \<noteq> St_Ok"
    by (simp add: settings_image_def fun_eq_iff)
next
  fix k w u w'
  assume "valid_key k" and e: "st_erase (settings_store ns za) k w = (Inr u, w')"
  then obtain r where "za_delete za (key_name ns k) w = (r, w')" and "r = 0 \<or> r = - enoent (za_errno za)"
    by (auto simp: settings_store_def settings_erase_def split: prod.splits if_splits)
  then have "zmap w' = (zmap w)(key_name ns k := None)"
    using za_delete by (force simp: fun_eq_iff)
  then show "settings_image ns zmap w' = (settings_image ns zmap w)(k := None)"
    using \<open>valid_key k\<close> by (intro image_update) auto
next
  fix k w e w'
  assume "st_erase (settings_store ns za) k w = (Inl e, w')"
  then have "zmap w' = zmap w \<and> err_status e \<noteq> St_Ok"
    using za_delete status_of_failure
    by (auto simp: settings_store_def settings_erase_def error_from_errno_def split: prod.splits if_splits)
  then show "settings_image ns zmap w' = settings_image ns zmap w \<and> err_status e \<noteq> St_Ok"
    by (simp add: settings_image_def fun_eq_iff)
qed

end

sublocale settings_backend \<subseteq> kv_store "settings_store ns za" "settings_image ns zmap"
  by (rule settings_kv_store)

section \<open>A settings storage in memory\<close>

text \<open>
  The reference storage: the settings as an association from names to values, with a write that can be
  made to fail for one name, as the fixture of the repository's parameter tests does.
\<close>

record settings_memory =
  sm_values :: "string \<Rightarrow> byte list option"
  sm_refused :: "string option"

definition memory_settings :: "settings_memory settings_api" where
  "memory_settings =
     \<lparr>za_errno = linux_errno, za_initialize = True, za_subsys_init = (\<lambda>w. (0, w)),
      za_load_one = (\<lambda>n buf w. case sm_values w n of
          None \<Rightarrow> (- enoent linux_errno, buf, w)
        | Some bs \<Rightarrow> if length bs > length buf then (- enomem linux_errno, buf, w)
                     else (int (length bs), bs @ drop (length bs) buf, w)),
      za_save_one = (\<lambda>n bs w. if sm_refused w = Some n then (- eio linux_errno, w)
                              else (0, w\<lparr>sm_values := (sm_values w)(n := Some bs)\<rparr>)),
      za_delete = (\<lambda>n w. if sm_values w n = None then (- enoent linux_errno, w)
                         else (0, w\<lparr>sm_values := (sm_values w)(n := None)\<rparr>))\<rparr>"

interpretation zmem: settings_backend memory_settings sm_values "''solar''"
  by unfold_locales
    (auto simp: memory_settings_def linux_errno_def split: option.splits if_splits
      intro: linux_errno_ok [unfolded linux_errno_def])

end
