(* ===== verification/Parameter_Runtime.thy ===== *)
theory Parameter_Runtime
  imports Parameter_Load
begin

text \<open>
  The second half of \<^verbatim>\<open>parameters/runtime.hpp\<close>: reads, sets, snapshots, transactions, persistence at run
  time and the lifecycle hooks of the facility, with the entry points of \<^verbatim>\<open>parameters/protocol.hpp\<close> and
  \<^verbatim>\<open>parameters/api.hpp\<close>. A mutex is modelled by its acquisition only, since one call runs to
  completion before the next; \<open>persist_parameter_slot\<close> is written as the composition of its
  two critical sections, so that the interleavings between them can be stated too.
\<close>

section \<open>Reading\<close>

definition read_parameter ::
  "('v, 'w) param_config \<Rightarrow> nat \<Rightarrow> bool \<Rightarrow> ('v, 'w) params \<Rightarrow> (param_error + 'v) \<times> ('v, 'w) params" where
  "read_parameter cfg p no_wait s =
     (let op = (if no_wait then Po_TryGet else Po_Get) in
      if px_in_isr cfg (fs_world s) then (Inl (make_param_error cfg p op St_Invalid Pr_InvalidContext), s)
      else if \<not> fs_ready s then (Inl (make_param_error cfg p op St_NotReady Pr_NotReady), s)
      else case slot_read cfg p no_wait s of
             (Inl e, s) \<Rightarrow>
               (Inl (make_param_error cfg p op (err_status e)
                       (block_reason (err_status e) Pr_InternalInvariant)), s)
           | (Inr v, s) \<Rightarrow> (Inr v, s))"

definition get_isr ::
  "('v, 'w) param_config \<Rightarrow> nat \<Rightarrow> ('v, 'w) params \<Rightarrow> param_error + 'v" where
  "get_isr cfg p s =
     (if \<not> px_in_isr cfg (fs_world s) then Inl (make_param_error cfg p Po_GetIsr St_Invalid Pr_InvalidContext)
      else if \<not> fs_ready s then Inl (make_param_error cfg p Po_GetIsr St_NotReady Pr_NotReady)
      else Inr (value_of s p))"

section \<open>Change hooks\<close>

definition invoke_change ::
  "('v, 'w) param_config \<Rightarrow> nat \<Rightarrow> 'v change \<Rightarrow> ('v, 'w) params \<Rightarrow> (solar_error + unit) \<times> ('v, 'w) params" where
  "invoke_change cfg c ch s =
     (let bc = px_changes cfg ! c;
          s = upd_change c change_begin_invoke s in
      case param_call (bc_handler bc ch) s of (result, s) \<Rightarrow>
        let st = (case result of Inr _ \<Rightarrow> St_Ok | Inl e \<Rightarrow> err_status e);
            s = upd_change c (change_finish_invoke (ch_revision ch) st) s;
            s = (case result of
                   Inr _ \<Rightarrow> s
                 | Inl _ \<Rightarrow>
                     slot_mutate_record (bc_parameter bc) (\<lambda>rec. rec\<lparr>pr_change_failures := pr_change_failures rec + 1,
                       pr_last_error := make_param_error cfg (bc_parameter bc) Po_ActivateChanges st
                         Pr_ChangeHandlerFailed\<rparr>) s) in
        (result, s))"

definition dispatch_to ::
  "('v, 'w) param_config \<Rightarrow> bool \<Rightarrow> 'v change \<Rightarrow> nat \<Rightarrow> nat \<times> ('v, 'w) params \<Rightarrow> nat \<times> ('v, 'w) params" where
  "dispatch_to cfg deferred ch c = (\<lambda>(failures, s).
     if deferred then (failures, upd_change c (change_defer ch) s)
     else case invoke_change cfg c ch s of
            (Inl _, s) \<Rightarrow> (failures + 1, s)
          | (Inr _, s) \<Rightarrow> (failures, s))"

definition dispatch_change ::
  "('v, 'w) param_config \<Rightarrow> nat \<Rightarrow> 'v change \<Rightarrow> bool \<Rightarrow> ('v, 'w) params \<Rightarrow> nat \<times> ('v, 'w) params" where
  "dispatch_change cfg p ch deferred s =
     fold (\<lambda>c acc. if bc_parameter (px_changes cfg ! c) = p then dispatch_to cfg deferred ch c acc else acc)
       [0..<length (px_changes cfg)] (0, s)"

section \<open>Persistence of a committed value\<close>

definition persistence_failed ::
  "('v, 'w) param_config \<Rightarrow> nat \<Rightarrow> bool \<Rightarrow> status \<Rightarrow> ('v, 'w) params \<Rightarrow> (param_error + unit) \<times> ('v, 'w) params" where
  "persistence_failed cfg p reset st s =
     (let op = (if reset then Po_Reset else Po_Save) in
      (Inl (make_param_error cfg p op st Pr_PersistenceFailed),
       upd_slot p (slot_mark_persistence_failure st op) s))"

definition prepare_immediate_persistence ::
  "('v, 'w) param_config \<Rightarrow> nat \<Rightarrow> 'v \<Rightarrow> bool \<Rightarrow> ('v, 'w) params \<Rightarrow> (param_error + unit) \<times> ('v, 'w) params" where
  "prepare_immediate_persistence cfg p v reset s =
     (case pm_persistence (param cfg p) of
        Immediate st \<Rightarrow>
          (case lock_gate cfg Persistence_Gate False s of
             (Inl e, s) \<Rightarrow> (Inl (make_param_error cfg p Po_Save (err_status e) Pr_PersistenceUnavailable), s)
           | (Inr _, s) \<Rightarrow>
               (case persist_value cfg p st v reset s of
                  (Inl e, s) \<Rightarrow> persistence_failed cfg p reset (err_status e) s
                | (Inr _, s) \<Rightarrow> (Inr (), s)))
      | Transactional g \<Rightarrow>
          (case gr_commit (group cfg g) of
             Immediate _ \<Rightarrow>
               (case lock_gate cfg Persistence_Gate False s of
                  (Inl e, s) \<Rightarrow> (Inl (make_param_error cfg p Po_Save (err_status e) Pr_PersistenceUnavailable), s)
                | (Inr _, s) \<Rightarrow>
                    (case persist_group_image cfg g
                            (\<lambda>m s. if m = p then (Inr v, s) else cell_read cfg m False s) s of
                       (Inl e, s) \<Rightarrow> persistence_failed cfg p reset (err_status e) s
                     | (Inr _, s) \<Rightarrow> (Inr (), s)))
           | _ \<Rightarrow> (Inr (), s))
      | _ \<Rightarrow> (Inr (), s))"

definition mark_committed_persistence ::
  "('v, 'w) param_config \<Rightarrow> nat \<Rightarrow> u64 \<Rightarrow> bool \<Rightarrow> ('v, 'w) params \<Rightarrow> persistence_state \<times> ('v, 'w) params" where
  "mark_committed_persistence cfg p revision reset s =
     (case pm_persistence (param cfg p) of
        Volatile \<Rightarrow> (Ps_Volatile, s)
      | Immediate _ \<Rightarrow> (Ps_Clean, upd_slot p (slot_mark_persisted revision) s)
      | Deferred _ delay \<Rightarrow>
          (if reset then Ps_ResetPending else Ps_Scheduled,
           upd_slot p (slot_mark_dirty revision reset (Some (px_after cfg delay (fs_world s)))) s)
      | Transactional g \<Rightarrow>
          (case gr_commit (group cfg g) of
             Immediate _ \<Rightarrow> (Ps_Clean, upd_slot p (slot_mark_persisted revision) s)
           | Deferred _ delay \<Rightarrow>
               let due = Some (px_after cfg delay (fs_world s)) in
               (if reset then Ps_ResetPending else Ps_Scheduled,
                upd_group g (group_mark_dirty due) (upd_slot p (slot_mark_dirty revision reset due) s))
           | _ \<Rightarrow>
               (if reset then Ps_ResetPending else Ps_Dirty,
                upd_group g (group_mark_dirty None) (upd_slot p (slot_mark_dirty revision reset None) s)))
      | Manual _ \<Rightarrow>
          (if reset then Ps_ResetPending else Ps_Dirty, upd_slot p (slot_mark_dirty revision reset None) s))"

definition sooner :: "timepoint option \<Rightarrow> timepoint option \<Rightarrow> timepoint option" where
  "sooner due earliest =
     (case due of
        None \<Rightarrow> earliest
      | Some d \<Rightarrow> (case earliest of None \<Rightarrow> Some d | Some e \<Rightarrow> if d < e then Some d else Some e))"

definition earliest_due :: "('v, 'w) param_config \<Rightarrow> ('v, 'w) params \<Rightarrow> timepoint option" where
  "earliest_due cfg s =
     (let earliest = fold (\<lambda>p acc. if effective_deferred cfg (pm_persistence (param cfg p))
                                   then sooner (slot_next_due (slot s p)) acc else acc)
                       [0..<length (px_parameters cfg)] None in
      fold (\<lambda>g acc. if is_deferred (gr_commit (group cfg g)) \<and> gs_dirty (fs_groups s ! g)
                    then sooner (gs_due (fs_groups s ! g)) acc else acc)
        [0..<length (px_groups cfg)] earliest)"

definition due_delay :: "('v, 'w) param_config \<Rightarrow> timepoint \<Rightarrow> 'w \<Rightarrow> int" where
  "due_delay cfg due w = px_remaining cfg due w * 1000000000 div px_ticks_per_sec cfg"

definition schedule_deferred_persistence ::
  "('v, 'w) param_config \<Rightarrow> ('v, 'w) params \<Rightarrow> (status + unit) \<times> ('v, 'w) params" where
  "schedule_deferred_persistence cfg s =
     (if \<not> has_deferred cfg \<or> \<not> fs_persistence_active s then (Inr (), s)
      else case earliest_due cfg s of
             None \<Rightarrow> (Inr (), s)
           | Some due \<Rightarrow> param_call (px_schedule cfg (due_delay cfg due (fs_world s))) s)"

definition schedule_next_deferred ::
  "('v, 'w) param_config \<Rightarrow> ('v, 'w) params \<Rightarrow> (status + unit) \<times> ('v, 'w) params" where
  "schedule_next_deferred cfg s =
     (if \<not> has_deferred cfg \<or> \<not> fs_persistence_active s \<or> \<not> fs_schedule_persistence s then (Inr (), s)
      else case earliest_due cfg s of
             None \<Rightarrow> (Inr (), s)
           | Some due \<Rightarrow> param_call (px_schedule cfg (due_delay cfg due (fs_world s))) s)"

section \<open>Writing dirty values back\<close>

definition persist_take ::
  "('v, 'w) param_config \<Rightarrow> nat \<Rightarrow> bool \<Rightarrow> ('v, 'w) params \<Rightarrow>
   (solar_error + 'v persistence_work) \<times> ('v, 'w) params" where
  "persist_take cfg p no_wait s =
     (case lock_gate cfg Write_Gate no_wait s of
        (Inl e, s) \<Rightarrow> (Inl e, s)
      | (Inr _, s) \<Rightarrow>
          (case cell_read cfg p False s of
             (Inl e, s) \<Rightarrow> (Inl e, s)
           | (Inr v, s) \<Rightarrow> (Inr (slot_persistence_work v (slot s p)), s)))"

definition persist_write ::
  "('v, 'w) param_config \<Rightarrow> nat \<Rightarrow> nat \<Rightarrow> bool \<Rightarrow> 'v persistence_work \<Rightarrow> ('v, 'w) params \<Rightarrow>
   (solar_error + bool) \<times> ('v, 'w) params" where
  "persist_write cfg p st no_wait work s =
     (case lock_gate cfg Persistence_Gate no_wait s of
        (Inl e, s) \<Rightarrow> (Inl e, s)
      | (Inr _, s) \<Rightarrow>
          (case persist_value cfg p st (pw_value work) (pw_erase work) s of
             (Inl e, s) \<Rightarrow> (Inl e, upd_slot p (slot_finish_persistence (pw_revision work) (err_status e)) s)
           | (Inr _, s) \<Rightarrow> (Inr True, upd_slot p (slot_finish_persistence (pw_revision work) St_Ok) s)))"

definition not_yet_due :: "('v, 'w) param_config \<Rightarrow> bool \<Rightarrow> timepoint option \<Rightarrow> 'w \<Rightarrow> bool" where
  "not_yet_due cfg force due w =
     (\<not> force \<and> (case due of None \<Rightarrow> False | Some d \<Rightarrow> \<not> px_expired cfg d w))"

definition persist_parameter_slot ::
  "('v, 'w) param_config \<Rightarrow> nat \<Rightarrow> bool \<Rightarrow> bool \<Rightarrow> ('v, 'w) params \<Rightarrow>
   (solar_error + bool) \<times> ('v, 'w) params" where
  "persist_parameter_slot cfg p force no_wait s =
     (case persistence_store (pm_persistence (param cfg p)) of
        None \<Rightarrow> (Inr False, s)
      | Some st \<Rightarrow>
          (case persist_take cfg p no_wait s of
             (Inl e, s) \<Rightarrow> (Inl e, s)
           | (Inr work, s) \<Rightarrow>
               if \<not> pw_dirty work \<or> not_yet_due cfg force (pw_due work) (fs_world s) then (Inr False, s)
               else persist_write cfg p st no_wait work s))"

definition finish_member ::
  "('v, 'w) param_config \<Rightarrow> (solar_error + unit) \<Rightarrow> bool \<Rightarrow> nat \<Rightarrow> ('v, 'w) params \<Rightarrow> ('v, 'w) params" where
  "finish_member cfg persisted cleared p s =
     (case cell_read cfg p False s of
        (Inl _, s) \<Rightarrow> s
      | (Inr v, s) \<Rightarrow>
          let work = slot_persistence_work v (slot s p) in
          if isl persisted \<or> cleared then
            upd_slot p (slot_finish_persistence (pw_revision work)
              (case persisted of Inr _ \<Rightarrow> St_Ok | Inl e \<Rightarrow> err_status e)) s
          else s)"

definition persist_group_slot ::
  "('v, 'w) param_config \<Rightarrow> nat \<Rightarrow> bool \<Rightarrow> bool \<Rightarrow> ('v, 'w) params \<Rightarrow>
   (solar_error + bool) \<times> ('v, 'w) params" where
  "persist_group_slot cfg g force no_wait s =
     (let work = fs_groups s ! g in
      if \<not> gs_dirty work \<or> not_yet_due cfg force (gs_due work) (fs_world s) then (Inr False, s)
      else case lock_gate cfg Write_Gate no_wait s of
             (Inl e, s) \<Rightarrow> (Inl e, s)
           | (Inr _, s) \<Rightarrow>
          (case encode_group_payload cfg g (replicate (px_max_group_record cfg) 0)
                  (\<lambda>m s. cell_read cfg m False s) s of
             (Inl e, _, s) \<Rightarrow> (Inl e, s)
           | (Inr n, payload, s) \<Rightarrow>
               (case lock_gate cfg Persistence_Gate no_wait s of
                  (Inl e, s) \<Rightarrow> (Inl e, s)
                | (Inr _, s) \<Rightarrow>
                    (case save_group_record cfg g (take n payload) s of (persisted, s) \<Rightarrow>
                       (case group_finish (gs_revision work) (\<not> isl persisted) (fs_groups s ! g) of
                          (cleared, gs) \<Rightarrow>
                            let s = upd_group g (\<lambda>_. gs) s;
                                s = fold (finish_member cfg persisted cleared) (gr_members (group cfg g)) s in
                            (case persisted of Inl e \<Rightarrow> (Inl e, s) | Inr _ \<Rightarrow> (Inr True, s)))))))"

type_synonym ('v, 'w) persist_acc = "status option \<times> nat \<times> ('v, 'w) params"

definition count_persisted ::
  "(solar_error + bool) \<times> ('v, 'w) params \<Rightarrow> status option \<Rightarrow> nat \<Rightarrow> ('v, 'w) persist_acc" where
  "count_persisted r first_error saved =
     (case r of
        (Inl e, s) \<Rightarrow> (case first_error of None \<Rightarrow> Some (err_status e) | Some st \<Rightarrow> Some st, saved, s)
      | (Inr done, s) \<Rightarrow> (first_error, if done then saved + 1 else saved, s))"

definition persist_deferred_parameters ::
  "('v, 'w) param_config \<Rightarrow> bool \<Rightarrow> bool \<Rightarrow> ('v, 'w) params \<Rightarrow> (solar_error + nat) \<times> ('v, 'w) params" where
  "persist_deferred_parameters cfg force no_wait s =
     (let acc = fold (\<lambda>p (first_error, saved, s).
                        if is_deferred (pm_persistence (param cfg p))
                        then count_persisted (persist_parameter_slot cfg p force no_wait s) first_error saved
                        else (first_error, saved, s))
                  [0..<length (px_parameters cfg)] (None, 0, s) in
      case fold (\<lambda>g (first_error, saved, s).
                   if is_deferred (gr_commit (group cfg g))
                   then count_persisted (persist_group_slot cfg g force no_wait s) first_error saved
                   else (first_error, saved, s))
             [0..<length (px_groups cfg)] acc of
        (Some st, _, s) \<Rightarrow> (Inl (fail_status st), s)
      | (None, saved, s) \<Rightarrow> (Inr saved, s))"

section \<open>Setting one parameter\<close>

definition mutation_closed :: "('v, 'w) param_config \<Rightarrow> ('v, 'w) params \<Rightarrow> bool" where
  "mutation_closed cfg s =
     (\<not> fs_ready s \<or> \<not> fs_mutation_open s \<or>
      px_system_state cfg (fs_world s) \<in>
        {Sys_Stopping, Sys_RollingBack, Sys_Stopped, Sys_Failed})"

definition changes_deferred :: "system_state \<Rightarrow> ('v, 'w) params \<Rightarrow> bool" where
  "changes_deferred state s = (state \<noteq> Sys_Running \<and> \<not> fs_activating_changes s)"

definition reschedule ::
  "('v, 'w) param_config \<Rightarrow> nat \<Rightarrow> persistence_state \<Rightarrow> ('v, 'w) params \<Rightarrow>
   persistence_state \<times> ('v, 'w) params" where
  "reschedule cfg p persistence s =
     (if effective_deferred cfg (pm_persistence (param cfg p)) then
        (case schedule_deferred_persistence cfg s of
           (Inl st, s) \<Rightarrow> (Ps_Failed, upd_slot p (slot_mark_schedule_failure st) s)
         | (Inr _, s) \<Rightarrow> (persistence, s))
      else (persistence, s))"

definition set_unchanged ::
  "('v, 'w) param_config \<Rightarrow> nat \<Rightarrow> 'v normalized \<Rightarrow> 'v parameter_record \<Rightarrow> update_origin \<Rightarrow> bool \<Rightarrow>
   ('v, 'w) params \<Rightarrow> (param_error + 'v update) \<times> ('v, 'w) params" where
  "set_unchanged cfg p n before origin reset s =
     (case (if reset then
              (case prepare_immediate_persistence cfg p (nm_value n) True s of
                 (Inl e, s) \<Rightarrow> (Inl e, s)
               | (Inr _, s) \<Rightarrow>
                   (case mark_committed_persistence cfg p (pr_revision before) True s of
                      (persistence, s) \<Rightarrow> (Inr persistence, s)))
            else (Inr (pr_persistence before), s)) of
        (Inl e, s) \<Rightarrow> (Inl e, s)
      | (Inr persistence, s) \<Rightarrow>
          let s = slot_mutate_record p (\<lambda>rec. rec\<lparr>pr_unchanged := pr_unchanged rec + 1,
                    pr_validation_adjustments := (if nm_adjusted n then pr_validation_adjustments rec + 1
                                                  else pr_validation_adjustments rec),
                    pr_last_origin := origin\<rparr>) s in
          case (if reset then reschedule cfg p persistence s else (persistence, s)) of
            (persistence, s) \<Rightarrow>
              (Inr \<lparr>up_effective_value = nm_value n, up_revision = pr_revision before,
                    up_persistence = persistence, up_change_failures = 0, up_changed = False,
                    up_adjusted = nm_adjusted n, up_changes_deferred = False\<rparr>, s))"

definition set_changed ::
  "('v, 'w) param_config \<Rightarrow> nat \<Rightarrow> param_operation \<Rightarrow> 'v normalized \<Rightarrow> 'v \<Rightarrow> 'v parameter_record \<Rightarrow>
   system_state \<Rightarrow> update_origin \<Rightarrow> bool \<Rightarrow> ('v, 'w) params \<Rightarrow>
   (param_error + 'v update) \<times> ('v, 'w) params" where
  "set_changed cfg p op n old before state origin reset s =
     (case prepare_immediate_persistence cfg p (nm_value n) reset s of
        (Inl e, s) \<Rightarrow> (Inl e, s)
      | (Inr _, s) \<Rightarrow>
     (case cell_write cfg p (nm_value n) s of
        (Inl e, s) \<Rightarrow> (Inl (make_param_error cfg p op (err_status e) Pr_InternalInvariant), s)
      | (Inr _, s) \<Rightarrow>
          let revision = pr_revision before + 1;
              s = slot_mutate_record p (\<lambda>rec. rec\<lparr>pr_value := nm_value n, pr_revision := revision,
                    pr_updates := pr_updates rec + 1,
                    pr_validation_adjustments := (if nm_adjusted n then pr_validation_adjustments rec + 1
                                                  else pr_validation_adjustments rec),
                    pr_last_origin := origin,
                    pr_last_error := make_param_error cfg p op St_Ok Pr_None\<rparr>) s in
          case mark_committed_persistence cfg p revision reset s of (persistence, s) \<Rightarrow>
          (case reschedule cfg p persistence s of (persistence, s) \<Rightarrow>
             let deferred = changes_deferred state s in
             (case dispatch_change cfg p
                     \<lparr>ch_old_value = old, ch_new_value = nm_value n, ch_revision = revision,
                      ch_origin = origin, ch_adjusted = nm_adjusted n,
                      ch_transaction = (origin = Uo_LocalTransaction), ch_reset = reset\<rparr> deferred s of
                (failures, s) \<Rightarrow>
                  (Inr \<lparr>up_effective_value = nm_value n, up_revision = revision,
                        up_persistence = persistence, up_change_failures = failures, up_changed = True,
                        up_adjusted = nm_adjusted n, up_changes_deferred = deferred\<rparr>, s)))))"

definition set_parameter ::
  "('v::linorder, 'w) param_config \<Rightarrow> nat \<Rightarrow> 'v \<Rightarrow> bool \<Rightarrow> update_origin \<Rightarrow> bool \<Rightarrow> ('v, 'w) params \<Rightarrow>
   (param_error + 'v update) \<times> ('v, 'w) params" where
  "set_parameter cfg p candidate no_wait origin reset s =
     (let op = (if reset then Po_Reset else if no_wait then Po_TrySet else Po_Set);
          state = px_system_state cfg (fs_world s) in
      if px_in_isr cfg (fs_world s) then (Inl (make_param_error cfg p op St_Invalid Pr_InvalidContext), s)
      else if mutation_closed cfg s then (Inl (make_param_error cfg p op St_NotReady Pr_NotReady), s)
      else case normalize_param cfg p candidate of
             Inl _ \<Rightarrow>
               let err = make_param_error cfg p op St_Invalid Pr_ValidationRejected in
               (Inl err, slot_mutate_record p (\<lambda>rec. rec\<lparr>pr_rejected := pr_rejected rec + 1, pr_last_error := err\<rparr>) s)
           | Inr n \<Rightarrow>
          (case lock_gate cfg Write_Gate no_wait s of
             (Inl e, s) \<Rightarrow>
               (Inl (make_param_error cfg p op (err_status e)
                       (block_reason (err_status e) Pr_InternalInvariant)), s)
           | (Inr _, s) \<Rightarrow>
               (case cell_read cfg p no_wait s of
                  (Inl e, s) \<Rightarrow>
                    (Inl (make_param_error cfg p op (err_status e)
                            (block_reason (err_status e) Pr_InternalInvariant)), s)
                | (Inr old, s) \<Rightarrow>
                    let before = copy_record old (slot s p) in
                    if old = nm_value n then set_unchanged cfg p n before origin reset s
                    else set_changed cfg p op n old before state origin reset s)))"

text \<open>The entry points \<^verbatim>\<open>SetFrontend\<close>, \<^verbatim>\<open>ResetFrontend\<close> and \<^verbatim>\<open>privileged_set\<close>.\<close>

definition set_frontend ::
  "('v::linorder, 'w) param_config \<Rightarrow> nat \<Rightarrow> bool \<Rightarrow> 'v \<Rightarrow> ('v, 'w) params \<Rightarrow>
   (param_error + 'v update) \<times> ('v, 'w) params" where
  "set_frontend cfg p no_wait v s =
     (let op = (if no_wait then Po_TrySet else Po_Set) in
      if \<not> writable (pm_access (param cfg p)) then
        (Inl (make_param_error cfg p op St_NotSupported Pr_ReadOnly), s)
      else if privileged (pm_access (param cfg p)) then
        (Inl (make_param_error cfg p op St_PermissionDenied Pr_PrivilegeRequired), s)
      else set_parameter cfg p v no_wait Uo_LocalSet False s)"

definition reset_frontend ::
  "('v::linorder, 'w) param_config \<Rightarrow> nat \<Rightarrow> ('v, 'w) params \<Rightarrow> (param_error + 'v update) \<times> ('v, 'w) params" where
  "reset_frontend cfg p s =
     (if \<not> writable (pm_access (param cfg p)) then
        (Inl (make_param_error cfg p Po_Reset St_NotSupported Pr_ReadOnly), s)
      else if privileged (pm_access (param cfg p)) then
        (Inl (make_param_error cfg p Po_Reset St_PermissionDenied Pr_PrivilegeRequired), s)
      else set_parameter cfg p (pm_default (param cfg p)) False Uo_Reset True s)"

definition privileged_set ::
  "('v::linorder, 'w) param_config \<Rightarrow> nat \<Rightarrow> 'v \<Rightarrow> ('v, 'w) params \<Rightarrow>
   (param_error + 'v update) \<times> ('v, 'w) params" where
  "privileged_set cfg p v s = set_parameter cfg p v False Uo_PrivilegedProvisioning False s"

section \<open>Queries\<close>

definition parameter_record_of ::
  "('v, 'w) param_config \<Rightarrow> nat \<Rightarrow> ('v, 'w) params \<Rightarrow>
   (param_error + 'v parameter_record) \<times> ('v, 'w) params" where
  "parameter_record_of cfg p s =
     (if \<not> fs_ready s then (Inl (make_param_error cfg p Po_Query St_NotReady Pr_NotReady), s)
      else case lock_gate cfg Write_Gate False s of
             (Inl e, s) \<Rightarrow> (Inl (make_param_error cfg p Po_Query (err_status e) Pr_InternalInvariant), s)
           | (Inr _, s) \<Rightarrow>
               (case cell_read cfg p False s of
                  (Inl e, s) \<Rightarrow> (Inl (make_param_error cfg p Po_Query (err_status e) Pr_InternalInvariant), s)
                | (Inr v, s) \<Rightarrow> (Inr ((copy_record v (slot s p))\<lparr>pr_ready := True\<rparr>), s)))"

definition find_change :: "('v, 'w) param_config \<Rightarrow> nat \<Rightarrow> nat \<Rightarrow> nat \<Rightarrow> nat option" where
  "find_change cfg observer p route =
     List.find (\<lambda>c. bc_observer (px_changes cfg ! c) = observer \<and> bc_parameter (px_changes cfg ! c) = p \<and>
                    bc_route (px_changes cfg ! c) = route)
       [0..<length (px_changes cfg)]"

definition change_record_of ::
  "('v, 'w) param_config \<Rightarrow> nat \<Rightarrow> nat \<Rightarrow> nat \<Rightarrow> ('v, 'w) params \<Rightarrow> param_error + change_record" where
  "change_record_of cfg observer p route s =
     (case find_change cfg observer p route of
        Some c \<Rightarrow>
          Inr ((cs_record (fs_changes s ! c))\<lparr>cr_change := of_nat c,
                 cr_parameter := of_nat (bc_parameter (px_changes cfg ! c)),
                 cr_observer := of_nat (bc_observer (px_changes cfg ! c))\<rparr>)
      | None \<Rightarrow> Inl (param_error0 St_NotFound Pr_NotRegistered Po_Query))"

fun read_snapshot_values ::
  "('v, 'w) param_config \<Rightarrow> bool \<Rightarrow> nat list \<Rightarrow> ('v, 'w) params \<Rightarrow> (param_error + 'v list) \<times> ('v, 'w) params" where
  "read_snapshot_values cfg no_wait [] s = (Inr [], s)"
| "read_snapshot_values cfg no_wait (p # ps) s =
     (case cell_read cfg p no_wait s of
        (Inl e, s) \<Rightarrow>
          (Inl (make_param_error cfg p Po_Snapshot (err_status e)
                  (block_reason (err_status e) Pr_InternalInvariant)), s)
      | (Inr v, s) \<Rightarrow>
          (case read_snapshot_values cfg no_wait ps s of
             (Inl e, s) \<Rightarrow> (Inl e, s)
           | (Inr vs, s) \<Rightarrow> (Inr (v # vs), s)))"

definition snapshot_parameters ::
  "('v, 'w) param_config \<Rightarrow> nat list \<Rightarrow> bool \<Rightarrow> ('v, 'w) params \<Rightarrow> (param_error + 'v list) \<times> ('v, 'w) params" where
  "snapshot_parameters cfg ps no_wait s =
     (if px_in_isr cfg (fs_world s) then (Inl (param_error0 St_Invalid Pr_InvalidContext Po_Snapshot), s)
      else if \<not> fs_ready s then (Inl (param_error0 St_NotReady Pr_NotReady Po_Snapshot), s)
      else case lock_gate cfg Write_Gate no_wait s of
             (Inl e, s) \<Rightarrow>
               (Inl (param_error0 (err_status e) (block_reason (err_status e) Pr_InternalInvariant) Po_Snapshot), s)
           | (Inr _, s) \<Rightarrow> read_snapshot_values cfg no_wait ps s)"

section \<open>Transactions\<close>

record 'v transaction_state =
  tx_parameter :: nat
  tx_normalized :: "'v normalized"
  tx_old_value :: 'v
  tx_before :: "'v parameter_record"
  tx_changed :: bool

fun normalize_transaction ::
  "('v::linorder, 'w) param_config \<Rightarrow> (nat \<times> 'v) list \<Rightarrow> param_error + (nat \<times> 'v normalized) list" where
  "normalize_transaction cfg [] = Inr []"
| "normalize_transaction cfg ((p, v) # rest) =
     (case normalize_param cfg p v of
        Inl _ \<Rightarrow> Inl (make_param_error cfg p Po_Transaction St_Invalid Pr_ValidationRejected)
      | Inr n \<Rightarrow>
          (case normalize_transaction cfg rest of
             Inl e \<Rightarrow> Inl e
           | Inr ns \<Rightarrow> Inr ((p, n) # ns)))"

fun capture_transaction ::
  "('v, 'w) param_config \<Rightarrow> bool \<Rightarrow> (nat \<times> 'v normalized) list \<Rightarrow> ('v, 'w) params \<Rightarrow>
   (param_error + 'v transaction_state list) \<times> ('v, 'w) params" where
  "capture_transaction cfg no_wait [] s = (Inr [], s)"
| "capture_transaction cfg no_wait ((p, n) # rest) s =
     (case cell_read cfg p no_wait s of
        (Inl e, s) \<Rightarrow>
          (Inl (make_param_error cfg p Po_Transaction (err_status e)
                  (block_reason (err_status e) Pr_InternalInvariant)), s)
      | (Inr old, s) \<Rightarrow>
          let state = \<lparr>tx_parameter = p, tx_normalized = n, tx_old_value = old,
                       tx_before = copy_record old (slot s p), tx_changed = (old \<noteq> nm_value n)\<rparr> in
          (case capture_transaction cfg no_wait rest s of
             (Inl e, s) \<Rightarrow> (Inl e, s)
           | (Inr states, s) \<Rightarrow> (Inr (state # states), s)))"

fun write_transaction_values ::
  "('v, 'w) param_config \<Rightarrow> 'v transaction_state list \<Rightarrow> ('v, 'w) params \<Rightarrow>
   (param_error + unit) \<times> ('v, 'w) params" where
  "write_transaction_values cfg [] s = (Inr (), s)"
| "write_transaction_values cfg (t # ts) s =
     (if tx_changed t then
        (case cell_write cfg (tx_parameter t) (nm_value (tx_normalized t)) s of
           (Inl e, s) \<Rightarrow>
             (Inl (make_param_error cfg (tx_parameter t) Po_Transaction (err_status e) Pr_InternalInvariant), s)
         | (Inr _, s) \<Rightarrow> write_transaction_values cfg ts s)
      else write_transaction_values cfg ts s)"

definition restore_transaction_values ::
  "('v, 'w) param_config \<Rightarrow> 'v transaction_state list \<Rightarrow> ('v, 'w) params \<Rightarrow> ('v, 'w) params" where
  "restore_transaction_values cfg ts s =
     fold (\<lambda>t s. if tx_changed t then snd (cell_write cfg (tx_parameter t) (tx_old_value t) s) else s) ts s"

definition update_transaction_records ::
  "('v, 'w) param_config \<Rightarrow> 'v transaction_state list \<Rightarrow> ('v, 'w) params \<Rightarrow> ('v, 'w) params" where
  "update_transaction_records cfg ts s =
     fold (\<lambda>t s. slot_mutate_record (tx_parameter t) (\<lambda>rec.
         let rec = (if tx_changed t
                    then rec\<lparr>pr_value := nm_value (tx_normalized t),
                             pr_revision := pr_revision (tx_before t) + 1, pr_updates := pr_updates rec + 1\<rparr>
                    else rec\<lparr>pr_unchanged := pr_unchanged rec + 1\<rparr>);
             rec = (if nm_adjusted (tx_normalized t)
                    then rec\<lparr>pr_validation_adjustments := pr_validation_adjustments rec + 1\<rparr> else rec) in
         rec\<lparr>pr_last_origin := Uo_LocalTransaction,
             pr_last_error := make_param_error cfg (tx_parameter t) Po_Transaction St_Ok Pr_None\<rparr>) s) ts s"

definition group_error ::
  "('v, 'w) param_config \<Rightarrow> nat \<Rightarrow> param_operation \<Rightarrow> status \<Rightarrow> param_reason \<Rightarrow> param_error" where
  "group_error cfg g op st reason = (param_error0 st reason op)\<lparr>pe_group_id := Some (gr_stable_id (group cfg g))\<rparr>"

definition transaction_provider ::
  "('v, 'w) param_config \<Rightarrow> 'v transaction_state list \<Rightarrow> ('v, 'w) provider" where
  "transaction_provider cfg ts m s =
     (case List.find (\<lambda>t. tx_parameter t = m) ts of
        Some t \<Rightarrow> (Inr (nm_value (tx_normalized t)), s)
      | None \<Rightarrow> cell_read cfg m False s)"

definition prepare_member ::
  "('v, 'w) param_config \<Rightarrow> 'v transaction_state \<Rightarrow> ('v, 'w) params \<Rightarrow> (param_error + unit) \<times> ('v, 'w) params" where
  "prepare_member cfg t s =
     (if persistence_kind_of (pm_persistence (param cfg (tx_parameter t))) = Pk_Immediate \<and> tx_changed t
      then prepare_immediate_persistence cfg (tx_parameter t) (nm_value (tx_normalized t)) False s
      else (Inr (), s))"

definition touches :: "('v, 'w) param_config \<Rightarrow> 'v transaction_state list \<Rightarrow> nat \<Rightarrow> bool" where
  "touches cfg ts g = list_ex (\<lambda>t. tx_parameter t \<in> set (gr_members (group cfg g))) ts"

definition prepare_group ::
  "('v, 'w) param_config \<Rightarrow> 'v transaction_state list \<Rightarrow> nat \<Rightarrow> ('v, 'w) params \<Rightarrow>
   (param_error + unit) \<times> ('v, 'w) params" where
  "prepare_group cfg ts g s =
     (if persistence_kind_of (gr_commit (group cfg g)) = Pk_Immediate \<and> touches cfg ts g then
        (case lock_gate cfg Persistence_Gate False s of
           (Inl e, s) \<Rightarrow> (Inl (group_error cfg g Po_Transaction (err_status e) Pr_PersistenceUnavailable), s)
         | (Inr _, s) \<Rightarrow>
             (case persist_group_image cfg g (transaction_provider cfg ts) s of
                (Inl e, s) \<Rightarrow> (Inl (group_error cfg g Po_Transaction (err_status e) Pr_PersistenceFailed), s)
              | (Inr _, s) \<Rightarrow> (Inr (), s)))
      else (Inr (), s))"

definition prepare_transaction_persistence ::
  "('v, 'w) param_config \<Rightarrow> 'v transaction_state list \<Rightarrow> ('v, 'w) params \<Rightarrow>
   (param_error + unit) \<times> ('v, 'w) params" where
  "prepare_transaction_persistence cfg ts s =
     (case run_ok (prepare_member cfg) ts s of
        (Inl e, s) \<Rightarrow> (Inl e, s)
      | (Inr _, s) \<Rightarrow> run_ok (prepare_group cfg ts) [0..<length (px_groups cfg)] s)"

definition mark_transaction_persistence ::
  "('v, 'w) param_config \<Rightarrow> 'v transaction_state list \<Rightarrow> ('v, 'w) params \<Rightarrow> ('v, 'w) params" where
  "mark_transaction_persistence cfg ts s =
     fold (\<lambda>t s. if tx_changed t
                 then snd (mark_committed_persistence cfg (tx_parameter t) (pr_revision (tx_before t) + 1) False s)
                 else s) ts s"

definition transaction_change :: "'v transaction_state \<Rightarrow> 'v change" where
  "transaction_change t =
     \<lparr>ch_old_value = tx_old_value t, ch_new_value = nm_value (tx_normalized t),
      ch_revision = pr_revision (tx_before t) + 1, ch_origin = Uo_LocalTransaction,
      ch_adjusted = nm_adjusted (tx_normalized t), ch_transaction = True, ch_reset = False\<rparr>"

definition dispatch_transaction_changes ::
  "('v, 'w) param_config \<Rightarrow> 'v transaction_state list \<Rightarrow> bool \<Rightarrow> ('v, 'w) params \<Rightarrow>
   transaction_update \<times> ('v, 'w) params" where
  "dispatch_transaction_changes cfg ts deferred s =
     (let changed = length (filter tx_changed ts);
          adjusted = length (filter (\<lambda>t. nm_adjusted (tx_normalized t)) ts) in
      case fold (\<lambda>c acc.
             (case List.find (\<lambda>t. tx_parameter t = bc_parameter (px_changes cfg ! c)) ts of
                Some t \<Rightarrow> if tx_changed t then dispatch_to cfg deferred (transaction_change t) c acc else acc
              | None \<Rightarrow> acc)) [0..<length (px_changes cfg)] (0, s) of
        (failures, s) \<Rightarrow>
          (\<lparr>tu_changed = changed, tu_adjusted = adjusted, tu_change_failures = failures,
            tu_changes_deferred = (deferred \<and> changed \<noteq> 0)\<rparr>, s))"

definition reschedule_transaction ::
  "('v, 'w) param_config \<Rightarrow> nat list \<Rightarrow> ('v, 'w) params \<Rightarrow> ('v, 'w) params" where
  "reschedule_transaction cfg ps s =
     (if list_ex (\<lambda>p. effective_deferred cfg (pm_persistence (param cfg p))) ps then
        (case schedule_deferred_persistence cfg s of
           (Inl st, s) \<Rightarrow>
             fold (\<lambda>p s. if effective_deferred cfg (pm_persistence (param cfg p))
                         then upd_slot p (slot_mark_schedule_failure st) s else s) ps s
         | (Inr _, s) \<Rightarrow> s)
      else s)"

definition set_all_parameters ::
  "('v::linorder, 'w) param_config \<Rightarrow> (nat \<times> 'v) list \<Rightarrow> bool \<Rightarrow> ('v, 'w) params \<Rightarrow>
   (param_error + transaction_update) \<times> ('v, 'w) params" where
  "set_all_parameters cfg assignments no_wait s =
     (let state = px_system_state cfg (fs_world s) in
      if px_in_isr cfg (fs_world s) then (Inl (param_error0 St_Invalid Pr_InvalidContext Po_Transaction), s)
      else if mutation_closed cfg s then (Inl (param_error0 St_NotReady Pr_NotReady Po_Transaction), s)
      else case normalize_transaction cfg assignments of
             Inl e \<Rightarrow> (Inl e, s)
           | Inr ns \<Rightarrow>
     (case lock_gate cfg Write_Gate no_wait s of
        (Inl e, s) \<Rightarrow>
          (Inl (param_error0 (err_status e) (block_reason (err_status e) Pr_InternalInvariant) Po_Transaction), s)
      | (Inr _, s) \<Rightarrow>
     (case capture_transaction cfg no_wait ns s of
        (Inl e, s) \<Rightarrow> (Inl e, s)
      | (Inr ts, s) \<Rightarrow>
     (case prepare_transaction_persistence cfg ts s of
        (Inl e, s) \<Rightarrow> (Inl e, s)
      | (Inr _, s) \<Rightarrow>
     (case write_transaction_values cfg ts s of
        (Inl e, s) \<Rightarrow> (Inl e, restore_transaction_values cfg ts s)
      | (Inr _, s) \<Rightarrow>
          let s = update_transaction_records cfg ts s;
              s = mark_transaction_persistence cfg ts s;
              s = reschedule_transaction cfg (map fst assignments) s in
          (case dispatch_transaction_changes cfg ts (changes_deferred state s) s of
             (update, s) \<Rightarrow> (Inr update, s)))))))"

section \<open>Saving\<close>

definition save_parameter ::
  "('v, 'w) param_config \<Rightarrow> nat \<Rightarrow> bool \<Rightarrow> ('v, 'w) params \<Rightarrow> (param_error + unit) \<times> ('v, 'w) params" where
  "save_parameter cfg p no_wait s =
     (if \<not> persistent (pm_persistence (param cfg p)) then
        (Inl (make_param_error cfg p Po_Save St_NotSupported Pr_PersistenceUnavailable), s)
      else if px_in_isr cfg (fs_world s) then
        (Inl (make_param_error cfg p Po_Save St_Invalid Pr_InvalidContext), s)
      else if \<not> fs_ready s then (Inl (make_param_error cfg p Po_Save St_NotReady Pr_NotReady), s)
      else case (case pm_persistence (param cfg p) of
                   Transactional g \<Rightarrow> persist_group_slot cfg g True no_wait s
                 | _ \<Rightarrow> persist_parameter_slot cfg p True no_wait s) of
             (Inl e, s) \<Rightarrow>
               (Inl (make_param_error cfg p Po_Save (err_status e)
                       (block_reason (err_status e) Pr_PersistenceFailed)), s)
           | (Inr _, s) \<Rightarrow> (Inr (), s))"

type_synonym ('v, 'w) report_acc = "persistence_report \<times> param_error option \<times> ('v, 'w) params"

definition report_persisted ::
  "(status \<Rightarrow> param_reason \<Rightarrow> param_error) \<Rightarrow> (solar_error + bool) \<times> ('v, 'w) params \<Rightarrow>
   persistence_report \<Rightarrow> param_error option \<Rightarrow> ('v, 'w) report_acc" where
  "report_persisted mk r rep first_error =
     (let rep = rep\<lparr>rp_visited := rp_visited rep + 1\<rparr> in
      case r of
        (Inl e, s) \<Rightarrow>
          (rep\<lparr>rp_failed := rp_failed rep + 1\<rparr>,
           (case first_error of
              None \<Rightarrow> Some (mk (err_status e) (block_reason (err_status e) Pr_PersistenceFailed))
            | Some e \<Rightarrow> Some e), s)
      | (Inr True, s) \<Rightarrow> (rep\<lparr>rp_saved := rp_saved rep + 1\<rparr>, first_error, s)
      | (Inr False, s) \<Rightarrow> (rep\<lparr>rp_clean := rp_clean rep + 1\<rparr>, first_error, s))"

definition persist_matching ::
  "('v, 'w) param_config \<Rightarrow> param_operation \<Rightarrow> (nat \<Rightarrow> bool) \<Rightarrow> (nat \<Rightarrow> bool) \<Rightarrow> bool \<Rightarrow>
   ('v, 'w) params \<Rightarrow> (param_error + persistence_report) \<times> ('v, 'w) params" where
  "persist_matching cfg op want_parameter want_group no_wait s =
     (let acc = fold (\<lambda>p (rep, first_error, s).
                        if want_parameter p
                        then report_persisted (make_param_error cfg p op)
                               (persist_parameter_slot cfg p True no_wait s) rep first_error
                        else (rep, first_error, s))
                  [0..<length (px_parameters cfg)]
                  (\<lparr>rp_visited = 0, rp_saved = 0, rp_clean = 0, rp_failed = 0\<rparr>, None, s) in
      case fold (\<lambda>g (rep, first_error, s).
                   if want_group g
                   then report_persisted (group_error cfg g op)
                          (persist_group_slot cfg g True no_wait s) rep first_error
                   else (rep, first_error, s))
             [0..<length (px_groups cfg)] acc of
        (rep, first_error, s) \<Rightarrow>
          (case first_error of Some e \<Rightarrow> (Inl e, s) | None \<Rightarrow> (Inr rep, s)))"

definition save_all_parameters ::
  "('v, 'w) param_config \<Rightarrow> bool \<Rightarrow> ('v, 'w) params \<Rightarrow>
   (param_error + persistence_report) \<times> ('v, 'w) params" where
  "save_all_parameters cfg no_wait s =
     (if px_in_isr cfg (fs_world s) then (Inl (param_error0 St_Invalid Pr_InvalidContext Po_SaveAll), s)
      else if \<not> fs_ready s then (Inl (param_error0 St_NotReady Pr_NotReady Po_SaveAll), s)
      else persist_matching cfg Po_SaveAll
             (\<lambda>p. persistence_store (pm_persistence (param cfg p)) \<noteq> None) (\<lambda>_. True) no_wait s)"

definition flush_parameters ::
  "('v, 'w) param_config \<Rightarrow> bool \<Rightarrow> ('v, 'w) params \<Rightarrow>
   (param_error + persistence_report) \<times> ('v, 'w) params" where
  "flush_parameters cfg no_wait s =
     (if \<not> has_deferred cfg then (Inr \<lparr>rp_visited = 0, rp_saved = 0, rp_clean = 0, rp_failed = 0\<rparr>, s)
      else if px_in_isr cfg (fs_world s) then (Inl (param_error0 St_Invalid Pr_InvalidContext Po_Flush), s)
      else if \<not> fs_ready s then (Inl (param_error0 St_NotReady Pr_NotReady Po_Flush), s)
      else case param_call (px_cancel cfg) s of (cancelled, s) \<Rightarrow>
        if (case cancelled of Inl st \<Rightarrow> st \<noteq> St_NotReady | Inr _ \<Rightarrow> False) then
          (Inl (param_error0 (projl cancelled) Pr_PersistenceUnavailable Po_Flush), s)
        else
          case (if no_wait then (px_quiescent cfg (fs_world s), s) else param_call (px_wait_quiescent cfg) s) of
            (quiescent, s) \<Rightarrow>
              if \<not> quiescent then
                (Inl (if no_wait then param_error0 St_WouldBlock Pr_WouldBlock Po_Flush
                      else param_error0 St_Timeout Pr_PersistenceUnavailable Po_Flush), s)
              else persist_matching cfg Po_Flush (\<lambda>p. is_deferred (pm_persistence (param cfg p)))
                     (\<lambda>g. is_deferred (gr_commit (group cfg g))) no_wait s)"

section \<open>Lifecycle hooks\<close>

definition params_init ::
  "('v::linorder, 'w) param_config \<Rightarrow> ('v, 'w) params \<Rightarrow> (solar_error + unit) \<times> ('v, 'w) params" where
  "params_init cfg s =
     (let s = s\<lparr>fs_ready := False, fs_mutation_open := False, fs_activating_changes := False,
               fs_persistence_active := False, fs_schedule_persistence := False\<rparr>;
          s = fold (slot_initialize cfg) [0..<length (px_parameters cfg)] s;
          s = fold (\<lambda>c. upd_change c (\<lambda>_. change_initialize (of_nat c)
                   (of_nat (bc_parameter (px_changes cfg ! c))) (of_nat (bc_observer (px_changes cfg ! c)))))
                [0..<length (px_changes cfg)] s;
          s = fold (\<lambda>g. upd_group g group_initialize) [0..<length (px_groups cfg)] s in
      case initialize_persistence cfg s of
        (Inl e, s) \<Rightarrow> (Inl e, s)
      | (Inr _, s) \<Rightarrow> (Inr (), s\<lparr>fs_ready := True, fs_mutation_open := True\<rparr>))"

definition params_start :: "('v, 'w) params \<Rightarrow> (solar_error + unit) \<times> ('v, 'w) params" where
  "params_start s = (Inr (), s\<lparr>fs_mutation_open := True\<rparr>)"

definition params_stop ::
  "('v, 'w) param_config \<Rightarrow> ('v, 'w) params \<Rightarrow> (solar_error + unit) \<times> ('v, 'w) params" where
  "params_stop cfg s =
     (let s = s\<lparr>fs_mutation_open := False, fs_persistence_active := False\<rparr> in
      if has_deferred cfg \<and> px_stop_flush cfg then
        (case persist_deferred_parameters cfg True False s of
           (Inl e, s) \<Rightarrow> (Inl e, s)
         | (Inr _, s) \<Rightarrow> (Inr (), s))
      else (Inr (), s))"

definition params_deinit :: "('v, 'w) params \<Rightarrow> (solar_error + unit) \<times> ('v, 'w) params" where
  "params_deinit s = (Inr (), s\<lparr>fs_mutation_open := False, fs_ready := False,
     fs_persistence_active := False, fs_schedule_persistence := False\<rparr>)"

definition run_deferred ::
  "('v, 'w) param_config \<Rightarrow> ('v, 'w) params \<Rightarrow> (solar_error + unit) \<times> ('v, 'w) params" where
  "run_deferred cfg s =
     (case persist_deferred_parameters cfg False False s of
        (Inl e, s) \<Rightarrow> (Inl e, s)
      | (Inr _, s) \<Rightarrow>
          (case schedule_next_deferred cfg s of
             (Inl st, s) \<Rightarrow> (Inl (fail_status st), s)
           | (Inr _, s) \<Rightarrow> (Inr (), s)))"

definition activate_change ::
  "('v, 'w) param_config \<Rightarrow> nat \<Rightarrow> (solar_error + unit) \<times> ('v, 'w) params \<Rightarrow>
   (solar_error + unit) \<times> ('v, 'w) params" where
  "activate_change cfg c = (\<lambda>(result, s).
     case change_take_pending (fs_changes s ! c) of (pending, cs) \<Rightarrow>
       let s = upd_change c (\<lambda>_. cs) s in
       case pending of
         None \<Rightarrow> (result, s)
       | Some ch \<Rightarrow>
           if ch_old_value ch = ch_new_value ch then (result, s)
           else case invoke_change cfg c ch s of
                  (current, s) \<Rightarrow> (if isl result then result else current, s))"

definition activate_changes ::
  "('v, 'w) param_config \<Rightarrow> ('v, 'w) params \<Rightarrow> (solar_error + unit) \<times> ('v, 'w) params" where
  "activate_changes cfg s =
     (case fold (activate_change cfg) [0..<length (px_changes cfg)]
             (Inr (), s\<lparr>fs_activating_changes := True\<rparr>) of
        (result, s) \<Rightarrow> (result, s\<lparr>fs_activating_changes := False\<rparr>))"

definition activate_runtime ::
  "('v, 'w) param_config \<Rightarrow> ('v, 'w) params \<Rightarrow> ('v, 'w) params" where
  "activate_runtime cfg s =
     (if has_deferred cfg then
        snd (schedule_deferred_persistence cfg
               (s\<lparr>fs_schedule_persistence := True, fs_persistence_active := True\<rparr>))
      else s)"

definition initial_params :: "('v, 'w) param_config \<Rightarrow> 'w \<Rightarrow> ('v, 'w) params" where
  "initial_params cfg w =
     \<lparr>fs_slots = map (\<lambda>pm. \<lparr>sl_value = pm_default pm, sl_record = initial_parameter_record pm invalid_value,
                           sl_due = None, sl_erase_pending = False\<rparr>) (px_parameters cfg),
      fs_groups = replicate (length (px_groups cfg)) \<lparr>gs_revision = 0, gs_due = None, gs_dirty = False\<rparr>,
      fs_changes = replicate (length (px_changes cfg)) (change_initialize invalid_value invalid_value invalid_value),
      fs_ready = False, fs_mutation_open = False, fs_activating_changes = False,
      fs_persistence_active = False, fs_schedule_persistence = False, fs_world = w\<rparr>"

end
