(* ===== verification/Parameter_World.thy ===== *)
theory Parameter_World
  imports Parameter_Store Parameter_Runtime
begin

text \<open>
  The setting of the durability proofs. First the static assertions of \<^verbatim>\<open>parameters/facility.hpp\<close>
  (\<^verbatim>\<open>ValidateParameter\<close>, \<^verbatim>\<open>ValidateGroup\<close>, \<^verbatim>\<open>ValidateTransactionalParameters\<close>) as checks on the configured
  system, and the contracts of the codecs, validators and migrations that applications supply. Then
  the view of a state that durability is about: the values, the dirty and erase flags and the content of
  the stores. The locale \<open>parameter_world\<close> collects what is assumed of a configured system; its lemmas say
  which calls leave the view alone and how the others change it.
\<close>

section \<open>Static assertions and contracts\<close>

definition valid_default :: "('v::linorder, 'w) param_config \<Rightarrow> nat \<Rightarrow> bool" where
  "valid_default cfg p =
     (case normalize_param cfg p (pm_default (param cfg p)) of
        Inl _ \<Rightarrow> False
      | Inr n \<Rightarrow> \<not> nm_adjusted n \<and> nm_value n = pm_default (param cfg p))"

definition validate_parameter :: "('v::linorder, 'w) param_config \<Rightarrow> nat \<Rightarrow> bool" where
  "validate_parameter cfg p =
     (valid_default cfg p \<and>
      (pm_storage (param cfg p) = Sto_Immutable \<longrightarrow> \<not> writable (pm_access (param cfg p))) \<and>
      (persistent (pm_persistence (param cfg p)) \<longrightarrow> pm_stable_id (param cfg p) \<noteq> None))"

definition validate_record_size :: "('v, 'w) param_config \<Rightarrow> nat \<Rightarrow> bool" where
  "validate_record_size cfg p =
     (record_envelope_size + co_encoded_size (pm_codec (param cfg p)) \<le> px_max_record cfg)"

definition validate_group_record_size :: "('v, 'w) param_config \<Rightarrow> nat \<Rightarrow> bool" where
  "validate_group_record_size cfg g =
     (record_envelope_size + group_payload_size cfg (gr_members (group cfg g)) \<le> px_max_group_record cfg)"

fun commit_store :: "persistence_policy \<Rightarrow> nat option" where
  "commit_store (Immediate st) = Some st"
| "commit_store (Deferred st _) = Some st"
| "commit_store (Manual st) = Some st"
| "commit_store _ = None"

definition validate_group :: "('v, 'w) param_config \<Rightarrow> nat \<Rightarrow> bool" where
  "validate_group cfg g =
     (let gr = group cfg g in
      gr_members gr \<noteq> [] \<and> distinct (gr_members gr) \<and>
      list_all (\<lambda>p. p < length (px_parameters cfg)) (gr_members gr) \<and>
      list_all (\<lambda>p. pm_persistence (param cfg p) = Transactional g) (gr_members gr) \<and>
      commit_store (gr_commit gr) = Some (gr_store gr))"

definition validate_transactional :: "('v, 'w) param_config \<Rightarrow> bool" where
  "validate_transactional cfg =
     (distinct (concat (map gr_members (px_groups cfg))) \<and>
      list_all (\<lambda>p. persistence_kind_of (pm_persistence (param cfg p)) = Pk_Transactional \<longrightarrow>
                    p \<in> set (concat (map gr_members (px_groups cfg)))) [0..<length (px_parameters cfg)] \<and>
      list_all (validate_group cfg) [0..<length (px_groups cfg)])"

definition duplicate_stable_id :: "'v parameter \<Rightarrow> 'v parameter \<Rightarrow> bool" where
  "duplicate_stable_id l r = (pm_stable_id l \<noteq> None \<and> pm_stable_id l = pm_stable_id r)"

text \<open>The contracts: a codec gives back what it encoded and writes exactly its size; validators and
  migrations stay within the value type, and a custom validator accepts its own results.\<close>

definition codec_ok :: "('v \<Rightarrow> bool) \<Rightarrow> 'v codec \<Rightarrow> bool" where
  "codec_ok ty co \<longleftrightarrow>
     (\<forall>v buf. ty v \<longrightarrow> length buf = co_encoded_size co \<longrightarrow>
        fst (co_encode co v buf) = Inr (co_encoded_size co) \<and>
        length (snd (co_encode co v buf)) = co_encoded_size co \<and>
        co_decode co (snd (co_encode co v buf)) = Inr v) \<and>
     (\<forall>bs v. co_decode co bs = Inr v \<longrightarrow> ty v)"

definition param_ok :: "('v::linorder) parameter \<Rightarrow> bool" where
  "param_ok pm \<longleftrightarrow>
     codec_ok (pm_type pm) (pm_codec pm) \<and>
     pm_type pm (pm_default pm) \<and>
     validation_ok (pm_finite pm) (pm_validation pm) \<and>
     (\<forall>c n. pm_type pm c \<longrightarrow> normalize (pm_finite pm) (pm_validation pm) c = Inr n \<longrightarrow> pm_type pm (nm_value n)) \<and>
     (\<forall>m ver bs v. pm_migrate pm = Some m \<longrightarrow> m ver bs = Inr v \<longrightarrow> pm_type pm v)"

definition group_ok :: "('v, 'w) param_config \<Rightarrow> 'v param_group \<Rightarrow> bool" where
  "group_ok cfg gr \<longleftrightarrow>
     (\<forall>m ver bs vs. gr_migrate gr = Some m \<longrightarrow> m ver bs = Inr vs \<longrightarrow>
        list_all2 (\<lambda>p v. pm_type (param cfg p) v) (gr_members gr) vs)"

definition param_config_ok :: "('v::linorder, 'w) param_config \<Rightarrow> bool" where
  "param_config_ok cfg \<longleftrightarrow>
     (\<forall>p < length (px_parameters cfg).
        validate_parameter cfg p \<and> param_ok (param cfg p) \<and>
        (\<forall>st. persistence_store (pm_persistence (param cfg p)) = Some st \<longrightarrow>
           st < length (px_stores cfg) \<and> validate_record_size cfg p)) \<and>
     (\<forall>p < length (px_parameters cfg). \<forall>q < length (px_parameters cfg).
        p \<noteq> q \<longrightarrow> \<not> duplicate_stable_id (param cfg p) (param cfg q)) \<and>
     validate_transactional cfg \<and>
     (\<forall>g < length (px_groups cfg).
        group_ok cfg (group cfg g) \<and> gr_store (group cfg g) < length (px_stores cfg) \<and>
        validate_group_record_size cfg g) \<and>
     (\<forall>g < length (px_groups cfg). \<forall>h < length (px_groups cfg).
        g \<noteq> h \<longrightarrow> gr_store (group cfg g) = gr_store (group cfg h) \<longrightarrow>
        gr_stable_id (group cfg g) \<noteq> gr_stable_id (group cfg h)) \<and>
     px_max_record cfg < 2 ^ 32 \<and> px_max_group_record cfg < 2 ^ 32"

section \<open>The view of a state\<close>

record 'v pview =
  vw_slots :: "('v \<times> bool \<times> bool) list"
  vw_groups :: "bool list"
  vw_store :: "nat \<Rightarrow> image"

definition slot_view :: "'v param_slot \<Rightarrow> 'v \<times> bool \<times> bool" where
  "slot_view sl = (sl_value sl, pr_dirty (sl_record sl), sl_erase_pending sl)"

definition view :: "(nat \<Rightarrow> 'w \<Rightarrow> image) \<Rightarrow> ('v, 'w) params \<Rightarrow> 'v pview" where
  "view img s = \<lparr>vw_slots = map slot_view (fs_slots s), vw_groups = map gs_dirty (fs_groups s),
     vw_store = (\<lambda>i. img i (fs_world s))\<rparr>"

abbreviation val :: "'v pview \<Rightarrow> nat \<Rightarrow> 'v" where
  "val vw p \<equiv> fst (vw_slots vw ! p)"

abbreviation dirty :: "'v pview \<Rightarrow> nat \<Rightarrow> bool" where
  "dirty vw p \<equiv> fst (snd (vw_slots vw ! p))"

abbreviation erasing :: "'v pview \<Rightarrow> nat \<Rightarrow> bool" where
  "erasing vw p \<equiv> snd (snd (vw_slots vw ! p))"

named_theorems view_simps "how state updates change the view"

lemma view_upd_slot: "view img (upd_slot p f s) =
    (view img s)\<lparr>vw_slots := (vw_slots (view img s))[p := slot_view (f (slot s p))]\<rparr>"
  by (simp add: view_def upd_slot_def map_update)

lemma view_upd_slot_same:
  assumes "\<And>sl. slot_view (f sl) = slot_view sl"
  shows "view img (upd_slot p f s) = view img s"
proof -
  have "map slot_view ((fs_slots s)[p := f (slot s p)]) = map slot_view (fs_slots s)"
    by (cases "p < length (fs_slots s)") (simp_all add: map_update assms list_update_same_conv list_update_beyond)
  then show ?thesis by (simp add: view_def upd_slot_def)
qed

lemma view_slot_mutate_record [view_simps]:
  assumes "\<And>rec. pr_dirty (f rec) = pr_dirty rec"
  shows "view img (slot_mutate_record p f s) = view img s"
  unfolding slot_mutate_record_def by (rule view_upd_slot_same) (simp add: slot_view_def assms)

lemma view_upd_change [view_simps]: "view img (upd_change c f s) = view img s"
  by (simp add: view_def upd_change_def)

lemma view_upd_group: "view img (upd_group g f s) =
    (view img s)\<lparr>vw_groups := (vw_groups (view img s))[g := gs_dirty (f (fs_groups s ! g))]\<rparr>"
  by (simp add: view_def upd_group_def map_update)

lemma view_flags [view_simps]:
  "view img (s\<lparr>fs_ready := b\<rparr>) = view img s"
  "view img (s\<lparr>fs_mutation_open := b\<rparr>) = view img s"
  "view img (s\<lparr>fs_activating_changes := b\<rparr>) = view img s"
  "view img (s\<lparr>fs_persistence_active := b\<rparr>) = view img s"
  "view img (s\<lparr>fs_schedule_persistence := b\<rparr>) = view img s"
  by (simp_all add: view_def)

lemma view_failures [view_simps]:
  "view img (upd_slot p (slot_mark_schedule_failure st) s) = view img s"
  "view img (upd_slot p (slot_mark_persistence_failure st oper) s) = view img s"
  "st \<noteq> St_Ok \<Longrightarrow> view img (upd_slot p (slot_finish_persistence revision st) s) = view img s"
  by (rule view_upd_slot_same; simp add: slot_view_def slot_mark_schedule_failure_def
      slot_mark_persistence_failure_def slot_finish_persistence_def)+

lemma length_view_slots: "length (vw_slots (view img s)) = length (fs_slots s)"
  by (simp add: view_def)

lemma length_view_groups: "length (vw_groups (view img s)) = length (fs_groups s)"
  by (simp add: view_def)

lemma val_view: "p < length (fs_slots s) \<Longrightarrow> vw_slots (view img s) ! p = slot_view (slot s p)"
  by (simp add: view_def)

lemma gdirty_view: "g < length (fs_groups s) \<Longrightarrow> vw_groups (view img s) ! g = gs_dirty (fs_groups s ! g)"
  by (simp add: view_def)

text \<open>A call that touches nothing but the world, and there no store.\<close>

definition quiet :: "(nat \<Rightarrow> 'w \<Rightarrow> image) \<Rightarrow> ('v, 'w) params \<Rightarrow> ('v, 'w) params \<Rightarrow> bool" where
  "quiet img s s' \<longleftrightarrow> (\<exists>w. s' = s\<lparr>fs_world := w\<rparr> \<and> (\<forall>i. img i w = img i (fs_world s)))"

lemma quiet_refl [simp, intro]: "quiet img s s"
  unfolding quiet_def by (rule exI [of _ "fs_world s"]) simp

lemma quiet_trans [trans]: "quiet img s s' \<Longrightarrow> quiet img s' s'' \<Longrightarrow> quiet img s s''"
  by (auto simp: quiet_def)

lemma quiet_view: "quiet img s s' \<Longrightarrow> view img s' = view img s"
  by (auto simp: quiet_def view_def)

lemma quiet_state:
  assumes "quiet img s s'"
  shows "fs_slots s' = fs_slots s" and "fs_groups s' = fs_groups s" and "fs_changes s' = fs_changes s"
    and "fs_ready s' = fs_ready s"
  using assms by (auto simp: quiet_def)

text \<open>A call that changes one record of one store and nothing else.\<close>

definition stored ::
  "(nat \<Rightarrow> 'w \<Rightarrow> image) \<Rightarrow> nat \<Rightarrow> persistence_key \<Rightarrow> byte list option \<Rightarrow> ('v, 'w) params \<Rightarrow> ('v, 'w) params \<Rightarrow> bool" where
  "stored img i k v s s' \<longleftrightarrow>
     (\<exists>w. s' = s\<lparr>fs_world := w\<rparr> \<and>
        (\<forall>j. img j w = (if j = i then (img i (fs_world s))(k := v) else img j (fs_world s))))"

lemma stored_view:
  assumes "stored img i k v s s'"
  shows "view img s' = (view img s)\<lparr>vw_store := (vw_store (view img s))(i := (vw_store (view img s) i)(k := v))\<rparr>"
  using assms by (auto simp: stored_def view_def fun_eq_iff)

lemma stored_state:
  assumes "stored img i k v s s'"
  shows "fs_slots s' = fs_slots s" and "fs_groups s' = fs_groups s" and "fs_changes s' = fs_changes s"
    and "fs_ready s' = fs_ready s"
  using assms by (auto simp: stored_def)

lemma quiet_stored: "quiet img s s1 \<Longrightarrow> stored img i k v s1 s2 \<Longrightarrow> stored img i k v s s2"
  by (auto simp: quiet_def stored_def)

lemma stored_quiet: "stored img i k v s s1 \<Longrightarrow> quiet img s1 s2 \<Longrightarrow> stored img i k v s s2"
  by (auto simp: quiet_def stored_def)

end
