(* ===== verification/Parameter_Durable.thy ===== *)
theory Parameter_Durable
  imports Parameter_World
begin

text \<open>
  What is durable: \<open>reload\<close> and \<open>reload_group\<close> are the values the next boot takes from a stored record,
  read off the loaders. The invariant \<open>durable\<close> says that every value is valid, and that a value
  that is not marked dirty is the one the next boot will load. The locale \<open>parameter_world\<close> states what
  is assumed of the configured system and its environment; the lemmas in it give the effect of the
  elementary operations on the view.
\<close>

section \<open>What the next boot loads\<close>

definition load_fallback :: "('v, 'w) param_config \<Rightarrow> nat \<Rightarrow> 'v option" where
  "load_fallback cfg p =
     (if pm_load_failure (param cfg p) = FailBoot then None else Some (pm_default (param cfg p)))"

definition reload_decoded :: "('v::linorder, 'w) param_config \<Rightarrow> nat \<Rightarrow> decoded_record \<Rightarrow> 'v option" where
  "reload_decoded cfg p dec =
     (case fst (decode_stored cfg p dec) of
        Inl _ \<Rightarrow> load_fallback cfg p
      | Inr v \<Rightarrow> (case normalize_param cfg p v of Inl _ \<Rightarrow> load_fallback cfg p | Inr n \<Rightarrow> Some (nm_value n)))"

definition reload :: "('v::linorder, 'w) param_config \<Rightarrow> nat \<Rightarrow> byte list option \<Rightarrow> 'v option" where
  "reload cfg p b =
     (case b of
        None \<Rightarrow> Some (pm_default (param cfg p))
      | Some bs \<Rightarrow>
          if length bs > px_max_record cfg then load_fallback cfg p
          else case decode_record bs of
                 Inl _ \<Rightarrow> load_fallback cfg p
               | Inr dec \<Rightarrow> if dr_key dec \<noteq> param_key cfg p then load_fallback cfg p
                            else reload_decoded cfg p dec)"

abbreviation members :: "('v, 'w) param_config \<Rightarrow> nat \<Rightarrow> nat list" where
  "members cfg g \<equiv> gr_members (group cfg g)"

definition group_fallback :: "('v, 'w) param_config \<Rightarrow> nat \<Rightarrow> 'v list option" where
  "group_fallback cfg g =
     (if list_ex (\<lambda>p. pm_load_failure (param cfg p) = FailBoot) (members cfg g) then None
      else Some (map (\<lambda>p. pm_default (param cfg p)) (members cfg g)))"

definition reload_group_decoded :: "('v::linorder, 'w) param_config \<Rightarrow> nat \<Rightarrow> decoded_record \<Rightarrow> 'v list option" where
  "reload_group_decoded cfg g dec =
     (case fst (decode_stored_group cfg g dec) of
        Inl _ \<Rightarrow> group_fallback cfg g
      | Inr vs \<Rightarrow> (case normalize_group_values cfg (members cfg g) vs of
                    Inl _ \<Rightarrow> group_fallback cfg g | Inr ns \<Rightarrow> Some ns))"

definition reload_group :: "('v::linorder, 'w) param_config \<Rightarrow> nat \<Rightarrow> byte list option \<Rightarrow> 'v list option" where
  "reload_group cfg g b =
     (case b of
        None \<Rightarrow> Some (map (\<lambda>p. pm_default (param cfg p)) (members cfg g))
      | Some bs \<Rightarrow>
          if length bs > px_max_group_record cfg then group_fallback cfg g
          else case decode_record bs of
                 Inl _ \<Rightarrow> group_fallback cfg g
               | Inr dec \<Rightarrow> if dr_key dec \<noteq> group_key cfg g then group_fallback cfg g
                            else reload_group_decoded cfg g dec)"

definition keeps :: "('v::linorder, 'w) param_config \<Rightarrow> nat \<Rightarrow> 'v \<Rightarrow> bool \<Rightarrow> byte list option \<Rightarrow> bool" where
  "keeps cfg p v erase b \<longleftrightarrow> (if erase then b = None else reload cfg p b = Some v)"

section \<open>The durability invariant\<close>

definition valid_value :: "('v::linorder, 'w) param_config \<Rightarrow> nat \<Rightarrow> 'v \<Rightarrow> bool" where
  "valid_value cfg p v \<longleftrightarrow>
     pm_type (param cfg p) v \<and> normalize_param cfg p v = Inr \<lparr>nm_value = v, nm_adjusted = False\<rparr>"

definition param_durable :: "('v::linorder, 'w) param_config \<Rightarrow> 'v pview \<Rightarrow> nat \<Rightarrow> bool" where
  "param_durable cfg vw p \<longleftrightarrow>
     (case persistence_store (pm_persistence (param cfg p)) of
        None \<Rightarrow> True
      | Some st \<Rightarrow>
          (\<not> dirty vw p \<longrightarrow> reload cfg p (vw_store vw st (param_key cfg p)) = Some (val vw p)) \<and>
          (erasing vw p \<longrightarrow> val vw p = pm_default (param cfg p)))"

definition group_durable :: "('v::linorder, 'w) param_config \<Rightarrow> 'v pview \<Rightarrow> nat \<Rightarrow> bool" where
  "group_durable cfg vw g \<longleftrightarrow>
     (\<not> vw_groups vw ! g \<longrightarrow>
        reload_group cfg g (vw_store vw (gr_store (group cfg g)) (group_key cfg g)) =
          Some (map (val vw) (members cfg g)))"

definition durable :: "('v::linorder, 'w) param_config \<Rightarrow> 'v pview \<Rightarrow> bool" where
  "durable cfg vw \<longleftrightarrow>
     length (vw_slots vw) = length (px_parameters cfg) \<and>
     length (vw_groups vw) = length (px_groups cfg) \<and>
     (\<forall>p < length (px_parameters cfg). valid_value cfg p (val vw p) \<and> param_durable cfg vw p) \<and>
     (\<forall>g < length (px_groups cfg). group_durable cfg vw g)"

lemma normalize_group_values_valid:
  assumes "\<forall>p \<in> set ps. valid_value cfg p (f p)"
  shows "normalize_group_values cfg ps (map f ps) = Inr (map f ps)"
  using assms by (induction ps) (auto simp: valid_value_def)

lemma dr_key_neq_iff:
  "(pk_kind k \<noteq> kind_parameter \<or> pk_stable_id k \<noteq> pk_stable_id (param_key cfg p)) \<longleftrightarrow> k \<noteq> param_key cfg p"
  by (cases k) (simp add: param_key_def)

lemma dr_group_key_neq_iff:
  "(pk_kind k \<noteq> kind_group \<or> pk_stable_id k \<noteq> pk_stable_id (group_key cfg g)) \<longleftrightarrow> k \<noteq> group_key cfg g"
  by (cases k) (simp add: group_key_def)

lemma valid_keys [simp]: "valid_key (param_key cfg p)" "valid_key (group_key cfg g)"
  by (simp_all add: valid_key_def param_key_def group_key_def)

lemma param_key_group_key [simp]: "param_key cfg p \<noteq> group_key cfg g" "group_key cfg g \<noteq> param_key cfg p"
  by (simp_all add: param_key_def group_key_def kind_parameter_def kind_group_def)

section \<open>The assumptions on the configured system\<close>

locale parameter_world =
  fixes cfg :: "('v::linorder, 'w) param_config" and img :: "nat \<Rightarrow> 'w \<Rightarrow> image"
  assumes config: "param_config_ok cfg"
    and stores: "i < length (px_stores cfg) \<Longrightarrow> kv_store (store_at cfg i) (img i)"
    and initialize_frame: "i < length (px_stores cfg) \<Longrightarrow> j \<noteq> i \<Longrightarrow>
      st_initialize (store_at cfg i) w = (ri, w') \<Longrightarrow> img j w' = img j w"
    and load_frame: "i < length (px_stores cfg) \<Longrightarrow> j \<noteq> i \<Longrightarrow>
      st_load (store_at cfg i) k buf w = (rl, buf', w') \<Longrightarrow> img j w' = img j w"
    and save_frame: "i < length (px_stores cfg) \<Longrightarrow> j \<noteq> i \<Longrightarrow>
      st_save (store_at cfg i) k bs w = (rs, w') \<Longrightarrow> img j w' = img j w"
    and erase_frame: "i < length (px_stores cfg) \<Longrightarrow> j \<noteq> i \<Longrightarrow>
      st_erase (store_at cfg i) k w = (re, w') \<Longrightarrow> img j w' = img j w"
    and lock_frame: "px_lock cfg g no_wait w = (ru, w') \<Longrightarrow> img j w' = img j w"
    and lock_waits: "px_lock cfg g False w = (ru, w') \<Longrightarrow> ru = Inr ()"
    and handler_frame: "bc \<in> set (px_changes cfg) \<Longrightarrow> bc_handler bc ch w = (rh, w') \<Longrightarrow> img j w' = img j w"
    and schedule_frame: "px_schedule cfg d w = (rc, w') \<Longrightarrow> img j w' = img j w"
    and cancel_frame: "px_cancel cfg w = (rc, w') \<Longrightarrow> img j w' = img j w"
    and wait_frame: "px_wait_quiescent cfg w = (rb, w') \<Longrightarrow> img j w' = img j w"
begin

abbreviation n_params :: nat where
  "n_params \<equiv> length (px_parameters cfg)"

abbreviation n_groups :: nat where
  "n_groups \<equiv> length (px_groups cfg)"

lemma param_call_quiet:
  assumes "param_call f s = (r, s')" and "\<And>w r w' j. f w = (r, w') \<Longrightarrow> img j w' = img j w"
  shows "quiet img s s'"
  using assms by (auto simp: param_call_def quiet_def split: prod.splits)

lemma lock_quiet: "lock_gate cfg g no_wait s = (r, s') \<Longrightarrow> quiet img s s'"
  unfolding lock_gate_def by (erule param_call_quiet) (rule lock_frame)

lemma lock_forever: "lock_gate cfg g False s = (r, s') \<Longrightarrow> r = Inr ()"
  using lock_waits by (auto simp: lock_gate_def param_call_def split: prod.splits)

lemma cell_read_quiet:
  assumes "cell_read cfg p no_wait s = (r, s')"
  shows "quiet img s s'" and "r = Inr v \<Longrightarrow> v = value_of s p"
  using assms lock_quiet [of "Slot_Mutex p" no_wait s] quiet_state(1)
  by (fastforce simp: cell_read_def split: if_splits prod.splits sum.splits)+

lemma cell_read_forever:
  assumes "cell_read cfg p False s = (r, s')"
  shows "r = Inr (value_of s p)"
proof -
  have "\<exists>v. r = Inr v"
    using assms lock_forever [of "Slot_Mutex p" s]
    by (auto simp: cell_read_def split: if_splits prod.splits sum.splits)
  with cell_read_quiet [OF assms] show ?thesis by blast
qed

lemma cell_write_spec:
  assumes "cell_write cfg p v s = (r, s')"
  obtains s1 where "quiet img s s1" and "r = Inr ()" and "s' = upd_slot p (\<lambda>sl. sl\<lparr>sl_value := v\<rparr>) s1"
proof (cases "pm_storage (param cfg p) = Sto_Atomic")
  case True
  with assms show ?thesis by (intro that [of s]) (auto simp: cell_write_def)
next
  case False
  obtain r1 s1 where l: "lock_gate cfg (Slot_Mutex p) False s = (r1, s1)" by fastforce
  with False assms lock_forever [OF l] lock_quiet [OF l] show ?thesis
    by (intro that [of s1]) (auto simp: cell_write_def)
qed

lemma param_facts:
  assumes "p < n_params"
  shows "validate_parameter cfg p" and "param_ok (param cfg p)"
  using assms config by (auto simp: param_config_ok_def)

lemma store_facts:
  assumes "p < n_params" and "persistence_store (pm_persistence (param cfg p)) = Some st"
  shows "st < length (px_stores cfg)" and "validate_record_size cfg p"
  using assms config by (auto simp: param_config_ok_def)

lemma default_valid: "p < n_params \<Longrightarrow> valid_value cfg p (pm_default (param cfg p))"
  using param_facts [of p]
  by (auto simp: valid_value_def validate_parameter_def valid_default_def param_ok_def split: sum.splits)

lemma normalize_valid:
  assumes "p < n_params" and "pm_type (param cfg p) c" and "normalize_param cfg p c = Inr n"
  shows "valid_value cfg p (nm_value n)"
  using assms param_facts [of p] normalize_accepted [of "pm_finite (param cfg p)" "pm_validation (param cfg p)" c n]
  by (auto simp: valid_value_def param_ok_def normalize_param_def accepted_def)

lemma codec_facts:
  assumes "p < n_params" and "pm_type (param cfg p) v" and "length buf = co_encoded_size (pm_codec (param cfg p))"
  obtains out where "co_encode (pm_codec (param cfg p)) v buf = (Inr (co_encoded_size (pm_codec (param cfg p))), out)"
    and "length out = co_encoded_size (pm_codec (param cfg p))"
    and "co_decode (pm_codec (param cfg p)) out = Inr v"
  using assms param_facts(2) [of p] unfolding param_ok_def codec_ok_def
  by (metis prod.collapse)

section \<open>Writing one record\<close>

lemma store_save_spec:
  assumes "i < length (px_stores cfg)" and "valid_key k" and "bs \<noteq> []"
    and "param_call (st_save (store_at cfg i) k bs) s = (r, s')"
  shows "case r of Inl e \<Rightarrow> err_status e \<noteq> St_Ok \<and> quiet img s s' | Inr _ \<Rightarrow> stored img i k (Some bs) s s'"
proof -
  note laws = kv_store.save_ok [OF stores [OF assms(1)]] kv_store.save_failed [OF stores [OF assms(1)]]
  obtain w' where w: "st_save (store_at cfg i) k bs (fs_world s) = (r, w')" and s': "s' = s\<lparr>fs_world := w'\<rparr>"
    using assms(4) by (auto simp: param_call_def split: prod.splits)
  have frame: "j \<noteq> i \<Longrightarrow> img j w' = img j (fs_world s)" for j by (rule save_frame [OF assms(1) _ w])
  show ?thesis
  proof (cases r)
    case (Inl e)
    with laws(2) w frame s' show ?thesis by (auto simp: quiet_def) metis+
  next
    case (Inr u)
    with laws(1) [OF assms(2,3)] w frame s' show ?thesis by (auto simp: stored_def)
  qed
qed

lemma store_erase_spec:
  assumes "i < length (px_stores cfg)" and "valid_key k"
    and "param_call (st_erase (store_at cfg i) k) s = (r, s')"
  shows "case r of Inl e \<Rightarrow> err_status e \<noteq> St_Ok \<and> quiet img s s' | Inr _ \<Rightarrow> stored img i k None s s'"
proof -
  note laws = kv_store.erase_ok [OF stores [OF assms(1)]] kv_store.erase_failed [OF stores [OF assms(1)]]
  obtain w' where w: "st_erase (store_at cfg i) k (fs_world s) = (r, w')" and s': "s' = s\<lparr>fs_world := w'\<rparr>"
    using assms(3) by (auto simp: param_call_def split: prod.splits)
  have frame: "j \<noteq> i \<Longrightarrow> img j w' = img j (fs_world s)" for j by (rule erase_frame [OF assms(1) _ w])
  show ?thesis
  proof (cases r)
    case (Inl e)
    with laws(2) w frame s' show ?thesis by (auto simp: quiet_def) metis+
  next
    case (Inr u)
    with laws(1) [OF assms(2)] w frame s' show ?thesis by (auto simp: stored_def)
  qed
qed

lemma encoded_record_facts:
  assumes "record_envelope_size + length payload \<le> cap" and "cap < 2 ^ 32"
    and "encode_record k ver payload (replicate cap 0) = (r, rec)"
  obtains n bs where "r = Inr n" and "take n rec = bs"
    and "decode_record bs = Inr \<lparr>dr_key = k, dr_version = ver, dr_payload = payload\<rparr>"
    and "bs \<noteq> []" and "length bs \<le> cap"
proof -
  have len: "record_envelope_size + length payload \<le> length (replicate cap (0 :: byte))" using assms(1) by simp
  note image = encode_record_image [OF len assms(3)]
  have "decode_record (take (record_envelope_size + length payload) rec) =
      Inr \<lparr>dr_key = k, dr_version = ver, dr_payload = payload\<rparr>"
    unfolding image(2) using assms(1,2)
    by (simp add: record_envelope_size_def decode_encoded_record)
  moreover have "length (take (record_envelope_size + length payload) rec) = record_envelope_size + length payload"
    unfolding image(2) using assms(1) by (simp add: record_header_def wire_simps min_def)
  ultimately show ?thesis
    using assms(1) by (intro that [OF image(1) refl]) (auto simp: record_envelope_size_def)
qed

lemma persist_value_spec:
  assumes p: "p < n_params" "persistence_store (pm_persistence (param cfg p)) = Some st"
    and v: "valid_value cfg p v" and call: "persist_value cfg p st v erase s = (r, s')"
  shows "case r of
      Inl e \<Rightarrow> err_status e \<noteq> St_Ok \<and> quiet img s s'
    | Inr _ \<Rightarrow> \<exists>b. stored img st (param_key cfg p) b s s' \<and> keeps cfg p v erase b"
proof (cases erase)
  case True
  then have "case r of Inl e \<Rightarrow> err_status e \<noteq> St_Ok \<and> quiet img s s' | Inr _ \<Rightarrow> stored img st (param_key cfg p) None s s'"
    using call by (intro store_erase_spec [OF store_facts(1) [OF p]]) (simp_all add: persist_value_def)
  then show ?thesis using True by (auto simp: keeps_def split: sum.splits)
next
  case False
  let ?co = "pm_codec (param cfg p)"
  obtain payload where enc: "co_encode ?co v (replicate (co_encoded_size ?co) 0) = (Inr (co_encoded_size ?co), payload)"
    and len: "length payload = co_encoded_size ?co" and dec: "co_decode ?co payload = Inr v"
    using codec_facts [OF p(1), of v "replicate (co_encoded_size ?co) 0"] v by (auto simp: valid_value_def)
  obtain r1 rec where rec: "encode_record (param_key cfg p) (pm_version (param cfg p)) payload
      (replicate (px_max_record cfg) 0) = (r1, rec)" by fastforce
  have size: "record_envelope_size + length payload \<le> px_max_record cfg" "px_max_record cfg < 2 ^ 32"
    using store_facts(2) [OF p] config len by (simp_all add: validate_record_size_def param_config_ok_def)
  obtain n bs where n: "r1 = Inr n" "take n rec = bs" "decode_record bs =
      Inr \<lparr>dr_key = param_key cfg p, dr_version = pm_version (param cfg p), dr_payload = payload\<rparr>"
    "bs \<noteq> []" "length bs \<le> px_max_record cfg"
    by (rule encoded_record_facts [OF size rec])
  have "persist_value cfg p st v erase s = param_call (st_save (store_at cfg st) (param_key cfg p) bs) s"
    using False enc rec n(1,2) by (simp add: persist_value_def encode_persistent_value_def)
  with call have "case r of Inl e \<Rightarrow> err_status e \<noteq> St_Ok \<and> quiet img s s'
      | Inr _ \<Rightarrow> stored img st (param_key cfg p) (Some bs) s s'"
    by (intro store_save_spec [OF store_facts(1) [OF p] _ n(4)]) simp_all
  moreover have "reload cfg p (Some bs) = Some v"
    using n v dec by (simp add: reload_def reload_decoded_def decode_stored_def valid_value_def)
  ultimately show ?thesis using False by (auto simp: keeps_def split: sum.splits)
qed

section \<open>Writing one group image\<close>

definition provides :: "('v, 'w) provider \<Rightarrow> (nat \<Rightarrow> 'v) \<Rightarrow> ('v, 'w) params \<Rightarrow> bool" where
  "provides prov f s \<longleftrightarrow>
     (\<forall>p s1 r s2. quiet img s s1 \<longrightarrow> prov p s1 = (r, s2) \<longrightarrow> r = Inr (f p) \<and> quiet img s s2)"

lemma encode_members_spec:
  assumes "\<forall>p \<in> set ps. p < n_params \<and> pm_type (param cfg p) (f p)" and "provides prov f s0" and "quiet img s0 s"
    and "offset + group_payload_size cfg ps \<le> length out"
    and "encode_members cfg prov ps offset out s = (r, out', s')"
  shows "r = Inr (offset + group_payload_size cfg ps) \<and> quiet img s0 s' \<and> length out' = length out \<and>
    take offset out' = take offset out \<and>
    decode_group_values cfg ps (take (offset + group_payload_size cfg ps) out') offset = Inr (map f ps)"
  using assms
proof (induction ps arbitrary: offset out s)
  case Nil
  then show ?case by (auto simp: group_payload_size_def)
next
  case (Cons p ps)
  let ?co = "pm_codec (param cfg p)" and ?n = "co_encoded_size (pm_codec (param cfg p))"
  have p: "p < n_params" "pm_type (param cfg p) (f p)" using Cons.prems(1) by auto
  have size: "group_payload_size cfg (p # ps) = ?n + group_payload_size cfg ps"
    by (simp add: group_payload_size_def)
  obtain r1 s1 where call: "prov p s = (r1, s1)" by fastforce
  then have s1: "prov p s = (Inr (f p), s1)" "quiet img s0 s1"
    using Cons.prems(2,3) unfolding provides_def by blast+
  have "length (take ?n (drop offset out)) = ?n" using Cons.prems(4) size by simp
  then obtain part where part: "co_encode ?co (f p) (take ?n (drop offset out)) = (Inr ?n, part)"
    "length part = ?n" "co_decode ?co part = Inr (f p)"
    by (rule codec_facts [OF p])
  define out1 where "out1 = take offset out @ part @ drop (offset + ?n) out"
  have out1: "length out1 = length out" "take (offset + ?n) out1 = take offset out @ part"
    "take offset out1 = take offset out"
    using Cons.prems(4) size part(2) by (simp_all add: out1_def)
  have rest: "encode_members cfg prov ps (offset + ?n) out1 s1 = (r, out', s')"
    using Cons.prems(5) s1(1) part(1) by (simp add: Let_def out1_def)
  have IH: "r = Inr (offset + ?n + group_payload_size cfg ps) \<and> quiet img s0 s' \<and> length out' = length out1 \<and>
      take (offset + ?n) out' = take (offset + ?n) out1 \<and>
      decode_group_values cfg ps (take (offset + ?n + group_payload_size cfg ps) out') (offset + ?n) = Inr (map f ps)"
    using Cons.prems(1,2,4) size s1(2) out1(1) by (intro Cons.IH [OF _ _ _ _ rest]) auto
  let ?P = "take (offset + group_payload_size cfg (p # ps)) out'"
  have pre: "take (offset + ?n) out' = take offset out @ part" using IH out1(2) by simp
  have keep: "take offset out' = take offset out"
    using arg_cong [OF pre, of "take offset"] Cons.prems(4) by (simp add: min_def)
  have "take ?n (drop offset ?P) = drop offset (take (offset + ?n) out')"
    by (simp add: size take_drop min_absorb1 add.commute)
  also have "\<dots> = part" using pre Cons.prems(4) by simp
  finally have chunk: "take ?n (drop offset ?P) = part" .
  have fits: "offset + ?n \<le> length ?P" using IH Cons.prems(4) out1(1) size by simp
  have "decode_group_values cfg (p # ps) ?P offset = Inr (map f (p # ps))"
    using chunk fits part(3) IH size by (simp add: Let_def add.assoc not_less)
  then show ?case using IH keep out1(1) size by (simp add: add.assoc)
qed

lemma group_facts:
  assumes "g < n_groups"
  shows "gr_store (group cfg g) < length (px_stores cfg)" and "validate_group_record_size cfg g"
    and "distinct (members cfg g)" and "p \<in> set (members cfg g) \<Longrightarrow> p < n_params"
    and "p \<in> set (members cfg g) \<Longrightarrow> pm_persistence (param cfg p) = Transactional g"
    and "commit_store (gr_commit (group cfg g)) = Some (gr_store (group cfg g))"
    and "group_ok cfg (group cfg g)"
  using assms config
  by (auto simp: param_config_ok_def validate_transactional_def validate_group_def list_all_iff Let_def)

lemma save_group_record_spec:
  assumes "g < n_groups" and "length payload = group_payload_size cfg (members cfg g)"
    and "decode_group_values cfg (members cfg g) payload 0 = Inr (map f (members cfg g))"
    and "\<forall>p \<in> set (members cfg g). valid_value cfg p (f p)"
    and "save_group_record cfg g payload s = (r, s')"
  shows "case r of
      Inl e \<Rightarrow> err_status e \<noteq> St_Ok \<and> quiet img s s'
    | Inr _ \<Rightarrow> \<exists>b. stored img (gr_store (group cfg g)) (group_key cfg g) b s s' \<and>
        reload_group cfg g b = Some (map f (members cfg g))"
proof -
  obtain r1 rec where rec: "encode_record (group_key cfg g) (gr_version (group cfg g)) payload
      (replicate (px_max_group_record cfg) 0) = (r1, rec)" by fastforce
  have size: "record_envelope_size + length payload \<le> px_max_group_record cfg" "px_max_group_record cfg < 2 ^ 32"
    using group_facts(2) [OF assms(1)] config assms(2) by (simp_all add: validate_group_record_size_def param_config_ok_def)
  obtain n bs where n: "r1 = Inr n" "take n rec = bs" "decode_record bs =
      Inr \<lparr>dr_key = group_key cfg g, dr_version = gr_version (group cfg g), dr_payload = payload\<rparr>"
    "bs \<noteq> []" "length bs \<le> px_max_group_record cfg"
    by (rule encoded_record_facts [OF size rec])
  have "case r of Inl e \<Rightarrow> err_status e \<noteq> St_Ok \<and> quiet img s s'
      | Inr _ \<Rightarrow> stored img (gr_store (group cfg g)) (group_key cfg g) (Some bs) s s'"
    using assms(5) rec n(1,2)
    by (intro store_save_spec [OF group_facts(1) [OF assms(1)] _ n(4)]) (simp_all add: save_group_record_def)
  moreover have "reload_group cfg g (Some bs) = Some (map f (members cfg g))"
    using n assms(3) normalize_group_values_valid [OF assms(4)]
    by (simp add: reload_group_def reload_group_decoded_def decode_stored_group_def)
  ultimately show ?thesis by (auto split: sum.splits)
qed

lemma encode_group_payload_spec:
  assumes g: "g < n_groups" and prov: "provides prov f s"
    and valid: "\<forall>p \<in> set (members cfg g). valid_value cfg p (f p)"
    and call: "encode_group_payload cfg g (replicate (px_max_group_record cfg) 0) prov s = (r, out, s')"
  shows "quiet img s s'" and "r = Inr (group_payload_size cfg (members cfg g))"
    and "length (take (group_payload_size cfg (members cfg g)) out) = group_payload_size cfg (members cfg g)"
    and "decode_group_values cfg (members cfg g) (take (group_payload_size cfg (members cfg g)) out) 0 =
      Inr (map f (members cfg g))"
proof -
  have size: "group_payload_size cfg (members cfg g) \<le> px_max_group_record cfg"
    using group_facts(2) [OF g] by (simp add: validate_group_record_size_def)
  have "encode_members cfg prov (members cfg g) 0 (replicate (px_max_group_record cfg) 0) s = (r, out, s')"
    using call size by (simp add: encode_group_payload_def)
  from encode_members_spec [OF _ prov quiet_refl _ this] valid group_facts(4) [OF g] size
  have "r = Inr (group_payload_size cfg (members cfg g)) \<and> quiet img s s' \<and>
      length out = px_max_group_record cfg \<and>
      decode_group_values cfg (members cfg g) (take (group_payload_size cfg (members cfg g)) out) 0 =
        Inr (map f (members cfg g))"
    by (simp add: valid_value_def)
  then show "quiet img s s'" and "r = Inr (group_payload_size cfg (members cfg g))"
    and "length (take (group_payload_size cfg (members cfg g)) out) = group_payload_size cfg (members cfg g)"
    and "decode_group_values cfg (members cfg g) (take (group_payload_size cfg (members cfg g)) out) 0 =
      Inr (map f (members cfg g))"
    using size by simp_all
qed

lemma persist_group_image_spec:
  assumes g: "g < n_groups" and prov: "provides prov f s"
    and valid: "\<forall>p \<in> set (members cfg g). valid_value cfg p (f p)"
    and call: "persist_group_image cfg g prov s = (r, s')"
  shows "case r of
      Inl e \<Rightarrow> err_status e \<noteq> St_Ok \<and> quiet img s s'
    | Inr _ \<Rightarrow> \<exists>b. stored img (gr_store (group cfg g)) (group_key cfg g) b s s' \<and>
        reload_group cfg g b = Some (map f (members cfg g))"
proof -
  obtain r1 out s1 where enc: "encode_group_payload cfg g (replicate (px_max_group_record cfg) 0) prov s = (r1, out, s1)"
    by (metis prod.collapse)
  note e = encode_group_payload_spec [OF g prov valid enc]
  have "save_group_record cfg g (take (group_payload_size cfg (members cfg g)) out) s1 = (r, s')"
    using call enc e(2) by (simp add: persist_group_image_def)
  from save_group_record_spec [OF g e(3,4) valid this] show ?thesis
    using e(1) by (auto split: sum.splits intro: quiet_trans quiet_stored)
qed

end

end
