(* ===== verification/Parameter_Invariant.thy ===== *)
theory Parameter_Invariant
  imports Parameter_Durable
begin

text \<open>
  Every operation of the parameter facility keeps the invariant \<open>durable\<close>. The first part shows it for
  the possible changes of the view (one parameter with its record, one group with its image), the
  second computes the view after each operation.
\<close>

lemma map_fst_update_other:
  "p \<notin> set ms \<Longrightarrow> map (\<lambda>q. fst (xs[p := y] ! q)) ms = map (\<lambda>q. fst (xs ! q)) ms"
  by (induction ms) (auto simp: nth_list_update_neq)

lemma pview_order:
  "vw\<lparr>vw_store := a, vw_slots := b\<rparr> = vw\<lparr>vw_slots := b, vw_store := a\<rparr>"
  "vw\<lparr>vw_store := a, vw_groups := c\<rparr> = vw\<lparr>vw_groups := c, vw_store := a\<rparr>"
  "vw\<lparr>vw_groups := c, vw_slots := b\<rparr> = vw\<lparr>vw_slots := b, vw_groups := c\<rparr>"
  by (cases vw; simp)+

context parameter_world
begin

section \<open>Changes of the view that keep the invariant\<close>

lemma param_key_inj:
  assumes "p < n_params" "q < n_params" "param_key cfg p = param_key cfg q"
    and "persistent (pm_persistence (param cfg p))" and "persistent (pm_persistence (param cfg q))"
  shows "p = q"
proof (rule ccontr)
  assume "p \<noteq> q"
  with assms config have "\<not> duplicate_stable_id (param cfg p) (param cfg q)" by (simp add: param_config_ok_def)
  with assms param_facts(1) [of p] param_facts(1) [of q] show False
    by (auto simp: duplicate_stable_id_def param_key_def stable_id_raw_def validate_parameter_def)
qed

lemma group_key_inj:
  assumes "g < n_groups" "h < n_groups" "group_key cfg g = group_key cfg h"
    and "gr_store (group cfg g) = gr_store (group cfg h)"
  shows "g = h"
  using assms config by (auto simp: param_config_ok_def group_key_def)

lemma store_persistent: "persistence_store pol = Some st \<Longrightarrow> persistent pol"
  by (cases pol) auto

lemma transactional_member:
  assumes "p < n_params" and "pm_persistence (param cfg p) = Transactional g"
  shows "g < n_groups" and "p \<in> set (members cfg g)"
proof -
  have "p \<in> set (concat (map gr_members (px_groups cfg)))"
    using assms config by (auto simp: param_config_ok_def validate_transactional_def list_all_iff)
  then obtain gr where "gr \<in> set (px_groups cfg)" and "p \<in> set (gr_members gr)" by auto
  then obtain h where "h < n_groups" and "p \<in> set (members cfg h)" by (metis in_set_conv_nth)
  moreover from this have "h = g" using group_facts(5) assms(2) by fastforce
  ultimately show "g < n_groups" and "p \<in> set (members cfg g)" by auto
qed

lemma durable_param:
  assumes inv: "durable cfg vw" and p: "p < n_params" "persistence_store (pm_persistence (param cfg p)) = Some st"
    and v: "valid_value cfg p v" and new: "\<not> d \<Longrightarrow> reload cfg p b = Some v" "e \<Longrightarrow> v = pm_default (param cfg p)"
  shows "durable cfg (vw\<lparr>vw_slots := (vw_slots vw)[p := (v, d, e)],
    vw_store := (vw_store vw)(st := (vw_store vw st)(param_key cfg p := b))\<rparr>)" (is "durable cfg ?vw")
proof -
  have len: "length (vw_slots vw) = n_params" using inv by (simp add: durable_def)
  have "valid_value cfg q (val ?vw q) \<and> param_durable cfg ?vw q" if q: "q < n_params" for q
  proof (cases "q = p")
    case True
    then show ?thesis using p v new len by (simp add: param_durable_def)
  next
    case False
    have "persistence_store (pm_persistence (param cfg q)) = Some i \<Longrightarrow> param_key cfg q \<noteq> param_key cfg p" for i
      using False param_key_inj q p store_persistent by blast
    moreover have "valid_value cfg q (val vw q) \<and> param_durable cfg vw q" using inv q by (simp add: durable_def)
    ultimately show ?thesis using False by (auto simp: param_durable_def split: option.splits)
  qed
  moreover have "group_durable cfg ?vw g" if g: "g < n_groups" for g
  proof -
    have "p \<notin> set (members cfg g)" using group_facts(5) [OF g] p(2) by fastforce
    then have "map (val ?vw) (members cfg g) = map (val vw) (members cfg g)"
      by (simp add: map_fst_update_other)
    moreover have "group_durable cfg vw g" using inv g by (simp add: durable_def)
    ultimately show ?thesis by (auto simp: group_durable_def)
  qed
  ultimately show ?thesis using inv by (simp add: durable_def)
qed

lemma durable_param_only:
  assumes "durable cfg vw" and "p < n_params" "persistence_store (pm_persistence (param cfg p)) = Some st"
    and "valid_value cfg p v" and "\<not> d \<Longrightarrow> reload cfg p (vw_store vw st (param_key cfg p)) = Some v"
    and "e \<Longrightarrow> v = pm_default (param cfg p)"
  shows "durable cfg (vw\<lparr>vw_slots := (vw_slots vw)[p := (v, d, e)]\<rparr>)"
  using durable_param [OF assms(1-4), of d "vw_store vw st (param_key cfg p)" e] assms(5,6) by simp

lemma durable_volatile:
  assumes inv: "durable cfg vw" and p: "p < n_params" "pm_persistence (param cfg p) = Volatile"
    and v: "valid_value cfg p v"
  shows "durable cfg (vw\<lparr>vw_slots := (vw_slots vw)[p := (v, d, e)]\<rparr>)" (is "durable cfg ?vw")
proof -
  have "valid_value cfg q (val ?vw q) \<and> param_durable cfg ?vw q" if q: "q < n_params" for q
    using inv p v that by (cases "q = p") (auto simp: durable_def param_durable_def split: option.splits)
  moreover have "group_durable cfg ?vw g" if g: "g < n_groups" for g
  proof -
    have "p \<notin> set (members cfg g)" using group_facts(5) [OF g] p(2) by fastforce
    then have "map (val ?vw) (members cfg g) = map (val vw) (members cfg g)"
      by (simp add: map_fst_update_other)
    moreover have "group_durable cfg vw g" using inv g by (simp add: durable_def)
    ultimately show ?thesis by (auto simp: group_durable_def)
  qed
  ultimately show ?thesis using inv by (simp add: durable_def)
qed

lemma durable_group:
  assumes inv: "durable cfg vw" and g: "g < n_groups" and len: "length slots' = n_params"
    and same: "\<And>q. q < n_params \<Longrightarrow> q \<notin> set (members cfg g) \<Longrightarrow> slots' ! q = vw_slots vw ! q"
    and valid: "\<And>q. q \<in> set (members cfg g) \<Longrightarrow> valid_value cfg q (fst (slots' ! q))"
    and new: "\<not> gd \<Longrightarrow> reload_group cfg g b = Some (map (\<lambda>q. fst (slots' ! q)) (members cfg g))"
  shows "durable cfg (vw\<lparr>vw_slots := slots', vw_groups := (vw_groups vw)[g := gd],
    vw_store := (vw_store vw)(gr_store (group cfg g) := (vw_store vw (gr_store (group cfg g)))(group_key cfg g := b))\<rparr>)"
    (is "durable cfg ?vw")
proof -
  have "valid_value cfg q (val ?vw q) \<and> param_durable cfg ?vw q" if q: "q < n_params" for q
  proof (cases "q \<in> set (members cfg g)")
    case True
    then show ?thesis using valid group_facts(5) [OF g] by (simp add: param_durable_def)
  next
    case False
    then show ?thesis
      using inv same [OF q] q by (auto simp: durable_def param_durable_def split: option.splits)
  qed
  moreover have "group_durable cfg ?vw h" if h: "h < n_groups" for h
  proof (cases "h = g")
    case True
    then show ?thesis using new g inv by (simp add: group_durable_def durable_def)
  next
    case False
    have "q \<notin> set (members cfg g)" if "q \<in> set (members cfg h)" for q
      using that False group_facts(5) [OF g] group_facts(5) [OF h] by fastforce
    then have "map (val ?vw) (members cfg h) = map (val vw) (members cfg h)"
      using same group_facts(4) [OF h] by simp
    moreover have "group_durable cfg vw h" using inv h by (simp add: durable_def)
    moreover have "gr_store (group cfg h) = gr_store (group cfg g) \<Longrightarrow> group_key cfg h \<noteq> group_key cfg g"
      using False group_key_inj [OF h g] by blast
    ultimately show ?thesis using False by (auto simp: group_durable_def)
  qed
  ultimately show ?thesis using inv len by (simp add: durable_def)
qed

lemma durable_member:
  assumes "durable cfg vw" and "p < n_params" "pm_persistence (param cfg p) = Transactional g"
    and "valid_value cfg p v"
    and "\<not> gd \<Longrightarrow> reload_group cfg g b = Some (map (\<lambda>q. if q = p then v else val vw q) (members cfg g))"
  shows "durable cfg (vw\<lparr>vw_slots := (vw_slots vw)[p := (v, d, e)], vw_groups := (vw_groups vw)[g := gd],
    vw_store := (vw_store vw)(gr_store (group cfg g) := (vw_store vw (gr_store (group cfg g)))(group_key cfg g := b))\<rparr>)"
proof (rule durable_group [OF assms(1) transactional_member(1) [OF assms(2,3)]])
  note g = transactional_member [OF assms(2,3)]
  have len: "length (vw_slots vw) = n_params" using assms(1) by (simp add: durable_def)
  show "length ((vw_slots vw)[p := (v, d, e)]) = n_params" using len by simp
  show "(vw_slots vw)[p := (v, d, e)] ! q = vw_slots vw ! q" if "q \<notin> set (members cfg g)" for q
    using that g(2) by (metis nth_list_update_neq)
  show "valid_value cfg q (fst ((vw_slots vw)[p := (v, d, e)] ! q))" if "q \<in> set (members cfg g)" for q
    using that assms(1,2,4) len group_facts(4) [OF g(1)] by (auto simp: nth_list_update durable_def)
  have "(\<lambda>q. fst ((vw_slots vw)[p := (v, d, e)] ! q)) = (\<lambda>q. if q = p then v else val vw q)"
    using assms(2) len by (auto simp: fun_eq_iff nth_list_update)
  then show "reload_group cfg g b = Some (map (\<lambda>q. fst ((vw_slots vw)[p := (v, d, e)] ! q)) (members cfg g))" if "\<not> gd"
    using assms(5) that by simp
qed

section \<open>Calls that leave the view alone\<close>

lemma schedule_quiet: "schedule_deferred_persistence cfg s = (r, s') \<Longrightarrow> quiet img s s'"
  by (auto simp: schedule_deferred_persistence_def split: if_splits option.splits
      elim!: param_call_quiet intro: schedule_frame)

lemma schedule_next_quiet: "schedule_next_deferred cfg s = (r, s') \<Longrightarrow> quiet img s s'"
  by (auto simp: schedule_next_deferred_def split: if_splits option.splits
      elim!: param_call_quiet intro: schedule_frame)

lemma reschedule_view: "reschedule cfg p ps s = (r, s') \<Longrightarrow> view img s' = view img s"
  by (auto simp: reschedule_def view_simps split: if_splits prod.splits sum.splits dest!: schedule_quiet quiet_view)

lemma invoke_change_view:
  assumes "c < length (px_changes cfg)" and "invoke_change cfg c ch s = (r, s')"
  shows "view img s' = view img s"
proof -
  obtain r1 s1 where call: "param_call (bc_handler (px_changes cfg ! c) ch) (upd_change c change_begin_invoke s) = (r1, s1)"
    by fastforce
  then have "quiet img (upd_change c change_begin_invoke s) s1"
    by (rule param_call_quiet) (rule handler_frame [OF nth_mem [OF assms(1)]])
  from quiet_view [OF this] assms(2) call show ?thesis
    by (auto simp: invoke_change_def Let_def view_simps split: sum.splits)
qed

lemma dispatch_to_view:
  assumes "c < length (px_changes cfg)" and "dispatch_to cfg deferred ch c (n, s) = (n', s')"
  shows "view img s' = view img s"
  using assms by (auto simp: dispatch_to_def view_simps split: if_splits prod.splits sum.splits dest: invoke_change_view)

lemma fold_view:
  assumes "\<And>c acc. c \<in> set cs \<Longrightarrow> view img (snd (f c acc)) = view img (snd acc)"
  shows "view img (snd (fold f cs acc)) = view img (snd acc)"
  using assms by (induction cs arbitrary: acc) auto

lemma dispatch_change_view:
  assumes "dispatch_change cfg p ch deferred s = (n, s')"
  shows "view img s' = view img s"
proof -
  have "view img (snd (dispatch_to cfg deferred ch c acc)) = view img (snd acc)" if "c < length (px_changes cfg)" for c acc
    using dispatch_to_view [OF that, of deferred ch "fst acc" "snd acc"] by (metis prod.collapse)
  then have "view img (snd (dispatch_change cfg p ch deferred s)) = view img (snd (0 :: nat, s))"
    unfolding dispatch_change_def by (intro fold_view) auto
  with assms show ?thesis by simp
qed

section \<open>Committing one value\<close>

lemma provides_read: "provides (\<lambda>m s. cell_read cfg m False s) (\<lambda>q. value_of s q) s"
  unfolding provides_def using cell_read_forever cell_read_quiet(1) quiet_state(1) quiet_trans by metis

lemma provides_override:
  "provides (\<lambda>m s. if m = p then (Inr v, s) else cell_read cfg m False s) (\<lambda>q. if q = p then v else value_of s q) s"
  using provides_read [of s] unfolding provides_def by auto

lemma value_view: "durable cfg (view img s) \<Longrightarrow> q < n_params \<Longrightarrow> value_of s q = val (view img s) q"
  by (simp add: durable_def length_view_slots val_view slot_view_def)

text \<open>What preparing a commit does to the stores, by the policy of the parameter.\<close>

definition prepared :: "nat \<Rightarrow> 'v \<Rightarrow> bool \<Rightarrow> ('v, 'w) params \<Rightarrow> ('v, 'w) params \<Rightarrow> bool" where
  "prepared p v reset s s' \<longleftrightarrow>
     (case pm_persistence (param cfg p) of
        Immediate st \<Rightarrow>
          \<exists>b. stored img st (param_key cfg p) b s s' \<and> keeps cfg p v reset b
      | Transactional g \<Rightarrow>
          if persistence_kind_of (gr_commit (group cfg g)) = Pk_Immediate
          then \<exists>b. stored img (gr_store (group cfg g)) (group_key cfg g) b s s' \<and>
                   reload_group cfg g b = Some (map (\<lambda>q. if q = p then v else val (view img s) q) (members cfg g))
          else s' = s
      | _ \<Rightarrow> s' = s)"

lemma prepare_spec:
  assumes call: "prepare_immediate_persistence cfg p v reset s = (r, s')" and p: "p < n_params"
    and v: "valid_value cfg p v" and inv: "durable cfg (view img s)"
  shows "case r of Inl _ \<Rightarrow> view img s' = view img s | Inr _ \<Rightarrow> prepared p v reset s s'"
proof (cases "pm_persistence (param cfg p)")
  case (Immediate st)
  obtain r1 s1 where l: "lock_gate cfg Persistence_Gate False s = (r1, s1)" by fastforce
  obtain r2 s2 where pv: "persist_value cfg p st v reset s1 = (r2, s2)" by fastforce
  have "case r2 of Inl e \<Rightarrow> err_status e \<noteq> St_Ok \<and> quiet img s1 s2
      | Inr _ \<Rightarrow> \<exists>b. stored img st (param_key cfg p) b s1 s2 \<and> keeps cfg p v reset b"
    using Immediate by (intro persist_value_spec [OF p _ v pv]) simp
  then show ?thesis
    using call l pv lock_forever [OF l] lock_quiet [OF l] Immediate
    by (auto simp: prepare_immediate_persistence_def prepared_def persistence_failed_def Let_def view_simps
        quiet_view split: sum.splits intro: quiet_stored)
next
  case (Transactional g)
  note g = transactional_member [OF p Transactional]
  show ?thesis
  proof (cases "persistence_kind_of (gr_commit (group cfg g)) = Pk_Immediate")
    case True
    then obtain i where i: "gr_commit (group cfg g) = Immediate i" by (cases "gr_commit (group cfg g)") auto
    obtain r1 s1 where l: "lock_gate cfg Persistence_Gate False s = (r1, s1)" by fastforce
    let ?prov = "\<lambda>m s. if m = p then (Inr v, s) else cell_read cfg m False s"
      and ?f = "\<lambda>q. if q = p then v else val (view img s) q"
    obtain r2 s2 where pg: "persist_group_image cfg g ?prov s1 = (r2, s2)" by fastforce
    have f: "map (\<lambda>q. if q = p then v else value_of s1 q) (members cfg g) = map ?f (members cfg g)"
      using value_view [OF inv] group_facts(4) [OF g(1)] quiet_state(1) [OF lock_quiet [OF l]] by simp
    have valid: "\<forall>q \<in> set (members cfg g). valid_value cfg q (if q = p then v else value_of s1 q)"
      using v inv value_view [OF inv] group_facts(4) [OF g(1)] quiet_state(1) [OF lock_quiet [OF l]]
      by (auto simp: durable_def)
    from persist_group_image_spec [OF g(1) provides_override valid pg]
    show ?thesis
      unfolding f
      using call l pg lock_forever [OF l] lock_quiet [OF l] Transactional i
      by (auto simp: prepare_immediate_persistence_def prepared_def persistence_failed_def Let_def view_simps
          quiet_view split: sum.splits intro: quiet_stored)
  next
    case False
    then show ?thesis using call Transactional
      by (cases "gr_commit (group cfg g)") (auto simp: prepare_immediate_persistence_def prepared_def)
  qed
qed (use call in \<open>auto simp: prepare_immediate_persistence_def prepared_def\<close>)

lemma prepared_slots:
  assumes "prepared p v reset s s'"
  shows "fs_slots s' = fs_slots s" and "fs_groups s' = fs_groups s"
  using assms stored_state(1,2)
  by (fastforce simp: prepared_def split: persistence_policy.splits if_splits)+

lemma mark_committed_view:
  assumes "mark_committed_persistence cfg p revision reset s = (ps, s')" and "p < length (fs_slots s)"
  shows "view img s' =
    (case pm_persistence (param cfg p) of
       Volatile \<Rightarrow> view img s
     | Immediate _ \<Rightarrow> (view img s)\<lparr>vw_slots := (vw_slots (view img s))[p := (value_of s p, False, False)]\<rparr>
     | Transactional g \<Rightarrow>
         if persistence_kind_of (gr_commit (group cfg g)) = Pk_Immediate
         then (view img s)\<lparr>vw_slots := (vw_slots (view img s))[p := (value_of s p, False, False)]\<rparr>
         else (view img s)\<lparr>vw_slots := (vw_slots (view img s))[p := (value_of s p, True, reset)],
                            vw_groups := (vw_groups (view img s))[g := True]\<rparr>
     | _ \<Rightarrow> (view img s)\<lparr>vw_slots := (vw_slots (view img s))[p := (value_of s p, True, reset)]\<rparr>)"
  using assms
  by (auto simp: mark_committed_persistence_def view_upd_slot view_upd_group slot_view_def slot_mark_persisted_def
      slot_mark_dirty_def group_mark_dirty_def Let_def split: persistence_policy.splits)

lemma commit_durable:
  assumes inv: "durable cfg (view img s)" and p: "p < n_params" and v: "valid_value cfg p v"
    and reset: "reset \<Longrightarrow> v = pm_default (param cfg p)"
    and prep: "prepared p v reset s s1"
    and written: "view img s2 = (view img s1)\<lparr>vw_slots := (vw_slots (view img s1))[p := (v, d, e)]\<rparr>"
    and mark: "mark_committed_persistence cfg p revision reset s2 = (ps, s3)"
  shows "durable cfg (view img s3) \<and> map fst (vw_slots (view img s3)) = (map fst (vw_slots (view img s)))[p := v]"
proof -
  have len: "length (fs_slots s) = n_params" "length (vw_slots (view img s)) = n_params"
    using inv by (simp_all add: durable_def length_view_slots)
  have slots: "vw_slots (view img s1) = vw_slots (view img s)" "vw_groups (view img s1) = vw_groups (view img s)"
    using prepared_slots [OF prep] by (simp_all add: view_def)
  have len2: "length (fs_slots s2) = n_params"
    using arg_cong [OF written, of "\<lambda>vw. length (vw_slots vw)"] slots len by (simp add: length_view_slots)
  have v2: "value_of s2 p = v"
    using val_view [of p s2 img] written slots len p len2 by (simp add: slot_view_def)
  note view3 = mark_committed_view [OF mark, unfolded len2, OF p, unfolded v2 written slots]
  show ?thesis
  proof (cases "pm_persistence (param cfg p)")
    case Volatile
    then have "s1 = s" using prep by (simp add: prepared_def)
    with view3 Volatile show ?thesis using durable_volatile [OF inv p Volatile v] len p by (simp add: map_update)
  next
    case (Immediate st)
    then obtain b where b: "stored img st (param_key cfg p) b s s1" "keeps cfg p v reset b"
      using prep by (auto simp: prepared_def)
    have "reload cfg p b = Some v" using b(2) reset by (auto simp: keeps_def reload_def split: if_splits)
    then show ?thesis
      using view3 Immediate stored_view [OF b(1)] durable_param [OF inv p _ v, of st False b False] len p
      by (simp add: map_update pview_order)
  next
    case (Deferred st delay)
    then have "s1 = s" using prep by (simp add: prepared_def)
    with view3 Deferred show ?thesis
      using durable_param_only [OF inv p _ v, of st True reset] reset len p by (simp add: map_update)
  next
    case (Manual st)
    then have "s1 = s" using prep by (simp add: prepared_def)
    with view3 Manual show ?thesis
      using durable_param_only [OF inv p _ v, of st True reset] reset len p by (simp add: map_update)
  next
    case (Transactional g)
    note dm = durable_member [OF inv p Transactional v]
    show ?thesis
    proof (cases "persistence_kind_of (gr_commit (group cfg g)) = Pk_Immediate")
      case True
      then obtain b where b: "stored img (gr_store (group cfg g)) (group_key cfg g) b s s1"
        "reload_group cfg g b = Some (map (\<lambda>q. if q = p then v else val (view img s) q) (members cfg g))"
        using prep Transactional by (auto simp: prepared_def)
      then show ?thesis
        using view3 Transactional True stored_view [OF b(1)] len p
          dm [of "vw_groups (view img s) ! g" b False False] by (simp add: map_update pview_order)
    next
      case False
      then have "s1 = s" using prep Transactional by (simp add: prepared_def)
      with view3 Transactional False show ?thesis
        using dm [of True "vw_store (view img s) (gr_store (group cfg g)) (group_key cfg g)" True reset] len p
        by (simp add: map_update pview_order)
    qed
  qed
qed

lemma set_changed_spec:
  assumes inv: "durable cfg (view img s)" and p: "p < n_params" and v: "valid_value cfg p (nm_value n)"
    and reset: "reset \<Longrightarrow> nm_value n = pm_default (param cfg p)"
    and call: "set_changed cfg p oper n old before state origin reset s = (r, s')"
  shows "durable cfg (view img s') \<and>
    (case r of Inl _ \<Rightarrow> view img s' = view img s
     | Inr up \<Rightarrow> up_effective_value up = nm_value n \<and>
         map fst (vw_slots (view img s')) = (map fst (vw_slots (view img s)))[p := nm_value n])"
proof -
  obtain r1 s1 where pr: "prepare_immediate_persistence cfg p (nm_value n) reset s = (r1, s1)" by fastforce
  note spec = prepare_spec [OF pr p v inv]
  show ?thesis
  proof (cases r1)
    case (Inl e)
    then show ?thesis using call pr spec inv by (auto simp: set_changed_def)
  next
    case (Inr u)
    obtain r2 s2 where cw: "cell_write cfg p (nm_value n) s1 = (r2, s2)" by fastforce
    then obtain s1' where q: "quiet img s1 s1'" "r2 = Inr ()" "s2 = upd_slot p (\<lambda>sl. sl\<lparr>sl_value := nm_value n\<rparr>) s1'"
      by (rule cell_write_spec)
    define f where "f = (\<lambda>rec :: 'v parameter_record. rec\<lparr>pr_value := nm_value n, pr_revision := pr_revision before + 1,
        pr_updates := pr_updates rec + 1,
        pr_validation_adjustments := (if nm_adjusted n then pr_validation_adjustments rec + 1
                                      else pr_validation_adjustments rec),
        pr_last_origin := origin, pr_last_error := make_param_error cfg p oper St_Ok Pr_None\<rparr>)"
    obtain ps s3 where mc: "mark_committed_persistence cfg p (pr_revision before + 1) reset (slot_mutate_record p f s2) = (ps, s3)"
      by fastforce
    have "view img (slot_mutate_record p f s2) = view img s2" by (rule view_slot_mutate_record) (simp add: f_def)
    also have "\<dots> = (view img s1)\<lparr>vw_slots := (vw_slots (view img s1))[p := (nm_value n,
        pr_dirty (sl_record (slot s1' p)), sl_erase_pending (slot s1' p))]\<rparr>"
      using quiet_view [OF q(1)] by (simp add: q(3) view_upd_slot slot_view_def)
    finally have w: "view img (slot_mutate_record p f s2) = \<dots>" .
    have fin: "durable cfg (view img s3) \<and>
        map fst (vw_slots (view img s3)) = (map fst (vw_slots (view img s)))[p := nm_value n]"
      using spec Inr by (intro commit_durable [OF inv p v reset _ w mc]) simp_all
    obtain ps' s4 where rs: "reschedule cfg p ps s3 = (ps', s4)" by fastforce
    obtain fails s5 where dc: "dispatch_change cfg p \<lparr>ch_old_value = old, ch_new_value = nm_value n,
        ch_revision = pr_revision before + 1, ch_origin = origin, ch_adjusted = nm_adjusted n,
        ch_transaction = (origin = Uo_LocalTransaction), ch_reset = reset\<rparr> (changes_deferred state s4) s4 = (fails, s5)"
      by fastforce
    have "view img s5 = view img s3" using dispatch_change_view [OF dc] reschedule_view [OF rs] by simp
    moreover have "set_changed cfg p oper n old before state origin reset s =
        (Inr \<lparr>up_effective_value = nm_value n, up_revision = pr_revision before + 1, up_persistence = ps',
           up_change_failures = fails, up_changed = True, up_adjusted = nm_adjusted n,
           up_changes_deferred = changes_deferred state s4\<rparr>, s5)"
      unfolding set_changed_def Let_def f_def [symmetric]
      by (simp add: pr Inr cw q(2) mc rs dc)
    ultimately show ?thesis using fin call by auto
  qed
qed

lemma set_unchanged_spec:
  assumes inv: "durable cfg (view img s)" and p: "p < n_params" and old: "value_of s p = nm_value n"
    and reset: "reset \<Longrightarrow> nm_value n = pm_default (param cfg p)"
    and call: "set_unchanged cfg p n before origin reset s = (r, s')"
  shows "durable cfg (view img s') \<and> map fst (vw_slots (view img s')) = map fst (vw_slots (view img s)) \<and>
    (case r of Inl _ \<Rightarrow> True | Inr up \<Rightarrow> up_effective_value up = nm_value n)"
proof -
  define f where "f = (\<lambda>rec :: 'v parameter_record. rec\<lparr>pr_unchanged := pr_unchanged rec + 1,
      pr_validation_adjustments := (if nm_adjusted n then pr_validation_adjustments rec + 1
                                    else pr_validation_adjustments rec),
      pr_last_origin := origin\<rparr>)"
  have mutate: "view img (slot_mutate_record p f s1) = view img s1" for s1
    by (rule view_slot_mutate_record) (simp add: f_def)
  note call' = call [unfolded set_unchanged_def Let_def f_def [symmetric]]
  show ?thesis
  proof (cases reset)
    case False
    then show ?thesis using call' inv mutate [of s] by auto
  next
    case True
    have v: "valid_value cfg p (nm_value n)" using inv p value_view [OF inv p] old by (simp add: durable_def)
    obtain r1 s1 where pr: "prepare_immediate_persistence cfg p (nm_value n) True s = (r1, s1)" by fastforce
    note spec = prepare_spec [OF pr p v inv]
    show ?thesis
    proof (cases r1)
      case (Inl e)
      then show ?thesis using call' True pr spec inv by auto
    next
      case (Inr u)
      then have prep: "prepared p (nm_value n) True s s1" using spec by simp
      obtain ps s2 where mc: "mark_committed_persistence cfg p (pr_revision before) True s1 = (ps, s2)" by fastforce
      obtain ps' s3 where rs: "reschedule cfg p ps (slot_mutate_record p f s2) = (ps', s3)" by fastforce
      have same: "(map fst (vw_slots (view img s)))[p := nm_value n] = map fst (vw_slots (view img s))"
        using old value_view [OF inv p] p inv by (simp add: list_update_same_conv durable_def)
      have "p < length (fs_slots s1)" using prepared_slots(1) [OF prep] inv p by (simp add: durable_def length_view_slots)
      then have eq: "(nm_value n, pr_dirty (sl_record (slot s1 p)), sl_erase_pending (slot s1 p)) = vw_slots (view img s1) ! p"
        using val_view [of p s1 img] old prepared_slots(1) [OF prep] by (simp add: slot_view_def)
      have "view img s1 = (view img s1)\<lparr>vw_slots := (vw_slots (view img s1))[p := (nm_value n,
          pr_dirty (sl_record (slot s1 p)), sl_erase_pending (slot s1 p))]\<rparr>"
        unfolding eq list_update_id by simp
      from commit_durable [OF inv p v _ prep this mc] reset
      have "durable cfg (view img s2) \<and> map fst (vw_slots (view img s2)) = map fst (vw_slots (view img s))"
        using True same by simp
      then show ?thesis
        using call' True pr Inr mc rs reschedule_view [OF rs] mutate [of s2] by auto
    qed
  qed
qed

lemma set_parameter_spec:
  assumes inv: "durable cfg (view img s)" and p: "p < n_params" and ty: "pm_type (param cfg p) c"
    and reset: "reset \<Longrightarrow> c = pm_default (param cfg p)"
    and call: "set_parameter cfg p c no_wait origin reset s = (r, s')"
  shows "durable cfg (view img s') \<and>
    (case r of
       Inl _ \<Rightarrow> map fst (vw_slots (view img s')) = map fst (vw_slots (view img s))
     | Inr up \<Rightarrow> \<exists>n. normalize_param cfg p c = Inr n \<and> up_effective_value up = nm_value n \<and>
         map fst (vw_slots (view img s')) = (map fst (vw_slots (view img s)))[p := nm_value n])"
proof -
  define oper where "oper = (if reset then Po_Reset else if no_wait then Po_TrySet else Po_Set)"
  note call' = call [unfolded set_parameter_def oper_def [symmetric] Let_def]
  show ?thesis
  proof (cases "px_in_isr cfg (fs_world s) \<or> mutation_closed cfg s")
    case True
    then show ?thesis using call' inv by (auto split: if_splits)
  next
    case opened: False
    show ?thesis
    proof (cases "normalize_param cfg p c")
      case (Inl e)
      then show ?thesis using call' opened inv by (auto simp: view_simps)
    next
      case (Inr n)
      have v: "valid_value cfg p (nm_value n)" by (rule normalize_valid [OF p ty Inr])
      have default: "nm_value n = pm_default (param cfg p)" if reset
        using default_valid [OF p] Inr reset [OF that] by (auto simp: valid_value_def)
      obtain r1 s1 where l: "lock_gate cfg Write_Gate no_wait s = (r1, s1)" by fastforce
      obtain r2 s2 where cr: "cell_read cfg p no_wait s1 = (r2, s2)" by fastforce
      have q: "quiet img s s1" "quiet img s s2"
        using lock_quiet [OF l] cell_read_quiet(1) [OF cr] by (auto intro: quiet_trans)
      have inv2: "durable cfg (view img s2)" using inv quiet_view [OF q(2)] by simp
      show ?thesis
      proof (cases "\<exists>e. r1 = Inl e \<or> r2 = Inl e")
        case True
        then show ?thesis
          using call' opened Inr l cr q inv by (cases r1; cases r2) (auto simp: quiet_view split: if_splits)
      next
        case False
        then obtain old where old: "r1 = Inr ()" "r2 = Inr old"
          by (cases r1; cases r2) auto
        have ov: "value_of s2 p = old"
          using cell_read_quiet(2) [OF cr old(2)] quiet_state(1) [OF q(2)] quiet_state(1) [OF q(1)] by simp
        have body: "(if old = nm_value n
            then set_unchanged cfg p n (copy_record old (slot s2 p)) origin reset s2
            else set_changed cfg p oper n old (copy_record old (slot s2 p)) (px_system_state cfg (fs_world s)) origin reset s2)
          = (r, s')"
          using call' opened Inr l cr old by simp
        show ?thesis
        proof (cases "old = nm_value n")
          case True
          have "(map fst (vw_slots (view img s2)))[p := nm_value n] = map fst (vw_slots (view img s2))"
            using True ov value_view [OF inv2 p] p inv2 by (simp add: list_update_same_conv durable_def)
          with set_unchanged_spec [OF inv2 p, of n reset "copy_record old (slot s2 p)" origin r s']
            body True ov default quiet_view [OF q(2)] Inr show ?thesis by (auto split: sum.splits)
        next
          case False
          with set_changed_spec [OF inv2 p v, of reset oper old "copy_record old (slot s2 p)"
              "px_system_state cfg (fs_world s)" origin r s'] body default quiet_view [OF q(2)] Inr
          show ?thesis by (auto split: sum.splits)
        qed
      qed
    qed
  qed
qed

end

end
