(* ===== verification/Parameter_Persist.thy ===== *)
theory Parameter_Persist
  imports Parameter_Invariant
begin

text \<open>
  The operations that write dirty values back (\<^verbatim>\<open>save\<close>, \<^verbatim>\<open>save_all\<close>, \<^verbatim>\<open>flush\<close>, the deferred worker and
  the flush at stop) keep the invariant \<open>durable\<close> and every value, and leave clean what they report as
  saved. \<open>settles\<close> is that contract for one call.
\<close>

definition settles ::
  "('v::linorder, 'w) param_config \<Rightarrow> 'v pview \<Rightarrow> 'v pview \<Rightarrow> bool" where
  "settles cfg vw vw' \<longleftrightarrow>
     durable cfg vw' \<and> map fst (vw_slots vw') = map fst (vw_slots vw) \<and>
     (\<forall>p < length (px_parameters cfg). dirty vw' p \<longrightarrow> dirty vw p) \<and>
     (\<forall>g < length (px_groups cfg). vw_groups vw' ! g \<longrightarrow> vw_groups vw ! g)"

lemma settles_refl: "durable cfg vw \<Longrightarrow> settles cfg vw vw"
  by (simp add: settles_def)

lemma settles_trans: "settles cfg vw vw' \<Longrightarrow> settles cfg vw' vw'' \<Longrightarrow> settles cfg vw vw''"
  by (simp add: settles_def)

lemma settles_durable: "settles cfg vw vw' \<Longrightarrow> durable cfg vw'"
  by (simp add: settles_def)

context parameter_world
begin

lemma persist_take_spec:
  assumes "persist_take cfg p no_wait s = (r, s')"
  shows "quiet img s s'" and "r = Inr work \<Longrightarrow> work = slot_persistence_work (value_of s p) (slot s p)"
proof -
  obtain r1 s1 where l: "lock_gate cfg Write_Gate no_wait s = (r1, s1)" by fastforce
  obtain r2 s2 where c: "cell_read cfg p False s1 = (r2, s2)" by fastforce
  have q: "quiet img s s1" "quiet img s s2"
    using lock_quiet [OF l] cell_read_quiet(1) [OF c] by (auto intro: quiet_trans)
  then show "quiet img s s'" and "r = Inr work \<Longrightarrow> work = slot_persistence_work (value_of s p) (slot s p)"
    using assms l c cell_read_forever [OF c] quiet_state(1) [OF q(1)] quiet_state(1) [OF q(2)]
    by (auto simp: persist_take_def split: sum.splits)
qed

lemma view_finished:
  assumes "p < length (fs_slots s)"
  shows "view img (upd_slot p (slot_finish_persistence (pr_pending_revision (sl_record (slot s p))) St_Ok) s) =
    (view img s)\<lparr>vw_slots := (vw_slots (view img s))[p := (value_of s p, False, False)]\<rparr>"
  using assms by (simp add: view_upd_slot slot_finish_persistence_def slot_view_def Let_def)

lemma persist_write_spec:
  assumes inv: "durable cfg (view img s)" and p: "p < n_params" "persistence_store (pm_persistence (param cfg p)) = Some st"
    and call: "persist_write cfg p st no_wait (slot_persistence_work (value_of s p) (slot s p)) s = (r, s')"
  shows "settles cfg (view img s) (view img s') \<and> (\<not> isl r \<longrightarrow> \<not> dirty (view img s') p)"
proof -
  let ?w = "slot_persistence_work (value_of s p) (slot s p)"
  obtain r1 s1 where l: "lock_gate cfg Persistence_Gate no_wait s = (r1, s1)" by fastforce
  note q1 = lock_quiet [OF l]
  obtain r2 s2 where pv: "persist_value cfg p st (pw_value ?w) (pw_erase ?w) s1 = (r2, s2)" by fastforce
  have len: "p < length (fs_slots s)" using inv p by (simp add: durable_def length_view_slots)
  have v: "valid_value cfg p (value_of s p)" and val: "value_of s p = val (view img s) p"
    using inv p value_view [OF inv p(1)] by (auto simp: durable_def)
  have "case r2 of Inl e \<Rightarrow> err_status e \<noteq> St_Ok \<and> quiet img s1 s2
      | Inr _ \<Rightarrow> \<exists>b. stored img st (param_key cfg p) b s1 s2 \<and> keeps cfg p (value_of s p) (pw_erase ?w) b"
    using persist_value_spec [OF p v] pv by (simp add: slot_persistence_work_def)
  then consider (refused) e where "r2 = Inl e" "err_status e \<noteq> St_Ok" "quiet img s s2"
    | (written) b where "r2 = Inr ()" "stored img st (param_key cfg p) b s s2" "keeps cfg p (value_of s p) (pw_erase ?w) b"
    by (cases r2) (auto intro: quiet_trans [OF q1] quiet_stored [OF q1] that)
  then show ?thesis
  proof cases
    case refused
    then show ?thesis
      using call l pv inv q1
      by (auto simp: persist_write_def view_simps quiet_view settles_refl split: sum.splits)
  next
    case written
    have erase: "pw_erase ?w \<longrightarrow> value_of s p = pm_default (param cfg p)"
      using inv p val val_view [OF len, of img]
      by (auto simp: durable_def param_durable_def slot_persistence_work_def slot_view_def)
    then have "reload cfg p b = Some (value_of s p)"
      using written(3) by (auto simp: keeps_def reload_def split: if_splits)
    then have d: "durable cfg ((view img s)\<lparr>vw_slots := (vw_slots (view img s))[p := (value_of s p, False, False)],
        vw_store := (vw_store (view img s))(st := (vw_store (view img s) st)(param_key cfg p := b))\<rparr>)"
      by (intro durable_param [OF inv p v]) auto
    have s2: "slot s2 p = slot s p" "length (fs_slots s2) = length (fs_slots s)"
      using stored_state(1) [OF written(2)] by simp_all
    let ?s3 = "upd_slot p (slot_finish_persistence (pw_revision ?w) St_Ok) s2"
    have "view img ?s3 = (view img s)\<lparr>vw_slots := (vw_slots (view img s))[p := (value_of s p, False, False)],
        vw_store := (vw_store (view img s))(st := (vw_store (view img s) st)(param_key cfg p := b))\<rparr>"
      using view_finished [of p s2] len s2 stored_view [OF written(2)]
      by (simp add: slot_persistence_work_def pview_order)
    then have "settles cfg (view img s) (view img ?s3) \<and> \<not> dirty (view img ?s3) p"
      using d val len p inv
      by (auto simp: settles_def map_update list_update_same_conv length_view_slots nth_list_update durable_def)
    then show ?thesis
      using call l pv written(1) inv q1 by (auto simp: persist_write_def quiet_view settles_refl split: sum.splits)
  qed
qed

lemma persist_parameter_slot_spec:
  assumes inv: "durable cfg (view img s)" and p: "p < n_params"
    and call: "persist_parameter_slot cfg p force no_wait s = (r, s')"
  shows "settles cfg (view img s) (view img s') \<and>
    (force \<and> \<not> isl r \<and> persistence_store (pm_persistence (param cfg p)) \<noteq> None \<longrightarrow> \<not> dirty (view img s') p)"
proof (cases "persistence_store (pm_persistence (param cfg p))")
  case None
  then show ?thesis using call inv by (simp add: persist_parameter_slot_def settles_refl)
next
  case (Some st)
  obtain r1 s1 where t: "persist_take cfg p no_wait s = (r1, s1)" by fastforce
  note q = persist_take_spec(1) [OF t]
  show ?thesis
  proof (cases r1)
    case (Inl e)
    then show ?thesis using call Some t q inv
      by (auto simp: persist_parameter_slot_def quiet_view settles_refl)
  next
    case (Inr work)
    have work: "work = slot_persistence_work (value_of s1 p) (slot s1 p)"
      using persist_take_spec(2) [OF t Inr] quiet_state(1) [OF q] by simp
    have inv1: "durable cfg (view img s1)" using inv quiet_view [OF q] by simp
    have len: "p < length (fs_slots s1)" using inv1 p by (simp add: durable_def length_view_slots)
    show ?thesis
    proof (cases "\<not> pw_dirty work \<or> not_yet_due cfg force (pw_due work) (fs_world s1)")
      case True
      moreover have "force \<Longrightarrow> \<not> dirty (view img s1) p"
        using True work val_view [OF len, of img]
        by (auto simp: not_yet_due_def slot_persistence_work_def slot_view_def)
      ultimately show ?thesis using call Some t Inr inv quiet_view [OF q] settles_refl [OF inv]
        by (auto simp: persist_parameter_slot_def)
    next
      case False
      then have "persist_write cfg p st no_wait work s1 = (r, s')"
        using call Some t Inr by (simp add: persist_parameter_slot_def)
      from persist_write_spec [OF inv1 p Some this [unfolded work]] quiet_view [OF q] show ?thesis by simp
    qed
  qed
qed

section \<open>Groups\<close>

definition member_change :: "nat list \<Rightarrow> 'v pview \<Rightarrow> 'v pview \<Rightarrow> bool" where
  "member_change ms vw vw' \<longleftrightarrow>
     length (vw_slots vw') = length (vw_slots vw) \<and> vw_groups vw' = vw_groups vw \<and> vw_store vw' = vw_store vw \<and>
     (\<forall>q < length (vw_slots vw). val vw' q = val vw q \<and> (dirty vw' q \<longrightarrow> dirty vw q) \<and>
        (q \<notin> set ms \<longrightarrow> vw_slots vw' ! q = vw_slots vw ! q))"

lemma finish_member_change:
  assumes "p < length (fs_slots s)" and "isl persisted \<Longrightarrow> err_status (projl persisted) \<noteq> St_Ok"
  shows "member_change [p] (view img s) (view img (finish_member cfg persisted cleared p s)) \<and>
    length (fs_slots (finish_member cfg persisted cleared p s)) = length (fs_slots s) \<and>
    (isl persisted \<longrightarrow> view img (finish_member cfg persisted cleared p s) = view img s)"
proof -
  obtain r s1 where c: "cell_read cfg p False s = (r, s1)" by fastforce
  note q = cell_read_quiet(1) [OF c]
  have len: "p < length (fs_slots s1)" using assms(1) quiet_state(1) [OF q] by simp
  have fin: "finish_member cfg persisted cleared p s =
      (if isl persisted \<or> cleared then
         upd_slot p (slot_finish_persistence (pr_pending_revision (sl_record (slot s1 p)))
           (case persisted of Inr _ \<Rightarrow> St_Ok | Inl e \<Rightarrow> err_status e)) s1
       else s1)"
    using c cell_read_forever [OF c] by (simp add: finish_member_def slot_persistence_work_def Let_def)
  show ?thesis
  proof (cases persisted)
    case (Inl e)
    then show ?thesis using fin assms(2) quiet_view [OF q] quiet_state(1) [OF q]
      by (simp add: view_simps member_change_def) (simp add: upd_slot_def)
  next
    case (Inr u)
    then show ?thesis
      using fin view_finished [OF len] quiet_view [OF q] quiet_state(1) [OF q] val_view [OF len, of img] len
      by (auto simp: member_change_def nth_list_update slot_view_def upd_slot_def length_view_slots)
  qed
qed

lemma finish_members_change:
  assumes "\<forall>p \<in> set ms. p < length (fs_slots s)" and "isl persisted \<Longrightarrow> err_status (projl persisted) \<noteq> St_Ok"
  shows "member_change ms (view img s) (view img (fold (finish_member cfg persisted cleared) ms s)) \<and>
    (isl persisted \<longrightarrow> view img (fold (finish_member cfg persisted cleared) ms s) = view img s)"
  using assms
proof (induction ms arbitrary: s)
  case Nil
  then show ?case by (simp add: member_change_def)
next
  case (Cons p ms)
  let ?s = "finish_member cfg persisted cleared p s"
  have 1: "member_change [p] (view img s) (view img ?s)" "length (fs_slots ?s) = length (fs_slots s)"
    "isl persisted \<longrightarrow> view img ?s = view img s"
    using finish_member_change [of p s persisted cleared] Cons.prems by auto
  have "member_change ms (view img ?s) (view img (fold (finish_member cfg persisted cleared) ms ?s)) \<and>
      (isl persisted \<longrightarrow> view img (fold (finish_member cfg persisted cleared) ms ?s) = view img ?s)"
    using Cons.prems 1(2) by (intro Cons.IH) auto
  then show ?case using 1(1,3) by (auto simp: member_change_def)
qed

lemma settles_group:
  assumes inv: "durable cfg vw" and g: "g < n_groups"
    and image: "reload_group cfg g b = Some (map (val vw) (members cfg g))"
    and mc: "member_change (members cfg g) (vw\<lparr>vw_groups := (vw_groups vw)[g := False],
      vw_store := (vw_store vw)(gr_store (group cfg g) := (vw_store vw (gr_store (group cfg g)))(group_key cfg g := b))\<rparr>) vw'"
  shows "settles cfg vw vw' \<and> \<not> vw_groups vw' ! g"
proof -
  have slots: "length (vw_slots vw') = n_params"
    "\<And>q. q < n_params \<Longrightarrow> val vw' q = val vw q \<and> (dirty vw' q \<longrightarrow> dirty vw q) \<and>
      (q \<notin> set (members cfg g) \<longrightarrow> vw_slots vw' ! q = vw_slots vw ! q)"
    using mc inv by (simp_all add: member_change_def durable_def)
  have vw': "vw' = vw\<lparr>vw_slots := vw_slots vw', vw_groups := (vw_groups vw)[g := False],
      vw_store := (vw_store vw)(gr_store (group cfg g) := (vw_store vw (gr_store (group cfg g)))(group_key cfg g := b))\<rparr>"
    using mc by (simp add: member_change_def)
  have "durable cfg vw'"
    by (subst vw', rule durable_group [OF inv g slots(1)])
      (use slots(2) group_facts(4) [OF g] inv image in \<open>auto simp: durable_def\<close>)
  moreover have "map fst (vw_slots vw') = map fst (vw_slots vw)"
    using slots inv by (intro nth_equalityI) (auto simp: durable_def)
  moreover have "vw_groups vw' = (vw_groups vw)[g := False]" "length (vw_groups vw) = n_groups"
    using mc inv by (simp_all add: member_change_def durable_def)
  ultimately show ?thesis using slots(2) g by (auto simp: settles_def nth_list_update)
qed

lemma persist_group_slot_spec:
  assumes inv: "durable cfg (view img s)" and g: "g < n_groups"
    and call: "persist_group_slot cfg g force no_wait s = (r, s')"
  shows "settles cfg (view img s) (view img s') \<and> (force \<and> \<not> isl r \<longrightarrow> \<not> vw_groups (view img s') ! g)"
proof (cases "\<not> gs_dirty (fs_groups s ! g) \<or> not_yet_due cfg force (gs_due (fs_groups s ! g)) (fs_world s)")
  case True
  have "g < length (fs_groups s)" using inv g by (simp add: durable_def length_view_groups)
  then show ?thesis using call True inv gdirty_view [of g s img]
    by (auto simp: persist_group_slot_def Let_def settles_refl not_yet_due_def)
next
  case due: False
  let ?n = "group_payload_size cfg (members cfg g)"
  obtain r1 s1 where l1: "lock_gate cfg Write_Gate no_wait s = (r1, s1)" by fastforce
  note q1 = lock_quiet [OF l1]
  obtain r2 out s2 where enc: "encode_group_payload cfg g (replicate (px_max_group_record cfg) 0)
      (\<lambda>m s. cell_read cfg m False s) s1 = (r2, out, s2)" by (metis prod.collapse)
  have inv1: "durable cfg (view img s1)" using inv quiet_view [OF q1] by simp
  have valid: "\<forall>q \<in> set (members cfg g). valid_value cfg q (value_of s1 q)"
    using inv1 value_view [OF inv1] group_facts(4) [OF g] by (auto simp: durable_def)
  note e = encode_group_payload_spec [OF g provides_read valid enc]
  obtain r3 s3 where l3: "lock_gate cfg Persistence_Gate no_wait s2 = (r3, s3)" by fastforce
  have q3: "quiet img s1 s3" using e(1) lock_quiet [OF l3] by (rule quiet_trans)
  obtain persisted s4 where sv: "save_group_record cfg g (take ?n out) s3 = (persisted, s4)" by fastforce
  note spec = save_group_record_spec [OF g e(3,4) valid sv]
  show ?thesis
  proof (cases "isl r1 \<or> isl r3")
    case True
    then have "r = (if isl r1 then Inl (projl r1) else Inl (projl r3)) \<and> s' = (if isl r1 then s1 else s3)"
      using call due l1 enc e(2) l3 by (cases r1; cases r3) (auto simp: persist_group_slot_def Let_def)
    then show ?thesis
      using settles_refl [OF inv] quiet_view [OF q1] quiet_view [OF q3] by (auto split: if_splits)
  next
    case False
    have "fs_groups s4 = fs_groups s3 \<and> fs_slots s4 = fs_slots s3"
    proof (cases persisted)
      case (Inl e)
      with spec have "quiet img s3 s4" by simp
      from quiet_state(1,2) [OF this] show ?thesis by simp
    next
      case (Inr u)
      with spec obtain b where "stored img (gr_store (group cfg g)) (group_key cfg g) b s3 s4" by auto
      from stored_state(1,2) [OF this] show ?thesis by simp
    qed
    then have gs: "fs_groups s4 = fs_groups s" "fs_slots s4 = fs_slots s1" "fs_slots s1 = fs_slots s"
      using quiet_state(1,2) [OF q3] quiet_state(1,2) [OF q1] by simp_all
    define gs' where "gs' = snd (group_finish (gs_revision (fs_groups s ! g)) (\<not> isl persisted) (fs_groups s ! g))"
    define cleared where "cleared = fst (group_finish (gs_revision (fs_groups s ! g)) (\<not> isl persisted) (fs_groups s ! g))"
    let ?s5 = "upd_group g (\<lambda>_. gs') s4"
    let ?s6 = "fold (finish_member cfg persisted cleared) (members cfg g) ?s5"
    have result: "(case persisted of Inl e \<Rightarrow> (Inl e, ?s6) | Inr _ \<Rightarrow> (Inr True, ?s6)) = (r, s')"
      using call due l1 enc e(2) l3 sv False gs(1)
      by (cases r1; cases r3; cases persisted) (simp_all add: persist_group_slot_def Let_def gs'_def cleared_def split_beta)
    have len: "\<forall>p \<in> set (members cfg g). p < length (fs_slots ?s5)"
      using inv group_facts(4) [OF g] gs by (auto simp: upd_group_def durable_def length_view_slots)
    have glen: "g < length (vw_groups (view img s))" using inv g by (simp add: durable_def)
    have view5: "view img ?s5 = (view img s4)\<lparr>vw_groups := (vw_groups (view img s4))[g := gs_dirty gs']\<rparr>"
      by (simp add: view_upd_group)
    show ?thesis
    proof (cases persisted)
      case (Inl e)
      then have "view img s4 = view img s" "err_status e \<noteq> St_Ok"
        using spec quiet_view [OF q1] quiet_view [OF q3] by (auto simp: quiet_view)
      moreover have "gs_dirty gs' = gs_dirty (fs_groups s ! g)" using Inl by (simp add: gs'_def group_finish_def)
      ultimately have "view img ?s5 = view img s"
        using view5 gdirty_view [of g s img] glen by (simp add: length_view_groups list_update_same_conv)
      moreover have "view img ?s6 = view img ?s5"
        using finish_members_change [OF len, of persisted cleared] Inl \<open>err_status e \<noteq> St_Ok\<close> by simp
      ultimately show ?thesis using result Inl settles_refl [OF inv] by auto
    next
      case (Inr u)
      then obtain b where b: "stored img (gr_store (group cfg g)) (group_key cfg g) b s3 s4"
        "reload_group cfg g b = Some (map (value_of s1) (members cfg g))" using spec by auto
      have view4: "view img s4 = (view img s)\<lparr>vw_store := (vw_store (view img s))
          (gr_store (group cfg g) := (vw_store (view img s) (gr_store (group cfg g)))(group_key cfg g := b))\<rparr>"
        using stored_view [OF b(1)] quiet_view [OF q3] quiet_view [OF q1] by simp
      have "\<not> gs_dirty gs'" using Inr by (simp add: gs'_def group_finish_def)
      with view4 view5 have view5': "view img ?s5 = (view img s)\<lparr>vw_groups := (vw_groups (view img s))[g := False],
          vw_store := (vw_store (view img s))
            (gr_store (group cfg g) := (vw_store (view img s) (gr_store (group cfg g)))(group_key cfg g := b))\<rparr>"
        by (simp add: pview_order)
      have "member_change (members cfg g) (view img ?s5) (view img ?s6)"
        using finish_members_change [OF len, of persisted cleared] Inr by simp
      moreover have "map (value_of s1) (members cfg g) = map (val (view img s)) (members cfg g)"
        using group_facts(4) [OF g] value_view [OF inv] gs(3) by simp
      ultimately show ?thesis
        using settles_group [OF inv g, of b "view img ?s6"] b(2) view5' result Inr by auto
    qed
  qed
qed

section \<open>Writing back many\<close>

text \<open>The loops over the catalog: the contract of one step carries over, and when the loop ends without an
  error every step did its work. The state is the last part of the accumulator.\<close>

lemma fold_settles:
  assumes step: "\<And>x acc. x \<in> set xs \<Longrightarrow> durable cfg (view img (snd (snd acc))) \<Longrightarrow>
      settles cfg (view img (snd (snd acc))) (view img (snd (snd (f x acc)))) \<and>
      (ok (f x acc) \<longrightarrow> ok acc \<and> P x (view img (snd (snd (f x acc)))))"
    and mono: "\<And>x vw vw'. x \<in> set xs \<Longrightarrow> P x vw \<Longrightarrow> settles cfg vw vw' \<Longrightarrow> P x vw'"
    and inv: "durable cfg (view img (snd (snd acc)))"
  shows "settles cfg (view img (snd (snd acc))) (view img (snd (snd (fold f xs acc)))) \<and>
    (ok (fold f xs acc) \<longrightarrow> ok acc \<and> (\<forall>x \<in> set xs. P x (view img (snd (snd (fold f xs acc))))))"
  using assms
proof (induction xs arbitrary: acc)
  case Nil
  then show ?case by (simp add: settles_refl)
next
  case (Cons x xs)
  let ?acc = "f x acc"
  have 1: "settles cfg (view img (snd (snd acc))) (view img (snd (snd ?acc)))"
    "ok ?acc \<longrightarrow> ok acc \<and> P x (view img (snd (snd ?acc)))"
    using Cons.prems(1) [of x acc] Cons.prems(3) by auto
  have 2: "settles cfg (view img (snd (snd ?acc))) (view img (snd (snd (fold f xs ?acc)))) \<and>
      (ok (fold f xs ?acc) \<longrightarrow> ok ?acc \<and> (\<forall>y \<in> set xs. P y (view img (snd (snd (fold f xs ?acc))))))"
    by (rule Cons.IH) (use Cons.prems(1,2) settles_durable [OF 1(1)] in auto)
  then show ?case
    using 1 Cons.prems(2) [of x "view img (snd (snd ?acc))" "view img (snd (snd (fold f xs ?acc)))"]
    by (auto intro: settles_trans)
qed

lemma clean_param_mono:
  "settles cfg vw vw' \<Longrightarrow> p < n_params \<Longrightarrow> (want \<longrightarrow> \<not> dirty vw p) \<Longrightarrow> (want \<longrightarrow> \<not> dirty vw' p)"
  by (auto simp: settles_def)

lemma clean_group_mono:
  "settles cfg vw vw' \<Longrightarrow> g < n_groups \<Longrightarrow> (want \<longrightarrow> \<not> vw_groups vw ! g) \<Longrightarrow> (want \<longrightarrow> \<not> vw_groups vw' ! g)"
  by (auto simp: settles_def)

definition all_clean :: "(nat \<Rightarrow> bool) \<Rightarrow> (nat \<Rightarrow> bool) \<Rightarrow> 'v pview \<Rightarrow> bool" where
  "all_clean want_param want_group vw \<longleftrightarrow>
     (\<forall>p < n_params. want_param p \<longrightarrow> \<not> dirty vw p) \<and> (\<forall>g < n_groups. want_group g \<longrightarrow> \<not> vw_groups vw ! g)"

text \<open>Both loops, first over the parameters and then over the groups, for any bookkeeping in the
  accumulator that keeps the state of the step and records its errors.\<close>

lemma persist_loops:
  fixes ok :: "'a \<times> 'b \<times> ('v, 'w) params \<Rightarrow> bool"
  assumes params: "\<And>p acc r. snd (snd (fp p r acc)) = snd r \<and> (ok (fp p r acc) \<longrightarrow> ok acc \<and> \<not> isl (fst r))"
    and groups: "\<And>g acc r. snd (snd (fg g r acc)) = snd r \<and> (ok (fg g r acc) \<longrightarrow> ok acc \<and> \<not> isl (fst r))"
    and store: "\<And>p. wp p \<Longrightarrow> persistence_store (pm_persistence (param cfg p)) \<noteq> None"
    and inv: "durable cfg (view img s)"
    and acc: "acc = fold (\<lambda>g acc. if wg g then fg g (persist_group_slot cfg g force no_wait (snd (snd acc))) acc else acc)
      [0..<n_groups]
      (fold (\<lambda>p acc. if wp p then fp p (persist_parameter_slot cfg p force no_wait (snd (snd acc))) acc else acc)
        [0..<n_params] (a, b, s))"
  shows "settles cfg (view img s) (view img (snd (snd acc))) \<and>
    (ok acc \<and> force \<longrightarrow> all_clean wp wg (view img (snd (snd acc))))"
proof -
  let ?fp = "\<lambda>p acc. if wp p then fp p (persist_parameter_slot cfg p force no_wait (snd (snd acc))) acc else acc"
    and ?fg = "\<lambda>g acc. if wg g then fg g (persist_group_slot cfg g force no_wait (snd (snd acc))) acc else acc"
  define acc1 where "acc1 = fold ?fp [0..<n_params] (a, b, s)"
  have 1: "settles cfg (view img (snd (snd (a, b, s)))) (view img (snd (snd acc1))) \<and>
      (ok acc1 \<longrightarrow> ok (a, b, s) \<and> (\<forall>p \<in> set [0..<n_params]. wp p \<and> force \<longrightarrow> \<not> dirty (view img (snd (snd acc1))) p))"
    unfolding acc1_def
  proof (rule fold_settles)
    fix p and acc :: "'a \<times> 'b \<times> ('v, 'w) params"
    assume p: "p \<in> set [0..<n_params]" and d: "durable cfg (view img (snd (snd acc)))"
    obtain r s' where call: "persist_parameter_slot cfg p force no_wait (snd (snd acc)) = (r, s')" by fastforce
    have "p < n_params" using p by simp
    from persist_parameter_slot_spec [OF d this call] call params [of p "(r, s')" acc] store [of p] d
    show "settles cfg (view img (snd (snd acc))) (view img (snd (snd (?fp p acc)))) \<and>
        (ok (?fp p acc) \<longrightarrow> ok acc \<and> (wp p \<and> force \<longrightarrow> \<not> dirty (view img (snd (snd (?fp p acc)))) p))"
      by (auto simp: settles_refl)
  qed (use inv in \<open>auto dest: clean_param_mono\<close>)
  have 2: "settles cfg (view img (snd (snd acc1))) (view img (snd (snd acc))) \<and>
      (ok acc \<longrightarrow> ok acc1 \<and> (\<forall>g \<in> set [0..<n_groups]. wg g \<and> force \<longrightarrow> \<not> vw_groups (view img (snd (snd acc))) ! g))"
    unfolding acc acc1_def [symmetric]
  proof (rule fold_settles)
    fix g and acc :: "'a \<times> 'b \<times> ('v, 'w) params"
    assume g: "g \<in> set [0..<n_groups]" and d: "durable cfg (view img (snd (snd acc)))"
    obtain r s' where call: "persist_group_slot cfg g force no_wait (snd (snd acc)) = (r, s')" by fastforce
    have "g < n_groups" using g by simp
    from persist_group_slot_spec [OF d this call] call groups [of g "(r, s')" acc] d
    show "settles cfg (view img (snd (snd acc))) (view img (snd (snd (?fg g acc)))) \<and>
        (ok (?fg g acc) \<longrightarrow> ok acc \<and> (wg g \<and> force \<longrightarrow> \<not> vw_groups (view img (snd (snd (?fg g acc)))) ! g))"
      by (auto simp: settles_refl)
  qed (use 1 in \<open>auto dest: clean_group_mono settles_durable\<close>)
  show ?thesis
    using 1 2 clean_param_mono [OF conjunct1 [OF 2]] by (auto simp: all_clean_def intro: settles_trans)
qed

lemma persist_deferred_spec:
  assumes inv: "durable cfg (view img s)" and call: "persist_deferred_parameters cfg force no_wait s = (r, s')"
  shows "settles cfg (view img s) (view img s') \<and>
    (force \<and> \<not> isl r \<longrightarrow> all_clean (\<lambda>p. is_deferred (pm_persistence (param cfg p)))
       (\<lambda>g. is_deferred (gr_commit (group cfg g))) (view img s'))"
proof -
  let ?k = "\<lambda>x r acc. count_persisted r (fst acc) (fst (snd acc)) :: ('v, 'w) persist_acc"
  let ?wp = "\<lambda>p. is_deferred (pm_persistence (param cfg p))" and ?wg = "\<lambda>g. is_deferred (gr_commit (group cfg g))"
  define acc where "acc = fold (\<lambda>g acc. if ?wg g then ?k g (persist_group_slot cfg g force no_wait (snd (snd acc))) acc else acc)
      [0..<n_groups]
      (fold (\<lambda>p acc. if ?wp p then ?k p (persist_parameter_slot cfg p force no_wait (snd (snd acc))) acc else acc)
        [0..<n_params] (None, 0, s))"
  have k: "snd (snd (?k x r a)) = snd r \<and> (fst (?k x r a) = None \<longrightarrow> fst a = None \<and> \<not> isl (fst r))" for x r a
    by (auto simp: count_persisted_def split: prod.splits sum.splits option.splits)
  have "?wp p \<Longrightarrow> persistence_store (pm_persistence (param cfg p)) \<noteq> None" for p
    by (cases "pm_persistence (param cfg p)") auto
  from persist_loops [where ok = "\<lambda>a. fst a = None", OF k k this inv acc_def]
  have spec: "settles cfg (view img s) (view img (snd (snd acc))) \<and>
      (fst acc = None \<and> force \<longrightarrow> all_clean ?wp ?wg (view img (snd (snd acc))))" .
  have "(case acc of (Some st, _, s) \<Rightarrow> (Inl (fail_status st), s) | (None, saved, s) \<Rightarrow> (Inr saved, s)) = (r, s')"
    using call by (simp add: persist_deferred_parameters_def acc_def Let_def case_prod_unfold cong: if_cong)
  then have "s' = snd (snd acc) \<and> (\<not> isl r \<longrightarrow> fst acc = None)"
    by (auto split: prod.splits option.splits)
  with spec show ?thesis by auto
qed

lemma persist_matching_spec:
  assumes inv: "durable cfg (view img s)" and call: "persist_matching cfg oper wp wg no_wait s = (r, s')"
    and store: "\<And>p. wp p \<Longrightarrow> persistence_store (pm_persistence (param cfg p)) \<noteq> None"
  shows "settles cfg (view img s) (view img s') \<and> (\<not> isl r \<longrightarrow> all_clean wp wg (view img s'))"
proof -
  let ?k = "\<lambda>mk r acc. report_persisted mk r (fst acc) (fst (snd acc)) :: ('v, 'w) report_acc"
  define acc where "acc = fold (\<lambda>g acc. if wg g
      then ?k (group_error cfg g oper) (persist_group_slot cfg g True no_wait (snd (snd acc))) acc else acc) [0..<n_groups]
      (fold (\<lambda>p acc. if wp p
        then ?k (make_param_error cfg p oper) (persist_parameter_slot cfg p True no_wait (snd (snd acc))) acc else acc)
        [0..<n_params] (\<lparr>rp_visited = 0, rp_saved = 0, rp_clean = 0, rp_failed = 0\<rparr>, None, s))"
  have k: "snd (snd (?k mk r a)) = snd r \<and> (fst (snd (?k mk r a)) = None \<longrightarrow> fst (snd a) = None \<and> \<not> isl (fst r))" for mk r a
    by (auto simp: report_persisted_def Let_def split: prod.splits sum.splits option.splits bool.splits)
  from persist_loops [where ok = "\<lambda>a. fst (snd a) = None", OF k k store inv acc_def]
  have spec: "settles cfg (view img s) (view img (snd (snd acc))) \<and>
      (fst (snd acc) = None \<longrightarrow> all_clean wp wg (view img (snd (snd acc))))" by simp
  have "(case acc of (rep, first_error, s) \<Rightarrow> (case first_error of Some e \<Rightarrow> (Inl e, s) | None \<Rightarrow> (Inr rep, s))) = (r, s')"
    using call by (simp add: persist_matching_def acc_def Let_def case_prod_unfold cong: if_cong)
  then have "s' = snd (snd acc) \<and> (\<not> isl r \<longrightarrow> fst (snd acc) = None)"
    by (auto split: prod.splits option.splits)
  with spec show ?thesis by auto
qed

section \<open>The entry points\<close>

lemma save_all_spec:
  assumes inv: "durable cfg (view img s)" and call: "save_all_parameters cfg no_wait s = (r, s')"
  shows "settles cfg (view img s) (view img s') \<and>
    (\<not> isl r \<longrightarrow> all_clean (\<lambda>p. persistence_store (pm_persistence (param cfg p)) \<noteq> None) (\<lambda>_. True) (view img s'))"
proof (cases "px_in_isr cfg (fs_world s) \<or> \<not> fs_ready s")
  case True
  then show ?thesis using call settles_refl [OF inv] by (auto simp: save_all_parameters_def split: if_splits)
next
  case False
  then have "persist_matching cfg Po_SaveAll (\<lambda>p. persistence_store (pm_persistence (param cfg p)) \<noteq> None) (\<lambda>_. True)
      no_wait s = (r, s')" using call by (simp add: save_all_parameters_def)
  from persist_matching_spec [OF inv this] show ?thesis by simp
qed

lemma save_spec:
  assumes inv: "durable cfg (view img s)" and p: "p < n_params" and call: "save_parameter cfg p no_wait s = (r, s')"
  shows "settles cfg (view img s) (view img s')"
proof (cases "\<not> persistent (pm_persistence (param cfg p)) \<or> px_in_isr cfg (fs_world s) \<or> \<not> fs_ready s")
  case True
  then show ?thesis using call settles_refl [OF inv] by (auto simp: save_parameter_def split: if_splits)
next
  case False
  define q where "q = (case pm_persistence (param cfg p) of
      Transactional g \<Rightarrow> persist_group_slot cfg g True no_wait s | _ \<Rightarrow> persist_parameter_slot cfg p True no_wait s)"
  have "settles cfg (view img s) (view img (snd q))"
    using persist_parameter_slot_spec [OF inv p, of True no_wait "fst q" "snd q"]
      persist_group_slot_spec [OF inv transactional_member(1) [OF p], of _ True no_wait "fst q" "snd q"]
    by (cases "pm_persistence (param cfg p)") (auto simp: q_def)
  moreover have "s' = snd q"
    using call False by (auto simp: save_parameter_def q_def [symmetric] split: prod.splits sum.splits)
  ultimately show ?thesis by simp
qed

lemma flush_spec:
  assumes inv: "durable cfg (view img s)" and call: "flush_parameters cfg no_wait s = (r, s')"
  shows "settles cfg (view img s) (view img s') \<and>
    (\<not> isl r \<longrightarrow> all_clean (\<lambda>p. is_deferred (pm_persistence (param cfg p))) (\<lambda>g. is_deferred (gr_commit (group cfg g))) (view img s'))"
proof (cases "\<not> has_deferred cfg \<or> px_in_isr cfg (fs_world s) \<or> \<not> fs_ready s")
  case True
  have "\<not> has_deferred cfg \<Longrightarrow> all_clean (\<lambda>p. is_deferred (pm_persistence (param cfg p)))
      (\<lambda>g. is_deferred (gr_commit (group cfg g))) (view img s)"
    by (auto simp: has_deferred_def all_clean_def list_ex_iff)
  with True show ?thesis using call settles_refl [OF inv]
    by (auto simp: flush_parameters_def split: if_splits)
next
  case False
  obtain cancelled s1 where c: "param_call (px_cancel cfg) s = (cancelled, s1)" by fastforce
  obtain quiescent s2 where w: "(if no_wait then (px_quiescent cfg (fs_world s1), s1) else param_call (px_wait_quiescent cfg) s1)
      = (quiescent, s2)" by fastforce
  have q1: "quiet img s s1" using c by (rule param_call_quiet) (rule cancel_frame)
  have "quiet img s1 s2" using w by (auto split: if_splits intro: param_call_quiet wait_frame)
  with q1 have q2: "quiet img s s2" by (rule quiet_trans)
  have inv2: "durable cfg (view img s2)" using inv quiet_view [OF q2] by simp
  have store: "is_deferred pol \<Longrightarrow> persistence_store pol \<noteq> None" for pol by (cases pol) auto
  show ?thesis
  proof (cases "(case cancelled of Inl st \<Rightarrow> st \<noteq> St_NotReady | Inr _ \<Rightarrow> False) \<or> \<not> quiescent")
    case True
    then have "isl r \<and> s' \<in> {s1, s2}"
      using call False c w by (auto simp: flush_parameters_def split: if_splits sum.splits)
    then show ?thesis using settles_refl [OF inv] quiet_view [OF q1] quiet_view [OF q2] by auto
  next
    case run: False
    have "persist_matching cfg Po_Flush (\<lambda>p. is_deferred (pm_persistence (param cfg p)))
        (\<lambda>g. is_deferred (gr_commit (group cfg g))) no_wait s2 = (r, s')"
      using call False c w run by (simp add: flush_parameters_def)
    from persist_matching_spec [OF inv2 this store] quiet_view [OF q2] show ?thesis by simp
  qed
qed

lemma stop_spec:
  assumes inv: "durable cfg (view img s)" and call: "params_stop cfg s = (r, s')"
  shows "settles cfg (view img s) (view img s') \<and>
    (\<not> isl r \<and> px_stop_flush cfg \<longrightarrow>
       all_clean (\<lambda>p. is_deferred (pm_persistence (param cfg p))) (\<lambda>g. is_deferred (gr_commit (group cfg g))) (view img s'))"
proof -
  let ?s = "s\<lparr>fs_mutation_open := False, fs_persistence_active := False\<rparr>"
  have view: "view img ?s = view img s" by (simp add: view_simps)
  show ?thesis
  proof (cases "has_deferred cfg \<and> px_stop_flush cfg")
    case True
    obtain r1 s1 where d: "persist_deferred_parameters cfg True False ?s = (r1, s1)" by fastforce
    have "durable cfg (view img ?s)" using inv view by simp
    from persist_deferred_spec [OF this d] call d True view show ?thesis
      by (cases r1) (auto simp: params_stop_def)
  next
    case False
    moreover have "\<not> has_deferred cfg \<Longrightarrow> all_clean (\<lambda>p. is_deferred (pm_persistence (param cfg p)))
        (\<lambda>g. is_deferred (gr_commit (group cfg g))) (view img s)"
      by (auto simp: has_deferred_def all_clean_def list_ex_iff)
    ultimately show ?thesis using call view settles_refl [OF inv] by (auto simp: params_stop_def)
  qed
qed

lemma run_deferred_spec:
  assumes inv: "durable cfg (view img s)" and call: "run_deferred cfg s = (r, s')"
  shows "settles cfg (view img s) (view img s')"
proof -
  obtain r1 s1 where d: "persist_deferred_parameters cfg False False s = (r1, s1)" by fastforce
  obtain r2 s2 where n: "schedule_next_deferred cfg s1 = (r2, s2)" by fastforce
  have "s' = s1 \<or> s' = s2" using call d n by (cases r1; cases r2) (auto simp: run_deferred_def)
  with persist_deferred_spec [OF inv d] quiet_view [OF schedule_next_quiet [OF n]] show ?thesis by auto
qed

section \<open>Reads and activation\<close>

lemma read_spec:
  assumes "read_parameter cfg p no_wait s = (r, s')"
  shows "view img s' = view img s" and "r = Inr v \<Longrightarrow> v = value_of s p"
proof -
  obtain r1 s1 where c: "cell_read cfg p no_wait s = (r1, s1)" by fastforce
  note q = quiet_view [OF cell_read_quiet(1) [OF c]] cell_read_quiet(2) [OF c]
  show "view img s' = view img s" and "r = Inr v \<Longrightarrow> v = value_of s p"
    using assms c q by (auto simp: read_parameter_def slot_read_def Let_def view_simps split: if_splits sum.splits)
qed

lemma read_snapshot_spec:
  assumes "read_snapshot_values cfg no_wait ps s = (r, s')"
  shows "quiet img s s' \<and> (\<forall>vs. r = Inr vs \<longrightarrow> vs = map (value_of s) ps)"
  using assms
proof (induction ps arbitrary: s r)
  case (Cons p ps)
  obtain r1 s1 where c: "cell_read cfg p no_wait s = (r1, s1)" by fastforce
  obtain r2 s2 where t: "read_snapshot_values cfg no_wait ps s1 = (r2, s2)" by fastforce
  note q = cell_read_quiet [OF c]
  show ?case
    using Cons.prems c t Cons.IH [of s1] q(1) q(2) quiet_state(1) [OF q(1)] quiet_trans [OF q(1)]
    by (cases r1; cases r2) auto
qed auto

lemma snapshot_spec:
  assumes "snapshot_parameters cfg ps no_wait s = (r, s')"
  shows "quiet img s s' \<and> (\<forall>vs. r = Inr vs \<longrightarrow> vs = map (value_of s) ps)"
proof -
  obtain r1 s1 where l: "lock_gate cfg Write_Gate no_wait s = (r1, s1)" by fastforce
  obtain r2 s2 where t: "read_snapshot_values cfg no_wait ps s1 = (r2, s2)" by fastforce
  note q = lock_quiet [OF l]
  show ?thesis
    using assms l t read_snapshot_spec [OF t] q quiet_state(1) [OF q] quiet_trans [OF q]
    by (auto simp: snapshot_parameters_def split: if_splits sum.splits)
qed

lemma query_quiet: "parameter_record_of cfg p s = (r, s') \<Longrightarrow> quiet img s s'"
  using quiet_trans [OF lock_quiet cell_read_quiet(1)]
  by (auto simp: parameter_record_of_def split: if_splits prod.splits sum.splits intro: lock_quiet cell_read_quiet)

lemma activate_change_view:
  assumes "c < length (px_changes cfg)"
  shows "view img (snd (activate_change cfg c acc)) = view img (snd acc)"
  by (auto simp: activate_change_def change_take_pending_def Let_def case_prod_unfold view_simps
      invoke_change_view [OF assms surjective_pairing] split: option.splits)

lemma activate_changes_view: "activate_changes cfg s = (r, s') \<Longrightarrow> view img s' = view img s"
proof -
  assume call: "activate_changes cfg s = (r, s')"
  have "view img (snd (fold (activate_change cfg) [0..<length (px_changes cfg)] (Inr (), s\<lparr>fs_activating_changes := True\<rparr>)))
      = view img (snd (Inr () :: solar_error + unit, s\<lparr>fs_activating_changes := True\<rparr>))"
    by (rule fold_view) (simp add: activate_change_view)
  with call show ?thesis by (auto simp: activate_changes_def case_prod_unfold view_simps)
qed

lemma activate_runtime_view: "view img (activate_runtime cfg s) = view img s"
  using quiet_view [OF schedule_quiet [OF surjective_pairing]]
  by (simp add: activate_runtime_def view_simps)

end

end
