(* ===== verification/Parameter_Transaction.thy ===== *)
theory Parameter_Transaction
  imports Parameter_Persist
begin

text \<open>
  Transactions over several parameters (\<^verbatim>\<open>set_all_parameters\<close>). A transaction that returns an error has
  changed no value; one that succeeds has installed every assignment, normalized, and nothing else, and
  what it reports as clean is stored. A failing transaction leaves the stores as they were when at most
  one group with immediate commit is involved.
\<close>

section \<open>The static assertions of a transaction\<close>

definition transaction_ok :: "('v, 'w) param_config \<Rightarrow> nat list \<Rightarrow> bool" where
  "transaction_ok cfg ps =
     (list_all (\<lambda>p. p < length (px_parameters cfg)) ps \<and> distinct ps \<and>
      list_all (\<lambda>p. writable (pm_access (param cfg p))) ps \<and>
      list_all (\<lambda>p. \<not> privileged (pm_access (param cfg p))) ps \<and>
      (length ps = 1 \<or>
       list_all (\<lambda>p. persistence_kind_of (pm_persistence (param cfg p)) \<noteq> Pk_Immediate) ps))"

definition commits :: "('v, 'w) param_config \<Rightarrow> nat list \<Rightarrow> nat \<Rightarrow> bool" where
  "commits cfg ps g =
     (persistence_kind_of (gr_commit (group cfg g)) = Pk_Immediate \<and> list_ex (\<lambda>p. p \<in> set (gr_members (group cfg g))) ps)"

definition one_record :: "('v, 'w) param_config \<Rightarrow> nat list \<Rightarrow> bool" where
  "one_record cfg ps = (length (filter (commits cfg ps) [0..<length (px_groups cfg)]) \<le> 1)"

definition assigned :: "(nat \<times> 'v normalized) list \<Rightarrow> (nat \<Rightarrow> 'v) \<Rightarrow> nat \<Rightarrow> 'v" where
  "assigned ns f q = (case map_of ns q of Some n \<Rightarrow> nm_value n | None \<Rightarrow> f q)"

definition captured :: "('v, 'w) params \<Rightarrow> nat \<times> 'v normalized \<Rightarrow> 'v transaction_state" where
  "captured s pn =
     \<lparr>tx_parameter = fst pn, tx_normalized = snd pn, tx_old_value = value_of s (fst pn),
      tx_before = copy_record (value_of s (fst pn)) (slot s (fst pn)),
      tx_changed = (value_of s (fst pn) \<noteq> nm_value (snd pn))\<rparr>"

lemma captured_simps [simp]:
  "tx_parameter (captured s pn) = fst pn" "tx_normalized (captured s pn) = snd pn"
  "tx_changed (captured s pn) = (value_of s (fst pn) \<noteq> nm_value (snd pn))"
  by (simp_all add: captured_def)

lemma normalize_transaction_spec:
  assumes "normalize_transaction cfg as = Inr ns"
  shows "map fst ns = map fst as" and "(p, n) \<in> set ns \<Longrightarrow> \<exists>v. (p, v) \<in> set as \<and> normalize_param cfg p v = Inr n"
  using assms
  by (induction as arbitrary: ns rule: normalize_transaction.induct) (auto split: sum.splits, blast+)

lemma find_captured:
  "List.find (\<lambda>t. tx_parameter t = q) (map (captured s) ns) = map_option (\<lambda>n. captured s (q, n)) (map_of ns q)"
  by (induction ns) (auto simp: captured_def)

lemma touches_captured: "touches cfg (map (captured s) ns) g = list_ex (\<lambda>p. p \<in> set (gr_members (group cfg g))) (map fst ns)"
  by (simp add: touches_def list.pred_map list_ex_iff captured_def)

context parameter_world
begin

lemma captured_quiet: "quiet img s s' \<Longrightarrow> captured s' = captured s"
  using quiet_state(1) [of img s s'] by (simp add: captured_def fun_eq_iff)

lemma capture_spec:
  assumes "capture_transaction cfg no_wait ns s = (r, s')"
  shows "quiet img s s' \<and> (\<forall>ts. r = Inr ts \<longrightarrow> ts = map (captured s) ns)"
  using assms
proof (induction ns arbitrary: s r s')
  case (Cons pn ns)
  obtain p n where pn: "pn = (p, n)" by fastforce
  obtain r1 s1 where c: "cell_read cfg p no_wait s = (r1, s1)" by fastforce
  obtain r2 s2 where t: "capture_transaction cfg no_wait ns s1 = (r2, s2)" by fastforce
  note q = cell_read_quiet [OF c]
  show ?case
    using Cons.prems c t Cons.IH [OF t] q(1) q(2) captured_quiet [OF q(1)] quiet_state(1) [OF q(1)] quiet_trans [OF q(1)]
    by (cases r1; cases r2) (auto simp: pn captured_def)
qed auto

section \<open>Preparing the stores\<close>

lemma provides_transaction:
  "provides (transaction_provider cfg (map (captured s0) ns)) (assigned ns (value_of s)) s"
  using provides_read [of s]
  by (auto simp: provides_def transaction_provider_def find_captured assigned_def captured_def split: option.splits)

lemma prepare_group_spec:
  assumes g: "g < n_groups" and valid: "\<forall>q \<in> set (members cfg g). valid_value cfg q (assigned ns (value_of s) q)"
    and call: "prepare_group cfg (map (captured s0) ns) g s = (r, s')"
  shows "if commits cfg (map fst ns) g
    then (case r of Inl _ \<Rightarrow> quiet img s s'
      | Inr _ \<Rightarrow> \<exists>b. stored img (gr_store (group cfg g)) (group_key cfg g) b s s' \<and>
          reload_group cfg g b = Some (map (assigned ns (value_of s)) (members cfg g)))
    else r = Inr () \<and> s' = s"
proof (cases "commits cfg (map fst ns) g")
  case True
  obtain r1 s1 where l: "lock_gate cfg Persistence_Gate False s = (r1, s1)" by fastforce
  note q = lock_quiet [OF l]
  obtain r2 s2 where pg: "persist_group_image cfg g (transaction_provider cfg (map (captured s0) ns)) s1 = (r2, s2)"
    by fastforce
  have same: "value_of s1 = value_of s" using quiet_state(1) [OF q] by (simp add: fun_eq_iff)
  note spec = persist_group_image_spec [OF g provides_transaction [of s0 ns s1, unfolded same] valid pg]
  show ?thesis
    using True call l pg lock_forever [OF l] spec q
    by (auto simp: prepare_group_def commits_def touches_captured split: sum.splits intro: quiet_trans quiet_stored)
next
  case False
  then show ?thesis using call by (auto simp: prepare_group_def commits_def touches_captured)
qed

text \<open>The stores after the group images of \<open>gs\<close> have been written.\<close>

definition groups_written :: "nat list \<Rightarrow> (nat \<times> 'v normalized) list \<Rightarrow> ('v, 'w) params \<Rightarrow> ('v, 'w) params \<Rightarrow> bool" where
  "groups_written gs ns s s' \<longleftrightarrow>
     (\<exists>w. s' = s\<lparr>fs_world := w\<rparr>) \<and>
     (\<forall>i k. (\<forall>g \<in> set gs. commits cfg (map fst ns) g \<longrightarrow> (i, k) \<noteq> (gr_store (group cfg g), group_key cfg g)) \<longrightarrow>
        img i (fs_world s') k = img i (fs_world s) k) \<and>
     (\<forall>g \<in> set gs. commits cfg (map fst ns) g \<longrightarrow>
        reload_group cfg g (img (gr_store (group cfg g)) (fs_world s') (group_key cfg g)) =
          Some (map (assigned ns (value_of s)) (members cfg g)))"

lemma same_world: "\<exists>w. s = s\<lparr>fs_world := w\<rparr>"
  by (rule exI [of _ "fs_world s"]) simp

lemma groups_written_step:
  assumes "stored img (gr_store (group cfg g)) (group_key cfg g) b s s1"
    and "reload_group cfg g b = Some (map (assigned ns (value_of s)) (members cfg g))"
    and "groups_written gs ns s1 s2" and "g \<notin> set gs" and "set (g # gs) \<subseteq> {..<n_groups}"
    and "commits cfg (map fst ns) g"
  shows "groups_written (g # gs) ns s s2"
proof -
  obtain w where s1: "s1 = s\<lparr>fs_world := w\<rparr>"
    "\<And>i k. img i w k = (if i = gr_store (group cfg g) \<and> k = group_key cfg g then b else img i (fs_world s) k)"
    using assms(1) by (auto simp: stored_def)
  have apart: "h \<in> set gs \<Longrightarrow> (gr_store (group cfg g), group_key cfg g) \<noteq> (gr_store (group cfg h), group_key cfg h)" for h
    using group_key_inj [of g h] assms(4,5) by auto
  then have "img (gr_store (group cfg g)) (fs_world s2) (group_key cfg g) = b"
    using assms(3) s1 by (simp add: groups_written_def)
  moreover have "value_of s1 = value_of s" using s1(1) by (simp add: fun_eq_iff)
  moreover obtain w' where "s2 = s1\<lparr>fs_world := w'\<rparr>" using assms(3) by (auto simp: groups_written_def)
  then have "s2 = s\<lparr>fs_world := w'\<rparr>" using s1(1) by simp
  moreover have "img i (fs_world s2) k = img i (fs_world s) k"
    if "\<forall>h \<in> set (g # gs). commits cfg (map fst ns) h \<longrightarrow> (i, k) \<noteq> (gr_store (group cfg h), group_key cfg h)"
      and "commits cfg (map fst ns) g" for i k
    using that assms(3) s1 by (auto simp: groups_written_def)
  ultimately show ?thesis using assms(2,3,6) unfolding groups_written_def by auto
qed

lemma prepare_groups_spec:
  assumes "distinct gs" and "set gs \<subseteq> {..<n_groups}"
    and "\<And>q. q < n_params \<Longrightarrow> valid_value cfg q (assigned ns (value_of s) q)"
    and "run_ok (prepare_group cfg (map (captured s0) ns)) gs s = (r, s')"
  shows "case r of
      Inl _ \<Rightarrow> fs_slots s' = fs_slots s \<and> fs_groups s' = fs_groups s \<and> filter (commits cfg (map fst ns)) gs \<noteq> [] \<and>
        (length (filter (commits cfg (map fst ns)) gs) \<le> 1 \<longrightarrow> quiet img s s')
    | Inr _ \<Rightarrow> groups_written gs ns s s'"
  using assms
proof (induction gs arbitrary: s)
  case Nil
  then show ?case by (auto simp: groups_written_def same_world)
next
  case (Cons g gs)
  have g: "g < n_groups" and valid: "\<forall>q \<in> set (members cfg g). valid_value cfg q (assigned ns (value_of s) q)"
    using Cons.prems(2,3) group_facts(4) [of g] by auto
  obtain r1 s1 where p: "prepare_group cfg (map (captured s0) ns) g s = (r1, s1)" by fastforce
  note spec = prepare_group_spec [OF g valid p]
  show ?case
  proof (cases "commits cfg (map fst ns) g")
    case False
    then have "r1 = Inr () \<and> s1 = s" using spec by simp
    moreover from this have "run_ok (prepare_group cfg (map (captured s0) ns)) gs s = (r, s')"
      using Cons.prems(4) p by simp
    from Cons.IH [OF _ _ Cons.prems(3) this] Cons.prems(1,2)
    have "case r of Inl _ \<Rightarrow> fs_slots s' = fs_slots s \<and> fs_groups s' = fs_groups s \<and>
          filter (commits cfg (map fst ns)) gs \<noteq> [] \<and>
          (length (filter (commits cfg (map fst ns)) gs) \<le> 1 \<longrightarrow> quiet img s s')
        | Inr _ \<Rightarrow> groups_written gs ns s s'" by simp
    ultimately show ?thesis using False by (auto simp: groups_written_def split: sum.splits)
  next
    case commit: True
    show ?thesis
    proof (cases r1)
      case (Inl e)
      then have "quiet img s s'" "r = Inl e" using spec commit Cons.prems(4) p by auto
      then show ?thesis using quiet_state(1,2) [of img s s'] commit by simp
    next
      case (Inr u)
      then obtain b where b: "stored img (gr_store (group cfg g)) (group_key cfg g) b s s1"
        "reload_group cfg g b = Some (map (assigned ns (value_of s)) (members cfg g))" using spec commit by auto
      note same = stored_state(1,2) [OF b(1)]
      have run: "run_ok (prepare_group cfg (map (captured s0) ns)) gs s1 = (r, s')" using Cons.prems(4) p Inr by simp
      have ih: "case r of Inl _ \<Rightarrow> fs_slots s' = fs_slots s1 \<and> fs_groups s' = fs_groups s1 \<and>
            filter (commits cfg (map fst ns)) gs \<noteq> [] \<and>
            (length (filter (commits cfg (map fst ns)) gs) \<le> 1 \<longrightarrow> quiet img s1 s')
          | Inr _ \<Rightarrow> groups_written gs ns s1 s'"
        by (rule Cons.IH [OF _ _ _ run]) (use Cons.prems same in auto)
      show ?thesis
      proof (cases r)
        case (Inl e)
        have "\<not> length (filter (commits cfg (map fst ns)) (g # gs)) \<le> 1" using ih Inl commit by simp
        with ih Inl same commit show ?thesis by simp
      next
        case (Inr u)
        then show ?thesis using ih groups_written_step [OF b _ _ _ commit] Cons.prems by auto
      qed
    qed
  qed
qed

text \<open>The stores after a transaction has been prepared, one record at a time.\<close>

definition changed :: "(nat \<times> 'v normalized) list \<Rightarrow> 'v pview \<Rightarrow> nat \<Rightarrow> bool" where
  "changed ns vw q \<longleftrightarrow> (\<exists>n. (q, n) \<in> set ns \<and> val vw q \<noteq> nm_value n)"

definition tx_prepared :: "(nat \<times> 'v normalized) list \<Rightarrow> 'v pview \<Rightarrow> 'v pview \<Rightarrow> bool" where
  "tx_prepared ns vw vw' \<longleftrightarrow>
     vw_slots vw' = vw_slots vw \<and> vw_groups vw' = vw_groups vw \<and>
     (\<forall>p < n_params. \<forall>st. persistence_store (pm_persistence (param cfg p)) = Some st \<longrightarrow>
        (if persistence_kind_of (pm_persistence (param cfg p)) = Pk_Immediate \<and> changed ns vw p
         then reload cfg p (vw_store vw' st (param_key cfg p)) = Some (assigned ns (val vw) p)
         else vw_store vw' st (param_key cfg p) = vw_store vw st (param_key cfg p))) \<and>
     (\<forall>g < n_groups.
        if commits cfg (map fst ns) g
        then reload_group cfg g (vw_store vw' (gr_store (group cfg g)) (group_key cfg g)) =
          Some (map (assigned ns (val vw)) (members cfg g))
        else vw_store vw' (gr_store (group cfg g)) (group_key cfg g) = vw_store vw (gr_store (group cfg g)) (group_key cfg g))"

lemma no_group_commits:
  assumes "p < n_params" and "persistence_kind_of (pm_persistence (param cfg p)) = Pk_Immediate" and "g < n_groups"
  shows "\<not> commits cfg [p] g"
  using assms group_facts(5) [of g p] by (auto simp: commits_def)

lemma prepare_members_none:
  assumes "\<forall>p \<in> set (map fst ns). persistence_kind_of (pm_persistence (param cfg p)) \<noteq> Pk_Immediate"
  shows "run_ok (prepare_member cfg) (map (captured s0) ns) s = (Inr (), s)"
  using assms by (induction ns) (auto simp: prepare_member_def captured_def)

lemma run_ok_inactive:
  assumes "\<And>x. x \<in> set xs \<Longrightarrow> f x s = (Inr (), s)"
  shows "run_ok f xs s = (Inr (), s)"
  using assms by (induction xs) auto

lemma view_slots_eq: "fs_slots s' = fs_slots s \<Longrightarrow> vw_slots (view img s') = vw_slots (view img s)"
  by (simp add: view_def)

lemma view_groups_eq: "fs_groups s' = fs_groups s \<Longrightarrow> vw_groups (view img s') = vw_groups (view img s)"
  by (simp add: view_def)

lemma tx_prepared_groups:
  assumes inv: "durable cfg (view img s)" and w: "groups_written [0..<n_groups] ns s s'"
    and none: "\<forall>p \<in> set (map fst ns). persistence_kind_of (pm_persistence (param cfg p)) \<noteq> Pk_Immediate"
  shows "tx_prepared ns (view img s) (view img s')"
proof -
  have slots: "fs_slots s' = fs_slots s" "fs_groups s' = fs_groups s" using w by (auto simp: groups_written_def)
  have vals: "map (assigned ns (value_of s)) (members cfg g) = map (assigned ns (val (view img s))) (members cfg g)"
    if "g < n_groups" for g
    using that group_facts(4) value_view [OF inv] by (simp add: assigned_def split: option.splits)
  have params: "\<not> (persistence_kind_of (pm_persistence (param cfg p)) = Pk_Immediate \<and> changed ns (view img s) p)" for p
    using none by (force simp: changed_def)
  have records: "vw_store (view img s') st (param_key cfg p) = vw_store (view img s) st (param_key cfg p)" for st p
    using w by (simp add: groups_written_def view_def)
  have kept: "vw_store (view img s') (gr_store (group cfg g)) (group_key cfg g) =
      vw_store (view img s) (gr_store (group cfg g)) (group_key cfg g)"
    if "g < n_groups" and "\<not> commits cfg (map fst ns) g" for g
  proof -
    have "(gr_store (group cfg g), group_key cfg g) \<noteq> (gr_store (group cfg h), group_key cfg h)"
      if "h \<in> set [0..<n_groups]" "commits cfg (map fst ns) h" for h
      using group_key_inj [OF \<open>g < n_groups\<close>, of h] that \<open>\<not> commits cfg (map fst ns) g\<close> by force
    then have "\<forall>h \<in> set [0..<n_groups]. commits cfg (map fst ns) h \<longrightarrow>
        (gr_store (group cfg g), group_key cfg g) \<noteq> (gr_store (group cfg h), group_key cfg h)" by blast
    then show ?thesis using w unfolding groups_written_def view_def by simp
  qed
  have new: "reload_group cfg g (vw_store (view img s') (gr_store (group cfg g)) (group_key cfg g)) =
      Some (map (assigned ns (val (view img s))) (members cfg g))"
    if "g < n_groups" and "commits cfg (map fst ns) g" for g
    using w that unfolding groups_written_def vals [OF that(1), symmetric] by (simp add: view_def)
  show ?thesis
    unfolding tx_prepared_def
    by (simp add: view_slots_eq [OF slots(1)] view_groups_eq [OF slots(2)] params records kept new)
qed

lemma tx_prepared_single:
  assumes inv: "durable cfg (view img s)" and p: "p < n_params" "pm_persistence (param cfg p) = Immediate st"
    and new: "nm_value n \<noteq> val (view img s) p" and prep: "prepared p (nm_value n) False s s'"
  shows "tx_prepared [(p, n)] (view img s) (view img s')"
proof -
  obtain b where b: "stored img st (param_key cfg p) b s s'" "reload cfg p b = Some (nm_value n)"
    using prep p(2) by (auto simp: prepared_def keeps_def)
  have other: "q = p"
    if "param_key cfg q = param_key cfg p" "q < n_params" "persistence_store (pm_persistence (param cfg q)) = Some i" for q i
    using that param_key_inj [of q p] p store_persistent by auto
  have "\<not> commits cfg [p] g" if "g < n_groups" for g using no_group_commits that p by simp
  with other show ?thesis
    using stored_view [OF b(1)] b(2) new p
    by (auto simp: tx_prepared_def changed_def assigned_def dest: other)
qed

lemma prepare_transaction_spec:
  assumes inv: "durable cfg (view img s)" and ok: "transaction_ok cfg (map fst ns)"
    and valid: "\<And>p n. (p, n) \<in> set ns \<Longrightarrow> valid_value cfg p (nm_value n)"
    and call: "prepare_transaction_persistence cfg (map (captured s) ns) s = (r, s')"
  shows "case r of
      Inl _ \<Rightarrow> vw_slots (view img s') = vw_slots (view img s) \<and> (one_record cfg (map fst ns) \<longrightarrow> view img s' = view img s)
    | Inr _ \<Rightarrow> tx_prepared ns (view img s) (view img s')"
proof (cases "\<forall>p \<in> set (map fst ns). persistence_kind_of (pm_persistence (param cfg p)) \<noteq> Pk_Immediate")
  case True
  have "run_ok (prepare_group cfg (map (captured s) ns)) [0..<n_groups] s = (r, s')"
    using call by (simp add: prepare_transaction_persistence_def prepare_members_none [OF True])
  moreover have "valid_value cfg q (assigned ns (value_of s) q)" if "q < n_params" for q
    using that inv valid value_view [OF inv that] map_of_SomeD [of ns q]
    by (auto simp: assigned_def durable_def split: option.splits)
  ultimately have "case r of
      Inl _ \<Rightarrow> fs_slots s' = fs_slots s \<and> fs_groups s' = fs_groups s \<and>
        filter (commits cfg (map fst ns)) [0..<n_groups] \<noteq> [] \<and>
        (length (filter (commits cfg (map fst ns)) [0..<n_groups]) \<le> 1 \<longrightarrow> quiet img s s')
    | Inr _ \<Rightarrow> groups_written [0..<n_groups] ns s s'"
    by (intro prepare_groups_spec) auto
  then show ?thesis using tx_prepared_groups [OF inv _ True, of s'] view_slots_eq [of s' s]
    by (cases r) (auto simp: one_record_def quiet_view)
next
  case False
  then have one: "length ns = 1" using ok by (auto simp: transaction_ok_def list_all_iff)
  then obtain p n where ns: "ns = [(p, n)]" by (metis One_nat_def length_0_conv length_Suc_conv surj_pair)
  obtain st where p: "p < n_params" "pm_persistence (param cfg p) = Immediate st"
    using False ok ns by (cases "pm_persistence (param cfg p)") (auto simp: transaction_ok_def)
  have old: "value_of s p = val (view img s) p" by (rule value_view [OF inv p(1)])
  have none: "run_ok (prepare_group cfg (map (captured s) ns)) [0..<n_groups] s1 = (Inr (), s1)" for s1
    using no_group_commits [OF p(1)] p(2)
    by (intro run_ok_inactive) (auto simp: ns prepare_group_def commits_def touches_captured [of cfg s "[(p, n)]", simplified])
  obtain r1 s1 where m: "prepare_member cfg (captured s (p, n)) s = (r1, s1)" by fastforce
  then have r: "r = r1 \<and> s' = s1" using call none by (cases r1) (auto simp: prepare_transaction_persistence_def ns)
  show ?thesis
  proof (cases "value_of s p = nm_value n")
    case True
    then have "r1 = Inr () \<and> s1 = s" using m by (auto simp: prepare_member_def captured_def)
    moreover have "\<not> commits cfg [p] g" if "g < n_groups" for g using no_group_commits that p by simp
    ultimately show ?thesis using r True old by (auto simp: tx_prepared_def changed_def ns assigned_def)
  next
    case False
    then have "prepare_immediate_persistence cfg p (nm_value n) False s = (r1, s1)"
      using m p by (simp add: prepare_member_def captured_def)
    from prepare_spec [OF this p(1) _ inv] valid [of p n] r show ?thesis
      using tx_prepared_single [OF inv p] False old by (auto simp: ns split: sum.splits)
  qed
qed

section \<open>Writing the values and marking them\<close>

definition slots_changed ::
  "(nat \<times> 'v normalized) list \<Rightarrow> 'v pview \<Rightarrow> (nat \<Rightarrow> 'v normalized \<Rightarrow> 'v \<times> bool \<times> bool) \<Rightarrow>
   ('v \<times> bool \<times> bool) list \<Rightarrow> ('v \<times> bool \<times> bool) list \<Rightarrow> bool" where
  "slots_changed ns vw f xs ys \<longleftrightarrow>
     length ys = length xs \<and>
     (\<forall>q < length xs. ys ! q = (case map_of ns q of
        None \<Rightarrow> xs ! q | Some n \<Rightarrow> if val vw q = nm_value n then xs ! q else f q n))"

lemma write_values_spec:
  assumes "write_transaction_values cfg (map (captured s0) ns) s = (r, s')" and "distinct (map fst ns)"
    and "\<forall>p \<in> set (map fst ns). p < length (fs_slots s0)" and "length (fs_slots s) = length (fs_slots s0)"
  shows "r = Inr () \<and> vw_groups (view img s') = vw_groups (view img s) \<and> vw_store (view img s') = vw_store (view img s) \<and>
    slots_changed ns (view img s0) (\<lambda>q n. (nm_value n, snd (vw_slots (view img s) ! q)))
      (vw_slots (view img s)) (vw_slots (view img s'))"
  using assms
proof (induction ns arbitrary: s)
  case Nil
  then show ?case by (simp add: slots_changed_def)
next
  case (Cons pn ns)
  obtain p n where pn: "pn = (p, n)" by fastforce
  have old: "val (view img s0) p = value_of s0 p" using Cons.prems(3) pn by (simp add: val_view slot_view_def)
  have none: "map_of ns p = None" using Cons.prems(2) pn by (auto simp: map_of_eq_None_iff)
  show ?case
  proof (cases "value_of s0 p = nm_value n")
    case True
    with Cons.IH [of s] Cons.prems pn old none show ?thesis
      by (auto simp: captured_def slots_changed_def split: option.splits)
  next
    case False
    obtain r1 s1 where w: "cell_write cfg p (nm_value n) s = (r1, s1)" by fastforce
    then obtain s2 where s2: "quiet img s s2" "r1 = Inr ()" "s1 = upd_slot p (\<lambda>sl. sl\<lparr>sl_value := nm_value n\<rparr>) s2"
      by (rule cell_write_spec)
    have p: "p < length (fs_slots s)" using Cons.prems(3,4) pn by simp
    have slots: "vw_slots (view img s1) = (vw_slots (view img s))[p := (nm_value n, snd (vw_slots (view img s) ! p))]"
      "vw_groups (view img s1) = vw_groups (view img s)" "vw_store (view img s1) = vw_store (view img s)"
      "length (fs_slots s1) = length (fs_slots s0)"
      using s2 quiet_view [OF s2(1)] quiet_state(1) [OF s2(1)] val_view [OF p, of img] Cons.prems(4)
      by (simp_all add: view_upd_slot slot_view_def) (simp add: upd_slot_def)
    have ih: "r = Inr () \<and> vw_groups (view img s') = vw_groups (view img s1) \<and> vw_store (view img s') = vw_store (view img s1) \<and>
        slots_changed ns (view img s0) (\<lambda>q n. (nm_value n, snd (vw_slots (view img s1) ! q)))
          (vw_slots (view img s1)) (vw_slots (view img s'))"
      using Cons.IH [of s1] Cons.prems w s2(2) slots(4) False pn by (simp add: captured_def)
    show ?thesis
      using ih slots False old none p
      by (auto simp: slots_changed_def pn nth_list_update length_view_slots split: option.splits)
  qed
qed

lemma update_records_view: "view img (update_transaction_records cfg ts s) = view img s"
proof -
  have "view img (fold (\<lambda>t s. slot_mutate_record (tx_parameter t) (f t) s) ts s) = view img s"
    if "\<And>t rec. pr_dirty (f t rec) = pr_dirty rec" for f :: "'v transaction_state \<Rightarrow> 'v parameter_record \<Rightarrow> 'v parameter_record"
    by (induction ts arbitrary: s) (simp_all add: view_slot_mutate_record that)
  then show ?thesis unfolding update_transaction_records_def by (simp add: Let_def)
qed

text \<open>The dirty and erase flags of a parameter after a transaction has changed it.\<close>

definition marked :: "nat \<Rightarrow> bool \<times> bool \<Rightarrow> bool \<times> bool" where
  "marked p de =
     (case pm_persistence (param cfg p) of
        Volatile \<Rightarrow> de
      | Immediate _ \<Rightarrow> (False, False)
      | Transactional g \<Rightarrow>
          if persistence_kind_of (gr_commit (group cfg g)) = Pk_Immediate then (False, False) else (True, False)
      | _ \<Rightarrow> (True, False))"

definition dirties :: "(nat \<times> 'v normalized) list \<Rightarrow> 'v pview \<Rightarrow> nat \<Rightarrow> bool" where
  "dirties ns vw g \<longleftrightarrow>
     persistence_kind_of (gr_commit (group cfg g)) \<noteq> Pk_Immediate \<and>
     (\<exists>(p, n) \<in> set ns. pm_persistence (param cfg p) = Transactional g \<and> val vw p \<noteq> nm_value n)"

lemma mark_slot_view:
  assumes "mark_committed_persistence cfg p revision False s = (ps, s')" and "p < length (fs_slots s)"
  shows "vw_slots (view img s') = (vw_slots (view img s))[p := (value_of s p, marked p (snd (vw_slots (view img s) ! p)))] \<and>
    length (vw_groups (view img s')) = length (vw_groups (view img s)) \<and>
    (\<forall>g < length (vw_groups (view img s)). vw_groups (view img s') ! g =
       (vw_groups (view img s) ! g \<or> (pm_persistence (param cfg p) = Transactional g \<and>
          persistence_kind_of (gr_commit (group cfg g)) \<noteq> Pk_Immediate))) \<and>
    vw_store (view img s') = vw_store (view img s)"
proof -
  have id: "(vw_slots (view img s))[p := (value_of s p, pr_dirty (sl_record (slot s p)), sl_erase_pending (slot s p))] =
      vw_slots (view img s)"
    using val_view [OF assms(2), of img] list_update_id [of "vw_slots (view img s)" p] by (simp add: slot_view_def)
  have set_true: "g < length xs \<Longrightarrow> xs[h := True] ! g = (xs ! g \<or> h = g)" for xs :: "bool list" and g h
    by (cases "h = g") auto
  show ?thesis
    using mark_committed_view [OF assms] val_view [OF assms(2), of img]
    by (cases "pm_persistence (param cfg p)") (auto simp: marked_def slot_view_def set_true id)
qed

lemma mark_transaction_spec:
  assumes "distinct (map fst ns)" and "\<forall>p \<in> set (map fst ns). p < length (fs_slots s0)"
    and "length (fs_slots s) = length (fs_slots s0)"
    and "s' = mark_transaction_persistence cfg (map (captured s0) ns) s"
  shows "vw_store (view img s') = vw_store (view img s) \<and>
    slots_changed ns (view img s0) (\<lambda>q n. (val (view img s) q, marked q (snd (vw_slots (view img s) ! q))))
      (vw_slots (view img s)) (vw_slots (view img s')) \<and>
    length (vw_groups (view img s')) = length (vw_groups (view img s)) \<and>
    (\<forall>g < length (vw_groups (view img s)). vw_groups (view img s') ! g =
       (vw_groups (view img s) ! g \<or> dirties ns (view img s0) g))"
  using assms
proof (induction ns arbitrary: s)
  case Nil
  then show ?case by (simp add: slots_changed_def mark_transaction_persistence_def dirties_def)
next
  case (Cons pn ns)
  obtain p n where pn: "pn = (p, n)" by fastforce
  have old: "val (view img s0) p = value_of s0 p" using Cons.prems(2) pn by (simp add: val_view slot_view_def)
  have none: "map_of ns p = None" using Cons.prems(1) pn by (auto simp: map_of_eq_None_iff)
  have p: "p < length (fs_slots s)" using Cons.prems(2,3) pn by simp
  have v: "val (view img s) p = value_of s p" using val_view [OF p, of img] by (simp add: slot_view_def)
  show ?case
  proof (cases "value_of s0 p = nm_value n")
    case True
    then have "s' = mark_transaction_persistence cfg (map (captured s0) ns) s"
      using Cons.prems(4) pn by (simp add: mark_transaction_persistence_def)
    from Cons.IH [OF _ _ _ this] True Cons.prems(1-3) pn old none show ?thesis
      by (auto simp: slots_changed_def dirties_def split: option.splits)
  next
    case False
    obtain ps s1 where m: "mark_committed_persistence cfg p (pr_revision (tx_before (captured s0 pn)) + 1) False s = (ps, s1)"
      by fastforce
    note one = mark_slot_view [OF m p]
    have len: "length (fs_slots s1) = length (fs_slots s)"
      using conjunct1 [OF one] length_list_update length_view_slots by metis
    have s': "s' = mark_transaction_persistence cfg (map (captured s0) ns) s1"
      using Cons.prems(4) m False pn by (simp add: mark_transaction_persistence_def)
    from Cons.IH [OF _ _ _ this] Cons.prems(1-3) len
    have ih: "vw_store (view img s') = vw_store (view img s1) \<and>
      slots_changed ns (view img s0) (\<lambda>q n. (val (view img s1) q, marked q (snd (vw_slots (view img s1) ! q))))
        (vw_slots (view img s1)) (vw_slots (view img s')) \<and>
      length (vw_groups (view img s')) = length (vw_groups (view img s1)) \<and>
      (\<forall>g < length (vw_groups (view img s1)). vw_groups (view img s') ! g =
         (vw_groups (view img s1) ! g \<or> dirties ns (view img s0) g))" by simp
    have "dirties (pn # ns) (view img s0) g = (dirties ns (view img s0) g \<or> (pm_persistence (param cfg p) = Transactional g \<and>
        persistence_kind_of (gr_commit (group cfg g)) \<noteq> Pk_Immediate))" for g
      using False old pn by (auto simp: dirties_def)
    moreover have "slots_changed (pn # ns) (view img s0) (\<lambda>q n. (val (view img s) q, marked q (snd (vw_slots (view img s) ! q))))
        (vw_slots (view img s)) (vw_slots (view img s'))"
      using ih one False old none p v
      by (auto simp: slots_changed_def pn nth_list_update length_view_slots split: option.splits)
    ultimately show ?thesis using ih one by auto
  qed
qed

section \<open>The transaction\<close>

lemma assigned_val:
  assumes "slots_changed ns vw (\<lambda>q n. (nm_value n, f q)) (vw_slots vw) ys" and "q < length (vw_slots vw)"
  shows "fst (ys ! q) = assigned ns (val vw) q"
  using assms by (auto simp: slots_changed_def assigned_def split: option.splits)

lemma commit_transaction_durable:
  assumes inv: "durable cfg vw" and dist: "distinct (map fst ns)" and prep: "tx_prepared ns vw vw1"
    and valid: "\<And>p n. (p, n) \<in> set ns \<Longrightarrow> p < n_params \<and> valid_value cfg p (nm_value n)"
    and slots: "slots_changed ns vw (\<lambda>q n. (nm_value n, marked q (snd (vw_slots vw ! q)))) (vw_slots vw) (vw_slots vw')"
    and groups: "length (vw_groups vw') = n_groups"
      "\<And>g. g < n_groups \<Longrightarrow> vw_groups vw' ! g = (vw_groups vw ! g \<or> dirties ns vw g)"
    and store: "vw_store vw' = vw_store vw1"
  shows "durable cfg vw'"
proof -
  have len: "length (vw_slots vw) = n_params" "length (vw_slots vw') = n_params"
    using inv slots by (simp_all add: durable_def slots_changed_def)
  have val': "val vw' q = assigned ns (val vw) q" if "q < n_params" for q
    using assigned_val [OF slots] that len by simp
  have changed_iff: "changed ns vw q \<longleftrightarrow> (\<exists>n. map_of ns q = Some n \<and> val vw q \<noteq> nm_value n)" for q
    using dist by (auto simp: changed_def)
  have slot': "vw_slots vw' ! q = (if changed ns vw q then (assigned ns (val vw) q, marked q (snd (vw_slots vw ! q)))
      else vw_slots vw ! q)" if "q < n_params" for q
    using that slots len by (auto simp: slots_changed_def changed_iff assigned_def split: option.splits)
  have same: "\<not> changed ns vw q \<Longrightarrow> assigned ns (val vw) q = val vw q" for q
    by (auto simp: changed_iff assigned_def split: option.splits)
  have "valid_value cfg q (val vw' q) \<and> param_durable cfg vw' q" if q: "q < n_params" for q
  proof -
    have old: "valid_value cfg q (val vw q)" "param_durable cfg vw q" using inv q by (auto simp: durable_def)
    have "valid_value cfg q (assigned ns (val vw) q)"
      using old valid map_of_SomeD [of ns q] by (auto simp: assigned_def split: option.splits)
    moreover have "param_durable cfg vw' q"
      using old(2) prep q slot' [OF q] same [of q]
      by (cases "pm_persistence (param cfg q)"; cases "changed ns vw q")
        (auto simp: param_durable_def tx_prepared_def store marked_def split: option.splits)
    ultimately show ?thesis using val' [OF q] by simp
  qed
  moreover have "group_durable cfg vw' g" if g: "g < n_groups" for g
  proof -
    have vals: "map (val vw') (members cfg g) = map (assigned ns (val vw)) (members cfg g)"
      using val' group_facts(4) [OF g] by simp
    show ?thesis
    proof (cases "commits cfg (map fst ns) g")
      case True
      then show ?thesis using prep g vals by (simp add: group_durable_def tx_prepared_def store)
    next
      case False
      have "assigned ns (val vw) q = val vw q" if "\<not> dirties ns vw g" and q: "q \<in> set (members cfg g)" for q
      proof (rule same, rule notI)
        assume "changed ns vw q"
        then obtain n where n: "(q, n) \<in> set ns" "val vw q \<noteq> nm_value n" by (auto simp: changed_def)
        then have "persistence_kind_of (gr_commit (group cfg g)) = Pk_Immediate"
          using that group_facts(5) [OF g q] by (auto simp: dirties_def)
        with n False q show False by (auto simp: commits_def list_ex_iff)
      qed
      then have "\<not> dirties ns vw g \<Longrightarrow> map (val vw') (members cfg g) = map (val vw) (members cfg g)"
        unfolding vals by simp
      moreover have "vw_store vw' (gr_store (group cfg g)) (group_key cfg g) = vw_store vw (gr_store (group cfg g)) (group_key cfg g)"
        using prep g False by (simp add: tx_prepared_def store)
      moreover have "group_durable cfg vw g" using inv g by (simp add: durable_def)
      ultimately show ?thesis using groups(2) [OF g] by (auto simp: group_durable_def)
    qed
  qed
  ultimately show ?thesis using len groups(1) by (simp add: durable_def)
qed

lemma slots_changed_comp:
  assumes "slots_changed ns vw (\<lambda>q n. (nm_value n, snd (xs ! q))) xs ys"
    and "slots_changed ns vw (\<lambda>q n. (fst (ys ! q), f q (snd (ys ! q)))) ys zs"
  shows "slots_changed ns vw (\<lambda>q n. (nm_value n, f q (snd (xs ! q)))) xs zs"
  using assms by (auto simp: slots_changed_def split: option.splits)

lemma commit_transaction_spec:
  assumes inv: "durable cfg (view img s)" and dist: "distinct (map fst ns)"
    and valid: "\<And>p n. (p, n) \<in> set ns \<Longrightarrow> p < n_params \<and> valid_value cfg p (nm_value n)"
    and prep: "tx_prepared ns (view img s) (view img s1)"
    and call: "write_transaction_values cfg (map (captured s) ns) s1 = (r, s2)"
    and mark: "s3 = mark_transaction_persistence cfg (map (captured s) ns)
      (update_transaction_records cfg (map (captured s) ns) s2)"
  shows "r = Inr () \<and> durable cfg (view img s3) \<and>
    (\<forall>q < n_params. val (view img s3) q = assigned ns (val (view img s)) q)"
proof -
  let ?s2 = "update_transaction_records cfg (map (captured s) ns) s2"
  have len: "length (fs_slots s) = n_params" using inv by (simp add: durable_def length_view_slots)
  have slots1: "vw_slots (view img s1) = vw_slots (view img s)" "vw_groups (view img s1) = vw_groups (view img s)"
    using prep by (simp_all add: tx_prepared_def)
  have len1: "length (fs_slots s1) = length (fs_slots s)" using slots1(1) length_view_slots by metis
  have dom: "\<forall>p \<in> set (map fst ns). p < length (fs_slots s)" using valid len by auto
  note w = write_values_spec [OF call dist dom len1, unfolded slots1]
  have view2: "view img ?s2 = view img s2" by (rule update_records_view)
  have "length (fs_slots ?s2) = length (fs_slots s)"
    using w view2 length_view_slots [of img ?s2] by (simp add: slots_changed_def length_view_slots)
  note m = mark_transaction_spec [OF dist dom this mark, unfolded view2]
  have slots: "slots_changed ns (view img s) (\<lambda>q n. (nm_value n, marked q (snd (vw_slots (view img s) ! q))))
      (vw_slots (view img s)) (vw_slots (view img s3))"
    by (rule slots_changed_comp [of _ _ _ "vw_slots (view img s2)"]) (use w m in simp_all)
  have groups: "length (vw_groups (view img s)) = n_groups" using inv by (simp add: durable_def)
  have "durable cfg (view img s3)"
    by (rule commit_transaction_durable [OF inv dist prep valid slots]) (use w m groups in simp_all)
  moreover have "val (view img s3) q = assigned ns (val (view img s)) q" if "q < n_params" for q
    using assigned_val [OF slots] that len by (simp add: length_view_slots)
  ultimately show ?thesis using w by simp
qed

lemma reschedule_transaction_view: "view img (reschedule_transaction cfg ps s) = view img s"
proof -
  obtain r s1 where sc: "schedule_deferred_persistence cfg s = (r, s1)" by fastforce
  have "view img (fold (\<lambda>p s. if effective_deferred cfg (pm_persistence (param cfg p))
      then upd_slot p (slot_mark_schedule_failure st) s else s) ps s1) = view img s1" for st
    by (induction ps arbitrary: s1) (auto simp: view_simps)
  then show ?thesis
    using sc quiet_view [OF schedule_quiet [OF sc]] by (auto simp: reschedule_transaction_def split: sum.splits)
qed

lemma dispatch_transaction_view:
  assumes "dispatch_transaction_changes cfg ts deferred s = (up, s')"
  shows "view img s' = view img s"
proof -
  let ?f = "\<lambda>c acc. case List.find (\<lambda>t. tx_parameter t = bc_parameter (px_changes cfg ! c)) ts of
      Some t \<Rightarrow> if tx_changed t then dispatch_to cfg deferred (transaction_change t) c acc else acc
    | None \<Rightarrow> acc"
  have "view img (snd (?f c acc)) = view img (snd acc)" if "c \<in> set [0..<length (px_changes cfg)]" for c acc
    using that dispatch_to_view [of c deferred _ "fst acc" "snd acc" "fst (dispatch_to cfg deferred _ c acc)"]
    by (auto split: option.splits) (metis dispatch_to_view prod.collapse)
  then have "view img (snd (fold ?f [0..<length (px_changes cfg)] (0, s))) = view img (snd (0 :: nat, s))"
    by (rule fold_view)
  with assms show ?thesis by (auto simp: dispatch_transaction_changes_def Let_def case_prod_unfold)
qed

lemma set_all_spec:
  assumes inv: "durable cfg (view img s)" and ok: "transaction_ok cfg (map fst as)"
    and ty: "\<And>p v. (p, v) \<in> set as \<Longrightarrow> pm_type (param cfg p) v"
    and call: "set_all_parameters cfg as no_wait s = (r, s')"
  shows "case r of
      Inl _ \<Rightarrow> vw_slots (view img s') = vw_slots (view img s) \<and>
        (one_record cfg (map fst as) \<longrightarrow> view img s' = view img s)
    | Inr _ \<Rightarrow> \<exists>ns. normalize_transaction cfg as = Inr ns \<and> durable cfg (view img s') \<and>
        (\<forall>q < n_params. val (view img s') q = assigned ns (val (view img s)) q)"
proof (cases "px_in_isr cfg (fs_world s) \<or> mutation_closed cfg s \<or> isl (normalize_transaction cfg as)")
  case True
  then show ?thesis using call by (cases "normalize_transaction cfg as") (auto simp: set_all_parameters_def Let_def split: if_splits)
next
  case False
  then obtain ns where norm: "normalize_transaction cfg as = Inr ns"
    by (cases "normalize_transaction cfg as") auto
  note fst_ns = normalize_transaction_spec(1) [OF norm]
  have valid: "p < n_params \<and> valid_value cfg p (nm_value n)" if "(p, n) \<in> set ns" for p n
  proof -
    obtain v where v: "(p, v) \<in> set as" "normalize_param cfg p v = Inr n"
      using normalize_transaction_spec(2) [OF norm \<open>(p, n) \<in> set ns\<close>] by blast
    then have "p < n_params" using ok by (force simp: transaction_ok_def list_all_iff)
    with normalize_valid [OF this ty [OF v(1)] v(2)] show ?thesis by simp
  qed
  obtain r1 s1 where l: "lock_gate cfg Write_Gate no_wait s = (r1, s1)" by fastforce
  obtain r2 s2 where c: "capture_transaction cfg no_wait ns s1 = (r2, s2)" by fastforce
  note q1 = lock_quiet [OF l]
  have q2: "quiet img s s2" using capture_spec [OF c] quiet_trans [OF q1] by simp
  show ?thesis
  proof (cases "isl r1 \<or> isl r2")
    case True
    then have "isl r \<and> s' \<in> {s1, s2}"
      using call False norm l c by (cases r1; cases r2) (auto simp: set_all_parameters_def Let_def)
    then show ?thesis using quiet_view [OF q1] quiet_view [OF q2] by (cases r) auto
  next
    case entered: False
    have inv2: "durable cfg (view img s2)" using inv quiet_view [OF q2] by simp
    have len: "length (fs_slots s2) = n_params" using inv2 by (simp add: durable_def length_view_slots)
    have r2: "r2 = Inr (map (captured s2) ns)"
      using capture_spec [OF c] entered captured_quiet [of s1 s2] by (cases r2) auto
    obtain r3 s3 where p: "prepare_transaction_persistence cfg (map (captured s2) ns) s2 = (r3, s3)" by fastforce
    have prep: "case r3 of
        Inl _ \<Rightarrow> vw_slots (view img s3) = vw_slots (view img s2) \<and> (one_record cfg (map fst as) \<longrightarrow> view img s3 = view img s2)
      | Inr _ \<Rightarrow> tx_prepared ns (view img s2) (view img s3)"
      using prepare_transaction_spec [OF inv2 _ _ p] ok valid unfolding fst_ns by blast
    show ?thesis
    proof (cases r3)
      case (Inl e)
      then have "r = Inl e \<and> s' = s3"
        using call False norm l c entered r2 p by (cases r1) (auto simp: set_all_parameters_def Let_def)
      then show ?thesis using Inl prep quiet_view [OF q2] by simp
    next
      case (Inr u)
      obtain r4 s4 where w: "write_transaction_values cfg (map (captured s2) ns) s3 = (r4, s4)" by fastforce
      define s5 where "s5 = mark_transaction_persistence cfg (map (captured s2) ns)
          (update_transaction_records cfg (map (captured s2) ns) s4)"
      have commit: "r4 = Inr () \<and> durable cfg (view img s5) \<and>
          (\<forall>q < n_params. val (view img s5) q = assigned ns (val (view img s2)) q)"
        using commit_transaction_spec [OF inv2 _ valid _ w s5_def] ok fst_ns prep Inr by (simp add: transaction_ok_def)
      obtain up s6 where d: "dispatch_transaction_changes cfg (map (captured s2) ns)
          (changes_deferred (px_system_state cfg (fs_world s)) (reschedule_transaction cfg (map fst as) s5))
          (reschedule_transaction cfg (map fst as) s5) = (up, s6)" by fastforce
      have "r = Inr up \<and> s' = s6"
        using call False norm l c entered r2 p w commit d Inr
        by (cases r1) (auto simp: set_all_parameters_def Let_def s5_def [symmetric])
      moreover have "view img s6 = view img s5"
        using dispatch_transaction_view [OF d] reschedule_transaction_view by simp
      ultimately show ?thesis using commit norm quiet_view [OF q2] by simp
    qed
  qed
qed

end

end
