(* ===== verification/Parameter_Boot.thy ===== *)
theory Parameter_Boot
  imports Parameter_Transaction
begin

text \<open>
  Booting (\<^verbatim>\<open>init\<close> with \<^verbatim>\<open>initialize_persistence\<close>): whatever the stores hold, a boot that
  succeeds establishes the invariant \<open>durable\<close>, leaves the stores alone and gives every
  parameter the value that \<open>reload\<close> reads off its record.
\<close>

text \<open>The values a boot gives, in terms of the content of the stores.\<close>

definition booted :: "('v::linorder, 'w) param_config \<Rightarrow> (nat \<Rightarrow> image) \<Rightarrow> (nat \<Rightarrow> 'v) \<Rightarrow> bool" where
  "booted cfg mem f \<longleftrightarrow>
     (\<forall>p < length (px_parameters cfg).
        case pm_persistence (param cfg p) of
          Volatile \<Rightarrow> f p = pm_default (param cfg p)
        | Transactional g \<Rightarrow> True
        | Immediate st \<Rightarrow> reload cfg p (mem st (param_key cfg p)) = Some (f p)
        | Deferred st _ \<Rightarrow> reload cfg p (mem st (param_key cfg p)) = Some (f p)
        | Manual st \<Rightarrow> reload cfg p (mem st (param_key cfg p)) = Some (f p)) \<and>
     (\<forall>g < length (px_groups cfg).
        reload_group cfg g (mem (gr_store (group cfg g)) (group_key cfg g)) = Some (map f (members cfg g)))"

text \<open>The stores hold nothing that would stop the boot.\<close>

definition store_bootable :: "('v::linorder, 'w) param_config \<Rightarrow> (nat \<Rightarrow> image) \<Rightarrow> bool" where
  "store_bootable cfg mem \<longleftrightarrow>
     (\<forall>p < length (px_parameters cfg). \<forall>st. persistence_store (pm_persistence (param cfg p)) = Some st \<longrightarrow>
        reload cfg p (mem st (param_key cfg p)) \<noteq> None) \<and>
     (\<forall>g < length (px_groups cfg). reload_group cfg g (mem (gr_store (group cfg g)) (group_key cfg g)) \<noteq> None)"

context parameter_world
begin

section \<open>Loaded values are valid\<close>

lemma decode_stored_type:
  assumes "p < n_params" and "fst (decode_stored cfg p dec) = Inr v"
  shows "pm_type (param cfg p) v"
  using assms param_facts(2) [OF assms(1)]
  by (auto simp: decode_stored_def param_ok_def codec_ok_def Let_def split: if_splits option.splits sum.splits)

lemma reload_valid:
  assumes p: "p < n_params" and "reload cfg p b = Some v"
  shows "valid_value cfg p v"
proof -
  have fallback: "load_fallback cfg p = Some v \<Longrightarrow> valid_value cfg p v"
    using default_valid [OF p] by (auto simp: load_fallback_def split: if_splits)
  then show ?thesis
    using assms default_valid [OF p] decode_stored_type [OF p] normalize_valid [OF p]
    by (auto simp: reload_def reload_decoded_def split: option.splits if_splits sum.splits)
qed

lemma decode_group_values_type:
  assumes "\<forall>p \<in> set ps. p < n_params" and "decode_group_values cfg ps payload off = Inr vs"
  shows "list_all2 (\<lambda>p v. pm_type (param cfg p) v) ps vs"
  using assms
proof (induction ps arbitrary: off vs)
  case Nil
  then show ?case by (simp split: if_splits)
next
  case (Cons p ps)
  then show ?case
    using param_facts(2) [of p]
    by (auto simp: Let_def param_ok_def codec_ok_def split: if_splits sum.splits)
qed

lemma normalize_group_values_spec:
  assumes "\<forall>p \<in> set ps. p < n_params" and "list_all2 (\<lambda>p v. pm_type (param cfg p) v) ps vs"
    and "normalize_group_values cfg ps vs = Inr ns"
  shows "list_all2 (\<lambda>p v. valid_value cfg p v) ps ns"
  using assms(2,1,3)
proof (induction arbitrary: ns rule: list_all2_induct)
  case Nil
  then show ?case by simp
next
  case (Cons p ps v vs)
  then show ?case using normalize_valid [of p v] by (auto split: sum.splits)
qed

lemma decode_stored_group_type:
  assumes "g < n_groups" and "fst (decode_stored_group cfg g dec) = Inr vs"
  shows "list_all2 (\<lambda>p v. pm_type (param cfg p) v) (members cfg g) vs"
  using assms group_facts(4) [OF assms(1)] group_facts(7) [OF assms(1)] decode_group_values_type [of "members cfg g"]
  by (auto simp: decode_stored_group_def group_ok_def Let_def split: if_splits option.splits sum.splits)

lemma reload_group_valid:
  assumes g: "g < n_groups" and "reload_group cfg g b = Some vs"
  shows "list_all2 (\<lambda>p v. valid_value cfg p v) (members cfg g) vs"
proof -
  have default: "list_all2 (\<lambda>p v. valid_value cfg p v) (members cfg g) (map (\<lambda>p. pm_default (param cfg p)) (members cfg g))"
    using default_valid group_facts(4) [OF g] by (auto simp: list_all2_map2 list_all2_same)
  then have "group_fallback cfg g = Some vs \<Longrightarrow> list_all2 (\<lambda>p v. valid_value cfg p v) (members cfg g) vs"
    by (auto simp: group_fallback_def split: if_splits)
  then show ?thesis
    using assms default decode_stored_group_type [OF g] normalize_group_values_spec [of "members cfg g"] group_facts(4) [OF g]
    by (auto simp: reload_group_def reload_group_decoded_def split: option.splits if_splits sum.splits)
qed

section \<open>Loading one record\<close>

lemma store_load_spec:
  assumes "i < length (px_stores cfg)" and "valid_key k"
    and "st_load (store_at cfg i) k (replicate cap 0) (fs_world s) = (r, buf, w)"
  shows "quiet img s (s\<lparr>fs_world := w\<rparr>)" and "length buf = cap"
    and "case vw_store (view img s) i k of
        None \<Rightarrow> \<exists>e. r = Inl e \<and> err_status e = St_NotFound
      | Some bs \<Rightarrow>
          if length bs \<le> cap then r = Inr (length bs) \<and> take (length bs) buf = bs
          else \<exists>e. r = Inl e \<and> err_status e \<noteq> St_NotFound"
proof -
  note laws = stores [OF assms(1)]
  have "img j w = img j (fs_world s)" for j
    using load_frame [OF assms(1) _ assms(3), of j] kv_store.load_img [OF laws assms(3)] by (cases "j = i") auto
  then show "quiet img s (s\<lparr>fs_world := w\<rparr>)" by (auto simp: quiet_def)
  show "length buf = cap" using kv_store.load_length [OF laws assms(3)] by simp
  show "case vw_store (view img s) i k of
        None \<Rightarrow> \<exists>e. r = Inl e \<and> err_status e = St_NotFound
      | Some bs \<Rightarrow>
          if length bs \<le> cap then r = Inr (length bs) \<and> take (length bs) buf = bs
          else \<exists>e. r = Inl e \<and> err_status e \<noteq> St_NotFound"
    using kv_store.load_missing [OF laws assms(2) _ assms(3)] kv_store.load_found [OF laws assms(2) _ _ assms(3)]
      kv_store.load_oversized [OF laws assms(2) _ _ assms(3)]
    by (auto simp: view_def split: option.splits)
qed

lemma record_failure_view: "view img (record_load_failure cfg p st reason ver s) = view img s"
  unfolding record_load_failure_def by (rule view_slot_mutate_record) simp

lemma missing_default_view: "view img (slot_mutate_record p missing_default s) = view img s"
  by (rule view_slot_mutate_record) (simp add: missing_default_def)

lemma mark_loaded_view:
  assumes "p < length (fs_slots s)"
  shows "view img (mark_loaded cfg p v source outcome ver s) =
    (view img s)\<lparr>vw_slots := (vw_slots (view img s))[p := (v, False, False)]\<rparr> \<and>
    length (fs_slots (mark_loaded cfg p v source outcome ver s)) = length (fs_slots s)"
proof -
  obtain r s1 where w: "cell_write cfg p v s = (r, s1)" by fastforce
  then obtain s2 where s2: "quiet img s s2" "s1 = upd_slot p (\<lambda>sl. sl\<lparr>sl_value := v\<rparr>) s2"
    by (rule cell_write_spec)
  then show ?thesis
    using w quiet_view [OF s2(1)] quiet_state(1) [OF s2(1)] assms
    by (simp add: mark_loaded_def view_upd_slot slot_view_def) (simp add: upd_slot_def)
qed

text \<open>What loading does to one slot: \<open>loads p v vw vw'\<close> when the value \<open>v\<close> has been installed.\<close>

definition loads :: "nat \<Rightarrow> 'v \<Rightarrow> 'v pview \<Rightarrow> 'v pview \<Rightarrow> bool" where
  "loads p v vw vw' \<longleftrightarrow>
     (\<exists>d e. vw' = vw\<lparr>vw_slots := (vw_slots vw)[p := (v, d, e)]\<rparr> \<and> (e \<longrightarrow> v = pm_default (param cfg p)))"

definition load_result :: "'v option \<Rightarrow> nat \<Rightarrow> solar_error + unit \<Rightarrow> 'v pview \<Rightarrow> 'v pview \<Rightarrow> bool" where
  "load_result x p r vw vw' \<longleftrightarrow>
     (case r of Inl _ \<Rightarrow> x = None \<and> vw' = vw | Inr _ \<Rightarrow> \<exists>v. x = Some v \<and> loads p v vw vw')"

lemma loads_default:
  assumes "val vw p = pm_default (param cfg p)"
  shows "loads p (pm_default (param cfg p)) vw vw"
proof -
  have "(pm_default (param cfg p), dirty vw p, erasing vw p) = vw_slots vw ! p" using assms by (simp add: prod_eq_iff)
  then have "vw = vw\<lparr>vw_slots := (vw_slots vw)[p := (pm_default (param cfg p), dirty vw p, erasing vw p)]\<rparr>" by simp
  then show ?thesis unfolding loads_def by blast
qed

lemma load_failure_spec:
  assumes "load_failure cfg p st reason ver s = (r, s')" and "val (view img s) p = pm_default (param cfg p)"
  shows "load_result (load_fallback cfg p) p r (view img s) (view img s')"
  using assms loads_default [OF assms(2)]
  by (auto simp: load_result_def load_failure_def load_fallback_def record_failure_view Let_def split: if_splits)

lemma install_stored_spec:
  assumes "install_stored cfg p dec s = (r, s')" and "val (view img s) p = pm_default (param cfg p)"
    and p: "p < length (fs_slots s)"
  shows "load_result (reload_decoded cfg p dec) p r (view img s) (view img s')"
proof -
  obtain d source where d: "decode_stored cfg p dec = (d, source)" by fastforce
  show ?thesis
  proof (cases "\<exists>v n. d = Inr v \<and> normalize_param cfg p v = Inr n")
    case True
    then obtain v n where n: "d = Inr v" "normalize_param cfg p v = Inr n" by blast
    define s1 where "s1 = mark_loaded cfg p (nm_value n) source
        (if source = Ls_Migration then Lo_Migrated else Lo_Loaded) (dr_version dec) s"
    have s1: "view img s1 = (view img s)\<lparr>vw_slots := (vw_slots (view img s))[p := (nm_value n, False, False)]\<rparr>"
      "length (fs_slots s1) = length (fs_slots s)"
      using mark_loaded_view [OF p] by (simp_all add: s1_def)
    have "value_of s1 p = nm_value n"
      using s1 p val_view [of p s1 img] by (simp add: slot_view_def length_view_slots)
    then have "view img (upd_slot p (slot_mark_dirty 0 False None) s1) =
        (view img s)\<lparr>vw_slots := (vw_slots (view img s))[p := (nm_value n, True, False)]\<rparr>"
      by (simp add: view_upd_slot slot_view_def slot_mark_dirty_def s1)
    moreover have "r = Inr () \<and> s' = (if source = Ls_Migration then upd_slot p (slot_mark_dirty 0 False None) s1 else s1)"
      using assms(1) d n by (auto simp: install_stored_def Let_def s1_def)
    ultimately show ?thesis using s1(1) d n by (auto simp: load_result_def loads_def reload_decoded_def)
  next
    case False
    then obtain st reason ver where "load_failure cfg p st reason ver s = (r, s')"
      using assms(1) d by (cases d) (auto simp: install_stored_def split: sum.splits)
    moreover have "reload_decoded cfg p dec = load_fallback cfg p"
      using False d by (auto simp: reload_decoded_def split: sum.splits)
    ultimately show ?thesis using load_failure_spec [OF _ assms(2)] by simp
  qed
qed

lemma load_parameter_spec:
  assumes p: "p < n_params" "persistence_store (pm_persistence (param cfg p)) = Some st"
    and call: "load_persistent_parameter cfg p s = (r, s')"
    and slot: "p < length (fs_slots s)" "val (view img s) p = pm_default (param cfg p)"
  shows "load_result (reload cfg p (vw_store (view img s) st (param_key cfg p))) p r (view img s) (view img s')"
proof -
  let ?b = "vw_store (view img s) st (param_key cfg p)"
  obtain loaded buf w where l: "st_load (store_at cfg st) (param_key cfg p) (replicate (px_max_record cfg) 0) (fs_world s) =
      (loaded, buf, w)" by (metis prod.collapse)
  define s1 where "s1 = s\<lparr>fs_world := w\<rparr>"
  note load = store_load_spec [OF store_facts(1) [OF p] valid_keys(1) l, folded s1_def]
  have view1: "view img s1 = view img s" and slot1: "p < length (fs_slots s1)"
    "val (view img s1) p = pm_default (param cfg p)"
    using slot quiet_view [OF load(1)] by (simp_all add: s1_def)
  note body = call [unfolded load_persistent_parameter_def p(2) option.case l prod.case Let_def s1_def [symmetric] dr_key_neq_iff]
  have fail: "load_result (load_fallback cfg p) p r (view img s) (view img s')"
    if "load_failure cfg p status reason ver s1 = (r, s')" for status reason ver
    using load_failure_spec [OF that slot1(2)] view1 by simp
  show ?thesis
  proof (cases ?b)
    case None
    then show ?thesis
      using body load(3) loads_default [OF slot(2)] view1 by (auto simp: load_result_def reload_def missing_default_view)
  next
    case (Some bs)
    show ?thesis
    proof (cases "length bs \<le> px_max_record cfg")
      case False
      then obtain e where "loaded = Inl e" "err_status e \<noteq> St_NotFound" using load(3) Some by auto
      then show ?thesis using body fail Some False by (auto simp: reload_def)
    next
      case True
      then have found: "loaded = Inr (length bs)" "take (length bs) buf = bs" "\<not> length bs > length buf"
        using load(2,3) Some by auto
      show ?thesis
      proof (cases "\<exists>dec. decode_record bs = Inr dec \<and> dr_key dec = param_key cfg p")
        case True
        then obtain dec where "decode_record bs = Inr dec" "dr_key dec = param_key cfg p" by blast
        then show ?thesis
          using body found Some \<open>length bs \<le> px_max_record cfg\<close> install_stored_spec [of p dec s1 r s'] slot1 view1
          by (auto simp: reload_def)
      next
        case False
        then show ?thesis
          using body found Some \<open>length bs \<le> px_max_record cfg\<close> fail
          by (cases "decode_record bs") (auto simp: reload_def)
      qed
    qed
  qed
qed

section \<open>Loading a group\<close>

definition loads_group :: "nat \<Rightarrow> 'v list \<Rightarrow> 'v pview \<Rightarrow> 'v pview \<Rightarrow> bool" where
  "loads_group g vs vw vw' \<longleftrightarrow>
     length (vw_slots vw') = length (vw_slots vw) \<and> vw_store vw' = vw_store vw \<and>
     (\<exists>gd. vw_groups vw' = (vw_groups vw)[g := gd]) \<and>
     (\<forall>q. q \<notin> set (members cfg g) \<longrightarrow> vw_slots vw' ! q = vw_slots vw ! q) \<and> map (val vw') (members cfg g) = vs"

definition group_result :: "'v list option \<Rightarrow> nat \<Rightarrow> solar_error + unit \<Rightarrow> 'v pview \<Rightarrow> 'v pview \<Rightarrow> bool" where
  "group_result x g r vw vw' \<longleftrightarrow>
     (case r of Inl _ \<Rightarrow> x = None \<and> vw_store vw' = vw_store vw | Inr _ \<Rightarrow> \<exists>vs. x = Some vs \<and> loads_group g vs vw vw')"

lemma exists_update: "\<exists>x. xs = xs[g := x]"
  by (rule exI [of _ "xs ! g"]) simp

lemma loads_group_default:
  assumes "\<forall>q \<in> set (members cfg g). val vw q = pm_default (param cfg q)"
  shows "loads_group g (map (\<lambda>q. pm_default (param cfg q)) (members cfg g)) vw vw"
  using assms exists_update [of "vw_groups vw" g] by (simp add: loads_group_def)

lemma fold_same_view:
  assumes "\<And>p s. view img (f p s) = view img s"
  shows "view img (fold f ps s) = view img s"
  using assms by (induction ps arbitrary: s) auto

lemma fold_views:
  "view img (fold (\<lambda>p. record_load_failure cfg p st reason ver) ps s) = view img s"
  "view img (fold (\<lambda>p. slot_mutate_record p missing_default) ps s) = view img s"
  by (rule fold_same_view, rule record_failure_view, rule fold_same_view, rule missing_default_view)

lemma group_failure_spec:
  assumes "group_load_failure cfg g st reason ver s = (r, s')"
    and "\<forall>q \<in> set (members cfg g). val (view img s) q = pm_default (param cfg q)"
  shows "group_result (group_fallback cfg g) g r (view img s) (view img s')"
  using assms loads_group_default [OF assms(2)]
  by (auto simp: fold_views group_result_def group_load_failure_def group_fallback_def Let_def split: if_splits)

lemma fold_mark_loaded:
  assumes "length ps = length vs" and "distinct ps" and "\<forall>p \<in> set ps. p < length (fs_slots s)"
    and "s' = fold (\<lambda>(p, v) s. mark_loaded cfg p v source outcome ver s) (zip ps vs) s"
  shows "vw_groups (view img s') = vw_groups (view img s) \<and> vw_store (view img s') = vw_store (view img s) \<and>
    length (fs_slots s') = length (fs_slots s) \<and>
    (\<forall>q. q \<notin> set ps \<longrightarrow> vw_slots (view img s') ! q = vw_slots (view img s) ! q) \<and> map (val (view img s')) ps = vs"
  using assms
proof (induction ps vs arbitrary: s rule: list_induct2)
  case Nil
  then show ?case by simp
next
  case (Cons p ps v vs)
  define s1 where "s1 = mark_loaded cfg p v source outcome ver s"
  have s1: "view img s1 = (view img s)\<lparr>vw_slots := (vw_slots (view img s))[p := (v, False, False)]\<rparr>"
    "length (fs_slots s1) = length (fs_slots s)"
    using mark_loaded_view [of p s v source outcome ver] Cons.prems(2) by (simp_all add: s1_def)
  have ih: "vw_groups (view img s') = vw_groups (view img s1) \<and> vw_store (view img s') = vw_store (view img s1) \<and>
      length (fs_slots s') = length (fs_slots s1) \<and>
      (\<forall>q. q \<notin> set ps \<longrightarrow> vw_slots (view img s') ! q = vw_slots (view img s1) ! q) \<and> map (val (view img s')) ps = vs"
    by (rule Cons.IH) (use Cons.prems s1 in \<open>auto simp: s1_def\<close>)
  have "vw_slots (view img s') ! p = (v, False, False)"
    using ih s1 Cons.prems(1,2) by (simp add: length_view_slots)
  with ih s1 show ?case by auto
qed

lemma install_group_spec:
  assumes g: "g < n_groups" and "install_stored_group cfg g dec s = (r, s')" and len: "length (fs_slots s) = n_params"
    and default: "\<forall>q \<in> set (members cfg g). val (view img s) q = pm_default (param cfg q)"
  shows "group_result (reload_group_decoded cfg g dec) g r (view img s) (view img s')"
proof -
  obtain d source where d: "decode_stored_group cfg g dec = (d, source)" by fastforce
  show ?thesis
  proof (cases "\<exists>vs ns. d = Inr vs \<and> normalize_group_values cfg (members cfg g) vs = Inr ns")
    case True
    then obtain vs ns where n: "d = Inr vs" "normalize_group_values cfg (members cfg g) vs = Inr ns" by blast
    define s1 where "s1 = fold (\<lambda>(p, v) s. mark_loaded cfg p v source
        (if source = Ls_Migration then Lo_Migrated else Lo_Loaded) (dr_version dec) s) (zip (members cfg g) ns) s"
    have "list_all2 (\<lambda>p v. pm_type (param cfg p) v) (members cfg g) vs"
      using decode_stored_group_type [OF g, of dec] d n(1) by simp
    from normalize_group_values_spec [OF _ this n(2)] group_facts(4) [OF g]
    have "length (members cfg g) = length ns" by (simp add: list_all2_lengthD)
    from fold_mark_loaded [OF this group_facts(3) [OF g] _ s1_def] group_facts(4) [OF g] len
    have s1: "vw_groups (view img s1) = vw_groups (view img s) \<and> vw_store (view img s1) = vw_store (view img s) \<and>
        length (fs_slots s1) = length (fs_slots s) \<and>
        (\<forall>q. q \<notin> set (members cfg g) \<longrightarrow> vw_slots (view img s1) ! q = vw_slots (view img s) ! q) \<and>
        map (val (view img s1)) (members cfg g) = ns" by simp
    have "r = Inr () \<and> s' = (if source = Ls_Migration then upd_group g (group_mark_dirty None) s1 else s1)"
      using assms(2) d n by (auto simp: install_stored_group_def Let_def s1_def)
    moreover have "length (fs_slots (upd_group g f s1)) = length (fs_slots s1)" for f by (simp add: upd_group_def)
    ultimately show ?thesis
      using s1 d n exists_update [of "vw_groups (view img s)" g]
      by (auto simp: group_result_def loads_group_def reload_group_decoded_def length_view_slots view_upd_group
          group_mark_dirty_def)
  next
    case False
    then obtain st reason ver where "group_load_failure cfg g st reason ver s = (r, s')"
      using assms(2) d by (cases d) (auto simp: install_stored_group_def split: sum.splits)
    moreover have "reload_group_decoded cfg g dec = group_fallback cfg g"
      using False d by (auto simp: reload_group_decoded_def split: sum.splits)
    ultimately show ?thesis using group_failure_spec [OF _ default] by simp
  qed
qed

lemma load_group_spec:
  assumes g: "g < n_groups" and call: "load_persistent_group cfg g s = (r, s')" and len: "length (fs_slots s) = n_params"
    and default: "\<forall>q \<in> set (members cfg g). val (view img s) q = pm_default (param cfg q)"
  shows "group_result (reload_group cfg g (vw_store (view img s) (gr_store (group cfg g)) (group_key cfg g))) g r
    (view img s) (view img s')"
proof -
  let ?b = "vw_store (view img s) (gr_store (group cfg g)) (group_key cfg g)"
  obtain loaded buf w where l: "st_load (store_at cfg (gr_store (group cfg g))) (group_key cfg g)
      (replicate (px_max_group_record cfg) 0) (fs_world s) = (loaded, buf, w)" by (metis prod.collapse)
  define s1 where "s1 = s\<lparr>fs_world := w\<rparr>"
  note load = store_load_spec [OF group_facts(1) [OF g] valid_keys(2) l, folded s1_def]
  have view1: "view img s1 = view img s" and len1: "length (fs_slots s1) = n_params"
    using quiet_view [OF load(1)] len by (simp_all add: s1_def)
  have default1: "\<forall>q \<in> set (members cfg g). val (view img s1) q = pm_default (param cfg q)" using default view1 by simp
  note body = call [unfolded load_persistent_group_def l prod.case Let_def s1_def [symmetric] dr_group_key_neq_iff]
  have fail: "group_result (group_fallback cfg g) g r (view img s) (view img s')"
    if "group_load_failure cfg g status reason ver s1 = (r, s')" for status reason ver
    using group_failure_spec [OF that default1] view1 by simp
  show ?thesis
  proof (cases ?b)
    case None
    then show ?thesis
      using body load(3) loads_group_default [OF default] view1
      by (auto simp: fold_views group_result_def reload_group_def)
  next
    case (Some bs)
    show ?thesis
    proof (cases "length bs \<le> px_max_group_record cfg")
      case False
      then obtain e where "loaded = Inl e" "err_status e \<noteq> St_NotFound" using load(3) Some by auto
      then show ?thesis using body fail Some False by (auto simp: reload_group_def)
    next
      case True
      then have found: "loaded = Inr (length bs)" "take (length bs) buf = bs" "\<not> length bs > length buf"
        using load(2,3) Some by auto
      show ?thesis
      proof (cases "\<exists>dec. decode_record bs = Inr dec \<and> dr_key dec = group_key cfg g")
        case True
        then obtain dec where "decode_record bs = Inr dec" "dr_key dec = group_key cfg g" by blast
        then show ?thesis
          using body found Some \<open>length bs \<le> px_max_group_record cfg\<close> install_group_spec [OF g _ len1 default1, of dec r s'] view1
          by (auto simp: reload_group_def)
      next
        case False
        then show ?thesis
          using body found Some \<open>length bs \<le> px_max_group_record cfg\<close> fail
          by (cases "decode_record bs") (auto simp: reload_group_def)
      qed
    qed
  qed
qed

section \<open>The boot\<close>

definition params_loaded :: "nat list \<Rightarrow> 'v pview \<Rightarrow> 'v pview \<Rightarrow> bool" where
  "params_loaded ps vw vw' \<longleftrightarrow>
     length (vw_slots vw') = length (vw_slots vw) \<and> vw_groups vw' = vw_groups vw \<and> vw_store vw' = vw_store vw \<and>
     (\<forall>q. q \<notin> set ps \<or> persistence_store (pm_persistence (param cfg q)) = None \<longrightarrow> vw_slots vw' ! q = vw_slots vw ! q) \<and>
     (\<forall>p \<in> set ps. \<forall>st. persistence_store (pm_persistence (param cfg p)) = Some st \<longrightarrow>
        reload cfg p (vw_store vw st (param_key cfg p)) = Some (val vw' p) \<and>
        (erasing vw' p \<longrightarrow> val vw' p = pm_default (param cfg p)))"

lemma load_parameters_spec:
  assumes "distinct ps" and "set ps \<subseteq> {..<n_params}" and "length (fs_slots s) = n_params"
    and "\<forall>p \<in> set ps. val (view img s) p = pm_default (param cfg p)"
    and "run_ok (load_persistent_parameter cfg) ps s = (r, s')"
  shows "case r of
      Inl _ \<Rightarrow> vw_store (view img s') = vw_store (view img s) \<and> \<not> store_bootable cfg (vw_store (view img s))
    | Inr _ \<Rightarrow> params_loaded ps (view img s) (view img s')"
  using assms
proof (induction ps arbitrary: s)
  case Nil
  then show ?case by (auto simp: params_loaded_def)
next
  case (Cons p ps)
  obtain r1 s1 where l: "load_persistent_parameter cfg p s = (r1, s1)" by fastforce
  have p: "p < n_params" "p < length (fs_slots s)" "val (view img s) p = pm_default (param cfg p)"
    using Cons.prems by auto
  show ?case
  proof (cases "persistence_store (pm_persistence (param cfg p))")
    case None
    then have "r1 = Inr () \<and> s1 = s" using l by (simp add: load_persistent_parameter_def)
    then show ?thesis
      using Cons.IH [of s] Cons.prems l None by (cases r) (auto simp: params_loaded_def)
  next
    case (Some st)
    note spec = load_parameter_spec [OF p(1) Some l p(2,3)]
    show ?thesis
    proof (cases r1)
      case (Inl e)
      then have "reload cfg p (vw_store (view img s) st (param_key cfg p)) = None" "view img s1 = view img s"
        using spec by (simp_all add: load_result_def)
      moreover from this(1) have "\<not> store_bootable cfg (vw_store (view img s))" using Some p(1) by (auto simp: store_bootable_def)
      ultimately show ?thesis using Cons.prems(5) l Inl by auto
    next
      case (Inr u)
      then obtain v d e where v: "reload cfg p (vw_store (view img s) st (param_key cfg p)) = Some v"
        "view img s1 = (view img s)\<lparr>vw_slots := (vw_slots (view img s))[p := (v, d, e)]\<rparr>"
        "e \<longrightarrow> v = pm_default (param cfg p)" using spec by (auto simp: load_result_def loads_def)
      have len: "length (fs_slots s1) = n_params"
        using v(2) Cons.prems(3) length_view_slots [of img s1] by (simp add: length_view_slots)
      have ih: "case r of Inl _ \<Rightarrow> vw_store (view img s') = vw_store (view img s1) \<and> \<not> store_bootable cfg (vw_store (view img s1))
          | Inr _ \<Rightarrow> params_loaded ps (view img s1) (view img s')"
      proof (rule Cons.IH [OF _ _ len])
        show "\<forall>q \<in> set ps. val (view img s1) q = pm_default (param cfg q)"
        proof
          fix q assume "q \<in> set ps"
          then have "q \<noteq> p" using Cons.prems(1) by auto
          with \<open>q \<in> set ps\<close> show "val (view img s1) q = pm_default (param cfg q)" using Cons.prems(4) v(2) by simp
        qed
      qed (use Cons.prems l Inr in auto)
      have at_p: "vw_slots (view img s1) ! p = (v, d, e)" using v(2) p(2) by (simp add: length_view_slots)
      have other: "q \<noteq> p \<Longrightarrow> vw_slots (view img s1) ! q = vw_slots (view img s) ! q"
        "persistence_store (pm_persistence (param cfg q)) = None \<Longrightarrow> vw_slots (view img s1) ! q = vw_slots (view img s) ! q" for q
        using v(2) Some by (cases "q = p"; auto)+
      have frame: "vw_store (view img s1) = vw_store (view img s)" "vw_groups (view img s1) = vw_groups (view img s)"
        "length (vw_slots (view img s1)) = length (vw_slots (view img s))" using v(2) by simp_all
      show ?thesis
        using ih [unfolded frame] v(1,3) at_p other frame Some Cons.prems(1) by (cases r) (auto simp: params_loaded_def)
    qed
  qed
qed

definition groups_loaded :: "nat list \<Rightarrow> 'v pview \<Rightarrow> 'v pview \<Rightarrow> bool" where
  "groups_loaded gs vw vw' \<longleftrightarrow>
     length (vw_slots vw') = length (vw_slots vw) \<and> length (vw_groups vw') = length (vw_groups vw) \<and>
     vw_store vw' = vw_store vw \<and>
     (\<forall>q. (\<forall>g \<in> set gs. q \<notin> set (members cfg g)) \<longrightarrow> vw_slots vw' ! q = vw_slots vw ! q) \<and>
     (\<forall>g \<in> set gs. reload_group cfg g (vw_store vw (gr_store (group cfg g)) (group_key cfg g)) =
        Some (map (val vw') (members cfg g)))"

lemma members_apart:
  assumes "g < n_groups" "h < n_groups" "g \<noteq> h" "q \<in> set (members cfg g)"
  shows "q \<notin> set (members cfg h)"
  using assms group_facts(5) [of g q] group_facts(5) [of h q] by auto

lemma load_groups_spec:
  assumes "distinct gs" and "set gs \<subseteq> {..<n_groups}" and "length (fs_slots s) = n_params"
    and "\<forall>g \<in> set gs. \<forall>q \<in> set (members cfg g). val (view img s) q = pm_default (param cfg q)"
    and "run_ok (load_persistent_group cfg) gs s = (r, s')"
  shows "case r of
      Inl _ \<Rightarrow> vw_store (view img s') = vw_store (view img s) \<and> \<not> store_bootable cfg (vw_store (view img s))
    | Inr _ \<Rightarrow> groups_loaded gs (view img s) (view img s')"
  using assms
proof (induction gs arbitrary: s)
  case Nil
  then show ?case by (auto simp: groups_loaded_def)
next
  case (Cons g gs)
  obtain r1 s1 where l: "load_persistent_group cfg g s = (r1, s1)" by fastforce
  have g: "g < n_groups" "\<forall>q \<in> set (members cfg g). val (view img s) q = pm_default (param cfg q)"
    using Cons.prems by auto
  note spec = load_group_spec [OF g(1) l Cons.prems(3) g(2)]
  show ?case
  proof (cases r1)
    case (Inl e)
    then show ?thesis
      using spec Cons.prems(5) l g(1) by (auto simp: group_result_def store_bootable_def)
  next
    case (Inr u)
    then obtain vs where v: "reload_group cfg g (vw_store (view img s) (gr_store (group cfg g)) (group_key cfg g)) = Some vs"
      "loads_group g vs (view img s) (view img s1)" using spec by (auto simp: group_result_def)
    have len: "length (fs_slots s1) = n_params"
      using v(2) Cons.prems(3) by (simp add: loads_group_def length_view_slots)
    have apart: "h \<in> set gs \<Longrightarrow> q \<in> set (members cfg h) \<Longrightarrow> q \<notin> set (members cfg g)" for h q
      using members_apart [of h g q] Cons.prems(1,2) by auto
    have ih: "case r of Inl _ \<Rightarrow> vw_store (view img s') = vw_store (view img s1) \<and> \<not> store_bootable cfg (vw_store (view img s1))
        | Inr _ \<Rightarrow> groups_loaded gs (view img s1) (view img s')"
    proof (rule Cons.IH [OF _ _ len])
      show "\<forall>h \<in> set gs. \<forall>q \<in> set (members cfg h). val (view img s1) q = pm_default (param cfg q)"
      proof (intro ballI)
        fix h q assume h: "h \<in> set gs" "q \<in> set (members cfg h)"
        then have "vw_slots (view img s1) ! q = vw_slots (view img s) ! q"
          using v(2) apart by (simp add: loads_group_def)
        then show "val (view img s1) q = pm_default (param cfg q)" using Cons.prems(4) h by simp
      qed
    qed (use Cons.prems l Inr in auto)
    have same: "map (val vw') (members cfg g) = map (val (view img s1)) (members cfg g)"
      if "groups_loaded gs (view img s1) vw'" for vw'
    proof (rule map_cong [OF refl])
      fix q assume "q \<in> set (members cfg g)"
      then have "\<forall>h \<in> set gs. q \<notin> set (members cfg h)" using apart by blast
      with that show "val vw' q = val (view img s1) q" by (simp add: groups_loaded_def)
    qed
    show ?thesis
    proof (cases r)
      case (Inl e)
      then show ?thesis using ih v(2) by (simp add: loads_group_def)
    next
      case (Inr u)
      then have rest: "groups_loaded gs (view img s1) (view img s')" using ih by simp
      show ?thesis
        using Inr rest v same [OF rest] unfolding groups_loaded_def loads_group_def
        by (simp add: ball_simps) (metis length_list_update)
    qed
  qed
qed

definition reset_slots :: "nat list \<Rightarrow> 'v pview \<Rightarrow> 'v pview \<Rightarrow> bool" where
  "reset_slots ps vw vw' \<longleftrightarrow>
     length (vw_slots vw') = length (vw_slots vw) \<and> vw_groups vw' = vw_groups vw \<and> vw_store vw' = vw_store vw \<and>
     (\<forall>q. q \<notin> set ps \<longrightarrow> vw_slots vw' ! q = vw_slots vw ! q) \<and>
     (\<forall>p \<in> set ps. val vw' p = pm_default (param cfg p))"

lemma slot_initialize_view:
  assumes "p < length (fs_slots s)"
  shows "reset_slots [p] (view img s) (view img (slot_initialize cfg p s))"
proof -
  obtain r s1 where w: "cell_write cfg p (pm_default (param cfg p)) s = (r, s1)" by fastforce
  then obtain s2 where s2: "quiet img s s2" "s1 = upd_slot p (\<lambda>sl. sl\<lparr>sl_value := pm_default (param cfg p)\<rparr>) s2"
    by (rule cell_write_spec)
  have "slot s1 p = (slot s2 p)\<lparr>sl_value := pm_default (param cfg p)\<rparr>"
    using s2 quiet_state(1) [OF s2(1)] assms by (simp add: upd_slot_def)
  then show ?thesis
    using w s2 quiet_view [OF s2(1)] assms
    by (auto simp: slot_initialize_def reset_slots_def view_upd_slot slot_view_def length_view_slots)
qed

lemma fold_slot_initialize:
  assumes "\<forall>p \<in> set ps. p < length (fs_slots s)"
  shows "reset_slots ps (view img s) (view img (fold (slot_initialize cfg) ps s))"
  using assms
proof (induction ps arbitrary: s)
  case Nil
  then show ?case by (simp add: reset_slots_def)
next
  case (Cons p ps)
  have 1: "reset_slots [p] (view img s) (view img (slot_initialize cfg p s))"
    using Cons.prems by (intro slot_initialize_view) simp
  then have "length (fs_slots (slot_initialize cfg p s)) = length (fs_slots s)"
    by (simp add: reset_slots_def length_view_slots)
  then have 2: "reset_slots ps (view img (slot_initialize cfg p s)) (view img (fold (slot_initialize cfg) ps (slot_initialize cfg p s)))"
    using Cons.prems by (intro Cons.IH) simp
  have "val (view img (fold (slot_initialize cfg) ps (slot_initialize cfg p s))) p = pm_default (param cfg p)"
    using 1 2 by (cases "p \<in> set ps") (auto simp: reset_slots_def)
  then show ?case using 1 2 by (auto simp: reset_slots_def)
qed

lemma fold_group_initialize:
  "vw_slots (view img (fold (\<lambda>g. upd_group g group_initialize) gs s)) = vw_slots (view img s) \<and>
   vw_store (view img (fold (\<lambda>g. upd_group g group_initialize) gs s)) = vw_store (view img s) \<and>
   length (vw_groups (view img (fold (\<lambda>g. upd_group g group_initialize) gs s))) = length (vw_groups (view img s))"
  by (induction gs arbitrary: s) (simp_all add: view_upd_group)

lemma initialize_stores_quiet:
  assumes "set sts \<subseteq> set (px_stores cfg)" and "run_ok (\<lambda>st. param_call (st_initialize st)) sts s = (r, s')"
  shows "quiet img s s' \<and> (isl r \<longrightarrow> (\<exists>st \<in> set sts. \<exists>w. isl (fst (st_initialize st w))))"
  using assms
proof (induction sts arbitrary: s)
  case Nil
  then show ?case by auto
next
  case (Cons st sts)
  obtain r1 s1 where c: "param_call (st_initialize st) s = (r1, s1)" by fastforce
  obtain i where i: "i < length (px_stores cfg)" "st = store_at cfg i"
    using Cons.prems(1) by (auto simp: in_set_conv_nth)
  have "img j w' = img j w" if "st_initialize st w = (ri, w')" for j w w' ri
    using that i initialize_frame [OF i(1), of j w ri w'] kv_store.initialize_img [OF stores [OF i(1)], of w ri w']
    by (cases "j = i") auto
  with c have q: "quiet img s s1" by (rule param_call_quiet)
  show ?case
  proof (cases r1)
    case (Inl e)
    then have "isl (fst (st_initialize st (fs_world s)))" using c by (auto simp: param_call_def split: prod.splits)
    then show ?thesis using Cons.prems(2) c Inl q by auto
  next
    case (Inr u)
    then show ?thesis using Cons.IH [of s1] Cons.prems c quiet_trans [OF q] by auto
  qed
qed

lemma loaded_durable:
  assumes params: "params_loaded [0..<n_params] vw vw1" and groups: "groups_loaded [0..<n_groups] vw1 vw'"
    and default: "\<forall>p < n_params. val vw p = pm_default (param cfg p)"
    and len: "length (vw_slots vw) = n_params" "length (vw_groups vw) = n_groups"
  shows "durable cfg vw' \<and> booted cfg (vw_store vw) (val vw')"
proof -
  have store: "vw_store vw' = vw_store vw" using params groups by (simp add: params_loaded_def groups_loaded_def)
  have group: "reload_group cfg g (vw_store vw (gr_store (group cfg g)) (group_key cfg g)) = Some (map (val vw') (members cfg g))"
    if "g < n_groups" for g
    using that params groups by (simp add: params_loaded_def groups_loaded_def)
  have same: "vw_slots vw' ! p = vw_slots vw1 ! p" if "\<And>g. pm_persistence (param cfg p) \<noteq> Transactional g" for p
  proof -
    have "\<forall>g \<in> set [0..<n_groups]. p \<notin> set (members cfg g)" using that group_facts(5) [of _ p] by fastforce
    then show ?thesis using groups by (simp add: groups_loaded_def)
  qed
  have rec: "reload cfg p (vw_store vw st (param_key cfg p)) = Some (val vw' p) \<and>
      (erasing vw' p \<longrightarrow> val vw' p = pm_default (param cfg p))"
    if "p < n_params" "persistence_store (pm_persistence (param cfg p)) = Some st" for p st
  proof -
    have "vw_slots vw' ! p = vw_slots vw1 ! p" using that(2) by (intro same) auto
    then show ?thesis using params that by (simp add: params_loaded_def)
  qed
  have vol: "val vw' p = pm_default (param cfg p)" if "p < n_params" "pm_persistence (param cfg p) = Volatile" for p
  proof -
    have "vw_slots vw' ! p = vw_slots vw1 ! p" using that(2) by (intro same) auto
    then show ?thesis using params that default by (simp add: params_loaded_def)
  qed
  have "valid_value cfg p (val vw' p) \<and> param_durable cfg vw' p" if p: "p < n_params" for p
  proof (cases "pm_persistence (param cfg p)")
    case Volatile
    then show ?thesis using vol p default_valid by (simp add: param_durable_def)
  next
    case (Transactional g)
    note g = transactional_member [OF p Transactional]
    have "list_all2 (\<lambda>p v. valid_value cfg p v) (members cfg g) (map (val vw') (members cfg g))"
      by (rule reload_group_valid [OF g(1) group [OF g(1)]])
    then have "valid_value cfg p (val vw' p)" using g(2) by (auto simp: list_all2_map2 list_all2_same)
    then show ?thesis using Transactional by (simp add: param_durable_def)
  qed (use rec [OF p] reload_valid [OF p] store in \<open>auto simp: param_durable_def\<close>)
  moreover have "booted cfg (vw_store vw) (val vw')"
    using rec vol group by (auto simp: booted_def split: persistence_policy.splits)
  ultimately show ?thesis
    using params groups len group store by (simp add: durable_def group_durable_def params_loaded_def groups_loaded_def)
qed

lemma initialize_persistence_spec:
  assumes len: "length (fs_slots s) = n_params" "length (fs_groups s) = n_groups"
    and default: "\<forall>p < n_params. val (view img s) p = pm_default (param cfg p)"
    and call: "initialize_persistence cfg s = (r, s')"
  shows "vw_store (view img s') = vw_store (view img s)"
    and "r = Inr () \<Longrightarrow> durable cfg (view img s') \<and> booted cfg (vw_store (view img s)) (val (view img s'))"
    and "isl r \<Longrightarrow> \<not> store_bootable cfg (vw_store (view img s)) \<or> (\<exists>st \<in> set (px_stores cfg). \<exists>w. isl (fst (st_initialize st w)))"
proof -
  obtain r1 s1 where i: "run_ok (\<lambda>st. param_call (st_initialize st)) (px_stores cfg) s = (r1, s1)" by fastforce
  have q: "quiet img s s1" "isl r1 \<longrightarrow> (\<exists>st \<in> set (px_stores cfg). \<exists>w. isl (fst (st_initialize st w)))"
    using initialize_stores_quiet [OF _ i] by auto
  obtain r2 s2 where p: "run_ok (load_persistent_parameter cfg) [0..<n_params] s1 = (r2, s2)" by fastforce
  obtain r3 s3 where g: "run_ok (load_persistent_group cfg) [0..<n_groups] s2 = (r3, s3)" by fastforce
  have view1: "view img s1 = view img s" by (rule quiet_view [OF q(1)])
  have params: "case r2 of
      Inl _ \<Rightarrow> vw_store (view img s2) = vw_store (view img s) \<and> \<not> store_bootable cfg (vw_store (view img s))
    | Inr _ \<Rightarrow> params_loaded [0..<n_params] (view img s) (view img s2)"
    by (rule load_parameters_spec [OF _ _ _ _ p, unfolded view1])
      (use len default quiet_state(1) [OF q(1)] in auto)
  have groups: "case r3 of
      Inl _ \<Rightarrow> vw_store (view img s3) = vw_store (view img s) \<and> \<not> store_bootable cfg (vw_store (view img s))
    | Inr _ \<Rightarrow> groups_loaded [0..<n_groups] (view img s2) (view img s3)"
    if loaded: "params_loaded [0..<n_params] (view img s) (view img s2)"
  proof -
    have "val (view img s2) q = pm_default (param cfg q)" if "g < n_groups" "q \<in> set (members cfg g)" for g q
      using loaded default group_facts(4) [OF that] group_facts(5) [OF that] by (simp add: params_loaded_def)
    moreover have "length (fs_slots s2) = n_params" "vw_store (view img s2) = vw_store (view img s)"
      using loaded len by (simp_all add: params_loaded_def length_view_slots)
    ultimately show ?thesis
      using load_groups_spec [OF distinct_upt _ _ _ g] by (cases r3) (simp_all add: subset_iff)
  qed
  show "vw_store (view img s') = vw_store (view img s)"
    using call i p g params groups view1
    by (cases r1; cases r2; cases r3) (auto simp: initialize_persistence_def params_loaded_def groups_loaded_def)
  show "isl r \<Longrightarrow> \<not> store_bootable cfg (vw_store (view img s)) \<or> (\<exists>st \<in> set (px_stores cfg). \<exists>w. isl (fst (st_initialize st w)))"
    using call i p g params groups q(2)
    by (cases r1; cases r2; cases r3) (auto simp: initialize_persistence_def)
  assume "r = Inr ()"
  then have ok: "params_loaded [0..<n_params] (view img s) (view img s2)" "groups_loaded [0..<n_groups] (view img s2) (view img s3)"
    "s' = s3"
    using call i p g params groups by (cases r1; cases r2; cases r3; auto simp: initialize_persistence_def)+
  show "durable cfg (view img s') \<and> booted cfg (vw_store (view img s)) (val (view img s'))"
    unfolding ok(3) using default len by (intro loaded_durable [OF ok(1,2)]) (simp_all add: length_view_slots length_view_groups)
qed

lemma init_spec:
  assumes len: "length (fs_slots s) = n_params" "length (fs_groups s) = n_groups" and call: "params_init cfg s = (r, s')"
  shows "vw_store (view img s') = vw_store (view img s)"
    and "r = Inr () \<Longrightarrow> durable cfg (view img s') \<and> booted cfg (vw_store (view img s)) (val (view img s')) \<and> fs_ready s'"
    and "isl r \<Longrightarrow> \<not> store_bootable cfg (vw_store (view img s)) \<or> (\<exists>st \<in> set (px_stores cfg). \<exists>w. isl (fst (st_initialize st w)))"
proof -
  define s1 where "s1 = s\<lparr>fs_ready := False, fs_mutation_open := False, fs_activating_changes := False,
      fs_persistence_active := False, fs_schedule_persistence := False\<rparr>"
  define s2 where "s2 = fold (slot_initialize cfg) [0..<n_params] s1"
  define s3 where "s3 = fold (\<lambda>c. upd_change c (\<lambda>_. change_initialize (of_nat c)
      (of_nat (bc_parameter (px_changes cfg ! c))) (of_nat (bc_observer (px_changes cfg ! c)))))
    [0..<length (px_changes cfg)] s2"
  define s4 where "s4 = fold (\<lambda>g. upd_group g group_initialize) [0..<n_groups] s3"
  have view1: "view img s1 = view img s" by (simp add: s1_def view_simps)
  have reset: "reset_slots [0..<n_params] (view img s) (view img s2)"
    using fold_slot_initialize [of "[0..<n_params]" s1] len(1) view1 by (simp add: s1_def s2_def)
  have view3: "view img s3 = view img s2" unfolding s3_def by (rule fold_same_view) (rule view_upd_change)
  have view4: "vw_slots (view img s4) = vw_slots (view img s2)" "vw_store (view img s4) = vw_store (view img s)"
    "length (vw_groups (view img s4)) = n_groups"
    using fold_group_initialize [of "[0..<n_groups]" s3] view3 reset len(2) length_view_groups [of img s]
    by (simp_all add: s4_def reset_slots_def)
  have len4: "length (fs_slots s4) = n_params" "length (fs_groups s4) = n_groups"
    using view4(1,3) reset len(1) length_view_slots [of img s4] by (simp_all add: reset_slots_def length_view_slots length_view_groups)
  have default: "\<forall>p < n_params. val (view img s4) p = pm_default (param cfg p)"
    using view4(1) reset by (simp add: reset_slots_def)
  obtain r5 s5 where i: "initialize_persistence cfg s4 = (r5, s5)" by fastforce
  note spec = initialize_persistence_spec [OF len4 default i, unfolded view4(2)]
  have "(case initialize_persistence cfg s4 of (Inl e, s) \<Rightarrow> (Inl e, s)
      | (Inr _, s) \<Rightarrow> (Inr (), s\<lparr>fs_ready := True, fs_mutation_open := True\<rparr>)) = (r, s')"
    using call by (simp add: params_init_def Let_def s1_def s2_def s3_def s4_def)
  then have result: "r = r5" "s' = (if isl r5 then s5 else s5\<lparr>fs_ready := True, fs_mutation_open := True\<rparr>)"
    using i by (cases r5; auto)+
  have view5: "view img s' = view img s5" using result(2) by (simp add: view_simps)
  show "vw_store (view img s') = vw_store (view img s)" using spec(1) view5 by simp
  show "r = Inr () \<Longrightarrow> durable cfg (view img s') \<and> booted cfg (vw_store (view img s)) (val (view img s')) \<and> fs_ready s'"
    using spec(2) view5 result by simp
  show "isl r \<Longrightarrow> \<not> store_bootable cfg (vw_store (view img s)) \<or> (\<exists>st \<in> set (px_stores cfg). \<exists>w. isl (fst (st_initialize st w)))"
    using spec(3) result(1) by simp
qed

end

end
