(* ===== verification/Parameter_System.thy ===== *)
theory Parameter_System
  imports Parameter_Boot
begin

text \<open>
  The parameter facility as a state machine: it starts with a boot from any content of the stores, and then
  the entry points of \<^verbatim>\<open>parameters/api.hpp\<close> and the lifecycle hooks run in any order, with any arguments that
  the static assertions and the value types admit, while the rest of the system changes the world in any way
  that leaves the stores alone. Every reachable state satisfies \<open>durable\<close>.
\<close>

section \<open>The state machine\<close>

inductive params_step ::
  "('v::linorder, 'w) param_config \<Rightarrow> (nat \<Rightarrow> 'w \<Rightarrow> image) \<Rightarrow> ('v, 'w) params \<Rightarrow> ('v, 'w) params \<Rightarrow> bool"
  for cfg img where
  step_env: "(\<And>i. img i w = img i (fs_world s)) \<Longrightarrow> params_step cfg img s (s\<lparr>fs_world := w\<rparr>)"
| step_get: "p < length (px_parameters cfg) \<Longrightarrow> read_parameter cfg p no_wait s = (rv, s') \<Longrightarrow> params_step cfg img s s'"
| step_query: "p < length (px_parameters cfg) \<Longrightarrow> parameter_record_of cfg p s = (rr, s') \<Longrightarrow> params_step cfg img s s'"
| step_snapshot: "snapshot_parameters cfg ps no_wait s = (rs, s') \<Longrightarrow> params_step cfg img s s'"
| step_set: "p < length (px_parameters cfg) \<Longrightarrow> pm_type (param cfg p) c \<Longrightarrow> set_frontend cfg p no_wait c s = (ru, s') \<Longrightarrow>
    params_step cfg img s s'"
| step_reset: "p < length (px_parameters cfg) \<Longrightarrow> reset_frontend cfg p s = (ru, s') \<Longrightarrow> params_step cfg img s s'"
| step_privileged: "p < length (px_parameters cfg) \<Longrightarrow> pm_type (param cfg p) c \<Longrightarrow> privileged_set cfg p c s = (ru, s') \<Longrightarrow>
    params_step cfg img s s'"
| step_set_all: "transaction_ok cfg (map fst as) \<Longrightarrow> one_record cfg (map fst as) \<Longrightarrow>
    (\<And>p v. (p, v) \<in> set as \<Longrightarrow> pm_type (param cfg p) v) \<Longrightarrow> set_all_parameters cfg as no_wait s = (rt, s') \<Longrightarrow>
    params_step cfg img s s'"
| step_save: "p < length (px_parameters cfg) \<Longrightarrow> save_parameter cfg p no_wait s = (rn, s') \<Longrightarrow> params_step cfg img s s'"
| step_save_all: "save_all_parameters cfg no_wait s = (rp, s') \<Longrightarrow> params_step cfg img s s'"
| step_flush: "flush_parameters cfg no_wait s = (rp, s') \<Longrightarrow> params_step cfg img s s'"
| step_deferred: "run_deferred cfg s = (re, s') \<Longrightarrow> params_step cfg img s s'"
| step_activate: "activate_changes cfg s = (re, s') \<Longrightarrow> params_step cfg img s s'"
| step_runtime: "params_step cfg img s (activate_runtime cfg s)"
| step_start: "params_start s = (re, s') \<Longrightarrow> params_step cfg img s s'"
| step_stop: "params_stop cfg s = (re, s') \<Longrightarrow> params_step cfg img s s'"
| step_deinit: "params_deinit s = (re, s') \<Longrightarrow> params_step cfg img s s'"

inductive params_reachable ::
  "('v::linorder, 'w) param_config \<Rightarrow> (nat \<Rightarrow> 'w \<Rightarrow> image) \<Rightarrow> ('v, 'w) params \<Rightarrow> bool" for cfg img where
  boot: "length (fs_slots s) = length (px_parameters cfg) \<Longrightarrow> length (fs_groups s) = length (px_groups cfg) \<Longrightarrow>
    params_init cfg s = (Inr (), s') \<Longrightarrow> params_reachable cfg img s'"
| step: "params_reachable cfg img s \<Longrightarrow> params_step cfg img s s' \<Longrightarrow> params_reachable cfg img s'"

text \<open>The policies under which a set is written to a store before it takes effect.\<close>

fun immediate_commit :: "('v, 'w) param_config \<Rightarrow> persistence_policy \<Rightarrow> bool" where
  "immediate_commit cfg (Immediate _) = True"
| "immediate_commit cfg (Transactional g) = (persistence_kind_of (gr_commit (group cfg g)) = Pk_Immediate)"
| "immediate_commit cfg _ = False"

context parameter_world
begin

lemma set_parameter_durable:
  assumes "durable cfg (view img s)" and "p < n_params" and "pm_type (param cfg p) c"
    and "reset \<Longrightarrow> c = pm_default (param cfg p)" and "set_parameter cfg p c no_wait origin reset s = (r, s')"
  shows "durable cfg (view img s')"
  using set_parameter_spec [OF assms] by simp

lemma quiet_durable: "quiet img s s' \<Longrightarrow> durable cfg (view img s) \<Longrightarrow> durable cfg (view img s')"
  by (simp add: quiet_view)

lemma default_type: "p < n_params \<Longrightarrow> pm_type (param cfg p) (pm_default (param cfg p))"
  using param_facts(2) by (simp add: param_ok_def)

lemma step_durable:
  assumes "params_step cfg img s s'" and "durable cfg (view img s)"
  shows "durable cfg (view img s')"
  using assms
proof (induction rule: params_step.induct)
  case (step_env w s)
  then have "quiet img s (s\<lparr>fs_world := w\<rparr>)" by (auto simp: quiet_def)
  then show ?case using step_env.prems by (rule quiet_durable)
next
  case (step_get p no_wait s rv s')
  then show ?case using read_spec(1) [of p no_wait s rv s'] by simp
next
  case (step_query p s rr s')
  then show ?case using query_quiet quiet_durable by blast
next
  case (step_snapshot ps no_wait s rs s')
  then show ?case using snapshot_spec quiet_durable by blast
next
  case (step_set p c no_wait s ru s')
  then show ?case using set_parameter_durable [of s p c False no_wait Uo_LocalSet ru s']
    by (auto simp: set_frontend_def Let_def split: if_splits)
next
  case (step_reset p s ru s')
  then show ?case
    using set_parameter_durable [of s p "pm_default (param cfg p)" True False Uo_Reset ru s'] default_type
    by (auto simp: reset_frontend_def split: if_splits)
next
  case (step_privileged p c s ru s')
  then show ?case using set_parameter_durable [of s p c False False Uo_PrivilegedProvisioning ru s']
    by (auto simp: privileged_set_def)
next
  case (step_set_all as no_wait s rt s')
  then show ?case using set_all_spec [of s as no_wait rt s'] by (cases rt) auto
next
  case (step_save p no_wait s rn s')
  then show ?case using save_spec settles_durable by blast
next
  case (step_save_all no_wait s rp s')
  then show ?case using save_all_spec settles_durable by blast
next
  case (step_flush no_wait s rp s')
  then show ?case using flush_spec settles_durable by blast
next
  case (step_deferred s re s')
  then show ?case using run_deferred_spec settles_durable by blast
next
  case (step_activate s re s')
  then show ?case by (simp add: activate_changes_view)
next
  case (step_runtime s)
  then show ?case by (simp add: activate_runtime_view)
next
  case (step_start s re s')
  then show ?case by (auto simp: params_start_def view_simps)
next
  case (step_stop s re s')
  then show ?case using stop_spec settles_durable by blast
next
  case (step_deinit s re s')
  then show ?case by (auto simp: params_deinit_def view_simps)
qed

lemma reachable_durable: "params_reachable cfg img s \<Longrightarrow> durable cfg (view img s)"
proof (induction rule: params_reachable.induct)
  case (boot s s')
  then show ?case using init_spec(2) by blast
next
  case (step s s')
  then show ?case using step_durable by blast
qed

section \<open>What a reachable state promises\<close>

lemma durable_slot:
  assumes "durable cfg (view img s)" and "p < n_params"
  shows "vw_slots (view img s) ! p = (value_of s p, pr_dirty (sl_record (slot s p)), sl_erase_pending (slot s p))"
  using assms by (simp add: durable_def length_view_slots val_view slot_view_def)

lemma clean_reload:
  assumes "durable cfg (view img s)" and "p < n_params" "persistence_store (pm_persistence (param cfg p)) = Some st"
    and "\<not> pr_dirty (sl_record (slot s p))"
  shows "reload cfg p (img st (fs_world s) (param_key cfg p)) = Some (value_of s p)"
  using assms durable_slot [OF assms(1,2)] by (auto simp: durable_def param_durable_def view_def)

lemma clean_group_reload:
  assumes inv: "durable cfg (view img s)" and g: "g < n_groups" and "\<not> gs_dirty (fs_groups s ! g)"
  shows "reload_group cfg g (img (gr_store (group cfg g)) (fs_world s) (group_key cfg g)) = Some (map (value_of s) (members cfg g))"
proof -
  have "g < length (fs_groups s)" using inv g by (simp add: durable_def length_view_groups)
  then have "\<not> vw_groups (view img s) ! g" using assms(3) by (simp add: gdirty_view)
  moreover have "map (val (view img s)) (members cfg g) = map (value_of s) (members cfg g)"
    using value_view [OF inv] group_facts(4) [OF g] by simp
  ultimately show ?thesis using inv g by (simp add: durable_def group_durable_def view_def)
qed

text \<open>When everything persistent is clean, the next boot succeeds and gives back every persistent value.\<close>

definition settled :: "('v, 'w) params \<Rightarrow> bool" where
  "settled s \<longleftrightarrow>
     (\<forall>p < n_params. persistence_store (pm_persistence (param cfg p)) \<noteq> None \<longrightarrow> \<not> pr_dirty (sl_record (slot s p))) \<and>
     (\<forall>g < n_groups. \<not> gs_dirty (fs_groups s ! g))"

lemma settled_bootable:
  assumes "durable cfg (view img s)" and "settled s"
  shows "store_bootable cfg (\<lambda>i. img i (fs_world s))"
  using assms clean_reload [OF assms(1)] clean_group_reload [OF assms(1)]
  by (auto simp: store_bootable_def settled_def)

lemma booted_again:
  assumes inv: "durable cfg (view img s)" and settled: "settled s" and p: "p < n_params" "persistent (pm_persistence (param cfg p))"
    and boot: "booted cfg (\<lambda>i. img i (fs_world s)) f"
  shows "f p = value_of s p"
proof (cases "pm_persistence (param cfg p)")
  case (Transactional g)
  note g = transactional_member [OF p(1) Transactional]
  have "map f (members cfg g) = map (value_of s) (members cfg g)"
    using clean_group_reload [OF inv g(1)] settled boot g(1) by (simp add: settled_def booted_def)
  then show ?thesis using g(2) by simp
qed (use clean_reload [OF inv p(1)] settled boot p in \<open>auto simp: settled_def booted_def\<close>)

lemma reboot_spec:
  assumes inv: "durable cfg (view img s)" and settled: "settled s"
    and len: "length (fs_slots s1) = n_params" "length (fs_groups s1) = n_groups"
    and same: "\<And>i. img i (fs_world s1) = img i (fs_world s)"
    and init: "\<And>st w. st \<in> set (px_stores cfg) \<Longrightarrow> \<not> isl (fst (st_initialize st w))"
  shows "\<exists>s2. params_init cfg s1 = (Inr (), s2) \<and>
    (\<forall>p < n_params. persistent (pm_persistence (param cfg p)) \<longrightarrow> value_of s2 p = value_of s p)"
proof -
  obtain r s2 where i: "params_init cfg s1 = (r, s2)" by fastforce
  have store: "vw_store (view img s1) = (\<lambda>i. img i (fs_world s))" using same by (simp add: view_def)
  note spec = init_spec [OF len i, unfolded store]
  have "\<not> isl r" using spec(3) settled_bootable [OF inv settled] init by blast
  then have r: "r = Inr ()" by (cases r) auto
  then have "durable cfg (view img s2)" "booted cfg (\<lambda>i. img i (fs_world s)) (val (view img s2))"
    using spec(2) by auto
  then have "value_of s2 p = value_of s p" if "p < n_params" "persistent (pm_persistence (param cfg p))" for p
    using booted_again [OF inv settled that] value_view that(1) by auto
  with i r show ?thesis by auto
qed

section \<open>Setting a parameter succeeds\<close>

lemma prepare_inactive:
  assumes "\<not> immediate_commit cfg (pm_persistence (param cfg p))"
  shows "prepare_immediate_persistence cfg p v reset s = (Inr (), s)"
  using assms
  by (cases "(cfg, pm_persistence (param cfg p))" rule: immediate_commit.cases)
    (auto simp: prepare_immediate_persistence_def split: persistence_policy.splits)

lemma cell_write_succeeds: "fst (cell_write cfg p v s) = Inr ()"
  by (metis cell_write_spec prod.collapse)

lemma set_succeeds:
  assumes "\<not> px_in_isr cfg (fs_world s)" and "\<not> mutation_closed cfg s" and "normalize_param cfg p c = Inr n"
    and "\<not> immediate_commit cfg (pm_persistence (param cfg p))"
  shows "\<not> isl (fst (set_parameter cfg p c False origin reset s))"
proof -
  obtain r1 s1 where l: "lock_gate cfg Write_Gate False s = (r1, s1)" by fastforce
  obtain r2 s2 where cr: "cell_read cfg p False s1 = (r2, s2)" by fastforce
  have r: "r1 = Inr ()" "r2 = Inr (value_of s1 p)" using lock_forever [OF l] cell_read_forever [OF cr] by auto
  have "\<not> isl (fst (set_unchanged cfg p n before origin reset s2))" for before
    by (simp add: set_unchanged_def prepare_inactive [OF assms(4)] case_prod_unfold Let_def)
  moreover have "\<not> isl (fst (set_changed cfg p oper n old before state origin reset s2))" for oper old before state
    using cell_write_succeeds [of p "nm_value n" s2]
    by (auto simp: set_changed_def prepare_inactive [OF assms(4)] case_prod_unfold Let_def split: sum.splits)
  ultimately show ?thesis using assms(1-3) l cr r by (simp add: set_parameter_def Let_def)
qed

end

end
