(* ===== verification/Parameter_Example.thy ===== *)
theory Parameter_Example
  imports Parameter_System
begin

text \<open>
  A configured system on which the assumptions of \<open>parameter_world\<close> hold: five parameters of one byte over one
  settings store, with an immediate, a deferred and a volatile policy and two groups with immediate
  commit, one member each. Its world is the settings storage in memory.
\<close>

definition byte_codec :: "int codec" where
  "byte_codec = \<lparr>co_encoded_size = 1, co_encode = scalar_encode 1, co_decode = scalar_decode 1 False\<rparr>"

definition byte_param :: "u64 \<Rightarrow> int validation \<Rightarrow> persistence_policy \<Rightarrow> int parameter" where
  "byte_param i validation policy =
     \<lparr>pm_default = 10, pm_type = scalar_range 1 False, pm_finite = (\<lambda>_. True), pm_version = 1,
      pm_stable_id = Some i, pm_validation = validation, pm_access = ReadWrite, pm_storage = Sto_Atomic,
      pm_persistence = policy, pm_load_failure = UseDefaultAndReport, pm_codec = byte_codec, pm_migrate = None\<rparr>"

definition pdemo_group :: "u64 \<Rightarrow> nat \<Rightarrow> int param_group" where
  "pdemo_group i p =
     \<lparr>gr_members = [p], gr_store = 0, gr_stable_id = i, gr_version = 1, gr_commit = Immediate 0, gr_migrate = None\<rparr>"

definition pdemo :: "(int, settings_memory) param_config" where
  "pdemo =
     \<lparr>px_parameters = [byte_param 1 (Range 0 100 Clamp) (Immediate 0), byte_param 2 AcceptAny (Deferred 0 5),
                       byte_param 3 AcceptAny (Transactional 0), byte_param 4 AcceptAny (Transactional 1),
                       byte_param 5 AcceptAny Volatile],
      px_changes = [], px_groups = [pdemo_group 16 2, pdemo_group 17 3],
      px_stores = [settings_store ''solar'' memory_settings],
      px_max_record = 64, px_max_group_record = 64, px_migration = False, px_stop_flush = True,
      px_ticks_per_sec = 1000, px_lock = (\<lambda>_ _ w. (Inr (), w)), px_in_isr = (\<lambda>_. False),
      px_system_state = (\<lambda>_. Sys_Running), px_after = (\<lambda>d _. d), px_expired = (\<lambda>_ _. True),
      px_remaining = (\<lambda>_ _. 0), px_schedule = (\<lambda>_ w. (Inr (), w)), px_cancel = (\<lambda>w. (Inr (), w)),
      px_quiescent = (\<lambda>_. True), px_wait_quiescent = (\<lambda>w. (True, w))\<rparr>"

definition pdemo_img :: "nat \<Rightarrow> settings_memory \<Rightarrow> image" where
  "pdemo_img i = (if i = 0 then settings_image ''solar'' sm_values else (\<lambda>_ _. None))"

lemma byte_decode_range: "scalar_decode 1 False bs = Inr v \<Longrightarrow> scalar_range 1 False v"
  using uint_lt2p [of "bs ! 0"]
  by (auto simp: scalar_decode_def scalar_value_def scalar_range_def split: if_splits)

lemma byte_codec_ok: "codec_ok (scalar_range 1 False) byte_codec"
  using scalar_codec_roundtrip [of 1 False] byte_decode_range
  by (auto simp: codec_ok_def byte_codec_def)

lemma byte_param_ok:
  assumes "validation_ok (\<lambda>_. True) validation"
    and "\<And>c n. scalar_range 1 False c \<Longrightarrow> normalize (\<lambda>_. True) validation c = Inr n \<Longrightarrow> scalar_range 1 False (nm_value n)"
  shows "param_ok (byte_param i validation policy)"
  using assms byte_codec_ok by (auto simp: param_ok_def byte_param_def) (simp add: scalar_range_def)

lemma pdemo_params_ok:
  "param_ok (byte_param i (Range 0 100 Clamp) policy)" "param_ok (byte_param i AcceptAny policy)"
  by (rule byte_param_ok; auto simp: scalar_range_def split: if_splits)+

lemma all_less_numeral: "(\<forall>p < numeral n. P p) \<longleftrightarrow> list_all P [0..<numeral n]"
  by (auto simp: list_all_iff)

lemma pdemo_valid: "param_config_ok pdemo"
proof -
  have "\<forall>p < 5. validate_parameter pdemo p \<and> param_ok (param pdemo p) \<and>
      (\<forall>st. persistence_store (pm_persistence (param pdemo p)) = Some st \<longrightarrow> st < 1 \<and> validate_record_size pdemo p)"
    unfolding all_less_numeral
    by (simp add: upt_rec pdemo_def pdemo_params_ok)
      (simp add: byte_param_def validate_parameter_def valid_default_def normalize_param_def validate_record_size_def
        record_envelope_size_def byte_codec_def)
  moreover have "\<forall>p < 5. \<forall>q < 5. p \<noteq> q \<longrightarrow> \<not> duplicate_stable_id (param pdemo p) (param pdemo q)"
    unfolding all_less_numeral by (simp add: upt_rec pdemo_def byte_param_def duplicate_stable_id_def)
  moreover have "validate_transactional pdemo"
    by (simp add: validate_transactional_def validate_group_def pdemo_def pdemo_group_def byte_param_def upt_rec)
  moreover have "\<forall>g < 2. group_ok pdemo (group pdemo g) \<and> gr_store (group pdemo g) < 1 \<and> validate_group_record_size pdemo g"
    unfolding all_less_numeral
    by (simp add: upt_rec pdemo_def pdemo_group_def group_ok_def validate_group_record_size_def record_envelope_size_def
        group_payload_size_def byte_param_def byte_codec_def)
  moreover have "\<forall>g < 2. \<forall>h < 2. g \<noteq> h \<longrightarrow> gr_store (group pdemo g) = gr_store (group pdemo h) \<longrightarrow>
      gr_stable_id (group pdemo g) \<noteq> gr_stable_id (group pdemo h)"
    unfolding all_less_numeral by (simp add: upt_rec pdemo_def pdemo_group_def)
  moreover have "length (px_parameters pdemo) = 5" "length (px_groups pdemo) = 2" "length (px_stores pdemo) = 1"
    "px_max_record pdemo < 2 ^ 32" "px_max_group_record pdemo < 2 ^ 32"
    by (simp_all add: pdemo_def)
  ultimately show ?thesis unfolding param_config_ok_def by simp
qed

interpretation pw: parameter_world pdemo pdemo_img
proof (rule parameter_world.intro)
  show "param_config_ok pdemo" by (rule pdemo_valid)
  show "kv_store (store_at pdemo i) (pdemo_img i)" if "i < length (px_stores pdemo)" for i
    using that zmem.settings_kv_store by (simp add: pdemo_def pdemo_img_def)
qed (auto simp: pdemo_def pdemo_img_def)

section \<open>States of the example\<close>

text \<open>The state after a boot from empty stores; \<open>refused\<close> is a settings name that cannot be written.\<close>

definition pdemo_ram :: "string option \<Rightarrow> (int, settings_memory) params" where
  "pdemo_ram refused = initial_params pdemo \<lparr>sm_values = (\<lambda>_. None), sm_refused = refused\<rparr>"

definition pdemo_boot :: "string option \<Rightarrow> (int, settings_memory) params" where
  "pdemo_boot refused = snd (params_init pdemo (pdemo_ram refused))"

lemma pdemo_ram_shape:
  "length (fs_slots (pdemo_ram refused)) = length (px_parameters pdemo)"
  "length (fs_groups (pdemo_ram refused)) = length (px_groups pdemo)"
  by (simp_all add: pdemo_ram_def initial_params_def)

lemma pdemo_stores_open: "st \<in> set (px_stores pdemo) \<Longrightarrow> \<not> isl (fst (st_initialize st w))"
  by (simp add: pdemo_def settings_store_def settings_initialize_def memory_settings_def)

lemma pdemo_boots: "params_init pdemo (pdemo_ram refused) = (Inr (), pdemo_boot refused)"
proof -
  obtain r s where i: "params_init pdemo (pdemo_ram refused) = (r, s)" by fastforce
  have "store_bootable pdemo (vw_store (view pdemo_img (pdemo_ram refused)))"
    by (simp add: store_bootable_def view_def pdemo_img_def pdemo_ram_def initial_params_def settings_image_def
        reload_def reload_group_def)
  with pw.init_spec(3) [OF pdemo_ram_shape i] pdemo_stores_open have "r = Inr ()" by (cases r) auto
  with i show ?thesis by (simp add: pdemo_boot_def)
qed

lemma pdemo_boot_reachable: "params_reachable pdemo pdemo_img (pdemo_boot refused)"
  by (rule params_reachable.boot [OF pdemo_ram_shape pdemo_boots])

end
