(* ===== verification/Parameter_Properties.thy ===== *)
theory Parameter_Properties
  imports Parameter_Example
begin

text \<open>
  The properties of the parameter facility, over its reachable states. Where a statement needs a configured
  system, it is any one on which the assumptions of \<open>parameter_world\<close> hold; the witnesses use the one of
  \<open>Parameter_Example\<close>.
\<close>

text \<open>C13: In every reachable state every parameter holds a value of its type that its validation policy
  accepts unchanged, whatever was stored, set, migrated, reset or assigned by a transaction before.\<close>

theorem values_valid:
  assumes "parameter_world cfg img" and "params_reachable cfg img s" and "p < length (px_parameters cfg)"
  shows "pm_type (param cfg p) (value_of s p) \<and>
    normalize_param cfg p (value_of s p) = Inr \<lparr>nm_value = value_of s p, nm_adjusted = False\<rparr>"
proof -
  note inv = parameter_world.reachable_durable [OF assms(1,2)]
  then have "valid_value cfg p (val (view img s) p)" using assms(3) by (simp add: durable_def)
  then show ?thesis
    using parameter_world.value_view [OF assms(1) inv assms(3)] by (simp add: valid_value_def)
qed



text \<open>C12: A transaction is atomic on the values: when it returns an error no parameter has changed, and with
  at most one group with immediate durability involved the stores have not changed either; when it succeeds every
  assigned parameter has its normalized value, every other parameter is untouched, and again every value that
  is not marked dirty is stored.\<close>

theorem transaction_atomic:
  assumes "parameter_world cfg img" and "params_reachable cfg img s" and "transaction_ok cfg (map fst as)"
    and "\<And>p v. (p, v) \<in> set as \<Longrightarrow> pm_type (param cfg p) v"
    and "set_all_parameters cfg as no_wait s = (r, s')"
  shows "case r of
      Inl _ \<Rightarrow> (\<forall>p < length (px_parameters cfg). value_of s' p = value_of s p) \<and>
        (one_record cfg (map fst as) \<longrightarrow> (\<forall>i. img i (fs_world s') = img i (fs_world s)))
    | Inr _ \<Rightarrow> \<exists>ns. normalize_transaction cfg as = Inr ns \<and>
        (\<forall>p < length (px_parameters cfg). value_of s' p = (case map_of ns p of Some n \<Rightarrow> nm_value n | None \<Rightarrow> value_of s p)) \<and>
        durable cfg (view img s')"
proof -
  note w = assms(1)
  note inv = parameter_world.reachable_durable [OF w assms(2)]
  note spec = parameter_world.set_all_spec [OF w inv assms(3-5)]
  have v: "value_of s p = val (view img s) p" if "p < length (px_parameters cfg)" for p
    using parameter_world.value_view [OF w inv that] .
  show ?thesis
  proof (cases r)
    case (Inl e)
    then have slots: "vw_slots (view img s') = vw_slots (view img s)" using spec by simp
    have "length (fs_slots s') = length (px_parameters cfg)"
      using slots inv length_view_slots [of img s'] by (simp add: durable_def)
    then have "value_of s' p = value_of s p" if "p < length (px_parameters cfg)" for p
      using slots v [OF that] val_view [of p s' img] that by (simp add: slot_view_def)
    moreover have "img i (fs_world s') = img i (fs_world s)" if "view img s' = view img s" for i
      using arg_cong [OF that, of "\<lambda>vw. vw_store vw i"] by (simp add: view_def)
    ultimately show ?thesis using Inl spec by simp
  next
    case (Inr up)
    then obtain ns where ns: "normalize_transaction cfg as = Inr ns" "durable cfg (view img s')"
      "\<forall>q < length (px_parameters cfg). val (view img s') q = assigned ns (val (view img s)) q" using spec by auto
    then have "value_of s' p = (case map_of ns p of Some n \<Rightarrow> nm_value n | None \<Rightarrow> value_of s p)"
      if "p < length (px_parameters cfg)" for p
      using parameter_world.value_view [OF w ns(2) that] v [OF that] that by (simp add: assigned_def split: option.splits)
    with ns Inr show ?thesis by auto
  qed
qed

text \<open>C14: Setting a parameter through its frontend: an error leaves every value as it was, a success installs the
  value that validation made of the candidate, reports it, and touches no other parameter. A waiting set of an
  accepted value succeeds whenever the parameter is writable without privilege, the facility is open and its
  policy does not require a store to be written first.\<close>

theorem set_installs:
  assumes "parameter_world cfg img" and "params_reachable cfg img s" and "p < length (px_parameters cfg)"
    and "pm_type (param cfg p) c" and "set_frontend cfg p no_wait c s = (r, s')"
  shows "(case r of
      Inl _ \<Rightarrow> \<forall>q < length (px_parameters cfg). value_of s' q = value_of s q
    | Inr up \<Rightarrow> \<exists>n. normalize_param cfg p c = Inr n \<and> up_effective_value up = nm_value n \<and>
        (\<forall>q < length (px_parameters cfg). value_of s' q = (if q = p then nm_value n else value_of s q))) \<and>
    (\<not> no_wait \<and> writable (pm_access (param cfg p)) \<and> \<not> privileged (pm_access (param cfg p)) \<and>
     \<not> px_in_isr cfg (fs_world s) \<and> \<not> mutation_closed cfg s \<and> \<not> isl (normalize_param cfg p c) \<and>
     \<not> immediate_commit cfg (pm_persistence (param cfg p)) \<longrightarrow> \<not> isl r)"
proof (cases "writable (pm_access (param cfg p)) \<and> \<not> privileged (pm_access (param cfg p))")
  case False
  then show ?thesis using assms(5) by (auto simp: set_frontend_def Let_def split: if_splits)
next
  case True
  note w = assms(1)
  note inv = parameter_world.reachable_durable [OF w assms(2)]
  have call: "set_parameter cfg p c no_wait Uo_LocalSet False s = (r, s')"
    using assms(5) True by (simp add: set_frontend_def Let_def)
  note spec = parameter_world.set_parameter_spec [OF w inv assms(3,4) _ call]
  have inv': "durable cfg (view img s')" using spec by simp
  have vals: "value_of s' q = val (view img s') q" "value_of s q = val (view img s) q"
    "map fst (vw_slots (view img s')) ! q = val (view img s') q" "map fst (vw_slots (view img s)) ! q = val (view img s) q"
    "q < length (map fst (vw_slots (view img s)))"
    if "q < length (px_parameters cfg)" for q
    using parameter_world.value_view [OF w inv' that] parameter_world.value_view [OF w inv that] inv inv' that
    by (simp_all add: durable_def)
  have "case r of
      Inl _ \<Rightarrow> \<forall>q < length (px_parameters cfg). value_of s' q = value_of s q
    | Inr up \<Rightarrow> \<exists>n. normalize_param cfg p c = Inr n \<and> up_effective_value up = nm_value n \<and>
        (\<forall>q < length (px_parameters cfg). value_of s' q = (if q = p then nm_value n else value_of s q))"
  proof (cases r)
    case (Inl e)
    then have "map fst (vw_slots (view img s')) = map fst (vw_slots (view img s))" using spec by simp
    then show ?thesis using Inl vals by auto
  next
    case (Inr up)
    then obtain n where n: "normalize_param cfg p c = Inr n" "up_effective_value up = nm_value n"
      "map fst (vw_slots (view img s')) = (map fst (vw_slots (view img s)))[p := nm_value n]" using spec by auto
    have "value_of s' q = (if q = p then nm_value n else value_of s q)" if "q < length (px_parameters cfg)" for q
      using vals [OF that] n(3) by (cases "q = p") (auto simp: nth_list_update)
    with Inr n(1,2) show ?thesis by auto
  qed
  moreover have "\<not> isl r"
    if "\<not> no_wait" and "\<not> px_in_isr cfg (fs_world s)" and "\<not> mutation_closed cfg s"
      and acc: "\<not> isl (normalize_param cfg p c)" and "\<not> immediate_commit cfg (pm_persistence (param cfg p))"
  proof -
    obtain n where n: "normalize_param cfg p c = Inr n" using acc by (cases "normalize_param cfg p c") auto
    from parameter_world.set_succeeds [OF w that(2,3) n that(5), of Uo_LocalSet False] that(1) call show ?thesis by simp
  qed
  ultimately show ?thesis by blast
qed

text \<open>C15: A clean stop writes back what was deferred: when \<^verbatim>\<open>stop\<close> succeeds in a system configured to flush, every
  parameter and every group with a deferred policy is stored with the value it had, and no value has changed.\<close>

theorem stop_flushes_deferred:
  assumes "parameter_world cfg img" and "params_reachable cfg img s" and "px_stop_flush cfg"
    and "params_stop cfg s = (Inr (), s')"
  shows "(\<forall>p < length (px_parameters cfg). value_of s' p = value_of s p \<and>
      (\<forall>st delay. pm_persistence (param cfg p) = Deferred st delay \<longrightarrow>
         reload cfg p (img st (fs_world s') (param_key cfg p)) = Some (value_of s p))) \<and>
    (\<forall>g < length (px_groups cfg). is_deferred (gr_commit (group cfg g)) \<longrightarrow>
       reload_group cfg g (img (gr_store (group cfg g)) (fs_world s') (group_key cfg g)) =
         Some (map (value_of s) (gr_members (group cfg g))))"
proof -
  note w = assms(1)
  note inv = parameter_world.reachable_durable [OF w assms(2)]
  have spec: "settles cfg (view img s) (view img s')"
    "parameter_world.all_clean cfg (\<lambda>p. is_deferred (pm_persistence (param cfg p)))
       (\<lambda>g. is_deferred (gr_commit (group cfg g))) (view img s')"
    using parameter_world.stop_spec [OF w inv assms(4)] assms(3) by auto
  have inv': "durable cfg (view img s')" and keep: "map fst (vw_slots (view img s')) = map fst (vw_slots (view img s))"
    using spec(1) by (simp_all add: settles_def)
  have vals: "value_of s' p = value_of s p" if "p < length (px_parameters cfg)" for p
    using arg_cong [OF keep, of "\<lambda>xs. xs ! p"] that inv inv' parameter_world.value_view [OF w inv that]
      parameter_world.value_view [OF w inv' that] by (simp add: durable_def)
  note slot = parameter_world.durable_slot [OF w inv']
  have "reload cfg p (img st (fs_world s') (param_key cfg p)) = Some (value_of s p)"
    if p: "p < length (px_parameters cfg)" "pm_persistence (param cfg p) = Deferred st delay" for p st delay
  proof -
    have "\<not> pr_dirty (sl_record (slot s' p))"
      using spec(2) slot [OF p(1)] p by (auto simp: parameter_world.all_clean_def [OF w])
    then show ?thesis using parameter_world.clean_reload [OF w inv' p(1), of st] p(2) vals [OF p(1)] by simp
  qed
  moreover have "reload_group cfg g (img (gr_store (group cfg g)) (fs_world s') (group_key cfg g)) =
      Some (map (value_of s) (gr_members (group cfg g)))"
    if g: "g < length (px_groups cfg)" "is_deferred (gr_commit (group cfg g))" for g
  proof -
    have "g < length (fs_groups s')" using inv' g by (simp add: durable_def length_view_groups)
    then have "\<not> gs_dirty (fs_groups s' ! g)"
      using spec(2) g gdirty_view [of g s' img] by (simp add: parameter_world.all_clean_def [OF w])
    moreover have "map (value_of s') (gr_members (group cfg g)) = map (value_of s) (gr_members (group cfg g))"
      using vals parameter_world.group_facts(4) [OF w g(1)] by simp
    ultimately show ?thesis using parameter_world.clean_group_reload [OF w inv' g(1)] by simp
  qed
  ultimately show ?thesis using vals by blast
qed

text \<open>Changes deferred until activation are coalesced: after any non-empty sequence of changes the pending one
  runs from the value before the first to the value after the last, with the revision and origin of the last and
  the flags of any, and the counters account for each of them.\<close>

theorem deferred_changes_coalesce:
  assumes "cs_pending cs = None"
  shows "cs_pending (fold change_defer (c # chs) cs) =
      Some \<lparr>ch_old_value = ch_old_value c, ch_new_value = ch_new_value (last (c # chs)),
        ch_revision = ch_revision (last (c # chs)), ch_origin = ch_origin (last (c # chs)),
        ch_adjusted = list_ex ch_adjusted (c # chs), ch_transaction = list_ex ch_transaction (c # chs),
        ch_reset = list_ex ch_reset (c # chs)\<rparr> \<and>
    cr_deferred (cs_record (fold change_defer (c # chs) cs)) = cr_deferred (cs_record cs) + 1 \<and>
    cr_coalesced (cs_record (fold change_defer (c # chs) cs)) = cr_coalesced (cs_record cs) + of_nat (length chs) \<and>
    fst (change_take_pending (snd (change_take_pending (fold change_defer (c # chs) cs)))) = None"
proof -
  define cs0 where "cs0 = change_defer c cs"
  have base: "cs_pending cs0 = Some c" "cr_deferred (cs_record cs0) = cr_deferred (cs_record cs) + 1"
    "cr_coalesced (cs_record cs0) = cr_coalesced (cs_record cs)"
    using assms by (simp_all add: cs0_def change_defer_def)
  have "cs_pending (fold change_defer chs cs0) =
        Some \<lparr>ch_old_value = ch_old_value c, ch_new_value = ch_new_value (last (c # chs)),
          ch_revision = ch_revision (last (c # chs)), ch_origin = ch_origin (last (c # chs)),
          ch_adjusted = list_ex ch_adjusted (c # chs), ch_transaction = list_ex ch_transaction (c # chs),
          ch_reset = list_ex ch_reset (c # chs)\<rparr> \<and>
      cr_deferred (cs_record (fold change_defer chs cs0)) = cr_deferred (cs_record cs0) \<and>
      cr_coalesced (cs_record (fold change_defer chs cs0)) = cr_coalesced (cs_record cs0) + of_nat (length chs)"
  proof (induction chs rule: rev_induct)
    case Nil
    then show ?case using base by simp
  next
    case (snoc x xs)
    then show ?case by (auto simp: change_defer_def)
  qed
  then show ?thesis by (simp add: cs0_def [symmetric] base change_take_pending_def)
qed

section \<open>Witnesses\<close>

theorem values_valid_witness:
  "pm_type (param pdemo 0) (value_of (pdemo_boot None) 0) \<and>
   normalize_param pdemo 0 (value_of (pdemo_boot None) 0) = Inr \<lparr>nm_value = value_of (pdemo_boot None) 0, nm_adjusted = False\<rparr>"
  by (rule values_valid [OF pw.parameter_world_axioms pdemo_boot_reachable]) (simp add: pdemo_def)


text \<open>The example after the immediate and the deferred parameter have been set, and after everything was saved.\<close>

definition pdemo_set :: "(int, settings_memory) params" where
  "pdemo_set = snd (set_frontend pdemo 1 False 77 (snd (set_frontend pdemo 0 False 250 (pdemo_boot None))))"


lemma pdemo_in_range: "0 < length (px_parameters pdemo)" "1 < length (px_parameters pdemo)"
  "pm_type (param pdemo 0) 250" "pm_type (param pdemo 1) 77"
  by (simp_all add: pdemo_def byte_param_def scalar_range_def)

lemma pdemo_set_reachable: "params_reachable pdemo pdemo_img pdemo_set"
proof -
  have "params_reachable pdemo pdemo_img (snd (set_frontend pdemo 0 False 250 (pdemo_boot None)))"
    by (rule params_reachable.step [OF pdemo_boot_reachable params_step.step_set [OF pdemo_in_range(1,3) surjective_pairing]])
  then show ?thesis
    unfolding pdemo_set_def
    by (rule params_reachable.step [OF _ params_step.step_set [OF pdemo_in_range(2,4) surjective_pairing]])
qed


theorem transaction_atomic_witness:
  "(case set_all_parameters pdemo [(2, 20), (4, 40)] False pdemo_set of
      (r, s') \<Rightarrow> \<not> isl r \<and> value_of s' 0 = 100 \<and> value_of s' 2 = 20 \<and> value_of s' 4 = 40)"
proof -
  obtain r s' where call: "set_all_parameters pdemo [(2, 20), (4, 40)] False pdemo_set = (r, s')" by fastforce
  have ok: "transaction_ok pdemo (map fst [(2, 20), (4, 40)])"
    "\<And>p v. (p, v) \<in> set [(2, 20), (4, 40)] \<Longrightarrow> pm_type (param pdemo p) v"
    by (auto simp: transaction_ok_def pdemo_def byte_param_def scalar_range_def)
  have "\<not> isl (fst (set_all_parameters pdemo [(2, 20), (4, 40)] False pdemo_set))" by code_simp
  then have r: "\<not> isl r" using call by simp
  then obtain ns where ns: "normalize_transaction pdemo [(2, 20), (4, 40)] = Inr ns"
    "\<forall>p < length (px_parameters pdemo). value_of s' p = (case map_of ns p of Some n \<Rightarrow> nm_value n | None \<Rightarrow> value_of pdemo_set p)"
    using transaction_atomic [OF pw.parameter_world_axioms pdemo_set_reachable ok call] by (cases r) auto
  have "ns = [(2, \<lparr>nm_value = 20, nm_adjusted = False\<rparr>), (4, \<lparr>nm_value = 40, nm_adjusted = False\<rparr>)]"
    using ns(1) by (simp add: normalize_param_def pdemo_def byte_param_def)
  moreover have "value_of pdemo_set 0 = 100" by code_simp
  ultimately show ?thesis using ns(2) r call by (simp add: pdemo_def)
qed

theorem set_installs_witness:
  "(case set_frontend pdemo 0 False 250 (pdemo_boot None) of
      (r, s') \<Rightarrow> \<not> isl r \<and> up_effective_value (projr r) = 100 \<and> value_of s' 0 = 100 \<and> value_of s' 1 = 10)"
proof -
  obtain r s' where call: "set_frontend pdemo 0 False 250 (pdemo_boot None) = (r, s')" by fastforce
  have "\<not> isl (fst (set_frontend pdemo 0 False 250 (pdemo_boot None)))" by code_simp
  then obtain up where r: "r = Inr up" using call by (cases r) auto
  then obtain n where n: "normalize_param pdemo 0 250 = Inr n" "up_effective_value up = nm_value n"
    "\<forall>q < length (px_parameters pdemo). value_of s' q = (if q = 0 then nm_value n else value_of (pdemo_boot None) q)"
    using set_installs [OF pw.parameter_world_axioms pdemo_boot_reachable pdemo_in_range(1,3) call] by auto
  have "nm_value n = 100" using n(1) by (auto simp: normalize_param_def pdemo_def byte_param_def)
  moreover have "value_of (pdemo_boot None) 1 = 10" by code_simp
  ultimately show ?thesis using call r n pdemo_in_range by simp
qed

theorem stop_flushes_deferred_witness:
  "reload pdemo 1 (pdemo_img 0 (fs_world (snd (params_stop pdemo pdemo_set))) (param_key pdemo 1)) = Some 77"
proof -
  have "\<not> isl (fst (params_stop pdemo pdemo_set))" by code_simp
  then have "params_stop pdemo pdemo_set = (Inr (), snd (params_stop pdemo pdemo_set))"
    by (cases "params_stop pdemo pdemo_set"; cases "fst (params_stop pdemo pdemo_set)") auto
  moreover have "px_stop_flush pdemo" by (simp add: pdemo_def)
  ultimately have "\<forall>p < length (px_parameters pdemo). \<forall>st delay. pm_persistence (param pdemo p) = Deferred st delay \<longrightarrow>
      reload pdemo p (pdemo_img st (fs_world (snd (params_stop pdemo pdemo_set))) (param_key pdemo p)) = Some (value_of pdemo_set p)"
    using stop_flushes_deferred [OF pw.parameter_world_axioms pdemo_set_reachable] by blast
  moreover have "pm_persistence (param pdemo 1) = Deferred 0 5" by (simp add: pdemo_def byte_param_def)
  moreover have "value_of pdemo_set 1 = 77" by code_simp
  ultimately show ?thesis using pdemo_in_range(2) by auto
qed

theorem deferred_changes_coalesce_witness:
  "map_option (\<lambda>ch. (ch_old_value ch, ch_new_value ch, ch_revision ch))
     (cs_pending (fold change_defer
        [\<lparr>ch_old_value = 1 :: int, ch_new_value = 2, ch_revision = 5, ch_origin = Uo_LocalSet, ch_adjusted = False,
          ch_transaction = False, ch_reset = False\<rparr>,
         \<lparr>ch_old_value = 2, ch_new_value = 3, ch_revision = 6, ch_origin = Uo_Reset, ch_adjusted = True,
          ch_transaction = False, ch_reset = True\<rparr>] (change_initialize 0 0 0))) = Some (1, 3, 6)"
proof -
  have "cs_pending (change_initialize 0 0 0 :: int change_state) = None" by (simp add: change_initialize_def)
  from deferred_changes_coalesce [OF this, of
      "\<lparr>ch_old_value = 1, ch_new_value = 2, ch_revision = 5, ch_origin = Uo_LocalSet, ch_adjusted = False,
        ch_transaction = False, ch_reset = False\<rparr>"
      "[\<lparr>ch_old_value = 2, ch_new_value = 3, ch_revision = 6, ch_origin = Uo_Reset, ch_adjusted = True,
        ch_transaction = False, ch_reset = True\<rparr>]"]
  show ?thesis by simp
qed

section \<open>Two ways to lose a value\<close>





end
