(* ===== verification/Bus_Route.thy ===== *)
theory Bus_Route
  imports Execution_Types Lifecycle_Types
begin

text \<open>
  The routes of the application bus: the delivery, overflow and stop policies of \<^verbatim>\<open>bus/delivery.hpp\<close> and
  their resolution in \<^verbatim>\<open>bus/policy.hpp\<close>, the records of \<^verbatim>\<open>bus/types.hpp\<close>, and the route states of
  \<^verbatim>\<open>bus/facility.hpp\<close>. A route is its index in the list of subscriptions. Message values of all types live
  in \<open>'m\<close>; a message type is a number. The semaphore of a queued route is its count. \<^verbatim>\<open>size_t\<close> counters
  that can run below zero are numbers with the wrap written out for a 32-bit target.
\<close>

section \<open>Policies\<close>

datatype delivery_kind = Dk_Inline | Dk_InlineIsr | Dk_Queued | Dk_Latest | Dk_Coalesced

datatype stop_kind = Bk_Drain | Bk_CancelPending

datatype overflow_policy = Ov_Reject | Ov_DropNewest | Ov_DropOldest | Ov_WaitFor int

datatype delivery_policy =
    Del_Inline
  | Del_InlineIsr
  | Del_Queued nat "nat option" "overflow_policy option" "stop_kind option"
  | Del_Latest nat "stop_kind option"
  | Del_Coalesced nat "stop_kind option"

text \<open>The defaults that the configuration (or Kconfig) supplies, and \<^verbatim>\<open>EffectiveDelivery\<close>.\<close>

record delivery_defaults =
  dd_overflow :: overflow_policy
  dd_stop :: stop_kind
  dd_capacity :: nat

record effective_delivery =
  ed_kind :: delivery_kind
  ed_asynchronous :: bool
  ed_isr_compatible :: bool
  ed_capacity :: nat
  ed_target :: "nat option"
  ed_overflow :: overflow_policy
  ed_stop :: stop_kind

fun waits :: "overflow_policy \<Rightarrow> bool" where
  "waits (Ov_WaitFor _) = True"
| "waits _ = False"

fun effective_delivery_of :: "delivery_defaults \<Rightarrow> delivery_policy \<Rightarrow> effective_delivery" where
  "effective_delivery_of dd Del_Inline =
     \<lparr>ed_kind = Dk_Inline, ed_asynchronous = False, ed_isr_compatible = False, ed_capacity = 0,
      ed_target = None, ed_overflow = Ov_Reject, ed_stop = Bk_Drain\<rparr>"
| "effective_delivery_of dd Del_InlineIsr =
     \<lparr>ed_kind = Dk_InlineIsr, ed_asynchronous = False, ed_isr_compatible = True, ed_capacity = 0,
      ed_target = None, ed_overflow = Ov_Reject, ed_stop = Bk_Drain\<rparr>"
| "effective_delivery_of dd (Del_Queued executor capacity overflow stop) =
     (let ov = (case overflow of None \<Rightarrow> dd_overflow dd | Some ov \<Rightarrow> ov) in
      \<lparr>ed_kind = Dk_Queued, ed_asynchronous = True, ed_isr_compatible = (\<not> waits ov),
       ed_capacity = (case capacity of None \<Rightarrow> dd_capacity dd | Some n \<Rightarrow> n), ed_target = Some executor,
       ed_overflow = ov, ed_stop = (case stop of None \<Rightarrow> dd_stop dd | Some st \<Rightarrow> st)\<rparr>)"
| "effective_delivery_of dd (Del_Latest executor stop) =
     \<lparr>ed_kind = Dk_Latest, ed_asynchronous = True, ed_isr_compatible = True, ed_capacity = 1,
      ed_target = Some executor, ed_overflow = Ov_DropOldest,
      ed_stop = (case stop of None \<Rightarrow> dd_stop dd | Some st \<Rightarrow> st)\<rparr>"
| "effective_delivery_of dd (Del_Coalesced executor stop) =
     \<lparr>ed_kind = Dk_Coalesced, ed_asynchronous = True, ed_isr_compatible = True, ed_capacity = 1,
      ed_target = Some executor, ed_overflow = Ov_DropNewest,
      ed_stop = (case stop of None \<Rightarrow> dd_stop dd | Some st \<Rightarrow> st)\<rparr>"

section \<open>Errors and records\<close>

datatype emit_mode = Em_Normal | Em_Try | Em_Isr

datatype bus_operation = Bo_Emit | Bo_TryEmit | Bo_TryEmitIsr | Bo_Query | Bo_Initialize | Bo_Stop

datatype bus_reason =
    Br_NotReady | Br_Disabled | Br_NotRegistered | Br_InvalidContext | Br_RouteRejected
  | Br_RouteTimedOut | Br_ExecutorUnavailable | Br_InlineHandlerFailed | Br_InternalInvariant

record bus_error =
  be_status :: status
  be_reason :: bus_reason
  be_operation :: bus_operation
  be_message :: local_id
  be_subscription :: local_id
  be_attempted_routes :: u16
  be_accepted_routes :: u16
  be_rejected_routes :: u16
  be_dropped_routes :: u16
  be_native_error :: int

record route_record =
  rr_subscription :: local_id
  rr_message :: local_id
  rr_subscriber :: local_id
  rr_delivery :: delivery_kind
  rr_last_status :: status
  rr_considered :: u64
  rr_accepted :: u64
  rr_delivered :: u64
  rr_replacements :: u64
  rr_coalesced :: u64
  rr_dropped_newest :: u64
  rr_dropped_oldest :: u64
  rr_rejected :: u64
  rr_timed_out :: u64
  rr_handler_failed :: u64
  rr_executor_unavailable :: u64
  rr_cancelled :: u64
  rr_pending :: u32
  rr_pending_high_water :: u32
  rr_in_flight :: u32
  rr_last_accept_tick :: int
  rr_last_delivery_tick :: int
  rr_first_handler_failure :: status
  rr_last_handler_failure :: status
  rr_has_handler_failure :: bool
  rr_accepting :: bool
  rr_draining :: bool
  rr_quiescent :: bool

definition route_record0 :: route_record where
  "route_record0 =
     \<lparr>rr_subscription = invalid_value, rr_message = invalid_value, rr_subscriber = invalid_value,
      rr_delivery = Dk_Inline, rr_last_status = St_NotReady, rr_considered = 0, rr_accepted = 0,
      rr_delivered = 0, rr_replacements = 0, rr_coalesced = 0, rr_dropped_newest = 0,
      rr_dropped_oldest = 0, rr_rejected = 0, rr_timed_out = 0, rr_handler_failed = 0,
      rr_executor_unavailable = 0, rr_cancelled = 0, rr_pending = 0, rr_pending_high_water = 0,
      rr_in_flight = 0, rr_last_accept_tick = 0, rr_last_delivery_tick = 0,
      rr_first_handler_failure = St_Ok, rr_last_handler_failure = St_Ok,
      rr_has_handler_failure = False, rr_accepting = False, rr_draining = False, rr_quiescent = True\<rparr>"

record route_acceptance =
  ra_status :: status
  ra_accepted :: bool
  ra_dropped :: bool
  ra_needs_submit :: bool
  ra_timed_out :: bool

definition route_acceptance0 :: route_acceptance where
  "route_acceptance0 =
     \<lparr>ra_status = St_Ok, ra_accepted = True, ra_dropped = False, ra_needs_submit = False,
      ra_timed_out = False\<rparr>"

section \<open>The configured bus\<close>

text \<open>
  A handler returns nothing or a result with a status. \<open>rt_zero\<close> is the message all of whose bytes are zero,
  which is also the value of an empty message type. \<open>bx_now\<close> is the kernel's tick counter. \<open>bx_wait\<close> is what
  the rest of the system does while an emitter waits for a slot: the routes whose worker takes
  a message meanwhile, and the world after the wait. \<open>bx_submit\<close> submits the work item of a route to its executor.
  \<open>bx_sleep\<close> is the sleep in the stop loop and \<open>bx_stop_polls\<close> the number of sleeps before its deadline
  expires.
\<close>

datatype ('m, 'w) handler =
    Handler_Void "'m \<Rightarrow> 'w \<Rightarrow> 'w"
  | Handler_Result "'m \<Rightarrow> 'w \<Rightarrow> (status + unit) \<times> 'w"

record ('m, 'w) bus_route =
  rt_message :: nat
  rt_subscriber :: nat
  rt_tag :: nat
  rt_delivery :: delivery_policy
  rt_handler :: "('m, 'w) handler"
  rt_zero :: 'm

record ('m, 'w) bus_config =
  bx_messages :: nat
  bx_routes :: "('m, 'w) bus_route list"
  bx_defaults :: delivery_defaults
  bx_max_capacity :: nat
  bx_in_isr :: "'w \<Rightarrow> bool"
  bx_system_state :: "'w \<Rightarrow> system_state"
  bx_now :: "'w \<Rightarrow> int"
  bx_wait :: "nat \<Rightarrow> int \<Rightarrow> 'w \<Rightarrow> nat list \<times> 'w"
  bx_submit :: "nat \<Rightarrow> bool \<Rightarrow> 'w \<Rightarrow> (solar_error + unit) \<times> 'w"
  bx_sleep :: "'w \<Rightarrow> 'w"
  bx_stop_polls :: nat

abbreviation route :: "('m, 'w) bus_config \<Rightarrow> nat \<Rightarrow> ('m, 'w) bus_route" where
  "route cfg r \<equiv> bx_routes cfg ! r"

definition delivery_of :: "('m, 'w) bus_config \<Rightarrow> nat \<Rightarrow> effective_delivery" where
  "delivery_of cfg r = effective_delivery_of (bx_defaults cfg) (rt_delivery (route cfg r))"

record 'm route_state =
  rs_record :: route_record
  rs_accepting :: bool
  rs_in_flight :: u32
  rs_storage :: "'m list"
  rs_slots :: nat
  rs_head :: nat
  rs_tail :: nat
  rs_count :: nat
  rs_payload :: 'm
  rs_pending :: bool

record ('m, 'w) bus =
  bs_routes :: "'m route_state list"
  bs_world :: 'w

abbreviation rstate :: "('m, 'w) bus \<Rightarrow> nat \<Rightarrow> 'm route_state" where
  "rstate s r \<equiv> bs_routes s ! r"

definition upd_route ::
  "nat \<Rightarrow> ('m route_state \<Rightarrow> 'm route_state) \<Rightarrow> ('m, 'w) bus \<Rightarrow> ('m, 'w) bus" where
  "upd_route r f s = s\<lparr>bs_routes := (bs_routes s)[r := f (rstate s r)]\<rparr>"

section \<open>The common part of a route state\<close>

definition mutate :: "(route_record \<Rightarrow> route_record) \<Rightarrow> 'm route_state \<Rightarrow> 'm route_state" where
  "mutate f rs = rs\<lparr>rs_record := f (rs_record rs)\<rparr>"

definition route_initialize ::
  "local_id \<Rightarrow> local_id \<Rightarrow> delivery_kind \<Rightarrow> 'm route_state \<Rightarrow> 'm route_state" where
  "route_initialize subscription message kind rs =
     rs\<lparr>rs_accepting := False, rs_in_flight := 0,
        rs_record := route_record0\<lparr>rr_subscription := subscription, rr_message := message,
          rr_delivery := kind, rr_last_status := St_NotReady, rr_quiescent := True\<rparr>\<rparr>"

definition set_accepting :: "bool \<Rightarrow> 'm route_state \<Rightarrow> 'm route_state" where
  "set_accepting b rs =
     mutate (\<lambda>rec. rec\<lparr>rr_accepting := b, rr_draining := \<not> b,
                rr_last_status := (if b then St_Ok else rr_last_status rec)\<rparr>)
       (rs\<lparr>rs_accepting := b\<rparr>)"

definition route_considered :: "'m route_state \<Rightarrow> 'm route_state" where
  "route_considered = mutate (\<lambda>rec. rec\<lparr>rr_considered := rr_considered rec + 1\<rparr>)"

definition route_accepted :: "int \<Rightarrow> u32 \<Rightarrow> 'm route_state \<Rightarrow> 'm route_state" where
  "route_accepted now pending =
     mutate (\<lambda>rec. rec\<lparr>rr_accepted := rr_accepted rec + 1, rr_pending := pending,
                rr_last_accept_tick := now, rr_last_status := St_Ok, rr_quiescent := False,
                rr_pending_high_water :=
                  (if pending > rr_pending_high_water rec then pending else rr_pending_high_water rec)\<rparr>)"

definition route_rejected :: "status \<Rightarrow> bool \<Rightarrow> 'm route_state \<Rightarrow> 'm route_state" where
  "route_rejected st timed_out =
     mutate (\<lambda>rec. rec\<lparr>rr_rejected := rr_rejected rec + 1,
                rr_timed_out := (if timed_out then rr_timed_out rec + 1 else rr_timed_out rec),
                rr_last_status := st\<rparr>)"

definition route_dropped_newest :: "'m route_state \<Rightarrow> 'm route_state" where
  "route_dropped_newest = mutate (\<lambda>rec. rec\<lparr>rr_dropped_newest := rr_dropped_newest rec + 1\<rparr>)"

definition route_dropped_oldest :: "'m route_state \<Rightarrow> 'm route_state" where
  "route_dropped_oldest = mutate (\<lambda>rec. rec\<lparr>rr_dropped_oldest := rr_dropped_oldest rec + 1\<rparr>)"

definition route_replaced :: "'m route_state \<Rightarrow> 'm route_state" where
  "route_replaced = mutate (\<lambda>rec. rec\<lparr>rr_replacements := rr_replacements rec + 1\<rparr>)"

definition route_coalesced :: "'m route_state \<Rightarrow> 'm route_state" where
  "route_coalesced = mutate (\<lambda>rec. rec\<lparr>rr_coalesced := rr_coalesced rec + 1\<rparr>)"

definition route_cancelled :: "u32 \<Rightarrow> 'm route_state \<Rightarrow> 'm route_state" where
  "route_cancelled n rs =
     mutate (\<lambda>rec. rec\<lparr>rr_cancelled := rr_cancelled rec + ucast n, rr_pending := 0,
                rr_quiescent := (rs_in_flight rs = 0)\<rparr>) rs"

definition route_submission_failed :: "status \<Rightarrow> 'm route_state \<Rightarrow> 'm route_state" where
  "route_submission_failed st =
     mutate (\<lambda>rec. rec\<lparr>rr_executor_unavailable := rr_executor_unavailable rec + 1, rr_last_status := st\<rparr>)"

definition route_finish_stop :: "'m route_state \<Rightarrow> 'm route_state" where
  "route_finish_stop =
     mutate (\<lambda>rec. rec\<lparr>rr_draining := False, rr_quiescent := (rr_pending rec = 0 \<and> rr_in_flight rec = 0)\<rparr>)"

definition route_copy :: "'m route_state \<Rightarrow> 'm route_state" where
  "route_copy rs =
     mutate (\<lambda>rec. rec\<lparr>rr_accepting := rs_accepting rs, rr_in_flight := rs_in_flight rs,
                rr_quiescent := (rr_pending rec = 0 \<and> rs_in_flight rs = 0)\<rparr>) rs"

definition invoke_handler :: "('m, 'w) handler \<Rightarrow> 'm \<Rightarrow> 'w \<Rightarrow> (solar_error + unit) \<times> 'w" where
  "invoke_handler h m w =
     (case h of
        Handler_Void f \<Rightarrow> (Inr (), f m w)
      | Handler_Result f \<Rightarrow>
          (case f m w of
             (Inr _, w) \<Rightarrow> (Inr (), w)
           | (Inl st, w) \<Rightarrow> (Inl \<lparr>err_status = st, err_native = 0\<rparr>, w)))"

definition deliver_begin :: "'m route_state \<Rightarrow> 'm route_state" where
  "deliver_begin rs =
     mutate (\<lambda>rec. rec\<lparr>rr_in_flight := rr_in_flight rec + 1, rr_quiescent := False\<rparr>)
       (rs\<lparr>rs_in_flight := rs_in_flight rs + 1\<rparr>)"

definition deliver_end :: "solar_error + unit \<Rightarrow> int \<Rightarrow> 'm route_state \<Rightarrow> 'm route_state" where
  "deliver_end result now rs =
     mutate (\<lambda>rec.
         let rec = rec\<lparr>rr_delivered := rr_delivered rec + 1\<rparr>;
             rec = (case result of
                      Inr _ \<Rightarrow> rec
                    | Inl e \<Rightarrow> rec\<lparr>rr_handler_failed := rr_handler_failed rec + 1,
                                 rr_first_handler_failure :=
                                   (if rr_has_handler_failure rec then rr_first_handler_failure rec
                                    else err_status e),
                                 rr_has_handler_failure := True,
                                 rr_last_handler_failure := err_status e\<rparr>);
             rec = rec\<lparr>rr_last_status := (case result of Inr _ \<Rightarrow> St_Ok | Inl e \<Rightarrow> err_status e),
                       rr_last_delivery_tick := now,
                       rr_in_flight := rr_in_flight rec - 1\<rparr> in
         rec\<lparr>rr_quiescent := (rr_pending rec = 0 \<and> rr_in_flight rec = 0)\<rparr>)
       (rs\<lparr>rs_in_flight := rs_in_flight rs - 1\<rparr>)"

definition deliver ::
  "('m, 'w) bus_config \<Rightarrow> nat \<Rightarrow> 'm \<Rightarrow> ('m, 'w) bus \<Rightarrow> (solar_error + unit) \<times> ('m, 'w) bus" where
  "deliver cfg r m s =
     (let s = upd_route r deliver_begin s in
      case invoke_handler (rt_handler (route cfg r)) m (bs_world s) of
        (result, w) \<Rightarrow>
          let s = s\<lparr>bs_world := w\<rparr> in (result, upd_route r (deliver_end result (bx_now cfg w)) s))"

section \<open>Queued routes\<close>

definition size_dec :: "nat \<Rightarrow> nat" where
  "size_dec n = (n + (2 ^ 32 - 1)) mod 2 ^ 32"

definition size_inc :: "nat \<Rightarrow> nat" where
  "size_inc n = (n + 1) mod 2 ^ 32"

definition queued_reset :: "nat \<Rightarrow> 'm route_state \<Rightarrow> 'm route_state" where
  "queued_reset capacity rs = rs\<lparr>rs_head := 0, rs_tail := 0, rs_count := 0, rs_slots := capacity\<rparr>"

text \<open>The locked section of \<^verbatim>\<open>accept\<close> that stores the message, and the one of \<^verbatim>\<open>drain_one\<close> that
  takes it, with the semaphore given back and the record updated.\<close>

definition queued_store :: "nat \<Rightarrow> bool \<Rightarrow> 'm \<Rightarrow> 'm route_state \<Rightarrow> 'm route_state" where
  "queued_store capacity drop_first m rs =
     (let rs = (if drop_first then
                  route_dropped_oldest
                    (rs\<lparr>rs_head := (rs_head rs + 1) mod capacity, rs_count := size_dec (rs_count rs)\<rparr>)
                else rs) in
      rs\<lparr>rs_storage := (rs_storage rs)[rs_tail rs := m], rs_tail := (rs_tail rs + 1) mod capacity,
         rs_count := size_inc (rs_count rs)\<rparr>)"

definition queued_pop :: "nat \<Rightarrow> 'm route_state \<Rightarrow> ('m \<times> 'm route_state) option" where
  "queued_pop capacity rs =
     (if rs_count rs = 0 then None
      else let m = rs_storage rs ! rs_head rs;
               rs = rs\<lparr>rs_head := (rs_head rs + 1) mod capacity, rs_count := rs_count rs - 1\<rparr>;
               pending = of_nat (rs_count rs);
               rs = rs\<lparr>rs_slots := min capacity (rs_slots rs + 1)\<rparr> in
           Some (m, mutate (\<lambda>rec. rec\<lparr>rr_pending := pending\<rparr>) rs))"

definition queued_clear_pending :: "nat \<Rightarrow> 'm route_state \<Rightarrow> 'm route_state" where
  "queued_clear_pending capacity rs =
     route_cancelled (of_nat (rs_count rs))
       (rs\<lparr>rs_head := 0, rs_tail := 0, rs_count := 0, rs_slots := capacity\<rparr>)"

section \<open>Routes that keep the latest message\<close>

definition latest_reset :: "'m route_state \<Rightarrow> 'm route_state" where
  "latest_reset rs = rs\<lparr>rs_pending := False\<rparr>"

definition latest_accept :: "int \<Rightarrow> 'm \<Rightarrow> 'm route_state \<Rightarrow> route_acceptance \<times> 'm route_state" where
  "latest_accept now m rs =
     (let replaced_value = (rs_pending rs \<or> rs_in_flight rs \<noteq> 0);
          rs = rs\<lparr>rs_payload := m, rs_pending := True\<rparr>;
          rs = (if replaced_value then route_replaced rs else rs) in
      (route_acceptance0\<lparr>ra_needs_submit := True\<rparr>, route_accepted now 1 rs))"

definition latest_pop :: "'m route_state \<Rightarrow> ('m \<times> 'm route_state) option" where
  "latest_pop rs =
     (if \<not> rs_pending rs then None
      else Some (rs_payload rs, mutate (\<lambda>rec. rec\<lparr>rr_pending := 0\<rparr>) (rs\<lparr>rs_pending := False\<rparr>)))"

definition latest_clear_pending :: "'m route_state \<Rightarrow> 'm route_state" where
  "latest_clear_pending rs = route_cancelled (if rs_pending rs then 1 else 0) (rs\<lparr>rs_pending := False\<rparr>)"

section \<open>Routes that coalesce signals\<close>

definition coalesced_reset :: "'m route_state \<Rightarrow> 'm route_state" where
  "coalesced_reset rs = rs\<lparr>rs_pending := False\<rparr>"

definition coalesced_accept :: "int \<Rightarrow> 'm route_state \<Rightarrow> route_acceptance \<times> 'm route_state" where
  "coalesced_accept now rs =
     (let already_pending = rs_pending rs;
          rs = rs\<lparr>rs_pending := True\<rparr>;
          rs = (if already_pending then route_coalesced rs else rs) in
      (route_acceptance0\<lparr>ra_needs_submit := \<not> already_pending\<rparr>, route_accepted now 1 rs))"

definition coalesced_pop :: "'m \<Rightarrow> 'm route_state \<Rightarrow> ('m \<times> 'm route_state) option" where
  "coalesced_pop zero rs =
     (if \<not> rs_pending rs then None
      else Some (zero, mutate (\<lambda>rec. rec\<lparr>rr_pending := 0\<rparr>) (rs\<lparr>rs_pending := False\<rparr>)))"

definition coalesced_clear_pending :: "'m route_state \<Rightarrow> 'm route_state" where
  "coalesced_clear_pending rs = route_cancelled (if rs_pending rs then 1 else 0) (rs\<lparr>rs_pending := False\<rparr>)"

section \<open>The operations of a route by its delivery kind\<close>

definition route_reset :: "effective_delivery \<Rightarrow> 'm route_state \<Rightarrow> 'm route_state" where
  "route_reset ed rs =
     (case ed_kind ed of
        Dk_Queued \<Rightarrow> queued_reset (ed_capacity ed) rs
      | Dk_Latest \<Rightarrow> latest_reset rs
      | Dk_Coalesced \<Rightarrow> coalesced_reset rs
      | _ \<Rightarrow> rs)"

definition route_pop :: "effective_delivery \<Rightarrow> 'm \<Rightarrow> 'm route_state \<Rightarrow> ('m \<times> 'm route_state) option" where
  "route_pop ed zero rs =
     (case ed_kind ed of
        Dk_Queued \<Rightarrow> queued_pop (ed_capacity ed) rs
      | Dk_Latest \<Rightarrow> latest_pop rs
      | Dk_Coalesced \<Rightarrow> coalesced_pop zero rs
      | _ \<Rightarrow> None)"

definition route_clear_pending :: "effective_delivery \<Rightarrow> 'm route_state \<Rightarrow> 'm route_state" where
  "route_clear_pending ed rs =
     (case ed_kind ed of
        Dk_Queued \<Rightarrow> queued_clear_pending (ed_capacity ed) rs
      | Dk_Latest \<Rightarrow> latest_clear_pending rs
      | Dk_Coalesced \<Rightarrow> coalesced_clear_pending rs
      | _ \<Rightarrow> rs)"

definition drain_one :: "('m, 'w) bus_config \<Rightarrow> nat \<Rightarrow> ('m, 'w) bus \<Rightarrow> bool \<times> ('m, 'w) bus" where
  "drain_one cfg r s =
     (case route_pop (delivery_of cfg r) (rt_zero (route cfg r)) (rstate s r) of
        None \<Rightarrow> (False, s)
      | Some (m, rs) \<Rightarrow>
          case deliver cfg r m (upd_route r (\<lambda>_. rs) s) of (_, s) \<Rightarrow> (True, s))"

text \<open>
  \<^verbatim>\<open>accept\<close> of a queued route. \<open>queued_take\<close> is the attempt to take a slot of the semaphore; the rest
  of \<^verbatim>\<open>accept\<close> depends on whether it succeeded and on the overflow policy. \<open>queued_push\<close> is the part after it.
\<close>

definition queued_take ::
  "('m, 'w) bus_config \<Rightarrow> nat \<Rightarrow> emit_mode \<Rightarrow> ('m, 'w) bus \<Rightarrow> bool \<times> ('m, 'w) bus" where
  "queued_take cfg r mode s =
     (let s = (case ed_overflow (delivery_of cfg r) of
                 Ov_WaitFor timeout \<Rightarrow>
                   if mode = Em_Normal \<and> rs_slots (rstate s r) = 0 then
                     case bx_wait cfg r timeout (bs_world s) of (drained, w) \<Rightarrow>
                       fold (\<lambda>q s. snd (drain_one cfg q s)) drained (s\<lparr>bs_world := w\<rparr>)
                   else s
               | _ \<Rightarrow> s) in
      if rs_slots (rstate s r) = 0 then (False, s)
      else (True, upd_route r (\<lambda>rs. rs\<lparr>rs_slots := rs_slots rs - 1\<rparr>) s))"

definition queued_push ::
  "('m, 'w) bus_config \<Rightarrow> nat \<Rightarrow> emit_mode \<Rightarrow> bool \<Rightarrow> 'm \<Rightarrow> ('m, 'w) bus \<Rightarrow> route_acceptance \<times> ('m, 'w) bus" where
  "queued_push cfg r mode taken m s =
     (let ed = delivery_of cfg r;
          store = (\<lambda>drop_first s.
            let s = upd_route r (queued_store (ed_capacity ed) drop_first m) s;
                pending = of_nat (rs_count (rstate s r)) in
            (route_acceptance0\<lparr>ra_dropped := drop_first, ra_needs_submit := True\<rparr>,
             upd_route r (route_accepted (bx_now cfg (bs_world s)) pending) s)) in
      if taken then store False s
      else case ed_overflow ed of
             Ov_DropNewest \<Rightarrow>
               (route_acceptance0\<lparr>ra_accepted := False, ra_dropped := True\<rparr>, upd_route r route_dropped_newest s)
           | Ov_DropOldest \<Rightarrow> store True s
           | ov \<Rightarrow>
               let timed_out = (waits ov \<and> mode = Em_Normal);
                   st = (if timed_out then St_Timeout else St_NoSpace) in
               (route_acceptance0\<lparr>ra_status := st, ra_accepted := False, ra_timed_out := timed_out\<rparr>,
                upd_route r (route_rejected st timed_out) s))"

definition queued_accept ::
  "('m, 'w) bus_config \<Rightarrow> nat \<Rightarrow> emit_mode \<Rightarrow> 'm \<Rightarrow> ('m, 'w) bus \<Rightarrow> route_acceptance \<times> ('m, 'w) bus" where
  "queued_accept cfg r mode m s =
     (case queued_take cfg r mode s of (taken, s) \<Rightarrow> queued_push cfg r mode taken m s)"

definition route_accept ::
  "('m, 'w) bus_config \<Rightarrow> nat \<Rightarrow> emit_mode \<Rightarrow> 'm \<Rightarrow> ('m, 'w) bus \<Rightarrow> route_acceptance \<times> ('m, 'w) bus" where
  "route_accept cfg r mode m s =
     (case ed_kind (delivery_of cfg r) of
        Dk_Queued \<Rightarrow> queued_accept cfg r mode m s
      | Dk_Latest \<Rightarrow>
          (case latest_accept (bx_now cfg (bs_world s)) m (rstate s r) of
             (acc, rs) \<Rightarrow> (acc, upd_route r (\<lambda>_. rs) s))
      | Dk_Coalesced \<Rightarrow>
          (case coalesced_accept (bx_now cfg (bs_world s)) (rstate s r) of
             (acc, rs) \<Rightarrow> (acc, upd_route r (\<lambda>_. rs) s))
      | _ \<Rightarrow> (route_acceptance0, s))"

end
