(* ===== verification/Bus_Runtime.thy ===== *)
theory Bus_Runtime
  imports Bus_Route
begin

text \<open>
  The operations of the bus: emission over all routes of a message (\<^verbatim>\<open>bus/runtime.hpp\<close>), the facility's
  lifecycle hooks and the drain of a route (\<^verbatim>\<open>bus/facility.hpp\<close>), the queries of \<^verbatim>\<open>bus/api.hpp\<close>, and the
  static assertions on the topology.
\<close>

section \<open>Emission\<close>

record route_attempt =
  at_failed :: bool
  at_accepted :: bool
  at_dropped :: bool
  at_error :: bus_error

definition make_bus_error :: "nat \<Rightarrow> bus_operation \<Rightarrow> status \<Rightarrow> bus_reason \<Rightarrow> bus_error" where
  "make_bus_error message op st reason =
     \<lparr>be_status = st, be_reason = reason, be_operation = op, be_message = of_nat message,
      be_subscription = invalid_value, be_attempted_routes = 0, be_accepted_routes = 0,
      be_rejected_routes = 0, be_dropped_routes = 0, be_native_error = 0\<rparr>"

fun emit_operation :: "emit_mode \<Rightarrow> bus_operation" where
  "emit_operation Em_Isr = Bo_TryEmitIsr"
| "emit_operation Em_Try = Bo_TryEmit"
| "emit_operation Em_Normal = Bo_Emit"

definition bus_error0 :: bus_error where
  "bus_error0 =
     \<lparr>be_status = St_Error, be_reason = Br_InternalInvariant, be_operation = Bo_Emit,
      be_message = invalid_value, be_subscription = invalid_value, be_attempted_routes = 0,
      be_accepted_routes = 0, be_rejected_routes = 0, be_dropped_routes = 0, be_native_error = 0\<rparr>"

definition attempt_ok :: "bool \<Rightarrow> bool \<Rightarrow> route_attempt" where
  "attempt_ok accepted dropped =
     \<lparr>at_failed = False, at_accepted = accepted, at_dropped = dropped, at_error = bus_error0\<rparr>"

definition attempt_failed :: "bool \<Rightarrow> bus_error \<Rightarrow> route_attempt" where
  "attempt_failed accepted e =
     \<lparr>at_failed = True, at_accepted = accepted, at_dropped = False, at_error = e\<rparr>"

definition emit_route ::
  "('m, 'w) bus_config \<Rightarrow> nat \<Rightarrow> emit_mode \<Rightarrow> 'm \<Rightarrow> ('m, 'w) bus \<Rightarrow> route_attempt \<times> ('m, 'w) bus" where
  "emit_route cfg r mode m s =
     (let err = (\<lambda>st reason. (make_bus_error (rt_message (route cfg r)) (emit_operation mode) st reason)
                    \<lparr>be_subscription := of_nat r\<rparr>);
          s = upd_route r route_considered s in
      if \<not> rs_accepting (rstate s r) then (attempt_failed False (err St_NotReady Br_NotReady), s)
      else if \<not> ed_asynchronous (delivery_of cfg r) then
        let s = upd_route r (route_accepted (bx_now cfg (bs_world s)) 0) s in
        (case deliver cfg r m s of
           (Inl e, s) \<Rightarrow> (attempt_failed True (err (err_status e) Br_InlineHandlerFailed), s)
         | (Inr _, s) \<Rightarrow> (attempt_ok True False, s))
      else
        (case route_accept cfg r mode m s of (acc, s) \<Rightarrow>
           if ra_status acc \<noteq> St_Ok then
             (attempt_failed False
                (err (ra_status acc) (if ra_timed_out acc then Br_RouteTimedOut else Br_RouteRejected)), s)
           else if ra_needs_submit acc then
             (case bx_submit cfg r (mode = Em_Isr) (bs_world s) of (submitted, w) \<Rightarrow>
                let s = s\<lparr>bs_world := w\<rparr> in
                (case submitted of
                   Inl e \<Rightarrow>
                     let s = upd_route r (route_clear_pending (delivery_of cfg r)) s;
                         s = upd_route r (route_submission_failed (err_status e)) s in
                     (attempt_failed False
                        ((err (err_status e) Br_ExecutorUnavailable)\<lparr>be_native_error := err_native e\<rparr>), s)
                 | Inr _ \<Rightarrow> (attempt_ok (ra_accepted acc) (ra_dropped acc), s)))
           else (attempt_ok (ra_accepted acc) (ra_dropped acc), s)))"

text \<open>One round of the loop over the subscriptions in \<^verbatim>\<open>emit_message\<close>, on the aggregate, the flag
  \<^verbatim>\<open>failed\<close> and the state.\<close>

definition emit_step ::
  "('m, 'w) bus_config \<Rightarrow> nat \<Rightarrow> emit_mode \<Rightarrow> 'm \<Rightarrow> nat \<Rightarrow> bus_error \<times> bool \<times> ('m, 'w) bus \<Rightarrow>
   bus_error \<times> bool \<times> ('m, 'w) bus" where
  "emit_step cfg message mode m r = (\<lambda>(agg, failed, s).
     if rt_message (route cfg r) \<noteq> message then (agg, failed, s)
     else
       let agg = agg\<lparr>be_attempted_routes := be_attempted_routes agg + 1\<rparr> in
       case emit_route cfg r mode m s of (att, s) \<Rightarrow>
         let agg = (if at_accepted att then agg\<lparr>be_accepted_routes := be_accepted_routes agg + 1\<rparr> else agg);
             agg = (if at_dropped att then agg\<lparr>be_dropped_routes := be_dropped_routes agg + 1\<rparr> else agg) in
         if at_failed att then
           let agg = agg\<lparr>be_rejected_routes := be_rejected_routes agg + 1\<rparr> in
           (if failed then agg
            else (at_error att)\<lparr>be_attempted_routes := be_attempted_routes agg,
                   be_accepted_routes := be_accepted_routes agg,
                   be_rejected_routes := be_rejected_routes agg,
                   be_dropped_routes := be_dropped_routes agg\<rparr>, True, s)
         else (agg, failed, s))"

definition emit_message ::
  "('m, 'w) bus_config \<Rightarrow> nat \<Rightarrow> emit_mode \<Rightarrow> 'm \<Rightarrow> ('m, 'w) bus \<Rightarrow> (bus_error + unit) \<times> ('m, 'w) bus" where
  "emit_message cfg message mode m s =
     (if mode \<noteq> Em_Isr \<and> bx_in_isr cfg (bs_world s) then
        (Inl (make_bus_error message (emit_operation mode) St_Invalid Br_InvalidContext), s)
      else if bx_system_state cfg (bs_world s) \<noteq> Sys_Running then
        (Inl (make_bus_error message (emit_operation mode) St_NotReady Br_NotReady), s)
      else
        case fold (emit_step cfg message mode m) [0..<length (bx_routes cfg)]
               (make_bus_error message (emit_operation mode) St_Ok Br_InternalInvariant, False, s) of
          (agg, failed, s) \<Rightarrow> (if failed then Inl agg else Inr (), s))"

section \<open>The lifecycle of the facility\<close>

definition each_route :: "(nat \<Rightarrow> 'm route_state \<Rightarrow> 'm route_state) \<Rightarrow> ('m, 'w) bus \<Rightarrow> ('m, 'w) bus" where
  "each_route f s = s\<lparr>bs_routes := map (\<lambda>(r, rs). f r rs) (enumerate 0 (bs_routes s))\<rparr>"

definition bus_init :: "('m, 'w) bus_config \<Rightarrow> ('m, 'w) bus \<Rightarrow> (solar_error + unit) \<times> ('m, 'w) bus" where
  "bus_init cfg s =
     (Inr (), each_route (\<lambda>r rs.
        let rs = route_initialize (of_nat r) (of_nat (rt_message (route cfg r))) (ed_kind (delivery_of cfg r)) rs in
        if ed_asynchronous (delivery_of cfg r) then route_reset (delivery_of cfg r) rs else rs) s)"

definition bus_start :: "('m, 'w) bus \<Rightarrow> (solar_error + unit) \<times> ('m, 'w) bus" where
  "bus_start s = (Inr (), each_route (\<lambda>_. set_accepting True) s)"

definition stop_route ::
  "('m, 'w) bus_config \<Rightarrow> nat \<Rightarrow> status \<times> ('m, 'w) bus \<Rightarrow> status \<times> ('m, 'w) bus" where
  "stop_route cfg r = (\<lambda>(st, s).
     let s = upd_route r (set_accepting False) s in
     if ed_asynchronous (delivery_of cfg r) then
       if ed_stop (delivery_of cfg r) = Bk_CancelPending then
         (st, upd_route r (route_clear_pending (delivery_of cfg r)) s)
       else
         let s = upd_route r route_copy s in
         (if rr_pending (rs_record (rstate s r)) \<noteq> 0 then St_Timeout else st, s)
     else (st, s))"

text \<open>The loop that waits until no delivery is in flight or the deadline expires; it gives the flag
  \<^verbatim>\<open>waiting\<close>. The number of rounds is bounded by the sleeps that fit before the deadline.\<close>

fun stop_wait :: "('m, 'w) bus_config \<Rightarrow> nat \<Rightarrow> ('m, 'w) bus \<Rightarrow> bool \<times> ('m, 'w) bus" where
  "stop_wait cfg 0 s = (True, s)"
| "stop_wait cfg (Suc n) s =
     (if list_ex (\<lambda>rs. rs_in_flight rs \<noteq> 0) (bs_routes s)
      then stop_wait cfg n (s\<lparr>bs_world := bx_sleep cfg (bs_world s)\<rparr>)
      else (False, s))"

definition bus_stop :: "('m, 'w) bus_config \<Rightarrow> ('m, 'w) bus \<Rightarrow> (solar_error + unit) \<times> ('m, 'w) bus" where
  "bus_stop cfg s =
     (case fold (stop_route cfg) [0..<length (bx_routes cfg)] (St_Ok, s) of (st, s) \<Rightarrow>
      case stop_wait cfg (bx_stop_polls cfg) s of (waiting, s) \<Rightarrow>
        (if st = St_Ok \<and> \<not> waiting then Inr () else Inl \<lparr>err_status = St_Timeout, err_native = 0\<rparr>,
         each_route (\<lambda>_. route_finish_stop) s))"

text \<open>The loop of \<^verbatim>\<open>drain\<close> over a queued route ends because every round takes one message.\<close>

lemma rstate_upd_route:
  "rstate (upd_route r f s) q = (if q = r \<and> r < length (bs_routes s) then f (rstate s r) else rstate s q)"
  by (cases "r < length (bs_routes s)") (auto simp: upd_route_def nth_list_update list_update_beyond)

lemma length_upd_route [simp]: "length (bs_routes (upd_route r f s)) = length (bs_routes s)"
  by (simp add: upd_route_def)

lemma deliver_count:
  "deliver cfg r m s = (res, s') \<Longrightarrow> rs_count (rstate s' q) = rs_count (rstate s q)"
  by (auto simp: deliver_def Let_def rstate_upd_route deliver_begin_def deliver_end_def mutate_def
      split: prod.splits)

lemma drain_one_count:
  assumes "ed_kind (delivery_of cfg r) = Dk_Queued" and "r < length (bs_routes s)" and "drain_one cfg r s = (True, s')"
  shows "rs_count (rstate s' r) < rs_count (rstate s r)"
  using assms
  by (auto simp: drain_one_def route_pop_def queued_pop_def Let_def rstate_upd_route mutate_def
      split: if_splits prod.splits option.splits dest!: deliver_count [where q = r])

function drain_all :: "('m, 'w) bus_config \<Rightarrow> nat \<Rightarrow> ('m, 'w) bus \<Rightarrow> ('m, 'w) bus" where
  "drain_all cfg r s =
     (if ed_kind (delivery_of cfg r) = Dk_Queued \<and> r < length (bs_routes s) then
        case drain_one cfg r s of (again, s') \<Rightarrow> if again then drain_all cfg r s' else s'
      else s)"
  by pat_completeness auto
termination
  by (relation "measure (\<lambda>(cfg, r, s). rs_count (rstate s r))") (auto dest: drain_one_count [OF _ _ sym])

declare drain_all.simps [simp del]

definition bus_drain :: "('m, 'w) bus_config \<Rightarrow> nat \<Rightarrow> ('m, 'w) bus \<Rightarrow> ('m, 'w) bus" where
  "bus_drain cfg r s =
     (if ed_kind (delivery_of cfg r) = Dk_Queued then drain_all cfg r s
      else if ed_asynchronous (delivery_of cfg r) then snd (drain_one cfg r s)
      else s)"

section \<open>Queries\<close>

definition route_record_of :: "('m, 'w) bus_config \<Rightarrow> nat \<Rightarrow> ('m, 'w) bus \<Rightarrow> route_record \<times> ('m, 'w) bus" where
  "route_record_of cfg r s =
     (let s = upd_route r route_copy s in
      ((rs_record (rstate s r))\<lparr>rr_subscriber := of_nat (rt_subscriber (route cfg r))\<rparr>, s))"

fun find_route :: "nat \<Rightarrow> nat \<Rightarrow> nat \<Rightarrow> ('m, 'w) bus_route list \<Rightarrow> nat \<Rightarrow> nat option" where
  "find_route subscriber message tag [] r = None"
| "find_route subscriber message tag (rt # rts) r =
     (if subscriber = rt_subscriber rt \<and> message = rt_message rt \<and> tag = rt_tag rt then Some r
      else find_route subscriber message tag rts (r + 1))"

definition bus_record ::
  "('m, 'w) bus_config \<Rightarrow> nat \<Rightarrow> nat \<Rightarrow> nat \<Rightarrow> ('m, 'w) bus \<Rightarrow> (bus_error + route_record) \<times> ('m, 'w) bus" where
  "bus_record cfg subscriber message tag s =
     (case find_route subscriber message tag (bx_routes cfg) 0 of
        Some r \<Rightarrow> (case route_record_of cfg r s of (rec, s) \<Rightarrow> (Inr rec, s))
      | None \<Rightarrow>
          (Inl (bus_error0\<lparr>be_status := St_NotFound, be_reason := Br_NotRegistered, be_operation := Bo_Query,
                  be_message := (if message < bx_messages cfg then of_nat message else invalid_value)\<rparr>), s))"

section \<open>Static assertions\<close>

definition same_logical_route :: "('m, 'w) bus_route \<Rightarrow> ('m, 'w) bus_route \<Rightarrow> bool" where
  "same_logical_route l r =
     (rt_message l = rt_message r \<and> rt_subscriber l = rt_subscriber r \<and> rt_tag l = rt_tag r)"

fun validate_route_pairs :: "('m, 'w) bus_route list \<Rightarrow> bool" where
  "validate_route_pairs [] = True"
| "validate_route_pairs (rt # rts) =
     (list_all (\<lambda>q. \<not> same_logical_route rt q) rts \<and> validate_route_pairs rts)"

definition validate_route :: "('m, 'w) bus_config \<Rightarrow> nat \<Rightarrow> bool" where
  "validate_route cfg r =
     (rt_message (route cfg r) < bx_messages cfg \<and>
      (ed_kind (delivery_of cfg r) = Dk_Queued \<longrightarrow>
         ed_capacity (delivery_of cfg r) \<noteq> 0 \<and> ed_capacity (delivery_of cfg r) \<le> bx_max_capacity cfg))"

end
