(* ===== verification/Bus_Mailbox.thy ===== *)
theory Bus_Mailbox
  imports Bus_Runtime
begin

text \<open>
  The contract that the three kinds of asynchronous routes share. The locale \<open>mailbox\<close> fixes what a route state
  holds and how a message is taken out of it or everything is cleared; its lemmas account for
  every accepted message. It is interpreted on queued, latest and coalescing routes.
\<close>

section \<open>Accounting\<close>

text \<open>What has become of the accepted messages, on the counters of the record.\<close>

definition settled_messages :: "route_record \<Rightarrow> u64" where
  "settled_messages rec =
     rr_delivered rec + rr_dropped_oldest rec + rr_replacements rec + rr_coalesced rec + rr_cancelled rec"

definition balanced :: "'m list \<Rightarrow> route_record \<Rightarrow> bool" where
  "balanced q rec \<longleftrightarrow>
     rr_accepted rec = settled_messages rec + of_nat (length q) \<and> rr_pending rec = of_nat (length q)"

lemmas record_ops =
  mutate_def route_considered_def route_accepted_def route_rejected_def route_dropped_newest_def
  route_dropped_oldest_def route_replaced_def route_coalesced_def route_cancelled_def
  route_submission_failed_def route_finish_stop_def route_copy_def set_accepting_def

lemma deliver_end_record:
  "rs_record (deliver_end result now rs) =
     (let rec = rs_record rs in
      case result of
        Inr _ \<Rightarrow> rec\<lparr>rr_delivered := rr_delivered rec + 1, rr_last_status := St_Ok, rr_last_delivery_tick := now,
                  rr_in_flight := rr_in_flight rec - 1,
                  rr_quiescent := (rr_pending rec = 0 \<and> rr_in_flight rec - 1 = 0)\<rparr>
      | Inl e \<Rightarrow> rec\<lparr>rr_delivered := rr_delivered rec + 1, rr_handler_failed := rr_handler_failed rec + 1,
                  rr_first_handler_failure :=
                    (if rr_has_handler_failure rec then rr_first_handler_failure rec else err_status e),
                  rr_has_handler_failure := True, rr_last_handler_failure := err_status e,
                  rr_last_status := err_status e, rr_last_delivery_tick := now,
                  rr_in_flight := rr_in_flight rec - 1,
                  rr_quiescent := (rr_pending rec = 0 \<and> rr_in_flight rec - 1 = 0)\<rparr>)"
  by (simp add: deliver_end_def mutate_def Let_def split: sum.split)

text \<open>A delivery as one update of the route state.\<close>

definition delivered :: "solar_error + unit \<Rightarrow> int \<Rightarrow> 'm route_state \<Rightarrow> 'm route_state" where
  "delivered result now rs = deliver_end result now (deliver_begin rs)"

lemma delivered_frame:
  "rs_accepting (delivered res now rs) = rs_accepting rs"
  "rs_in_flight (delivered res now rs) = rs_in_flight rs"
  "rs_storage (delivered res now rs) = rs_storage rs" "rs_slots (delivered res now rs) = rs_slots rs"
  "rs_head (delivered res now rs) = rs_head rs" "rs_tail (delivered res now rs) = rs_tail rs"
  "rs_count (delivered res now rs) = rs_count rs" "rs_payload (delivered res now rs) = rs_payload rs"
  "rs_pending (delivered res now rs) = rs_pending rs"
  "rr_in_flight (rs_record (delivered res now rs)) = rr_in_flight (rs_record rs)"
  by (simp_all add: delivered_def deliver_end_def deliver_begin_def mutate_def Let_def split: sum.split)

lemma delivered_counts:
  "rr_delivered (rs_record (delivered res now rs)) = rr_delivered (rs_record rs) + 1"
  "rr_accepted (rs_record (delivered res now rs)) = rr_accepted (rs_record rs)"
  "rr_dropped_oldest (rs_record (delivered res now rs)) = rr_dropped_oldest (rs_record rs)"
  "rr_replacements (rs_record (delivered res now rs)) = rr_replacements (rs_record rs)"
  "rr_coalesced (rs_record (delivered res now rs)) = rr_coalesced (rs_record rs)"
  "rr_cancelled (rs_record (delivered res now rs)) = rr_cancelled (rs_record rs)"
  "rr_pending (rs_record (delivered res now rs)) = rr_pending (rs_record rs)"
  by (simp_all add: delivered_def deliver_end_def deliver_begin_def mutate_def Let_def split: sum.split)

lemma deliver_eq:
  assumes "deliver cfg r m s = (res, s')"
  shows "\<exists>now. s' = (upd_route r (delivered res now) s)
      \<lparr>bs_world := snd (invoke_handler (rt_handler (route cfg r)) m (bs_world s))\<rparr> \<and>
    res = fst (invoke_handler (rt_handler (route cfg r)) m (bs_world s))"
proof -
  obtain res0 w where h: "invoke_handler (rt_handler (route cfg r)) m (bs_world s) = (res0, w)" by force
  then have "s' = upd_route r (deliver_end res (bx_now cfg w)) ((upd_route r deliver_begin s)\<lparr>bs_world := w\<rparr>)" "res = res0"
    using assms by (auto simp: deliver_def Let_def upd_route_def)
  then show ?thesis using h
    by (intro exI [of _ "bx_now cfg w"], cases "r < length (bs_routes s)")
      (auto simp: upd_route_def delivered_def list_update_beyond)
qed

section \<open>The interface\<close>

locale mailbox =
  fixes content :: "'m route_state \<Rightarrow> 'm list" and wf :: "'m route_state \<Rightarrow> bool"
    and pop :: "'m route_state \<Rightarrow> ('m \<times> 'm route_state) option" and clear :: "'m route_state \<Rightarrow> 'm route_state"
  assumes pop_none: "wf rs \<Longrightarrow> content rs = [] \<Longrightarrow> pop rs = None"
    and pop_some: "wf rs \<Longrightarrow> content rs = m # q \<Longrightarrow>
      \<exists>rs'. pop rs = Some (m, rs') \<and> wf rs' \<and> content rs' = q \<and> rs_accepting rs' = rs_accepting rs \<and>
        rs_in_flight rs' = rs_in_flight rs \<and> rs_record rs' = (rs_record rs)\<lparr>rr_pending := of_nat (length q)\<rparr>"
    and clear_all: "wf rs \<Longrightarrow> wf (clear rs) \<and> content (clear rs) = [] \<and>
        rs_accepting (clear rs) = rs_accepting rs \<and> rs_in_flight (clear rs) = rs_in_flight rs \<and>
        rs_record (clear rs) = (rs_record rs)\<lparr>rr_cancelled := rr_cancelled (rs_record rs) + of_nat (length (content rs)),
          rr_pending := 0, rr_quiescent := (rs_in_flight rs = 0)\<rparr>"
    and record_frame: "content (rs\<lparr>rs_record := rec, rs_accepting := b, rs_in_flight := n\<rparr>) = content rs"
      "wf (rs\<lparr>rs_record := rec, rs_accepting := b, rs_in_flight := n\<rparr>) = wf rs"
begin

lemma frame_eq:
  assumes "rs_storage rs' = rs_storage rs" "rs_slots rs' = rs_slots rs" "rs_head rs' = rs_head rs"
    "rs_tail rs' = rs_tail rs" "rs_count rs' = rs_count rs" "rs_payload rs' = rs_payload rs" "rs_pending rs' = rs_pending rs"
  shows "content rs' = content rs" and "wf rs' = wf rs"
proof -
  have "rs' = rs\<lparr>rs_record := rs_record rs', rs_accepting := rs_accepting rs', rs_in_flight := rs_in_flight rs'\<rparr>"
    using assms by (cases rs; cases rs') simp
  then show "content rs' = content rs" and "wf rs' = wf rs" by (metis record_frame)+
qed

lemma delivered_box:
  "content (delivered res now rs) = content rs" "wf (delivered res now rs) = wf rs"
  by (rule frame_eq; simp add: delivered_frame)+

lemma pop_cases:
  assumes "wf rs" and "pop rs = Some (m, rs')"
  shows "content rs = m # content rs'" and "wf rs'" and "rs_accepting rs' = rs_accepting rs"
    and "rs_in_flight rs' = rs_in_flight rs"
    and "rs_record rs' = (rs_record rs)\<lparr>rr_pending := of_nat (length (content rs'))\<rparr>"
proof -
  obtain m0 q where q: "content rs = m0 # q" using assms pop_none by (cases "content rs") auto
  from pop_some [OF assms(1) q] assms(2)
  show "content rs = m # content rs'" "wf rs'" "rs_accepting rs' = rs_accepting rs" "rs_in_flight rs' = rs_in_flight rs"
    "rs_record rs' = (rs_record rs)\<lparr>rr_pending := of_nat (length (content rs'))\<rparr>" using q by auto
qed

lemma pop_balanced:
  assumes "wf rs" and "balanced (content rs) (rs_record rs)" and "pop rs = Some (m, rs')"
  shows "balanced (content (delivered res now rs')) (rs_record (delivered res now rs'))"
  using assms(2) pop_cases [OF assms(1,3)]
  by (simp add: balanced_def delivered_box delivered_counts settled_messages_def algebra_simps)

lemma clear_balanced:
  assumes "wf rs" and "balanced (content rs) (rs_record rs)"
  shows "balanced (content (clear rs)) (rs_record (clear rs))"
  using assms clear_all [of rs] by (simp add: balanced_def settled_messages_def algebra_simps)

end

section \<open>Queued routes\<close>

definition queue_of :: "nat \<Rightarrow> 'm route_state \<Rightarrow> 'm list" where
  "queue_of capacity rs = map (\<lambda>i. rs_storage rs ! ((rs_head rs + i) mod capacity)) [0..<rs_count rs]"

definition queued_wf :: "nat \<Rightarrow> 'm route_state \<Rightarrow> bool" where
  "queued_wf capacity rs \<longleftrightarrow>
     0 < capacity \<and> capacity < 2 ^ 32 \<and> length (rs_storage rs) = capacity \<and> rs_head rs < capacity \<and>
     rs_tail rs = (rs_head rs + rs_count rs) mod capacity \<and> rs_count rs + rs_slots rs = capacity"

lemma queue_of_Cons:
  assumes "rs_count rs \<noteq> 0" and "rs_head rs < capacity"
  shows "queue_of capacity rs =
    rs_storage rs ! rs_head rs # queue_of capacity (rs\<lparr>rs_head := (rs_head rs + 1) mod capacity, rs_count := rs_count rs - 1\<rparr>)"
proof -
  obtain n where n: "rs_count rs = Suc n" using assms(1) by (cases "rs_count rs") auto
  have "[0..<Suc n] = 0 # map Suc [0..<n]" by (simp add: map_Suc_upt upt_conv_Cons del: upt_Suc)
  then show ?thesis using n assms(2) by (simp add: queue_of_def mod_simps comp_def del: upt_Suc)
qed

lemma ring_advance:
  fixes n h capacity :: nat
  assumes "0 < n"
  shows "(Suc h mod capacity + n - Suc 0) mod capacity = (h + n) mod capacity"
proof -
  have "(Suc h mod capacity + (n - 1)) mod capacity = (Suc h + (n - 1)) mod capacity" by (rule mod_add_left_eq)
  then show ?thesis using assms by simp
qed

lemma ring_distinct:
  fixes i n h capacity :: nat
  assumes "i < n" and "n < capacity"
  shows "(h + i) mod capacity \<noteq> (h + n) mod capacity"
proof
  assume "(h + i) mod capacity = (h + n) mod capacity"
  then have "capacity dvd (h + n) - (h + i)" using assms by (metis add_left_mono less_imp_le mod_eq_dvd_iff_nat)
  then show False using assms by (auto dest: dvd_imp_le)
qed

lemma length_queue_of [simp]: "length (queue_of capacity rs) = rs_count rs"
  by (simp add: queue_of_def)

lemma u64_ucast_small:
  assumes "n < 2 ^ 32"
  shows "ucast (of_nat n :: u32) = (of_nat n :: u64)"
  using assms by (simp add: unsigned_of_nat take_bit_nat_eq_self)

interpretation queued: mailbox "queue_of capacity" "queued_wf capacity" "queued_pop capacity" "queued_clear_pending capacity"
  for capacity
proof unfold_locales
  fix rs :: "'m route_state"
  assume wf: "queued_wf capacity rs"
  show "queued_pop capacity rs = None" if "queue_of capacity rs = []"
    using arg_cong [OF that, of length] by (simp add: queued_pop_def)
  show "\<exists>rs'. queued_pop capacity rs = Some (m, rs') \<and> queued_wf capacity rs' \<and> queue_of capacity rs' = q \<and>
      rs_accepting rs' = rs_accepting rs \<and> rs_in_flight rs' = rs_in_flight rs \<and>
      rs_record rs' = (rs_record rs)\<lparr>rr_pending := of_nat (length q)\<rparr>" if q: "queue_of capacity rs = m # q" for m q
  proof -
    define rs1 where "rs1 = rs\<lparr>rs_head := (rs_head rs + 1) mod capacity, rs_count := rs_count rs - 1\<rparr>"
    have ne: "rs_count rs \<noteq> 0" using arg_cong [OF q, of length] by simp
    have q1: "m = rs_storage rs ! rs_head rs" "q = queue_of capacity rs1" "length q = rs_count rs - 1"
      using queue_of_Cons [OF ne] wf q arg_cong [OF q, of length] by (auto simp: queued_wf_def rs1_def)
    have "queue_of capacity (rs1\<lparr>rs_slots := k, rs_record := rec\<rparr>) = queue_of capacity rs1" for k rec
      by (simp add: queue_of_def)
    then show ?thesis using wf ne q1
      by (auto simp: ring_advance queued_pop_def Let_def mutate_def rs1_def queued_wf_def min_def)
  qed
  show "queued_wf capacity (queued_clear_pending capacity rs) \<and> queue_of capacity (queued_clear_pending capacity rs) = [] \<and>
      rs_accepting (queued_clear_pending capacity rs) = rs_accepting rs \<and>
      rs_in_flight (queued_clear_pending capacity rs) = rs_in_flight rs \<and>
      rs_record (queued_clear_pending capacity rs) =
        (rs_record rs)\<lparr>rr_cancelled := rr_cancelled (rs_record rs) + of_nat (length (queue_of capacity rs)),
          rr_pending := 0, rr_quiescent := (rs_in_flight rs = 0)\<rparr>"
    using wf by (simp add: queued_clear_pending_def route_cancelled_def mutate_def queued_wf_def queue_of_def u64_ucast_small)
qed (simp_all add: queue_of_def queued_wf_def)

lemma queued_store_wf:
  assumes "queued_wf capacity (rs\<lparr>rs_slots := rs_slots rs + (if drop_first then 0 else 1)\<rparr>)"
    and "drop_first \<longleftrightarrow> rs_count rs = capacity"
  shows "queued_wf capacity (queued_store capacity drop_first m rs)"
    and "queue_of capacity (queued_store capacity drop_first m rs) =
      (if drop_first then tl (queue_of capacity rs) else queue_of capacity rs) @ [m]"
proof -
  define rs1 where
    "rs1 = (if drop_first then
        route_dropped_oldest (rs\<lparr>rs_head := (rs_head rs + 1) mod capacity, rs_count := size_dec (rs_count rs)\<rparr>) else rs)"
  have store: "queued_store capacity drop_first m rs =
      rs1\<lparr>rs_storage := (rs_storage rs1)[rs_tail rs1 := m], rs_tail := (rs_tail rs1 + 1) mod capacity,
          rs_count := size_inc (rs_count rs1)\<rparr>"
    by (simp add: queued_store_def rs1_def Let_def)
  have cap: "0 < capacity" "capacity < 2 ^ 32" using assms(1) by (simp_all add: queued_wf_def)
  have dec: "size_dec capacity = capacity - 1"
    using cap by (simp add: size_dec_def mod_if)
  have rs1: "rs_count rs1 < capacity" "rs_head rs1 < capacity" "length (rs_storage rs1) = capacity"
    "rs_tail rs1 = (rs_head rs1 + rs_count rs1) mod capacity"
    "rs_count rs1 + 1 + rs_slots rs1 = capacity"
    using assms cap dec by (auto simp: rs1_def queued_wf_def route_dropped_oldest_def mutate_def ring_advance)
  have queue: "queue_of capacity rs1 = (if drop_first then tl (queue_of capacity rs) else queue_of capacity rs)"
  proof (cases drop_first)
    case True
    then have "queue_of capacity rs1 =
        queue_of capacity (rs\<lparr>rs_head := (rs_head rs + 1) mod capacity, rs_count := rs_count rs - 1\<rparr>)"
      using assms(2) dec by (simp add: rs1_def route_dropped_oldest_def mutate_def queue_of_def)
    with True assms cap queue_of_Cons [of rs capacity] show ?thesis by (simp add: queued_wf_def)
  qed (simp add: rs1_def)
  have inc: "size_inc (rs_count rs1) = Suc (rs_count rs1)" using rs1(1) cap by (simp add: size_inc_def)
  show "queued_wf capacity (queued_store capacity drop_first m rs)"
    using rs1 cap inc by (simp add: store queued_wf_def mod_simps)
  have "(rs_storage rs1)[rs_tail rs1 := m] ! ((rs_head rs1 + i) mod capacity) = rs_storage rs1 ! ((rs_head rs1 + i) mod capacity)"
    if "i < rs_count rs1" for i
    using ring_distinct [OF that rs1(1), of "rs_head rs1"] rs1(4) by simp
  then show "queue_of capacity (queued_store capacity drop_first m rs) =
      (if drop_first then tl (queue_of capacity rs) else queue_of capacity rs) @ [m]"
    using rs1 cap inc by (simp add: store queue [symmetric]) (simp add: queue_of_def)
qed

section \<open>Latest and coalescing routes\<close>

definition latest_content :: "'m route_state \<Rightarrow> 'm list" where
  "latest_content rs = (if rs_pending rs then [rs_payload rs] else [])"

definition coalesced_content :: "'m \<Rightarrow> 'm route_state \<Rightarrow> 'm list" where
  "coalesced_content zero rs = (if rs_pending rs then [zero] else [])"

interpretation latest: mailbox latest_content "\<lambda>_. True" latest_pop latest_clear_pending
  by unfold_locales
    (auto simp: latest_content_def latest_pop_def latest_clear_pending_def route_cancelled_def mutate_def split: if_splits)

interpretation coalescing: mailbox "coalesced_content zero" "\<lambda>_. True" "coalesced_pop zero" coalesced_clear_pending for zero
  by unfold_locales
    (auto simp: coalesced_content_def coalesced_pop_def coalesced_clear_pending_def route_cancelled_def mutate_def split: if_splits)

end
