(* ===== verification/Bus_System.thy ===== *)
theory Bus_System
  imports Bus_Mailbox
begin

text \<open>
  The bus as a state machine. \<open>pending_messages\<close> is what a route holds; \<open>box_accept\<close> is what each delivery
  kind promises to make of a new message. The operations keep the invariant \<open>bus_ok\<close>: rings are
  well formed, no delivery is in flight between operations, and the counters of a route account for every
  message it has accepted.
\<close>

section \<open>The invariant\<close>

definition box_content :: "effective_delivery \<Rightarrow> 'm \<Rightarrow> 'm route_state \<Rightarrow> 'm list" where
  "box_content ed zero rs =
     (case ed_kind ed of
        Dk_Queued \<Rightarrow> queue_of (ed_capacity ed) rs
      | Dk_Latest \<Rightarrow> latest_content rs
      | Dk_Coalesced \<Rightarrow> coalesced_content zero rs
      | _ \<Rightarrow> [])"

definition box_wf :: "effective_delivery \<Rightarrow> 'm route_state \<Rightarrow> bool" where
  "box_wf ed rs \<longleftrightarrow> (ed_kind ed = Dk_Queued \<longrightarrow> queued_wf (ed_capacity ed) rs)"

definition route_ok :: "effective_delivery \<Rightarrow> 'm \<Rightarrow> 'm route_state \<Rightarrow> bool" where
  "route_ok ed zero rs \<longleftrightarrow>
     rs_in_flight rs = 0 \<and> rr_in_flight (rs_record rs) = 0 \<and> box_wf ed rs \<and>
     balanced (box_content ed zero rs) (rs_record rs)"

definition pending_messages :: "('m, 'w) bus_config \<Rightarrow> ('m, 'w) bus \<Rightarrow> nat \<Rightarrow> 'm list" where
  "pending_messages cfg s r = box_content (delivery_of cfg r) (rt_zero (route cfg r)) (rstate s r)"

definition bus_ok :: "('m, 'w) bus_config \<Rightarrow> ('m, 'w) bus \<Rightarrow> bool" where
  "bus_ok cfg s \<longleftrightarrow>
     length (bs_routes s) = length (bx_routes cfg) \<and>
     (\<forall>r < length (bx_routes cfg). route_ok (delivery_of cfg r) (rt_zero (route cfg r)) (rstate s r))"

text \<open>A route whose mailbox is untouched.\<close>

definition same_box :: "'m route_state \<Rightarrow> 'm route_state \<Rightarrow> bool" where
  "same_box rs' rs \<longleftrightarrow>
     rs_storage rs' = rs_storage rs \<and> rs_slots rs' = rs_slots rs \<and> rs_head rs' = rs_head rs \<and>
     rs_tail rs' = rs_tail rs \<and> rs_count rs' = rs_count rs \<and> rs_payload rs' = rs_payload rs \<and>
     rs_pending rs' = rs_pending rs"

lemma same_box_content:
  assumes "same_box rs' rs"
  shows "box_content ed zero rs' = box_content ed zero rs" and "box_wf ed rs' = box_wf ed rs"
  using assms
  by (simp_all add: same_box_def box_content_def box_wf_def queue_of_def latest_content_def coalesced_content_def
      queued_wf_def split: delivery_kind.split)

lemma same_box_ok:
  assumes "route_ok ed zero rs" and "same_box rs' rs" and "rs_in_flight rs' = 0" and "rr_in_flight (rs_record rs') = 0"
    and "rr_accepted (rs_record rs') - settled_messages (rs_record rs') = rr_accepted (rs_record rs) - settled_messages (rs_record rs)"
    and "rr_pending (rs_record rs') = rr_pending (rs_record rs)"
  shows "route_ok ed zero rs'"
  using assms by (auto simp: route_ok_def same_box_content balanced_def algebra_simps diff_eq_eq)

text \<open>The updates that touch neither the mailbox nor the balance.\<close>

definition neutral :: "('m route_state \<Rightarrow> 'm route_state) \<Rightarrow> bool" where
  "neutral f \<longleftrightarrow>
     (\<forall>rs. rs_in_flight rs = 0 \<longrightarrow> rr_in_flight (rs_record rs) = 0 \<longrightarrow>
        same_box (f rs) rs \<and> rs_in_flight (f rs) = 0 \<and> rr_in_flight (rs_record (f rs)) = 0 \<and>
        rr_accepted (rs_record (f rs)) = rr_accepted (rs_record rs) \<and>
        settled_messages (rs_record (f rs)) = settled_messages (rs_record rs) \<and>
        rr_pending (rs_record (f rs)) = rr_pending (rs_record rs))"

lemma neutral_ops:
  "neutral route_considered" "neutral (route_rejected st b)" "neutral route_dropped_newest"
  "neutral (route_submission_failed st)" "neutral route_finish_stop" "neutral route_copy" "neutral (set_accepting b)"
  by (simp_all add: neutral_def record_ops same_box_def settled_messages_def)

lemma neutral_ok: "neutral f \<Longrightarrow> route_ok ed zero rs \<Longrightarrow> route_ok ed zero (f rs)"
  by (rule same_box_ok) (simp_all add: neutral_def route_ok_def)

lemma neutral_content: "neutral f \<Longrightarrow> route_ok ed zero rs \<Longrightarrow> box_content ed zero (f rs) = box_content ed zero rs"
  by (rule same_box_content) (simp add: neutral_def route_ok_def)

section \<open>Taking messages out\<close>

lemma same_box_delivered: "same_box (delivered res now rs) rs"
  by (simp add: same_box_def delivered_frame)

lemma pop_ok:
  assumes "route_ok ed zero rs" and "route_pop ed zero rs = Some (m, rs')"
  shows "box_content ed zero rs = m # box_content ed zero rs'" and "rs_accepting rs' = rs_accepting rs"
    and "route_ok ed zero (delivered res now rs')"
proof -
  have ok: "rs_in_flight rs = 0" "rr_in_flight (rs_record rs) = 0" "box_wf ed rs" "balanced (box_content ed zero rs) (rs_record rs)"
    using assms(1) by (simp_all add: route_ok_def)
  consider "ed_kind ed = Dk_Queued" | "ed_kind ed = Dk_Latest" | "ed_kind ed = Dk_Coalesced"
    using assms(2) by (cases "ed_kind ed") (auto simp: route_pop_def)
  then have "box_content ed zero rs = m # box_content ed zero rs' \<and> rs_accepting rs' = rs_accepting rs \<and>
      rs_in_flight rs' = rs_in_flight rs \<and> box_wf ed rs' \<and> rr_in_flight (rs_record rs') = rr_in_flight (rs_record rs) \<and>
      balanced (box_content ed zero (delivered res now rs')) (rs_record (delivered res now rs'))"
  proof cases
    case 1
    then show ?thesis using ok assms(2) queued.pop_cases [of "ed_capacity ed" rs m rs']
        queued.pop_balanced [of "ed_capacity ed" rs m rs' res now]
      by (simp add: route_pop_def box_content_def box_wf_def)
  next
    case 2
    then show ?thesis using ok assms(2) latest.pop_cases [of rs m rs'] latest.pop_balanced [of rs m rs' res now]
      by (simp add: route_pop_def box_content_def box_wf_def)
  next
    case 3
    then show ?thesis using ok assms(2) coalescing.pop_cases [of zero rs m rs'] coalescing.pop_balanced [of zero rs m rs' res now]
      by (simp add: route_pop_def box_content_def box_wf_def)
  qed
  then show "box_content ed zero rs = m # box_content ed zero rs'" "rs_accepting rs' = rs_accepting rs"
    "route_ok ed zero (delivered res now rs')"
    using ok by (simp_all add: route_ok_def delivered_frame same_box_content [OF same_box_delivered])
qed

lemma pop_none:
  assumes "route_ok ed zero rs"
  shows "route_pop ed zero rs = None \<longleftrightarrow> box_content ed zero rs = []"
proof -
  have "box_content ed zero rs = [] \<Longrightarrow> route_pop ed zero rs = None"
    using assms by (auto simp: route_pop_def box_content_def route_ok_def box_wf_def queued.pop_none latest.pop_none
        coalescing.pop_none split: delivery_kind.splits)
  moreover have "route_pop ed zero rs = None \<Longrightarrow> box_content ed zero rs = []"
    using assms queued.pop_some latest.pop_some coalescing.pop_some
    by (cases "box_content ed zero rs")
      (fastforce simp: route_pop_def box_content_def route_ok_def box_wf_def split: delivery_kind.splits)+
  ultimately show ?thesis by blast
qed

lemma clear_ok:
  assumes "route_ok ed zero rs" and "ed_kind ed \<in> {Dk_Queued, Dk_Latest, Dk_Coalesced}"
  shows "route_ok ed zero (route_clear_pending ed rs)" and "box_content ed zero (route_clear_pending ed rs) = []"
    and "rs_accepting (route_clear_pending ed rs) = rs_accepting rs"
proof -
  have ok: "rs_in_flight rs = 0" "rr_in_flight (rs_record rs) = 0" "box_wf ed rs" "balanced (box_content ed zero rs) (rs_record rs)"
    using assms(1) by (simp_all add: route_ok_def)
  consider "ed_kind ed = Dk_Queued" | "ed_kind ed = Dk_Latest" | "ed_kind ed = Dk_Coalesced" using assms(2) by blast
  then have "route_ok ed zero (route_clear_pending ed rs) \<and> box_content ed zero (route_clear_pending ed rs) = [] \<and>
      rs_accepting (route_clear_pending ed rs) = rs_accepting rs"
  proof cases
    case 1
    then show ?thesis using ok queued.clear_all [of "ed_capacity ed" rs] queued.clear_balanced [of "ed_capacity ed" rs]
      by (simp add: route_ok_def route_clear_pending_def box_content_def box_wf_def)
  next
    case 2
    then show ?thesis using ok latest.clear_all [of rs] latest.clear_balanced [of rs]
      by (simp add: route_ok_def route_clear_pending_def box_content_def box_wf_def)
  next
    case 3
    then show ?thesis using ok coalescing.clear_all [of zero rs] coalescing.clear_balanced [of zero rs]
      by (simp add: route_ok_def route_clear_pending_def box_content_def box_wf_def)
  qed
  then show "route_ok ed zero (route_clear_pending ed rs)" "box_content ed zero (route_clear_pending ed rs) = []"
    "rs_accepting (route_clear_pending ed rs) = rs_accepting rs" by simp_all
qed

section \<open>Updates of the bus\<close>

lemma bus_okD: "bus_ok cfg s \<Longrightarrow> r < length (bx_routes cfg) \<Longrightarrow> route_ok (delivery_of cfg r) (rt_zero (route cfg r)) (rstate s r)"
  by (simp add: bus_ok_def)

lemma bus_ok_length: "bus_ok cfg s \<Longrightarrow> length (bs_routes s) = length (bx_routes cfg)"
  by (simp add: bus_ok_def)

lemma bus_ok_upd:
  assumes "bus_ok cfg s" and "r < length (bx_routes cfg) \<Longrightarrow> route_ok (delivery_of cfg r) (rt_zero (route cfg r)) (f (rstate s r))"
  shows "bus_ok cfg (upd_route r f s)"
  using assms by (auto simp: bus_ok_def rstate_upd_route)

lemma bus_ok_world [simp]: "bus_ok cfg (s\<lparr>bs_world := w\<rparr>) = bus_ok cfg s"
  by (simp add: bus_ok_def)

lemma pending_world [simp]: "pending_messages cfg (s\<lparr>bs_world := w\<rparr>) r = pending_messages cfg s r"
  by (simp add: pending_messages_def)

lemma bus_ok_neutral: "bus_ok cfg s \<Longrightarrow> neutral f \<Longrightarrow> bus_ok cfg (upd_route r f s)"
  by (rule bus_ok_upd) (auto intro: neutral_ok bus_okD)

lemma pending_neutral:
  assumes "bus_ok cfg s" and "neutral f" and "q < length (bx_routes cfg)"
  shows "pending_messages cfg (upd_route r f s) q = pending_messages cfg s q"
  using neutral_content [OF assms(2) bus_okD [OF assms(1,3)]] by (auto simp: pending_messages_def rstate_upd_route)

text \<open>What draining does: the messages a route holds are handed to its handler in order.\<close>

abbreviation handle :: "('m, 'w) bus_config \<Rightarrow> nat \<Rightarrow> 'm \<Rightarrow> 'w \<Rightarrow> 'w" where
  "handle cfg r m w \<equiv> snd (invoke_handler (rt_handler (route cfg r)) m w)"

lemma drain_one_spec:
  assumes "bus_ok cfg s" and "r < length (bx_routes cfg)" and "drain_one cfg r s = (again, s')"
  shows "bus_ok cfg s'" and "\<And>q. q \<noteq> r \<Longrightarrow> rstate s' q = rstate s q"
    and "rs_accepting (rstate s' r) = rs_accepting (rstate s r)"
    and "again \<longleftrightarrow> pending_messages cfg s r \<noteq> []"
    and "pending_messages cfg s' r = tl (pending_messages cfg s r)"
    and "bs_world s' = (case pending_messages cfg s r of [] \<Rightarrow> bs_world s | m # _ \<Rightarrow> handle cfg r m (bs_world s))"
proof -
  let ?ed = "delivery_of cfg r" and ?z = "rt_zero (route cfg r)"
  note ok = bus_okD [OF assms(1,2)]
  have len: "r < length (bs_routes s)" using assms by (simp add: bus_ok_def)
  have "bus_ok cfg s' \<and> (\<forall>q. q \<noteq> r \<longrightarrow> rstate s' q = rstate s q) \<and> rs_accepting (rstate s' r) = rs_accepting (rstate s r) \<and>
    (again \<longleftrightarrow> pending_messages cfg s r \<noteq> []) \<and> pending_messages cfg s' r = tl (pending_messages cfg s r) \<and>
    bs_world s' = (case pending_messages cfg s r of [] \<Rightarrow> bs_world s | m # _ \<Rightarrow> handle cfg r m (bs_world s))"
  proof (cases "route_pop ?ed ?z (rstate s r)")
    case None
    then show ?thesis using assms pop_none [OF ok] by (simp add: drain_one_def pending_messages_def)
  next
    case (Some mrs)
    obtain m rs where mrs: "mrs = (m, rs)" by force
    note pop = pop_ok [OF ok Some [unfolded mrs]]
    obtain res where d: "deliver cfg r m (upd_route r (\<lambda>_. rs) s) = (res, s')" "again"
      using assms(3) Some mrs by (auto simp: drain_one_def split: prod.splits)
    then obtain now where s': "s' = (upd_route r (delivered res now) (upd_route r (\<lambda>_. rs) s))
        \<lparr>bs_world := handle cfg r m (bs_world (upd_route r (\<lambda>_. rs) s))\<rparr>"
      using deliver_eq [OF d(1)] by blast
    have "rstate s' q = (if q = r then delivered res now rs else rstate s q)" for q
      using len by (simp add: s' rstate_upd_route)
    moreover have "length (bs_routes s') = length (bs_routes s)" by (simp add: s')
    moreover have "bs_world (upd_route r (\<lambda>_. rs) s) = bs_world s" by (simp add: upd_route_def)
    ultimately show ?thesis using assms(1) pop pop(3) [of res now] d(2) s' same_box_content(1) [OF same_box_delivered]
      by (auto simp: bus_ok_def pending_messages_def delivered_frame)
  qed
  then show "bus_ok cfg s'" "\<And>q. q \<noteq> r \<Longrightarrow> rstate s' q = rstate s q" "rs_accepting (rstate s' r) = rs_accepting (rstate s r)"
    "again \<longleftrightarrow> pending_messages cfg s r \<noteq> []" "pending_messages cfg s' r = tl (pending_messages cfg s r)"
    "bs_world s' = (case pending_messages cfg s r of [] \<Rightarrow> bs_world s | m # _ \<Rightarrow> handle cfg r m (bs_world s))"
    by simp_all
qed

lemma drain_all_spec:
  assumes "bus_ok cfg s" and "r < length (bx_routes cfg)" and "ed_kind (delivery_of cfg r) = Dk_Queued"
  shows "bus_ok cfg (drain_all cfg r s)" and "\<And>q. q \<noteq> r \<Longrightarrow> rstate (drain_all cfg r s) q = rstate s q"
    and "pending_messages cfg (drain_all cfg r s) r = []"
    and "bs_world (drain_all cfg r s) = fold (handle cfg r) (pending_messages cfg s r) (bs_world s)"
proof -
  have "bus_ok cfg (drain_all cfg r s) \<and> (\<forall>q. q \<noteq> r \<longrightarrow> rstate (drain_all cfg r s) q = rstate s q) \<and>
      pending_messages cfg (drain_all cfg r s) r = [] \<and>
      bs_world (drain_all cfg r s) = fold (handle cfg r) (pending_messages cfg s r) (bs_world s)"
    using assms
  proof (induction "pending_messages cfg s r" arbitrary: s)
    case Nil
    obtain again s' where d: "drain_one cfg r s = (again, s')" by force
    have "\<not> again" "s' = s" using drain_one_spec(4) [OF Nil(2,3) d] Nil(1) d
      by (auto simp: drain_one_def split: option.splits prod.splits)
    moreover have "drain_all cfg r s = s'" using d calculation Nil(2,3,4)
      by (subst drain_all.simps) (simp add: bus_ok_def)
    ultimately show ?case using Nil by simp
  next
    case (Cons m q)
    obtain again s' where d: "drain_one cfg r s = (again, s')" by force
    note spec = drain_one_spec [OF Cons(3,4) d]
    have "drain_all cfg r s = drain_all cfg r s'"
      using d spec(4) Cons(2) [symmetric] Cons(3,4,5) by (subst drain_all.simps) (simp add: bus_ok_def)
    moreover have q: "q = pending_messages cfg s' r" using spec(5) Cons(2) [symmetric] by simp
    moreover have "bs_world s' = handle cfg r m (bs_world s)" using spec(6) Cons(2) [symmetric] by simp
    ultimately show ?case using Cons(1) [OF q spec(1) Cons(4,5)] spec(2) Cons(2) [symmetric] by simp
  qed
  then show "bus_ok cfg (drain_all cfg r s)" "\<And>q. q \<noteq> r \<Longrightarrow> rstate (drain_all cfg r s) q = rstate s q"
    "pending_messages cfg (drain_all cfg r s) r = []"
    "bs_world (drain_all cfg r s) = fold (handle cfg r) (pending_messages cfg s r) (bs_world s)" by simp_all
qed

end
