(* ===== verification/Bus_Emit.thy ===== *)
theory Bus_Emit
  imports Bus_System
begin

text \<open>
  What acceptance, emission and the lifecycle hooks do to the messages a route holds, and the state machine
  of the bus with its invariant.
\<close>

section \<open>The abstract mailbox\<close>

definition box_accept :: "effective_delivery \<Rightarrow> 'm \<Rightarrow> 'm \<Rightarrow> 'm list \<Rightarrow> 'm list" where
  "box_accept ed zero m q =
     (case ed_kind ed of
        Dk_Queued \<Rightarrow>
          if length q < ed_capacity ed then q @ [m]
          else if ed_overflow ed = Ov_DropOldest then tl q @ [m]
          else q
      | Dk_Latest \<Rightarrow> [m]
      | Dk_Coalesced \<Rightarrow> [zero]
      | _ \<Rightarrow> q)"

definition box_outcome :: "effective_delivery \<Rightarrow> emit_mode \<Rightarrow> 'm list \<Rightarrow> route_acceptance" where
  "box_outcome ed mode q =
     (case ed_kind ed of
        Dk_Queued \<Rightarrow>
          if length q < ed_capacity ed then route_acceptance0\<lparr>ra_needs_submit := True\<rparr>
          else (case ed_overflow ed of
                  Ov_DropNewest \<Rightarrow> route_acceptance0\<lparr>ra_accepted := False, ra_dropped := True\<rparr>
                | Ov_DropOldest \<Rightarrow> route_acceptance0\<lparr>ra_dropped := True, ra_needs_submit := True\<rparr>
                | Ov_Reject \<Rightarrow> route_acceptance0\<lparr>ra_status := St_NoSpace, ra_accepted := False\<rparr>
                | Ov_WaitFor _ \<Rightarrow>
                    route_acceptance0\<lparr>ra_status := (if mode = Em_Normal then St_Timeout else St_NoSpace),
                      ra_accepted := False, ra_timed_out := (mode = Em_Normal)\<rparr>)
      | Dk_Latest \<Rightarrow> route_acceptance0\<lparr>ra_needs_submit := True\<rparr>
      | Dk_Coalesced \<Rightarrow> route_acceptance0\<lparr>ra_needs_submit := (q = [])\<rparr>
      | _ \<Rightarrow> route_acceptance0)"

section \<open>Acceptance\<close>

lemma drain_one_outside:
  assumes "bus_ok cfg s" and "\<not> r < length (bx_routes cfg)"
  shows "bs_routes (snd (drain_one cfg r s)) = bs_routes s"
proof -
  have "\<not> r < length (bs_routes s)" using assms by (simp add: bus_ok_def)
  then show ?thesis
    by (auto simp: drain_one_def deliver_def upd_route_def Let_def list_update_beyond split: option.split prod.split)
qed

lemma drains_spec:
  fixes qs :: "nat list"
  assumes "bus_ok cfg s" and "r < length (bx_routes cfg)"
  defines "s' \<equiv> fold (\<lambda>q s. snd (drain_one cfg q s)) qs s"
  shows "bus_ok cfg s'" and "rs_accepting (rstate s' r) = rs_accepting (rstate s r)"
    and "\<exists>k. pending_messages cfg s' r = drop k (pending_messages cfg s r)"
proof -
  have "bus_ok cfg s' \<and> rs_accepting (rstate s' r) = rs_accepting (rstate s r) \<and>
      (\<exists>k. pending_messages cfg s' r = drop k (pending_messages cfg s r))"
    using assms(1) unfolding s'_def
  proof (induction qs arbitrary: s)
    case Nil
    then show ?case by (auto intro: exI [of _ 0])
  next
    case (Cons q qs)
    obtain again s1 where d: "drain_one cfg q s = (again, s1)" by force
    have "bus_ok cfg s1 \<and> rs_accepting (rstate s1 r) = rs_accepting (rstate s r) \<and>
        (\<exists>k. pending_messages cfg s1 r = drop k (pending_messages cfg s r))"
    proof (cases "q < length (bx_routes cfg)")
      case True
      note spec = drain_one_spec [OF Cons.prems True d]
      show ?thesis
      proof (cases "q = r")
        case True
        then show ?thesis using spec by (auto intro: exI [of _ 1] simp: drop_Suc)
      next
        case False
        then show ?thesis using spec by (auto intro!: exI [of _ 0] simp: pending_messages_def)
      qed
    next
      case False
      then have "bs_routes s1 = bs_routes s" using drain_one_outside [OF Cons.prems, of q] d by simp
      then show ?thesis using Cons.prems by (auto intro!: exI [of _ 0] simp: pending_messages_def bus_ok_def)
    qed
    then obtain k where s1: "bus_ok cfg s1" "rs_accepting (rstate s1 r) = rs_accepting (rstate s r)"
      "pending_messages cfg s1 r = drop k (pending_messages cfg s r)" by auto
    from Cons.IH [OF s1(1)] obtain k' where
      "pending_messages cfg (fold (\<lambda>q s. snd (drain_one cfg q s)) qs s1) r = drop (k' + k) (pending_messages cfg s r)"
      using s1(3) by auto
    then show ?case using Cons.IH [OF s1(1)] s1(2) d by auto
  qed
  then show "bus_ok cfg s'" "rs_accepting (rstate s' r) = rs_accepting (rstate s r)"
    "\<exists>k. pending_messages cfg s' r = drop k (pending_messages cfg s r)" by simp_all
qed

lemma take_spec:
  assumes "bus_ok cfg s" and "r < length (bx_routes cfg)" and "ed_kind (delivery_of cfg r) = Dk_Queued"
    and "queued_take cfg r mode s = (taken, s')"
  obtains s1 k where "bus_ok cfg s1" and "rs_accepting (rstate s1 r) = rs_accepting (rstate s r)"
    and "pending_messages cfg s1 r = drop k (pending_messages cfg s r)"
    and "\<not> (waits (ed_overflow (delivery_of cfg r)) \<and> mode = Em_Normal) \<longrightarrow> s1 = s"
    and "taken \<longleftrightarrow> length (pending_messages cfg s1 r) < ed_capacity (delivery_of cfg r)"
    and "s' = (if taken then upd_route r (\<lambda>rs. rs\<lparr>rs_slots := rs_slots rs - 1\<rparr>) s1 else s1)"
proof -
  define s1 where "s1 = (case ed_overflow (delivery_of cfg r) of
      Ov_WaitFor timeout \<Rightarrow>
        if mode = Em_Normal \<and> rs_slots (rstate s r) = 0 then
          case bx_wait cfg r timeout (bs_world s) of (drained, w) \<Rightarrow>
            fold (\<lambda>q s. snd (drain_one cfg q s)) drained (s\<lparr>bs_world := w\<rparr>)
        else s
    | _ \<Rightarrow> s)"
  have same: "s1 = s" if "\<not> (waits (ed_overflow (delivery_of cfg r)) \<and> mode = Em_Normal)"
    using that by (auto simp: s1_def split: overflow_policy.split)
  have s1: "bus_ok cfg s1 \<and> rs_accepting (rstate s1 r) = rs_accepting (rstate s r) \<and>
      (\<exists>k. pending_messages cfg s1 r = drop k (pending_messages cfg s r))"
  proof (cases "s1 = s")
    case True
    then show ?thesis using assms(1) by (auto intro: exI [of _ 0])
  next
    case False
    then obtain drained w where "s1 = fold (\<lambda>q s. snd (drain_one cfg q s)) drained (s\<lparr>bs_world := w\<rparr>)"
      by (auto simp: s1_def split: overflow_policy.splits if_splits prod.splits)
    then show ?thesis using drains_spec [where s = "s\<lparr>bs_world := w\<rparr>" and qs = drained] assms(1,2) by simp
  qed
  then have "queued_wf (ed_capacity (delivery_of cfg r)) (rstate s1 r)"
    using assms(2,3) by (auto simp: bus_ok_def route_ok_def box_wf_def)
  moreover have "length (pending_messages cfg s1 r) = rs_count (rstate s1 r)"
    using assms(3) by (simp add: pending_messages_def box_content_def)
  ultimately have slots: "rs_slots (rstate s1 r) = 0 \<longleftrightarrow>
      \<not> length (pending_messages cfg s1 r) < ed_capacity (delivery_of cfg r)"
    by (auto simp: queued_wf_def)
  have "queued_take cfg r mode s = (if rs_slots (rstate s1 r) = 0 then (False, s1)
      else (True, upd_route r (\<lambda>rs. rs\<lparr>rs_slots := rs_slots rs - 1\<rparr>) s1))"
    by (simp add: queued_take_def s1_def Let_def)
  then show ?thesis using that s1 same slots assms(4) by (auto split: if_splits)
qed

lemma accepted_balanced:
  assumes "balanced q rec" and "rec' = rec" and "length q' = length q + 1"
  shows "balanced q' (rs_record (route_accepted now (of_nat (length q')) (rs\<lparr>rs_record := rec'\<rparr>)))"
  using assms by (simp add: balanced_def settled_messages_def route_accepted_def mutate_def algebra_simps)

lemma queued_store_record:
  "rs_record (queued_store cap drop_first m rs) =
     (if drop_first then (rs_record rs)\<lparr>rr_dropped_oldest := rr_dropped_oldest (rs_record rs) + 1\<rparr> else rs_record rs)"
  "rs_accepting (queued_store cap drop_first m rs) = rs_accepting rs"
  "rs_in_flight (queued_store cap drop_first m rs) = rs_in_flight rs"
  by (simp_all add: queued_store_def Let_def route_dropped_oldest_def mutate_def)

lemma route_accepted_frame:
  "same_box (route_accepted now n rs) rs" "rs_accepting (route_accepted now n rs) = rs_accepting rs"
  "rs_in_flight (route_accepted now n rs) = rs_in_flight rs"
  "rr_in_flight (rs_record (route_accepted now n rs)) = rr_in_flight (rs_record rs)"
  "rr_accepted (rs_record (route_accepted now n rs)) = rr_accepted (rs_record rs) + 1"
  "rr_pending (rs_record (route_accepted now n rs)) = n"
  "settled_messages (rs_record (route_accepted now n rs)) = settled_messages (rs_record rs)"
  by (simp_all add: same_box_def route_accepted_def mutate_def settled_messages_def)

lemma store_ok:
  fixes m :: 'm and now :: int and drop_first :: bool
  assumes "route_ok ed zero rs" and "ed_kind ed = Dk_Queued" and "drop_first \<longleftrightarrow> \<not> length (box_content ed zero rs) < ed_capacity ed"
  defines "rs0 \<equiv> (if drop_first then rs else rs\<lparr>rs_slots := rs_slots rs - 1\<rparr>)"
  defines "rs1 \<equiv> queued_store (ed_capacity ed) drop_first m rs0"
  defines "rs' \<equiv> route_accepted now (of_nat (rs_count rs1)) rs1"
  shows "route_ok ed zero rs'" and "box_content ed zero rs' = (if drop_first then tl (box_content ed zero rs) else box_content ed zero rs) @ [m]"
    and "rs_accepting rs' = rs_accepting rs"
proof -
  have wf: "queued_wf (ed_capacity ed) rs" and bal: "balanced (box_content ed zero rs) (rs_record rs)"
    and fl: "rs_in_flight rs = 0" "rr_in_flight (rs_record rs) = 0"
    using assms(1,2) by (simp_all add: route_ok_def box_wf_def)
  have cnt: "rs_count rs0 = rs_count rs" "length (box_content ed zero rs) = rs_count rs"
    using assms(2) by (simp_all add: rs0_def box_content_def)
  have full: "drop_first \<longleftrightarrow> rs_count rs0 = ed_capacity ed"
    using assms(3) wf cnt by (auto simp: queued_wf_def)
  have wf0: "queued_wf (ed_capacity ed) (rs0\<lparr>rs_slots := rs_slots rs0 + (if drop_first then 0 else 1)\<rparr>)"
    using wf full cnt by (auto simp: rs0_def queued_wf_def)
  note store = queued_store_wf [OF wf0 full, of m]
  have "queue_of (ed_capacity ed) rs0 = box_content ed zero rs"
    using assms(2) by (simp add: rs0_def box_content_def queue_of_def)
  then have content: "queue_of (ed_capacity ed) rs1 = (if drop_first then tl (box_content ed zero rs) else box_content ed zero rs) @ [m]"
    using store(2) by (simp add: rs1_def)
  have same: "box_content ed zero rs' = queue_of (ed_capacity ed) rs1" "box_wf ed rs'"
  proof -
    have sb: "same_box rs' rs1" by (simp add: rs'_def route_accepted_frame)
    show "box_content ed zero rs' = queue_of (ed_capacity ed) rs1"
      using same_box_content(1) [OF sb, of ed zero] assms(2) by (simp add: box_content_def)
    show "box_wf ed rs'" using same_box_content(2) [OF sb, of ed] store(1) by (simp add: box_wf_def rs1_def)
  qed
  show "box_content ed zero rs' = (if drop_first then tl (box_content ed zero rs) else box_content ed zero rs) @ [m]"
    using same content by simp
  have rec: "rr_accepted (rs_record rs1) = rr_accepted (rs_record rs)"
    "settled_messages (rs_record rs1) = settled_messages (rs_record rs) + (if drop_first then 1 else 0)"
    "rr_in_flight (rs_record rs1) = 0" "rs_in_flight rs1 = 0" "rs_accepting rs1 = rs_accepting rs"
    using fl by (simp_all add: rs1_def rs0_def queued_store_record settled_messages_def)
  have len: "rs_count rs1 = length (box_content ed zero rs')" using same by simp
  have "0 < ed_capacity ed" using wf by (simp add: queued_wf_def)
  then have grow: "length (box_content ed zero rs') + (if drop_first then 1 else 0) = length (box_content ed zero rs) + 1"
    using content same full cnt by auto
  have "of_nat (length (box_content ed zero rs')) + (if drop_first then 1 else 0 :: u64) = of_nat (length (box_content ed zero rs)) + 1"
    using arg_cong [OF grow, of "of_nat :: nat \<Rightarrow> u64"] by (simp split: if_splits)
  moreover have "rr_accepted (rs_record rs') = rr_accepted (rs_record rs) + 1"
    "settled_messages (rs_record rs') = settled_messages (rs_record rs) + (if drop_first then 1 else 0)"
    using rec by (simp_all add: rs'_def route_accepted_frame)
  moreover have "rr_pending (rs_record rs') = of_nat (length (box_content ed zero rs'))"
    by (simp add: len [symmetric]) (simp add: rs'_def route_accepted_frame)
  ultimately have "balanced (box_content ed zero rs') (rs_record rs')"
    using bal by (simp add: balanced_def algebra_simps split: if_splits)
  then show "route_ok ed zero rs'" using same rec by (simp add: route_ok_def rs'_def route_accepted_frame)
  show "rs_accepting rs' = rs_accepting rs" using rec by (simp add: rs'_def route_accepted_frame)
qed

lemma latest_accept_ok:
  assumes "route_ok ed zero rs" and "ed_kind ed = Dk_Latest" and "latest_accept now m rs = (acc, rs')"
  shows "route_ok ed zero rs' \<and> box_content ed zero rs' = [m] \<and> rs_accepting rs' = rs_accepting rs \<and>
    acc = route_acceptance0\<lparr>ra_needs_submit := True\<rparr>"
  using assms
  by (cases "rs_pending rs")
    (auto simp: latest_accept_def Let_def route_ok_def box_wf_def box_content_def latest_content_def balanced_def
      settled_messages_def route_replaced_def route_accepted_def mutate_def algebra_simps)

lemma coalesced_accept_ok:
  assumes "route_ok ed zero rs" and "ed_kind ed = Dk_Coalesced" and "coalesced_accept now rs = (acc, rs')"
  shows "route_ok ed zero rs' \<and> box_content ed zero rs' = [zero] \<and> rs_accepting rs' = rs_accepting rs \<and>
    acc = route_acceptance0\<lparr>ra_needs_submit := (box_content ed zero rs = [])\<rparr>"
  using assms
  by (cases "rs_pending rs")
    (auto simp: coalesced_accept_def Let_def route_ok_def box_wf_def box_content_def coalesced_content_def balanced_def
      settled_messages_def route_coalesced_def route_accepted_def mutate_def algebra_simps)

lemma asynchronous_kind: "ed_asynchronous (delivery_of cfg r) \<longleftrightarrow> ed_kind (delivery_of cfg r) \<in> {Dk_Queued, Dk_Latest, Dk_Coalesced}"
  by (cases "rt_delivery (route cfg r)") (simp_all add: delivery_of_def Let_def)

lemma world_upd_route [simp]: "bs_world (upd_route r f s) = bs_world s"
  by (simp add: upd_route_def)

lemma bus_ok_replace:
  assumes "bus_ok cfg s" and "route_ok (delivery_of cfg r) (rt_zero (route cfg r)) (rstate s' r)"
    and "\<And>q. q \<noteq> r \<Longrightarrow> rstate s' q = rstate s q" and "length (bs_routes s') = length (bs_routes s)"
  shows "bus_ok cfg s'"
proof -
  have "route_ok (delivery_of cfg q) (rt_zero (route cfg q)) (rstate s' q)" if "q < length (bx_routes cfg)" for q
    using assms(2) assms(3) [of q] bus_okD [OF assms(1) that] by (cases "q = r") simp_all
  then show ?thesis using assms(1,4) by (simp add: bus_ok_def)
qed

lemma queued_accept_spec:
  assumes "bus_ok cfg s" and "r < length (bx_routes cfg)" and "ed_kind (delivery_of cfg r) = Dk_Queued"
    and "queued_accept cfg r mode m s = (acc, s')"
  obtains s1 k where "bus_ok cfg s1" and "pending_messages cfg s1 r = drop k (pending_messages cfg s r)"
    and "\<not> (waits (ed_overflow (delivery_of cfg r)) \<and> mode = Em_Normal) \<longrightarrow> s1 = s"
    and "bus_ok cfg s'" and "bs_world s' = bs_world s1" and "\<forall>q. q \<noteq> r \<longrightarrow> rstate s' q = rstate s1 q"
    and "acc = box_outcome (delivery_of cfg r) mode (pending_messages cfg s1 r)"
    and "pending_messages cfg s' r = box_accept (delivery_of cfg r) (rt_zero (route cfg r)) m (pending_messages cfg s1 r)"
proof -
  let ?ed = "delivery_of cfg r" and ?z = "rt_zero (route cfg r)"
  obtain taken s2 where t: "queued_take cfg r mode s = (taken, s2)" by force
  obtain s1 k where s1: "bus_ok cfg s1" and "rs_accepting (rstate s1 r) = rs_accepting (rstate s r)"
    and s1a: "pending_messages cfg s1 r = drop k (pending_messages cfg s r)"
    "\<not> (waits (ed_overflow ?ed) \<and> mode = Em_Normal) \<longrightarrow> s1 = s"
    "taken \<longleftrightarrow> length (pending_messages cfg s1 r) < ed_capacity ?ed"
    "s2 = (if taken then upd_route r (\<lambda>rs. rs\<lparr>rs_slots := rs_slots rs - 1\<rparr>) s1 else s1)"
    by (rule take_spec [OF assms(1,2,3) t])
  note s1 = s1 s1a
  have len: "r < length (bs_routes s1)" using s1(1) assms(2) by (simp add: bus_ok_def)
  note ok = bus_okD [OF s1(1) assms(2)]
  have push: "queued_push cfg r mode taken m s2 = (acc, s')" using assms(4) t by (simp add: queued_accept_def)
  define store where "store drop_first = (let s = upd_route r (queued_store (ed_capacity ?ed) drop_first m) s2 in
      upd_route r (route_accepted (bx_now cfg (bs_world s)) (of_nat (rs_count (rstate s r)))) s)" for drop_first
  have stored: "bus_ok cfg (store drop_first) \<and> bs_world (store drop_first) = bs_world s1 \<and>
      (\<forall>q. q \<noteq> r \<longrightarrow> rstate (store drop_first) q = rstate s1 q) \<and>
      pending_messages cfg (store drop_first) r =
        (if drop_first then tl (pending_messages cfg s1 r) else pending_messages cfg s1 r) @ [m]"
    if drop: "drop_first \<longleftrightarrow> \<not> taken" for drop_first
  proof -
    have rs2: "rstate s2 r = (if drop_first then rstate s1 r else (rstate s1 r)\<lparr>rs_slots := rs_slots (rstate s1 r) - 1\<rparr>)"
      using s1(5) drop len by (simp add: rstate_upd_route)
    have frame: "rstate (store drop_first) q = rstate s1 q" if "q \<noteq> r" for q
      using that s1(5) by (simp add: store_def Let_def rstate_upd_route)
    have new: "rstate (store drop_first) r =
        route_accepted (bx_now cfg (bs_world s1)) (of_nat (rs_count (queued_store (ed_capacity ?ed) drop_first m (rstate s2 r))))
          (queued_store (ed_capacity ?ed) drop_first m (rstate s2 r))"
      using len s1(5) by (simp add: store_def Let_def rstate_upd_route)
    have full: "drop_first \<longleftrightarrow> \<not> length (box_content ?ed ?z (rstate s1 r)) < ed_capacity ?ed"
      using drop s1(4) by (simp add: pending_messages_def)
    note st = store_ok [OF ok assms(3) full, where m = m and now = "bx_now cfg (bs_world s1)", folded rs2, folded new]
    have "length (bs_routes (store drop_first)) = length (bs_routes s1)" using s1(5) by (simp add: store_def Let_def)
    then have "bus_ok cfg (store drop_first)" using bus_ok_replace [OF s1(1) st(1) frame] by blast
    moreover have "bs_world (store drop_first) = bs_world s1" using s1(5) by (simp add: store_def Let_def)
    ultimately show ?thesis using st(2) frame by (simp add: pending_messages_def)
  qed
  have other: "bus_ok cfg (upd_route r f s1)" "pending_messages cfg (upd_route r f s1) r = pending_messages cfg s1 r"
    if "neutral f" for f :: "'a route_state \<Rightarrow> 'a route_state"
    using bus_ok_neutral [OF s1(1) that] pending_neutral [OF s1(1) that assms(2)] by simp_all
  have "bus_ok cfg s' \<and> bs_world s' = bs_world s1 \<and> (\<forall>q. q \<noteq> r \<longrightarrow> rstate s' q = rstate s1 q) \<and>
      acc = box_outcome ?ed mode (pending_messages cfg s1 r) \<and>
      pending_messages cfg s' r = box_accept ?ed ?z m (pending_messages cfg s1 r)"
  proof (cases taken)
    case True
    then have "s' = store False" "acc = route_acceptance0\<lparr>ra_needs_submit := True\<rparr>"
      using push by (auto simp: queued_push_def store_def Let_def route_acceptance0_def)
    then show ?thesis using stored [of False] True s1(4) assms(3) by (simp add: box_outcome_def box_accept_def)
  next
    case False
    then have s2: "s2 = s1" "\<not> length (pending_messages cfg s1 r) < ed_capacity ?ed" using s1(4,5) by simp_all
    show ?thesis
    proof (cases "ed_overflow ?ed")
      case Ov_DropOldest
      then have "s' = store True" "acc = route_acceptance0\<lparr>ra_dropped := True, ra_needs_submit := True\<rparr>"
        using push False by (auto simp: queued_push_def store_def Let_def)
      then show ?thesis using stored [of True] False s2 assms(3) Ov_DropOldest by (simp add: box_outcome_def box_accept_def)
    next
      case Ov_DropNewest
      then show ?thesis using push False s2 assms(3) other [OF neutral_ops(3)]
        by (auto simp: queued_push_def Let_def box_outcome_def box_accept_def rstate_upd_route)
    next
      case Ov_Reject
      then show ?thesis using push False s2 assms(3) other [OF neutral_ops(2)]
        by (auto simp: queued_push_def Let_def box_outcome_def box_accept_def rstate_upd_route route_acceptance0_def)
    next
      case (Ov_WaitFor t)
      then show ?thesis using push False s2 assms(3) other [OF neutral_ops(2)]
        by (auto simp: queued_push_def Let_def box_outcome_def box_accept_def rstate_upd_route)
    qed
  qed
  then show ?thesis using that s1(1,2,3) by blast
qed

lemma route_accept_spec:
  assumes "bus_ok cfg s" and "r < length (bx_routes cfg)" and "ed_asynchronous (delivery_of cfg r)"
    and "route_accept cfg r mode m s = (acc, s')"
  obtains s1 k where "bus_ok cfg s1" and "pending_messages cfg s1 r = drop k (pending_messages cfg s r)"
    and "\<not> (waits (ed_overflow (delivery_of cfg r)) \<and> mode = Em_Normal) \<longrightarrow> s1 = s"
    and "bus_ok cfg s'" and "bs_world s' = bs_world s1" and "\<forall>q. q \<noteq> r \<longrightarrow> rstate s' q = rstate s1 q"
    and "acc = box_outcome (delivery_of cfg r) mode (pending_messages cfg s1 r)"
    and "pending_messages cfg s' r = box_accept (delivery_of cfg r) (rt_zero (route cfg r)) m (pending_messages cfg s1 r)"
proof -
  let ?ed = "delivery_of cfg r" and ?z = "rt_zero (route cfg r)"
  note ok = bus_okD [OF assms(1,2)]
  have len: "r < length (bs_routes s)" using assms(1,2) by (simp add: bus_ok_def)
  consider "ed_kind ?ed = Dk_Queued" | "ed_kind ?ed = Dk_Latest" | "ed_kind ?ed = Dk_Coalesced"
    using assms(3) asynchronous_kind [of cfg r] by blast
  then show thesis
  proof cases
    case 1
    then have "queued_accept cfg r mode m s = (acc, s')" using assms(4) by (simp add: route_accept_def)
    from queued_accept_spec [OF assms(1,2) 1 this] obtain s1 k where
      "bus_ok cfg s1" "pending_messages cfg s1 r = drop k (pending_messages cfg s r)"
      "\<not> (waits (ed_overflow ?ed) \<and> mode = Em_Normal) \<longrightarrow> s1 = s"
      "bus_ok cfg s'" "bs_world s' = bs_world s1" "\<forall>q. q \<noteq> r \<longrightarrow> rstate s' q = rstate s1 q"
      "acc = box_outcome ?ed mode (pending_messages cfg s1 r)"
      "pending_messages cfg s' r = box_accept ?ed ?z m (pending_messages cfg s1 r)" .
    then show thesis by (rule that)
  next
    case 2
    obtain rs where rs: "latest_accept (bx_now cfg (bs_world s)) m (rstate s r) = (acc, rs)" "s' = upd_route r (\<lambda>_. rs) s"
      using assms(4) 2 by (auto simp: route_accept_def split: prod.splits)
    show thesis
      by (rule that [of s 0])
        (use latest_accept_ok [OF ok 2 rs(1)] rs(2) assms(1) len 2 in
          \<open>auto simp: bus_ok_def rstate_upd_route pending_messages_def box_outcome_def box_accept_def\<close>)
  next
    case 3
    obtain rs where rs: "coalesced_accept (bx_now cfg (bs_world s)) (rstate s r) = (acc, rs)" "s' = upd_route r (\<lambda>_. rs) s"
      using assms(4) 3 by (auto simp: route_accept_def split: prod.splits)
    show thesis
      by (rule that [of s 0])
        (use coalesced_accept_ok [OF ok 3 rs(1)] rs(2) assms(1) len 3 in
          \<open>auto simp: bus_ok_def rstate_upd_route pending_messages_def box_outcome_def box_accept_def\<close>)
  qed
qed

end
