(* ===== verification/Bus_Machine.thy ===== *)
theory Bus_Machine
  imports Bus_Emit
begin

text \<open>
  Emission over one route and over all routes of a message, the lifecycle hooks, and the state
  machine of the bus: every reachable state satisfies \<open>bus_ok\<close>.
\<close>

section \<open>Emission\<close>

lemma inline_ok:
  assumes "route_ok ed zero rs" and "ed_kind ed \<notin> {Dk_Queued, Dk_Latest, Dk_Coalesced}"
  shows "route_ok ed zero (delivered res now (route_accepted tick 0 rs))"
  using assms
  by (cases "ed_kind ed")
    (auto simp: route_ok_def box_wf_def box_content_def balanced_def delivered_frame delivered_counts
      settled_messages_def route_accepted_def mutate_def algebra_simps)

lemma bus_ok_deliver:
  assumes "deliver cfg r m s = (res, s')" and "length (bs_routes s) = length (bx_routes cfg)"
    and "\<And>q. q < length (bx_routes cfg) \<Longrightarrow> q \<noteq> r \<Longrightarrow> route_ok (delivery_of cfg q) (rt_zero (route cfg q)) (rstate s q)"
    and "\<And>res now. route_ok (delivery_of cfg r) (rt_zero (route cfg r)) (delivered res now (rstate s r))"
  shows "bus_ok cfg s'"
  using deliver_eq [OF assms(1)] assms(2,3,4) by (auto simp: bus_ok_def rstate_upd_route)

lemma submit_failed_ok:
  fixes st :: status
  assumes "bus_ok cfg s" and "r < length (bx_routes cfg)" and "ed_asynchronous (delivery_of cfg r)"
  defines "s' \<equiv> upd_route r (route_submission_failed st) (upd_route r (route_clear_pending (delivery_of cfg r)) s)"
  shows "bus_ok cfg s'" and "pending_messages cfg s' r = []" and "\<forall>q. q \<noteq> r \<longrightarrow> rstate s' q = rstate s q"
proof -
  have kind: "ed_kind (delivery_of cfg r) \<in> {Dk_Queued, Dk_Latest, Dk_Coalesced}" using assms(3) asynchronous_kind [of cfg r] by blast
  note clear = clear_ok [OF bus_okD [OF assms(1,2)] kind]
  have ok: "bus_ok cfg (upd_route r (route_clear_pending (delivery_of cfg r)) s)"
    by (rule bus_ok_upd [OF assms(1)]) (rule clear(1))
  show "bus_ok cfg s'" unfolding s'_def by (rule bus_ok_neutral [OF ok neutral_ops(4)])
  show "pending_messages cfg s' r = []"
  proof -
    have "pending_messages cfg (upd_route r (route_clear_pending (delivery_of cfg r)) s) r = []"
      using clear(2) assms(1,2) by (simp add: pending_messages_def rstate_upd_route bus_ok_def)
    then show ?thesis using pending_neutral [OF ok neutral_ops(4) assms(2)] by (simp add: s'_def)
  qed
  show "\<forall>q. q \<noteq> r \<longrightarrow> rstate s' q = rstate s q" by (simp add: s'_def rstate_upd_route)
qed

text \<open>Emission over an accepting asynchronous route: the route makes of the message what its delivery kind
  promises, unless its executor cannot be reached, and then everything it holds is cancelled.\<close>

lemma emit_async:
  assumes "bus_ok cfg s" and "r < length (bx_routes cfg)" and "ed_asynchronous (delivery_of cfg r)"
    and "rs_accepting (rstate s r)" and "emit_route cfg r mode m s = (att, s')"
  obtains s1 k where "bus_ok cfg s'" and "pending_messages cfg s1 r = drop k (pending_messages cfg s r)"
    and "\<not> (waits (ed_overflow (delivery_of cfg r)) \<and> mode = Em_Normal) \<longrightarrow> s1 = upd_route r route_considered s"
    and "\<forall>q. q \<noteq> r \<longrightarrow> rstate s' q = rstate s1 q"
    and "let out = box_outcome (delivery_of cfg r) mode (pending_messages cfg s1 r);
             submitted = bx_submit cfg r (mode = Em_Isr) (bs_world s1) in
         (at_failed att \<longleftrightarrow> ra_status out \<noteq> St_Ok \<or> ra_needs_submit out \<and> isl (fst submitted)) \<and>
         pending_messages cfg s' r =
           (if ra_status out = St_Ok \<and> at_failed att then []
            else box_accept (delivery_of cfg r) (rt_zero (route cfg r)) m (pending_messages cfg s1 r))"
proof -
  let ?ed = "delivery_of cfg r" and ?s = "upd_route r route_considered s"
  have ok: "bus_ok cfg ?s" by (rule bus_ok_neutral [OF assms(1) neutral_ops(1)])
  have acc: "rs_accepting (rstate ?s r)" using assms(1,2,4) by (simp add: rstate_upd_route bus_ok_def route_considered_def mutate_def)
  obtain a s2 where ra: "route_accept cfg r mode m ?s = (a, s2)" by force
  obtain s1 k where s1: "bus_ok cfg s1" "pending_messages cfg s1 r = drop k (pending_messages cfg ?s r)"
    "\<not> (waits (ed_overflow ?ed) \<and> mode = Em_Normal) \<longrightarrow> s1 = ?s" "bus_ok cfg s2" "bs_world s2 = bs_world s1"
    "\<forall>q. q \<noteq> r \<longrightarrow> rstate s2 q = rstate s1 q" "a = box_outcome ?ed mode (pending_messages cfg s1 r)"
    "pending_messages cfg s2 r = box_accept ?ed (rt_zero (route cfg r)) m (pending_messages cfg s1 r)"
    by (rule route_accept_spec [OF ok assms(2,3) ra])
  have q: "pending_messages cfg s1 r = drop k (pending_messages cfg s r)"
    using s1(2) pending_neutral [OF assms(1) neutral_ops(1) assms(2)] by simp
  show thesis
  proof (cases "ra_status a = St_Ok \<and> ra_needs_submit a")
    case False
    then have "s' = s2" "at_failed att \<longleftrightarrow> ra_status a \<noteq> St_Ok"
      using assms(3,5) acc ra by (auto simp: emit_route_def Let_def attempt_failed_def attempt_ok_def split: if_splits)
    with False s1 q show thesis by (intro that [of s1 k]) (auto simp: Let_def)
  next
    case True
    obtain sub w where sub: "bx_submit cfg r (mode = Em_Isr) (bs_world s2) = (sub, w)" by force
    have okw: "bus_ok cfg (s2\<lparr>bs_world := w\<rparr>)" using s1(4) by simp
    show thesis
    proof (cases sub)
      case (Inr u)
      then have "s' = s2\<lparr>bs_world := w\<rparr>" "\<not> at_failed att"
        using assms(3,5) acc ra True sub by (auto simp: emit_route_def Let_def attempt_ok_def)
      with True s1 q sub Inr okw show thesis by (intro that [of s1 k]) (auto simp: Let_def)
    next
      case (Inl e)
      then have "s' = upd_route r (route_submission_failed (err_status e)) (upd_route r (route_clear_pending ?ed) (s2\<lparr>bs_world := w\<rparr>))"
        "at_failed att"
        using assms(3,5) acc ra True sub by (auto simp: emit_route_def Let_def attempt_failed_def)
      with True s1 q sub Inl submit_failed_ok [OF okw assms(2,3), where st = "err_status e"]
      show thesis by (intro that [of s1 k]) (auto simp: Let_def)
    qed
  qed
qed

lemma emit_route_ok:
  assumes "bus_ok cfg s" and "r < length (bx_routes cfg)" and "emit_route cfg r mode m s = (att, s')"
  shows "bus_ok cfg s'"
proof -
  let ?s = "upd_route r route_considered s"
  have ok: "bus_ok cfg ?s" by (rule bus_ok_neutral [OF assms(1) neutral_ops(1)])
  have same: "rs_accepting (rstate ?s r) = rs_accepting (rstate s r)" "r < length (bs_routes s)"
    using assms(1,2) by (simp_all add: rstate_upd_route bus_ok_def route_considered_def mutate_def)
  consider "\<not> rs_accepting (rstate s r)" | "rs_accepting (rstate s r)" "ed_asynchronous (delivery_of cfg r)"
    | "rs_accepting (rstate s r)" "\<not> ed_asynchronous (delivery_of cfg r)" by blast
  then show ?thesis
  proof cases
    case 1
    then show ?thesis using assms(3) ok same by (auto simp: emit_route_def Let_def)
  next
    case 2
    then show ?thesis using emit_async [OF assms(1,2) 2(2,1) assms(3)] by blast
  next
    case 3
    define s1 where "s1 = upd_route r (route_accepted (bx_now cfg (bs_world ?s)) 0) ?s"
    obtain res where d: "deliver cfg r m s1 = (res, s')"
      using assms(3) 3 same by (auto simp: emit_route_def Let_def s1_def split: prod.splits sum.splits)
    have "ed_kind (delivery_of cfg r) \<notin> {Dk_Queued, Dk_Latest, Dk_Coalesced}" using 3(2) asynchronous_kind [of cfg r] by blast
    then have "route_ok (delivery_of cfg r) (rt_zero (route cfg r)) (delivered res now (rstate s1 r))" for res now
      using inline_ok [OF bus_okD [OF ok assms(2)], of res now] same(2) by (simp add: s1_def rstate_upd_route)
    then show ?thesis using bus_okD [OF assms(1)] bus_ok_length [OF assms(1)]
      by (intro bus_ok_deliver [OF d]) (simp_all add: s1_def rstate_upd_route)
  qed
qed

lemma emit_step_ok:
  assumes "bus_ok cfg s" and "r < length (bx_routes cfg)" and "emit_step cfg message mode m r (agg, failed, s) = (agg', failed', s')"
  shows "bus_ok cfg s'"
  using assms emit_route_ok [OF assms(1,2)] by (auto simp: emit_step_def Let_def split: if_splits prod.splits)

lemma emit_fold_ok:
  assumes "bus_ok cfg s" and "set rs \<subseteq> {..<length (bx_routes cfg)}"
    and "fold (emit_step cfg message mode m) rs (agg, failed, s) = (agg', failed', s')"
  shows "bus_ok cfg s'"
  using assms
proof (induction rs arbitrary: agg failed s)
  case (Cons r rs)
  obtain a f s1 where st: "emit_step cfg message mode m r (agg, failed, s) = (a, f, s1)" by (cases "emit_step cfg message mode m r (agg, failed, s)") auto
  show ?case using Cons.IH [of s1 a f] Cons.prems st emit_step_ok [OF Cons.prems(1) _ st] by simp
qed simp

lemma emit_message_ok:
  assumes "bus_ok cfg s" and "emit_message cfg message mode m s = (res, s')"
  shows "bus_ok cfg s'"
proof -
  have "set [0..<length (bx_routes cfg)] \<subseteq> {..<length (bx_routes cfg)}" by auto
  from emit_fold_ok [OF assms(1) this] show ?thesis using assms
    by (auto simp: emit_message_def split: if_splits prod.splits)
qed

section \<open>Lifecycle hooks\<close>

lemma rstate_each_route:
  "r < length (bs_routes s) \<Longrightarrow> rstate (each_route f s) r = f r (rstate s r)"
  by (simp add: each_route_def nth_enumerate_eq)

lemma length_each_route [simp]: "length (bs_routes (each_route f s)) = length (bs_routes s)"
  by (simp add: each_route_def)

lemma bus_ok_each:
  assumes "bus_ok cfg s" and "\<And>r. neutral (f r)"
  shows "bus_ok cfg (each_route f s)"
  using assms by (auto simp: bus_ok_def rstate_each_route intro: neutral_ok)

lemma content_bound:
  assumes "route_ok (delivery_of cfg r) zero rs"
  shows "length (box_content (delivery_of cfg r) zero rs) \<le> ed_capacity (delivery_of cfg r)"
    and "length (box_content (delivery_of cfg r) zero rs) < 2 ^ 32"
  using assms
  by (cases "rt_delivery (route cfg r)";
      auto simp: route_ok_def box_wf_def box_content_def delivery_of_def Let_def queued_wf_def latest_content_def coalesced_content_def)+

lemma nothing_pending:
  assumes "route_ok (delivery_of cfg r) zero rs" and "rr_pending (rs_record rs) = 0"
  shows "box_content (delivery_of cfg r) zero rs = []"
proof -
  have "(of_nat (length (box_content (delivery_of cfg r) zero rs)) :: u32) = 0"
    using assms by (simp add: route_ok_def balanced_def)
  then have "unat (of_nat (length (box_content (delivery_of cfg r) zero rs)) :: u32) = 0" by simp
  then show ?thesis using content_bound(2) [OF assms(1)] by (simp add: unat_of_nat take_bit_nat_eq_self)
qed

text \<open>Stopping one route: it no longer accepts, and unless the status becomes a timeout it holds nothing.\<close>

lemma stop_route_spec:
  assumes "bus_ok cfg s" and "r < length (bx_routes cfg)" and "stop_route cfg r (st, s) = (st', s')"
  shows "bus_ok cfg s' \<and> \<not> rs_accepting (rstate s' r) \<and> (\<forall>q. q \<noteq> r \<longrightarrow> rstate s' q = rstate s q) \<and> bs_world s' = bs_world s \<and>
    st' = (if ed_stop (delivery_of cfg r) \<noteq> Bk_CancelPending \<and> pending_messages cfg s r \<noteq> [] then St_Timeout else st) \<and>
    pending_messages cfg s' r = (if ed_stop (delivery_of cfg r) = Bk_CancelPending then [] else pending_messages cfg s r)"
proof -
  let ?s = "upd_route r (set_accepting False) s" and ?ed = "delivery_of cfg r"
  have ok: "bus_ok cfg ?s" by (rule bus_ok_neutral [OF assms(1) neutral_ops(7)])
  have len: "r < length (bs_routes s)" using assms(1,2) by (simp add: bus_ok_def)
  have off: "\<not> rs_accepting (rstate ?s r)" using len by (simp add: rstate_upd_route set_accepting_def mutate_def)
  have pend: "pending_messages cfg ?s r = pending_messages cfg s r" by (rule pending_neutral [OF assms(1) neutral_ops(7) assms(2)])
  note rok = bus_okD [OF ok assms(2)]
  have drain: "ed_stop ?ed = Bk_Drain" "pending_messages cfg s r = []" if "\<not> ed_asynchronous ?ed"
    using that by (cases "rt_delivery (route cfg r)"; simp add: delivery_of_def Let_def pending_messages_def box_content_def)+
  consider "\<not> ed_asynchronous ?ed" | "ed_asynchronous ?ed" "ed_stop ?ed = Bk_CancelPending" | "ed_asynchronous ?ed" "ed_stop ?ed = Bk_Drain"
    by (cases "ed_stop ?ed") auto
  then show ?thesis
  proof cases
    case 1
    then have "s' = ?s" "st' = st" using assms(3) by (simp_all add: stop_route_def Let_def)
    then show ?thesis using ok off pend drain [OF 1] by (simp add: rstate_upd_route)
  next
    case 2
    then have kind: "ed_kind ?ed \<in> {Dk_Queued, Dk_Latest, Dk_Coalesced}" using asynchronous_kind [of cfg r] by blast
    note clear = clear_ok [OF rok kind]
    have s': "s' = upd_route r (route_clear_pending ?ed) ?s" "st' = st" using assms(3) 2 by (simp_all add: stop_route_def Let_def)
    have "bus_ok cfg s'" unfolding s' by (rule bus_ok_upd [OF ok]) (rule clear(1))
    then show ?thesis using 2 clear off len s' by (simp add: rstate_upd_route pending_messages_def)
  next
    case 3
    have s': "s' = upd_route r route_copy ?s" "st' = (if rr_pending (rs_record (rstate s' r)) \<noteq> 0 then St_Timeout else st)"
      using assms(3) 3 by (auto simp: stop_route_def Let_def)
    have ok': "bus_ok cfg s'" unfolding s' by (rule bus_ok_neutral [OF ok neutral_ops(6)])
    have pend': "pending_messages cfg s' r = pending_messages cfg s r"
      using pending_neutral [OF ok neutral_ops(6) assms(2)] pend s' by simp
    have "rr_pending (rs_record (rstate s' r)) = of_nat (length (pending_messages cfg s' r))"
      using bus_okD [OF ok' assms(2)] by (simp add: route_ok_def balanced_def pending_messages_def)
    then have "rr_pending (rs_record (rstate s' r)) = 0 \<longleftrightarrow> pending_messages cfg s' r = []"
      using nothing_pending [OF bus_okD [OF ok' assms(2)]] by (auto simp: pending_messages_def)
    moreover have "rs_accepting (rstate s' r) = rs_accepting (rstate ?s r)" using len s'
      by (simp add: rstate_upd_route route_copy_def mutate_def)
    ultimately show ?thesis using 3 ok' off pend' s' by (simp add: rstate_upd_route)
  qed
qed

lemma stop_fold_spec:
  assumes "bus_ok cfg s" and "set rs \<subseteq> {..<length (bx_routes cfg)}" and "distinct rs"
    and "fold (stop_route cfg) rs (st, s) = (st', s')"
  shows "bus_ok cfg s' \<and> bs_world s' = bs_world s \<and> (\<forall>r \<in> set rs. \<not> rs_accepting (rstate s' r)) \<and>
    (\<forall>q. q \<notin> set rs \<longrightarrow> rstate s' q = rstate s q) \<and>
    (st' = St_Ok \<longleftrightarrow> st = St_Ok \<and> (\<forall>r \<in> set rs. ed_stop (delivery_of cfg r) = Bk_CancelPending \<or> pending_messages cfg s r = [])) \<and>
    (\<forall>r \<in> set rs. pending_messages cfg s' r = (if ed_stop (delivery_of cfg r) = Bk_CancelPending then [] else pending_messages cfg s r))"
  using assms
proof (induction rs arbitrary: st s)
  case (Cons r rs)
  obtain st1 s1 where st1: "stop_route cfg r (st, s) = (st1, s1)" by force
  have r: "r < length (bx_routes cfg)" using Cons.prems by simp
  note one = stop_route_spec [OF Cons.prems(1) r st1]
  have keep: "pending_messages cfg s1 q = pending_messages cfg s q" if "q \<in> set rs" for q
    using one that Cons.prems(3) by (auto simp: pending_messages_def)
  have "fold (stop_route cfg) rs (st1, s1) = (st', s')" using Cons.prems(4) st1 by simp
  note rest = Cons.IH [OF _ _ _ this]
  have last: "rstate s' r = rstate s1 r" using rest one Cons.prems(2,3) by simp
  then have "pending_messages cfg s' r = pending_messages cfg s1 r" by (simp add: pending_messages_def)
  then show ?case using rest one last keep Cons.prems(2,3) by (auto split: if_splits)
qed simp

lemma stop_wait_idle:
  assumes "bus_ok cfg s"
  shows "stop_wait cfg n s = (n = 0, s)"
proof -
  have "\<not> list_ex (\<lambda>rs. rs_in_flight rs \<noteq> 0) (bs_routes s)"
    using assms by (auto simp: bus_ok_def route_ok_def list_ex_length)
  then show ?thesis by (cases n) simp_all
qed

lemma bus_stop_spec:
  assumes "bus_ok cfg s" and "bus_stop cfg s = (res, s')"
  shows "bus_ok cfg s'"
    and "r < length (bx_routes cfg) \<Longrightarrow> \<not> rs_accepting (rstate s' r)"
    and "r < length (bx_routes cfg) \<Longrightarrow> pending_messages cfg s' r =
      (if ed_stop (delivery_of cfg r) = Bk_CancelPending then [] else pending_messages cfg s r)"
    and "is_ok res \<longleftrightarrow> bx_stop_polls cfg \<noteq> 0 \<and>
      (\<forall>r < length (bx_routes cfg). ed_stop (delivery_of cfg r) = Bk_CancelPending \<or> pending_messages cfg s r = [])"
proof -
  obtain st s1 where f: "fold (stop_route cfg) [0..<length (bx_routes cfg)] (St_Ok, s) = (st, s1)" by force
  have "set [0..<length (bx_routes cfg)] \<subseteq> {..<length (bx_routes cfg)}" by auto
  note fold = stop_fold_spec [OF assms(1) this _ f, simplified]
  have s1: "bus_ok cfg s1" using fold by simp
  have s': "s' = each_route (\<lambda>_. route_finish_stop) s1"
    "is_ok res \<longleftrightarrow> st = St_Ok \<and> bx_stop_polls cfg \<noteq> 0"
    using assms(2) f stop_wait_idle [OF s1] by (auto simp: bus_stop_def split: if_splits)
  show ok': "bus_ok cfg s'" unfolding s' by (rule bus_ok_each [OF s1 neutral_ops(5)])
  have same: "rs_accepting (rstate s' r) = rs_accepting (rstate s1 r)" "pending_messages cfg s' r = pending_messages cfg s1 r"
    if "r < length (bx_routes cfg)"
    using that s1 neutral_content [OF neutral_ops(5) bus_okD [OF s1 that]]
    by (simp_all add: s' rstate_each_route bus_ok_def pending_messages_def) (simp add: route_finish_stop_def mutate_def)
  show "\<not> rs_accepting (rstate s' r)" if "r < length (bx_routes cfg)" using same [OF that] fold that by simp
  show "pending_messages cfg s' r = (if ed_stop (delivery_of cfg r) = Bk_CancelPending then [] else pending_messages cfg s r)"
    if "r < length (bx_routes cfg)" using same [OF that] fold that by simp
  show "is_ok res \<longleftrightarrow> bx_stop_polls cfg \<noteq> 0 \<and>
      (\<forall>r < length (bx_routes cfg). ed_stop (delivery_of cfg r) = Bk_CancelPending \<or> pending_messages cfg s r = [])"
    using s'(2) fold by auto
qed

section \<open>The state machine\<close>

definition bus_config_ok :: "('m, 'w) bus_config \<Rightarrow> bool" where
  "bus_config_ok cfg \<longleftrightarrow>
     list_all (validate_route cfg) [0..<length (bx_routes cfg)] \<and> validate_route_pairs (bx_routes cfg) \<and>
     bx_max_capacity cfg < 2 ^ 32"

inductive bus_step :: "('m, 'w) bus_config \<Rightarrow> ('m, 'w) bus \<Rightarrow> ('m, 'w) bus \<Rightarrow> bool" for cfg where
  env: "bus_step cfg s (s\<lparr>bs_world := w\<rparr>)"
| start: "bus_start s = (ru, s') \<Longrightarrow> bus_step cfg s s'"
| emit: "emit_message cfg message mode m s = (re, s') \<Longrightarrow> bus_step cfg s s'"
| drain: "r < length (bx_routes cfg) \<Longrightarrow> bus_step cfg s (bus_drain cfg r s)"
| query: "bus_record cfg subscriber message tag s = (rr, s') \<Longrightarrow> bus_step cfg s s'"
| stop: "bus_stop cfg s = (ru, s') \<Longrightarrow> bus_step cfg s s'"

inductive bus_reachable :: "('m, 'w) bus_config \<Rightarrow> ('m, 'w) bus \<Rightarrow> bool" for cfg where
  init: "length (bs_routes s) = length (bx_routes cfg) \<Longrightarrow>
    (\<And>r. r < length (bx_routes cfg) \<Longrightarrow> length (rs_storage (rstate s r)) = ed_capacity (delivery_of cfg r)) \<Longrightarrow>
    bus_init cfg s = (ru, s') \<Longrightarrow> bus_reachable cfg s'"
| step: "bus_reachable cfg s \<Longrightarrow> bus_step cfg s s' \<Longrightarrow> bus_reachable cfg s'"

lemma bus_drain_spec:
  assumes "bus_ok cfg s" and "r < length (bx_routes cfg)"
  shows "bus_ok cfg (bus_drain cfg r s)" and "\<And>q. q \<noteq> r \<Longrightarrow> rstate (bus_drain cfg r s) q = rstate s q"
    and "pending_messages cfg (bus_drain cfg r s) r = []"
    and "bs_world (bus_drain cfg r s) = fold (handle cfg r) (pending_messages cfg s r) (bs_world s)"
proof -
  obtain again s1 where d: "drain_one cfg r s = (again, s1)" by force
  note one = drain_one_spec [OF assms d]
  have short: "length (pending_messages cfg s r) \<le> 1" if "ed_kind (delivery_of cfg r) \<noteq> Dk_Queued"
    using that by (auto simp: pending_messages_def box_content_def latest_content_def coalesced_content_def split: delivery_kind.split)
  have none: "pending_messages cfg s r = []" if "\<not> ed_asynchronous (delivery_of cfg r)"
    using that asynchronous_kind [of cfg r] by (auto simp: pending_messages_def box_content_def split: delivery_kind.split)
  have "bus_ok cfg (bus_drain cfg r s) \<and> (\<forall>q. q \<noteq> r \<longrightarrow> rstate (bus_drain cfg r s) q = rstate s q) \<and>
      pending_messages cfg (bus_drain cfg r s) r = [] \<and>
      bs_world (bus_drain cfg r s) = fold (handle cfg r) (pending_messages cfg s r) (bs_world s)"
  proof (cases "ed_kind (delivery_of cfg r) = Dk_Queued")
    case True
    then show ?thesis using drain_all_spec [OF assms True] by (simp add: bus_drain_def)
  next
    case False
    show ?thesis
    proof (cases "ed_asynchronous (delivery_of cfg r)")
      case True
      then have "bus_drain cfg r s = s1" using False d by (simp add: bus_drain_def)
      then show ?thesis using one short [OF False] by (cases "pending_messages cfg s r") auto
    next
      case ns: False
      then show ?thesis using False none assms(1) by (simp add: bus_drain_def)
    qed
  qed
  then show "bus_ok cfg (bus_drain cfg r s)" "\<And>q. q \<noteq> r \<Longrightarrow> rstate (bus_drain cfg r s) q = rstate s q"
    "pending_messages cfg (bus_drain cfg r s) r = []"
    "bs_world (bus_drain cfg r s) = fold (handle cfg r) (pending_messages cfg s r) (bs_world s)" by simp_all
qed

lemma init_ok:
  assumes "bus_config_ok cfg" and "length (bs_routes s) = length (bx_routes cfg)"
    and "\<And>r. r < length (bx_routes cfg) \<Longrightarrow> length (rs_storage (rstate s r)) = ed_capacity (delivery_of cfg r)"
    and "bus_init cfg s = (ru, s')"
  shows "bus_ok cfg s'"
proof -
  have "route_ok (delivery_of cfg r) (rt_zero (route cfg r)) (rstate s' r)" if r: "r < length (bx_routes cfg)" for r
  proof -
    have "validate_route cfg r" "bx_max_capacity cfg < 2 ^ 32" using assms(1) r by (auto simp: bus_config_ok_def list_all_iff)
    then have "queued_wf (ed_capacity (delivery_of cfg r)) (queued_reset (ed_capacity (delivery_of cfg r))
        (route_initialize i j k (rstate s r)))" if "ed_kind (delivery_of cfg r) = Dk_Queued" for i j k
      using assms(3) [OF r] that by (auto simp: validate_route_def queued_wf_def queued_reset_def route_initialize_def)
    then show ?thesis using assms(2,4) r
      by (auto simp: bus_init_def rstate_each_route Let_def asynchronous_kind route_reset_def route_ok_def box_wf_def
          box_content_def balanced_def settled_messages_def route_initialize_def route_record0_def queued_reset_def
          latest_reset_def coalesced_reset_def queue_of_def latest_content_def coalesced_content_def
          split: delivery_kind.splits)
  qed
  moreover have "length (bs_routes s') = length (bs_routes s)" using assms(4) by (auto simp: bus_init_def)
  ultimately show ?thesis using assms(2) by (simp add: bus_ok_def)
qed

lemma step_ok:
  assumes "bus_step cfg s s'" and "bus_ok cfg s"
  shows "bus_ok cfg s'"
  using assms
proof (induction rule: bus_step.induct)
  case (start s ru s')
  then show ?case using bus_ok_each [OF start.prems neutral_ops(7)] by (auto simp: bus_start_def)
next
  case (emit message mode m s re s')
  show ?case by (rule emit_message_ok [OF emit.prems emit.hyps])
next
  case (drain r s)
  then show ?case using bus_drain_spec(1) by blast
next
  case (query subscriber message tag s rr s')
  then show ?case using bus_ok_neutral [OF query.prems neutral_ops(6)]
    by (auto simp: bus_record_def route_record_of_def Let_def split: option.splits)
next
  case (stop s ru s')
  then show ?case using bus_stop_spec(1) by blast
qed simp

lemma reachable_ok:
  assumes "bus_config_ok cfg" and "bus_reachable cfg s"
  shows "bus_ok cfg s"
  using assms(2)
proof (induction rule: bus_reachable.induct)
  case (init s ru s')
  then show ?case by (rule init_ok [OF assms(1)])
next
  case (step s s')
  then show ?case using step_ok by blast
qed

end
