(* ===== verification/Bus_Properties.thy ===== *)
theory Bus_Properties
  imports Bus_Machine
begin

text \<open>The properties of the bus, and a small configured bus for the witnesses.\<close>

section \<open>What an emission reports\<close>

text \<open>The attempts that an emission makes, one for each route of the message in the order of the subscriptions.\<close>

fun emit_attempts ::
  "('m, 'w) bus_config \<Rightarrow> nat \<Rightarrow> emit_mode \<Rightarrow> 'm \<Rightarrow> nat list \<Rightarrow> ('m, 'w) bus \<Rightarrow> route_attempt list \<times> ('m, 'w) bus" where
  "emit_attempts cfg message mode m [] s = ([], s)"
| "emit_attempts cfg message mode m (r # rs) s =
     (if rt_message (route cfg r) \<noteq> message then emit_attempts cfg message mode m rs s
      else case emit_route cfg r mode m s of (att, s) \<Rightarrow>
        case emit_attempts cfg message mode m rs s of (atts, s) \<Rightarrow> (att # atts, s))"

definition add_counts :: "route_attempt list \<Rightarrow> bus_error \<Rightarrow> bus_error \<Rightarrow> bus_error" where
  "add_counts atts agg e =
     e\<lparr>be_attempted_routes := be_attempted_routes agg + of_nat (length atts),
       be_accepted_routes := be_accepted_routes agg + of_nat (length (filter at_accepted atts)),
       be_rejected_routes := be_rejected_routes agg + of_nat (length (filter at_failed atts)),
       be_dropped_routes := be_dropped_routes agg + of_nat (length (filter at_dropped atts))\<rparr>"

lemma emit_fold_attempts:
  "fold (emit_step cfg message mode m) rs (agg, failed, s) =
     (case emit_attempts cfg message mode m rs s of (atts, s') \<Rightarrow>
        (add_counts atts agg
           (if failed then agg else case filter at_failed atts of [] \<Rightarrow> agg | att # _ \<Rightarrow> at_error att),
         failed \<or> list_ex at_failed atts, s'))"
proof (induction rs arbitrary: agg failed s)
  case Nil
  then show ?case by (simp add: add_counts_def)
next
  case (Cons r rs)
  show ?case
  proof (cases "rt_message (route cfg r) = message")
    case False
    then show ?thesis using Cons by (simp add: emit_step_def)
  next
    case True
    obtain att s1 where e: "emit_route cfg r mode m s = (att, s1)" by force
    obtain atts s2 where a: "emit_attempts cfg message mode m rs s1 = (atts, s2)" by force
    have one: "emit_step cfg message mode m r (agg, failed, s) =
        (add_counts [att] agg (if failed \<or> \<not> at_failed att then agg else at_error att), failed \<or> at_failed att, s1)"
      using True e by (simp add: emit_step_def Let_def add_counts_def)
    define agg1 where "agg1 = add_counts [att] agg (if failed \<or> \<not> at_failed att then agg else at_error att)"
    have "fold (emit_step cfg message mode m) (r # rs) (agg, failed, s) =
        (add_counts atts agg1
           (if failed \<or> at_failed att then agg1 else case filter at_failed atts of [] \<Rightarrow> agg1 | att # _ \<Rightarrow> at_error att),
         failed \<or> at_failed att \<or> list_ex at_failed atts, s2)"
      by (simp add: one [folded agg1_def] Cons a)
    also have "add_counts atts agg1 (if failed \<or> at_failed att then agg1
          else case filter at_failed atts of [] \<Rightarrow> agg1 | att # _ \<Rightarrow> at_error att) =
        add_counts (att # atts) agg (if failed then agg
          else case filter at_failed (att # atts) of [] \<Rightarrow> agg | att # _ \<Rightarrow> at_error att)"
      by (cases "at_failed att"; cases failed) (simp_all add: agg1_def add_counts_def algebra_simps split: list.split)
    finally show ?thesis using True e a by simp
  qed
qed

text \<open>C20: An emission tries every route of the message in order, whatever happens to the others, and succeeds
  exactly when none of them failed. Its error is that of the first route that failed, with the numbers
  of routes that were tried, that accepted, failed and dropped. In an interrupt, unless the emission is meant for
  one, or when the system is not running it changes nothing.\<close>

theorem emit_reports_routes:
  "emit_message cfg message mode m s =
     (if mode \<noteq> Em_Isr \<and> bx_in_isr cfg (bs_world s) then
        (Inl (make_bus_error message (emit_operation mode) St_Invalid Br_InvalidContext), s)
      else if bx_system_state cfg (bs_world s) \<noteq> Sys_Running then
        (Inl (make_bus_error message (emit_operation mode) St_NotReady Br_NotReady), s)
      else case emit_attempts cfg message mode m [0..<length (bx_routes cfg)] s of (atts, s') \<Rightarrow>
        (case filter at_failed atts of
           [] \<Rightarrow> Inr ()
         | att # _ \<Rightarrow> Inl ((at_error att)\<lparr>
             be_attempted_routes := of_nat (length atts), be_accepted_routes := of_nat (length (filter at_accepted atts)),
             be_rejected_routes := of_nat (length (filter at_failed atts)),
             be_dropped_routes := of_nat (length (filter at_dropped atts))\<rparr>), s'))"
proof -
  obtain atts s1 where a: "emit_attempts cfg message mode m [0..<length (bx_routes cfg)] s = (atts, s1)" by force
  have ex: "list_ex at_failed atts \<longleftrightarrow> filter at_failed atts \<noteq> []" by (induction atts) auto
  have fold: "fold (emit_step cfg message mode m) [0..<length (bx_routes cfg)]
      (make_bus_error message (emit_operation mode) St_Ok Br_InternalInvariant, False, s) =
    (add_counts atts (make_bus_error message (emit_operation mode) St_Ok Br_InternalInvariant)
       (case filter at_failed atts of [] \<Rightarrow> make_bus_error message (emit_operation mode) St_Ok Br_InternalInvariant
        | att # _ \<Rightarrow> at_error att), filter at_failed atts \<noteq> [], s1)"
    by (simp add: emit_fold_attempts a ex)
  show ?thesis
    unfolding emit_message_def fold a prod.case
    by (cases "filter at_failed atts") (simp_all add: add_counts_def make_bus_error_def)
qed

section \<open>Conservation and refinement\<close>


text \<open>C19: An accepting route implements the mailbox of its delivery kind. An emission that does not wait makes of the
  pending messages what \<open>box_accept\<close> says: a queue grows at the end up to its capacity and then rejects, drops
  the new or drops the oldest message; a latest route keeps the last message; a coalescing route keeps one signal. It fails
  exactly when the mailbox is full and rejects, with nothing changed, or when the executor refuses the work,
  with everything pending cancelled. Other routes are untouched, and draining hands the pending messages to
  the handler in order.\<close>

theorem route_refines_mailbox:
  assumes "bus_config_ok cfg" and "bus_reachable cfg s" and "r < length (bx_routes cfg)"
    and "ed_asynchronous (delivery_of cfg r)" and "rs_accepting (rstate s r)"
    and "\<not> (waits (ed_overflow (delivery_of cfg r)) \<and> mode = Em_Normal)" and "emit_route cfg r mode m s = (att, s')"
  shows "(let q = pending_messages cfg s r;
             out = box_outcome (delivery_of cfg r) mode q;
             refused = (ra_needs_submit out \<and> isl (fst (bx_submit cfg r (mode = Em_Isr) (bs_world s)))) in
         (at_failed att \<longleftrightarrow> ra_status out \<noteq> St_Ok \<or> refused) \<and>
         pending_messages cfg s' r =
           (if ra_status out = St_Ok \<and> refused then []
            else box_accept (delivery_of cfg r) (rt_zero (route cfg r)) m q)) \<and>
    (\<forall>p < length (bx_routes cfg). p \<noteq> r \<longrightarrow> pending_messages cfg s' p = pending_messages cfg s p) \<and>
    pending_messages cfg (bus_drain cfg r s') r = [] \<and>
    bs_world (bus_drain cfg r s') = fold (handle cfg r) (pending_messages cfg s' r) (bs_world s')"
proof -
  note ok = reachable_ok [OF assms(1,2)]
  have keep: "pending_messages cfg (upd_route r route_considered s) p = pending_messages cfg s p" if "p < length (bx_routes cfg)" for p
    by (rule pending_neutral [OF ok neutral_ops(1) that])
  obtain s1 k where s1: "bus_ok cfg s'" "pending_messages cfg s1 r = drop k (pending_messages cfg s r)"
    "\<not> (waits (ed_overflow (delivery_of cfg r)) \<and> mode = Em_Normal) \<longrightarrow> s1 = upd_route r route_considered s"
    "\<forall>q. q \<noteq> r \<longrightarrow> rstate s' q = rstate s1 q"
    "let out = box_outcome (delivery_of cfg r) mode (pending_messages cfg s1 r);
         submitted = bx_submit cfg r (mode = Em_Isr) (bs_world s1) in
     (at_failed att \<longleftrightarrow> ra_status out \<noteq> St_Ok \<or> ra_needs_submit out \<and> isl (fst submitted)) \<and>
     pending_messages cfg s' r =
       (if ra_status out = St_Ok \<and> at_failed att then []
        else box_accept (delivery_of cfg r) (rt_zero (route cfg r)) m (pending_messages cfg s1 r))"
    by (rule emit_async [OF ok assms(3-5,7)])
  have s1': "s1 = upd_route r route_considered s" using s1(3) assms(6) by blast
  have "\<forall>p < length (bx_routes cfg). p \<noteq> r \<longrightarrow> pending_messages cfg s' p = pending_messages cfg s p"
    using s1(4) keep s1' by (simp add: pending_messages_def)
  moreover have "pending_messages cfg s1 r = pending_messages cfg s r" "bs_world s1 = bs_world s"
    using keep [OF assms(3)] s1' by simp_all
  ultimately show ?thesis using s1(5) bus_drain_spec [OF s1(1) assms(3)] by (simp add: Let_def)
qed

text \<open>Stopping the bus closes every route; pending messages of routes that cancel are gone and those of the others
  are kept. It succeeds exactly when every route that drains has nothing pending (and the timeout admits one
  poll).\<close>

theorem bus_stop_closes:
  assumes "bus_config_ok cfg" and "bus_reachable cfg s" and "bus_stop cfg s = (res, s')"
  shows "(\<forall>r < length (bx_routes cfg). \<not> rs_accepting (rstate s' r) \<and>
      pending_messages cfg s' r = (if ed_stop (delivery_of cfg r) = Bk_CancelPending then [] else pending_messages cfg s r)) \<and>
    (is_ok res \<longleftrightarrow> bx_stop_polls cfg \<noteq> 0 \<and>
      (\<forall>r < length (bx_routes cfg). ed_stop (delivery_of cfg r) = Bk_CancelPending \<or> pending_messages cfg s r = []))"
  using bus_stop_spec [OF reachable_ok [OF assms(1,2)] assms(3)] by blast

section \<open>An example\<close>

text \<open>Three routes over a world that logs the handled messages: a queue of two that rejects, a latest route for the
  same message, and a queue of one that drops the oldest message.\<close>

definition bdemo_route :: "nat \<Rightarrow> nat \<Rightarrow> delivery_policy \<Rightarrow> (int, (nat \<times> int) list) bus_route" where
  "bdemo_route message subscriber policy =
     \<lparr>rt_message = message, rt_subscriber = subscriber, rt_tag = 0, rt_delivery = policy,
      rt_handler = Handler_Void (\<lambda>m w. w @ [(subscriber, m)]), rt_zero = 0\<rparr>"

definition bdemo :: "(int, (nat \<times> int) list) bus_config" where
  "bdemo =
     \<lparr>bx_messages = 2,
      bx_routes = [bdemo_route 0 0 (Del_Queued 9 (Some 2) (Some Ov_Reject) None), bdemo_route 0 1 (Del_Latest 9 (Some Bk_CancelPending)),
                   bdemo_route 1 2 (Del_Queued 9 (Some 1) (Some Ov_DropOldest) None)],
      bx_defaults = \<lparr>dd_overflow = Ov_Reject, dd_stop = Bk_Drain, dd_capacity = 1\<rparr>, bx_max_capacity = 16,
      bx_in_isr = (\<lambda>_. False), bx_system_state = (\<lambda>_. Sys_Running), bx_now = (\<lambda>_. 0),
      bx_wait = (\<lambda>_ _ w. ([], w)), bx_submit = (\<lambda>_ _ w. (Inr (), w)), bx_sleep = (\<lambda>w. w), bx_stop_polls = 10\<rparr>"

definition bdemo_ram :: "(int, (nat \<times> int) list) bus" where
  "bdemo_ram =
     \<lparr>bs_routes = map (\<lambda>n. \<lparr>rs_record = route_record0, rs_accepting = False, rs_in_flight = 0, rs_storage = replicate n 0,
        rs_slots = 0, rs_head = 0, rs_tail = 0, rs_count = 0, rs_payload = 0, rs_pending = False\<rparr>) [2, 1, 1],
      bs_world = []\<rparr>"

definition bdemo_started :: "(int, (nat \<times> int) list) bus" where
  "bdemo_started = snd (bus_start (snd (bus_init bdemo bdemo_ram)))"

definition bdemo_emitted :: "(int, (nat \<times> int) list) bus" where
  "bdemo_emitted = snd (emit_message bdemo 0 Em_Normal 6 (snd (emit_message bdemo 0 Em_Normal 5 bdemo_started)))"

lemmas bus_eval =
  bdemo_def bdemo_route_def bdemo_ram_def bdemo_started_def bdemo_emitted_def delivery_of_def
  bus_init_def bus_start_def each_route_def route_initialize_def route_reset_def queued_reset_def latest_reset_def
  emit_message_def emit_step_def emit_route_def route_accept_def queued_accept_def queued_take_def queued_push_def
  queued_store_def latest_accept_def size_inc_def size_dec_def make_bus_error_def bus_error0_def attempt_ok_def attempt_failed_def
  route_acceptance0_def route_record0_def upd_route_def record_ops Let_def upt_rec enumerate_eq_zip

lemma bdemo_ok: "bus_config_ok bdemo"
  by (simp add: bus_config_ok_def validate_route_def same_logical_route_def bdemo_def bdemo_route_def delivery_of_def upt_rec)

lemma bdemo_emitted_reachable: "bus_reachable bdemo bdemo_emitted"
proof -
  have "length (bs_routes bdemo_ram) = length (bx_routes bdemo)" by (simp add: bdemo_ram_def bdemo_def)
  moreover have "length (rs_storage (rstate bdemo_ram r)) = ed_capacity (delivery_of bdemo r)" if "r < length (bx_routes bdemo)" for r
  proof -
    have "r \<in> {0, 1, 2}" using that by (auto simp: bdemo_def)
    then show ?thesis by (auto simp: bdemo_ram_def bdemo_def bdemo_route_def delivery_of_def Let_def)
  qed
  ultimately have "bus_reachable bdemo (snd (bus_init bdemo bdemo_ram))"
    by (intro bus_reachable.init [of bdemo_ram]) (simp_all add: prod_eq_iff)
  then have "bus_reachable bdemo bdemo_started"
    unfolding bdemo_started_def by (rule bus_reachable.step) (rule bus_step.start, simp add: prod_eq_iff)
  then have "bus_reachable bdemo (snd (emit_message bdemo 0 Em_Normal 5 bdemo_started))"
    by (rule bus_reachable.step) (rule bus_step.emit, simp add: prod_eq_iff)
  then show ?thesis
    unfolding bdemo_emitted_def by (rule bus_reachable.step) (rule bus_step.emit, simp add: prod_eq_iff)
qed


theorem route_refines_mailbox_witness:
  "pending_messages bdemo (snd (emit_route bdemo 1 Em_Normal 7 bdemo_emitted)) 1 = [7]"
proof -
  have r: "(1::nat) < length (bx_routes bdemo)" by (simp add: bdemo_def bdemo_route_def delivery_of_def)
  have a: "ed_asynchronous (delivery_of bdemo 1)" by (simp add: bdemo_def bdemo_route_def delivery_of_def)
  have c: "rs_accepting (rstate bdemo_emitted 1)" by (simp add: bus_eval pending_messages_def box_content_def queue_of_def)
  have w: "\<not> (waits (ed_overflow (delivery_of bdemo 1)) \<and> Em_Normal = Em_Normal)" by (simp add: bdemo_def bdemo_route_def delivery_of_def)
  have k: "ed_kind (delivery_of bdemo 1) = Dk_Latest" by (simp add: bdemo_def bdemo_route_def delivery_of_def)
  have "emit_route bdemo 1 Em_Normal 7 bdemo_emitted =
      (fst (emit_route bdemo 1 Em_Normal 7 bdemo_emitted), snd (emit_route bdemo 1 Em_Normal 7 bdemo_emitted))" by simp
  from route_refines_mailbox [OF bdemo_ok bdemo_emitted_reachable r a c w this] k show ?thesis
    by (simp add: Let_def box_outcome_def box_accept_def bdemo_def)
qed

theorem bus_stop_closes_witness:
  "\<not> rs_accepting (rstate (snd (bus_stop bdemo bdemo_emitted)) 0) \<and> isl (fst (bus_stop bdemo bdemo_emitted))"
proof -
  have "pending_messages bdemo bdemo_emitted 0 \<noteq> []" by (simp add: bus_eval pending_messages_def box_content_def queue_of_def)
  moreover have "ed_stop (delivery_of bdemo 0) \<noteq> Bk_CancelPending" by (simp add: bdemo_def bdemo_route_def delivery_of_def)
  moreover have "(0::nat) < length (bx_routes bdemo)" by (simp add: bdemo_def bdemo_route_def delivery_of_def)
  ultimately show ?thesis
    using bus_stop_closes [OF bdemo_ok bdemo_emitted_reachable, of "fst (bus_stop bdemo bdemo_emitted)" "snd (bus_stop bdemo bdemo_emitted)"]
    by auto
qed

section \<open>A race\<close>


end
